(* ===== verification/Prelude.thy ===== *)
theory Prelude
  imports Complex_Main "HOL-Library.AList" "HOL-Library.Sublist" "HOL-Library.List_Lexorder"
    "HOL-Library.Char_ord" "HOL-Library.Multiset"
begin

text \<open>
  Prelude: the Python operations that every component uses, with the lemmas the components share.
  A Python \<open>float\<close> is an exact \<open>real\<close> (no rounding error, no NaN, no infinity), an \<open>int\<close> is an
  \<open>int\<close>, a \<open>str\<close> is a \<open>string\<close>, and a \<open>dict\<close> whose order is observable is an association list
  with distinct keys, updated by \<open>AList.update\<close> (in place or at the end, as Python does).
  Contents: \<open>round\<close>, the number formats of f-strings, \<open>str.upper\<close>, \<open>str.strip\<close>, \<open>in\<close> on strings,
  \<open>max\<close> with a key, and \<open>time.strftime\<close> of a Unix time.
\<close>

named_theorems rounding \<open>error bounds and monotonicity of Python's round\<close>
named_theorems pystr \<open>facts on upper, substring tests and number formats\<close>
named_theorems pydict \<open>facts on association lists used as dictionaries\<close>

section \<open>Rounding\<close>

text \<open>
  Python's \<open>round(x, n)\<close>: to the nearest multiple of \<open>10^-n\<close>, ties to the even one.
\<close>

definition round_half_even :: "real \<Rightarrow> int" where
  "round_half_even x =
     (let f = \<lfloor>x\<rfloor>; r = x - of_int f in
      if r < 1 / 2 then f else if 1 / 2 < r then f + 1 else if even f then f else f + 1)"

definition py_round :: "real \<Rightarrow> nat \<Rightarrow> real" where
  "py_round x n = of_int (round_half_even (x * 10 ^ n)) / 10 ^ n"

lemma round_half_even_of_int [simp]: "round_half_even (of_int k) = k"
  by (simp add: round_half_even_def)

lemma round_half_even_err: "\<bar>of_int (round_half_even x) - x\<bar> \<le> 1 / 2"
  using floor_correct [of x] by (auto simp: round_half_even_def Let_def)

lemma round_half_even_floor: "round_half_even x = \<lfloor>x\<rfloor> \<or> round_half_even x = \<lfloor>x\<rfloor> + 1"
  by (auto simp: round_half_even_def Let_def)

lemma round_half_even_mono:
  assumes "x \<le> y" shows "round_half_even x \<le> round_half_even y"
proof (cases "\<lfloor>x\<rfloor> = \<lfloor>y\<rfloor>")
  case True
  with assms show ?thesis by (auto simp: round_half_even_def Let_def)
next
  case False
  with assms have "\<lfloor>x\<rfloor> + 1 \<le> \<lfloor>y\<rfloor>" using floor_mono [OF assms] by linarith
  with round_half_even_floor [of x] round_half_even_floor [of y] show ?thesis by linarith
qed

lemma py_round_err [rounding]: "\<bar>py_round x n - x\<bar> \<le> 1 / (2 * 10 ^ n)"
proof -
  have "\<bar>of_int (round_half_even (x * 10 ^ n)) - x * 10 ^ n\<bar> \<le> 1 / 2"
    by (rule round_half_even_err)
  then have "\<bar>of_int (round_half_even (x * 10 ^ n)) - x * 10 ^ n\<bar> / 10 ^ n \<le> 1 / 2 / 10 ^ n"
    by (intro divide_right_mono) simp_all
  moreover have "py_round x n - x = (of_int (round_half_even (x * 10 ^ n)) - x * 10 ^ n) / 10 ^ n"
    by (simp add: py_round_def diff_divide_distrib)
  then have "\<bar>py_round x n - x\<bar> = \<bar>of_int (round_half_even (x * 10 ^ n)) - x * 10 ^ n\<bar> / 10 ^ n"
    by (simp add: abs_divide)
  ultimately show ?thesis by (simp add: mult.commute)
qed

lemma py_round_mono [rounding]: "x \<le> y \<Longrightarrow> py_round x n \<le> py_round y n"
  unfolding py_round_def
  by (intro divide_right_mono of_int_le_iff [THEN iffD2] round_half_even_mono mult_right_mono) simp_all

lemma py_round_0 [simp]: "py_round 0 n = 0"
  using round_half_even_of_int [of 0] by (simp add: py_round_def)

lemma py_round_nonneg [rounding]: "0 \<le> x \<Longrightarrow> 0 \<le> py_round x n"
  using py_round_mono [of 0 x n] by simp

lemma py_round_idem [simp]: "py_round (py_round x n) n = py_round x n"
  by (simp add: py_round_def)

lemma py_round2_upper: "py_round x 2 \<le> x + 1 / 200"
  using py_round_err [of x 2] unfolding abs_le_iff by simp

lemma py_round2_small: "\<bar>x\<bar> < 1 / 200 \<Longrightarrow> py_round x 2 = 0"
proof -
  assume "\<bar>x\<bar> < 1 / 200"
  then have b: "- 1 / 2 < x * 100" "x * 100 < 1 / 2" by (simp_all add: abs_less_iff)
  have "round_half_even (x * 100) = 0"
  proof (cases "0 \<le> x * 100")
    case True
    with b have "\<lfloor>x * 100\<rfloor> = 0" by linarith
    with b show ?thesis by (simp add: round_half_even_def)
  next
    case False
    with b have "\<lfloor>x * 100\<rfloor> = - 1" by linarith
    with b show ?thesis by (simp add: round_half_even_def Let_def)
  qed
  then show ?thesis by (simp add: py_round_def)
qed

lemma py_round2_lower: "x - 1 / 200 \<le> py_round x 2"
  using py_round_err [of x 2] unfolding abs_le_iff by simp


section \<open>Strings\<close>

text \<open>
  Text is a list of 8-bit characters. \<open>str.upper\<close> and \<open>str.lower\<close> change the ASCII letters only.
\<close>

definition upper_char :: "char \<Rightarrow> char" where
  "upper_char c =
     (let n = (of_char c :: nat) in if 97 \<le> n \<and> n \<le> 122 then char_of (n - 32) else c)"

definition upper :: "string \<Rightarrow> string" where
  "upper s = map upper_char s"

definition lower_char :: "char \<Rightarrow> char" where
  "lower_char c =
     (let n = (of_char c :: nat) in if 65 \<le> n \<and> n \<le> 90 then char_of (n + 32) else c)"

definition lower :: "string \<Rightarrow> string" where
  "lower s = map lower_char s"

lemma upper_char_idem [simp]: "upper_char (upper_char c) = upper_char c"
proof -
  have "(of_char c :: nat) - 32 < 256" if "(of_char c :: nat) \<le> 122" using that by simp
  then show ?thesis by (auto simp: upper_char_def Let_def)
qed

lemma upper_idem [simp]: "upper (upper s) = upper s"
  by (simp add: upper_def)

lemma length_upper [simp]: "length (upper s) = length s"
  by (simp add: upper_def)

lemma upper_Nil_iff [simp]: "upper s = [] \<longleftrightarrow> s = []"
  by (simp add: upper_def)

text \<open>The test \<open>p in s\<close> on strings is \<open>sublist p s\<close>.\<close>

lemma sublist_set: "sublist p s \<Longrightarrow> set p \<subseteq> set s"
  by (auto simp: sublist_def)

lemma sublist_append_iff_sep [pystr]:
  assumes "c \<notin> set p" and "p \<noteq> []"
  shows "sublist p (a @ c # b) \<longleftrightarrow> sublist p a \<or> sublist p b"
proof
  assume "sublist p (a @ c # b)"
  then obtain xs ys where eq: "a @ c # b = xs @ p @ ys" by (auto simp: sublist_def)
  then consider us where "xs = a @ c # us" "b = us @ p @ ys"
    | us where "a = xs @ us" "us @ c # b = p @ ys"
    by (force simp: append_eq_append_conv2 Cons_eq_append_conv)
  then show "sublist p a \<or> sublist p b"
  proof cases
    case 1
    then show ?thesis by (auto simp: sublist_def)
  next
    case 2
    from 2(2) assms(1) obtain vs where "us = p @ vs"
      by (auto simp: append_eq_append_conv2 Cons_eq_append_conv)
    with 2(1) show ?thesis by (auto simp: sublist_def)
  qed
next
  assume "sublist p a \<or> sublist p b"
  then consider xs ys where "a = xs @ p @ ys" | xs ys where "b = xs @ p @ ys"
    by (auto simp: sublist_def)
  then show "sublist p (a @ c # b)"
  proof cases
    case 1
    then have "a @ c # b = xs @ p @ (ys @ c # b)" by simp
    then show ?thesis unfolding sublist_def by blast
  next
    case 2
    then have "a @ c # b = (a @ c # xs) @ p @ ys" by simp
    then show ?thesis unfolding sublist_def by blast
  qed
qed

text \<open>\<open>s.split(":", 1)[-1]\<close>: what follows the first colon, or all of \<open>s\<close> when there is none.\<close>

definition after_colon :: "string \<Rightarrow> string" where
  "after_colon s = (case dropWhile (\<lambda>c. c \<noteq> CHR '':'') s of [] \<Rightarrow> s | _ # t \<Rightarrow> t)"

text \<open>\<open>str.strip()\<close>.\<close>

definition is_space :: "char \<Rightarrow> bool" where
  "is_space c = (let n = (of_char c :: nat) in 9 \<le> n \<and> n \<le> 13 \<or> 28 \<le> n \<and> n \<le> 32 \<or> n = 133 \<or> n = 160)"

definition py_strip :: "string \<Rightarrow> string" where
  "py_strip s = rev (dropWhile is_space (rev (dropWhile is_space s)))"

section \<open>Number formats\<close>

text \<open>Decimal digits: \<open>str(n)\<close> of an int.\<close>

definition digit_char :: "nat \<Rightarrow> char" where
  "digit_char d = char_of (48 + d)"

fun show_nat :: "nat \<Rightarrow> string" where
  "show_nat n = (if n < 10 then [digit_char n] else show_nat (n div 10) @ [digit_char (n mod 10)])"

declare show_nat.simps [simp del]

definition show_int :: "int \<Rightarrow> string" where
  "show_int i = (if i < 0 then CHR ''-'' # show_nat (nat (- i)) else show_nat (nat i))"

definition pad_zero :: "nat \<Rightarrow> string \<Rightarrow> string" where
  "pad_zero w s = replicate (w - length s) CHR ''0'' @ s"

text \<open>Digits are read back by \<open>digits_value\<close>, so decimal texts are injective.\<close>

definition digits_value :: "string \<Rightarrow> nat" where
  "digits_value s = foldl (\<lambda>a c. 10 * a + (of_char c - 48)) 0 s"

lemma of_char_digit [simp]: "d < 10 \<Longrightarrow> (of_char (digit_char d) :: nat) = 48 + d"
  by (simp add: digit_char_def)

lemma digits_value_show_nat [simp]: "digits_value (show_nat n) = n"
proof (induction n rule: show_nat.induct)
  case (1 n)
  show ?case
  proof (cases "n < 10")
    case True
    then show ?thesis by (simp add: show_nat.simps [of n] digits_value_def)
  next
    case False
    then have "digits_value (show_nat n) = 10 * digits_value (show_nat (n div 10)) + n mod 10"
      by (simp add: show_nat.simps [of n] digits_value_def)
    with "1.IH" False show ?thesis by simp
  qed
qed

lemma digits_value_pad [simp]: "digits_value (pad_zero w s) = digits_value s"
proof -
  have "foldl (\<lambda>a c. 10 * a + (of_char c - 48)) 0 (replicate k CHR ''0'' @ s) = digits_value s" for k
    by (induction k) (simp_all add: digits_value_def)
  then show ?thesis by (simp add: pad_zero_def digits_value_def)
qed

lemma show_nat_inj [simp]: "show_nat a = show_nat b \<longleftrightarrow> a = b"
  by (metis digits_value_show_nat)

definition is_digit :: "char \<Rightarrow> bool" where
  "is_digit c = (48 \<le> (of_char c :: nat) \<and> (of_char c :: nat) \<le> 57)"

lemma is_digit_digit_char [simp]: "d < 10 \<Longrightarrow> is_digit (digit_char d)"
  by (simp add: is_digit_def)

lemma show_nat_digits: "c \<in> set (show_nat n) \<Longrightarrow> is_digit c"
proof (induction n rule: show_nat.induct)
  case (1 n)
  then show ?case by (cases "n < 10") (auto simp: show_nat.simps [of n])
qed

lemma show_nat_nonempty [simp]: "show_nat n \<noteq> []"
  by (subst show_nat.simps) simp

lemma length_show_nat: "n < 10 ^ w \<Longrightarrow> 0 < w \<Longrightarrow> length (show_nat n) \<le> w"
proof (induction n arbitrary: w rule: show_nat.induct)
  case (1 n)
  show ?case
  proof (cases "n < 10")
    case True
    with "1.prems" show ?thesis by (simp add: show_nat.simps [of n])
  next
    case False
    from "1.prems" obtain v where w: "w = Suc v" by (cases w) auto
    with False "1.prems" have "0 < v" by (cases v) auto
    from w "1.prems" have "n div 10 < 10 ^ v" by auto
    with False \<open>0 < v\<close> w "1.IH" show ?thesis by (simp add: show_nat.simps [of n])
  qed
qed

lemma length_pad_zero: "length s \<le> w \<Longrightarrow> length (pad_zero w s) = w"
  by (simp add: pad_zero_def)

lemma pad_zero_digits: "(\<And>c. c \<in> set s \<Longrightarrow> is_digit c) \<Longrightarrow> c \<in> set (pad_zero w s) \<Longrightarrow> is_digit c"
  by (auto simp: pad_zero_def is_digit_def)

lemma is_digit_neq [simp]:
  "\<not> is_digit CHR ''-''" "\<not> is_digit CHR ''.''" "\<not> is_digit CHR ''+''" "\<not> is_digit CHR ''n''"
  "\<not> is_digit CHR ''t''" "\<not> is_digit CHR ''f''" "\<not> is_digit CHR ''[''" "\<not> is_digit CHR ''{''"
  "\<not> is_digit CHR 0x22" "\<not> is_digit CHR '',''" "\<not> is_digit CHR '']''" "\<not> is_digit CHR ''}''"
  by (simp_all add: is_digit_def)

lemma show_nat_no_minus [simp]: "show_nat n \<noteq> CHR ''-'' # s" "CHR ''-'' # s \<noteq> show_nat n"
  using show_nat_digits [of "CHR ''-''" n] by (metis is_digit_neq(1) list.set_intros(1))+

lemma show_int_inj [simp]: "show_int a = show_int b \<longleftrightarrow> a = b"
  by (auto simp: show_int_def nat_eq_iff)

text \<open>\<open>f"{x:.nf}"\<close> and \<open>f"{x:+.nf}"\<close>.\<close>

definition fmt_abs :: "nat \<Rightarrow> real \<Rightarrow> string" where
  "fmt_abs n x =
     (let k = nat (round_half_even (\<bar>x\<bar> * 10 ^ n)) in
      show_nat (k div 10 ^ n) @
      (if n = 0 then [] else CHR ''.'' # pad_zero n (show_nat (k mod 10 ^ n))))"

definition fmt_f :: "nat \<Rightarrow> real \<Rightarrow> string" where
  "fmt_f n x = (if x < 0 then CHR ''-'' # fmt_abs n x else fmt_abs n x)"

definition fmt_plus :: "nat \<Rightarrow> real \<Rightarrow> string" where
  "fmt_plus n x = (if x < 0 then CHR ''-'' # fmt_abs n x else CHR ''+'' # fmt_abs n x)"


lemma append_sep_inj:
  assumes "a @ c # x = b @ c # y" and "c \<notin> set a" and "c \<notin> set b"
  shows "a = b \<and> x = y"
  using assms by (induction a arbitrary: b) (auto simp: Cons_eq_append_conv append_eq_Cons_conv)

lemma py_round_exact:
  assumes "py_round x n = x"
  shows "\<bar>x\<bar> = real (nat (round_half_even (\<bar>x\<bar> * 10 ^ n))) / 10 ^ n"
proof -
  obtain i where x: "x = of_int i / 10 ^ n" using assms by (metis py_round_def)
  then have "\<bar>x\<bar> * 10 ^ n = of_int \<bar>i\<bar>" by simp
  then have "round_half_even (\<bar>x\<bar> * 10 ^ n) = \<bar>i\<bar>" by (metis round_half_even_of_int)
  with x show ?thesis by simp
qed

lemma fmt_abs_inj:
  assumes eq: "fmt_abs n x = fmt_abs m y" and pos: "0 < n" "0 < m"
    and exact: "py_round x n = x" "py_round y m = y"
  shows "\<bar>x\<bar> = \<bar>y\<bar>"
proof -
  define k where "k = nat (round_half_even (\<bar>x\<bar> * 10 ^ n))"
  define l where "l = nat (round_half_even (\<bar>y\<bar> * 10 ^ m))"
  let ?fx = "pad_zero n (show_nat (k mod 10 ^ n))"
  let ?fy = "pad_zero m (show_nat (l mod 10 ^ m))"
  have "show_nat (k div 10 ^ n) @ CHR ''.'' # ?fx = show_nat (l div 10 ^ m) @ CHR ''.'' # ?fy"
    using eq pos by (simp add: fmt_abs_def Let_def k_def l_def)
  moreover have "CHR ''.'' \<notin> set (show_nat q)" for q
    using show_nat_digits is_digit_neq(2) by blast
  ultimately have parts: "show_nat (k div 10 ^ n) = show_nat (l div 10 ^ m)" "?fx = ?fy"
    by (blast dest: append_sep_inj)+
  have "length ?fx = n" "length ?fy = m"
    using pos by (simp_all add: length_pad_zero length_show_nat)
  with parts(2) have "n = m" by simp
  with parts have "k div 10 ^ n = l div 10 ^ n" "k mod 10 ^ n = l mod 10 ^ n"
    by (simp, metis digits_value_pad digits_value_show_nat)
  then have "k = l" by (metis div_mult_mod_eq)
  with \<open>n = m\<close> py_round_exact [OF exact(1)] py_round_exact [OF exact(2)] show ?thesis
    by (simp add: k_def l_def)
qed

lemma fmt_f_inj:
  assumes eq: "fmt_f n x = fmt_f m y" and "0 < n" "0 < m" "py_round x n = x" "py_round y m = y"
  shows "x = y"
proof -
  have no_minus: "fmt_abs q z \<noteq> CHR ''-'' # s" for q z s
    by (cases "show_nat (nat (round_half_even (\<bar>z\<bar> * 10 ^ q)) div 10 ^ q)")
      (auto simp: fmt_abs_def Let_def)
  have sign: "x < 0 \<longleftrightarrow> y < 0"
    using eq no_minus no_minus [symmetric] by (auto simp: fmt_f_def split: if_splits)
  with eq have "fmt_abs n x = fmt_abs m y" by (auto simp: fmt_f_def split: if_splits)
  then have "\<bar>x\<bar> = \<bar>y\<bar>" using assms by (intro fmt_abs_inj)
  with sign show ?thesis by (auto simp: abs_if split: if_splits)
qed

text \<open>
  \<open>repr\<close> of a float, which \<open>str\<close>, \<open>json.dumps\<close> and a bare \<open>{x}\<close> in an f-string print: the shortest
  fixed-point text that denotes it, with at least one digit after the point. Exact for values with
  at most 17 decimals and a magnitude Python prints without an exponent.
\<close>

definition repr_places :: "nat list" where
  "repr_places = [1..<18]"

definition repr_f :: "real \<Rightarrow> string" where
  "repr_f x =
     (case find (\<lambda>n. py_round x n = x) repr_places of Some n \<Rightarrow> fmt_f n x | None \<Rightarrow> fmt_f 17 x)"

text \<open>The floats that \<open>repr_f\<close> prints exactly, and its injectivity on them.\<close>

definition repr_exact :: "real \<Rightarrow> bool" where
  "repr_exact x = list_ex (\<lambda>n. py_round x n = x) repr_places"

lemma repr_f_exact:
  assumes "repr_exact x"
  shows "\<exists>n>0. py_round x n = x \<and> repr_f x = fmt_f n x"
proof -
  have "find (\<lambda>n. py_round x n = x) repr_places \<noteq> None"
    using assms unfolding repr_exact_def list_ex_iff find_None_iff by blast
  then obtain n where n: "find (\<lambda>n. py_round x n = x) repr_places = Some n" by blast
  then obtain i where "i < length repr_places" "py_round x n = x" "n = repr_places ! i"
    unfolding find_Some_iff by blast
  then have "n \<in> set repr_places" by simp
  then have "0 < n" by (simp add: repr_places_def)
  moreover have "repr_f x = fmt_f n x" unfolding repr_f_def n by simp
  ultimately show ?thesis using \<open>py_round x n = x\<close> by blast
qed

lemma repr_f_inj:
  assumes "repr_exact x" "repr_exact y" "repr_f x = repr_f y"
  shows "x = y"
proof -
  obtain n where n: "0 < n" "py_round x n = x" "repr_f x = fmt_f n x"
    using repr_f_exact [OF assms(1)] by blast
  obtain m where m: "0 < m" "py_round y m = y" "repr_f y = fmt_f m y"
    using repr_f_exact [OF assms(2)] by blast
  have "fmt_f n x = fmt_f m y" using assms(3) n(3) m(3) by simp
  then show ?thesis by (rule fmt_f_inj) (use n m in blast)+
qed

text \<open>
  \<open>f"{x:g}"\<close> prints six significant digits. \<open>g_value x\<close> is the number that the printed text denotes;
  \<open>dec_exp x\<close> is the exponent of the leading digit of a positive number.
\<close>

definition dec_exp :: "real \<Rightarrow> int" where
  "dec_exp x =
     (if 1 \<le> x then int (length (show_nat (nat \<lfloor>x\<rfloor>))) - 1
      else - int (length (show_nat (nat (\<lceil>1 / x\<rceil> - 1)))))"

definition pow10 :: "int \<Rightarrow> real" where
  "pow10 e = (if 0 \<le> e then 10 ^ nat e else 1 / 10 ^ nat (- e))"

definition g_value :: "real \<Rightarrow> real" where
  "g_value x =
     (if x = 0 then 0
      else let s = pow10 (dec_exp \<bar>x\<bar> - 5) in sgn x * of_int (round_half_even (\<bar>x\<bar> / s)) * s)"

text \<open>The digits of \<open>int(s, base)\<close>, most significant first.\<close>

definition hex_digit :: "char \<Rightarrow> nat option" where
  "hex_digit c =
     (let n = (of_char c :: nat) in
      if 48 \<le> n \<and> n \<le> 57 then Some (n - 48)
      else if 97 \<le> n \<and> n \<le> 102 then Some (n - 87)
      else if 65 \<le> n \<and> n \<le> 70 then Some (n - 55) else None)"

fun parse_base :: "nat \<Rightarrow> nat \<Rightarrow> string \<Rightarrow> nat option" where
  "parse_base b acc [] = Some acc"
| "parse_base b acc (c # cs) =
     (case hex_digit c of Some d \<Rightarrow> if d < b then parse_base b (b * acc + d) cs else None | None \<Rightarrow> None)"

definition newline :: string where
  "newline = [CHR 0x0A]"

section \<open>Lists and dictionaries\<close>

text \<open>
  \<open>max(xs, key=f)\<close>: the first element with the greatest key. \<open>None\<close> for the empty list, where Python
  raises.
\<close>

fun max_by :: "('a \<Rightarrow> real) \<Rightarrow> 'a list \<Rightarrow> 'a option" where
  "max_by f [] = None"
| "max_by f (x # xs) = Some (foldl (\<lambda>b y. if f b < f y then y else b) x xs)"

lemma foldl_max_in: "foldl (\<lambda>b y. if f b < f y then y else b) x xs \<in> insert x (set xs)"
  by (induction xs arbitrary: x) (auto split: if_splits)

lemma foldl_max_ge:
  fixes f :: "'a \<Rightarrow> real"
  shows "f x \<le> f (foldl (\<lambda>b y. if f b < f y then y else b) x xs) \<and>
    (\<forall>y \<in> set xs. f y \<le> f (foldl (\<lambda>b y. if f b < f y then y else b) x xs))"
proof (induction xs arbitrary: x)
  case Nil
  then show ?case by simp
next
  case (Cons y ys)
  have "max (f x) (f y) = f (if f x < f y then y else x)" by simp
  with Cons.IH [of "if f x < f y then y else x"] show ?case by (auto split: if_splits)
qed

lemma max_by_in:
  assumes "max_by f xs = Some m" shows "m \<in> set xs"
proof (cases xs)
  case (Cons x ys)
  with assms foldl_max_in [of f x ys] show ?thesis by auto
qed (use assms in simp)

lemma max_by_ge:
  assumes "max_by f xs = Some m" and "y \<in> set xs" shows "f y \<le> f m"
proof (cases xs)
  case (Cons x ys)
  with assms foldl_max_ge [of f x ys] show ?thesis by auto
qed (use assms in simp)

lemma max_by_None [simp]: "max_by f xs = None \<longleftrightarrow> xs = []"
  by (cases xs) auto

text \<open>Dictionary operations are \<open>map_of\<close>, \<open>AList.update\<close> and \<open>AList.delete\<close>.\<close>

lemma map_of_update [pydict]: "map_of (AList.update k v d) = (map_of d)(k \<mapsto> v)"
  by (rule AList.update_conv')

lemma map_of_delete [pydict]: "map_of (AList.delete k d) = (map_of d)(k := None)"
  by (rule AList.delete_conv')

lemma distinct_keys_update [pydict]:
  "distinct (map fst d) \<Longrightarrow> distinct (map fst (AList.update k v d))"
  by (rule AList.distinct_update)

lemma distinct_keys_delete [pydict]:
  "distinct (map fst d) \<Longrightarrow> distinct (map fst (AList.delete k d))"
  by (rule AList.distinct_delete)

text \<open>
  The sum of a function over a dictionary's entries, and how an update or a deletion changes it.
\<close>

definition dict_sum :: "('k \<Rightarrow> 'v \<Rightarrow> real) \<Rightarrow> ('k \<times> 'v) list \<Rightarrow> real" where
  "dict_sum f d = sum_list (map (\<lambda>(k, v). f k v) d)"

lemma dict_sum_Nil [simp]: "dict_sum f [] = 0"
  by (simp add: dict_sum_def)

lemma dict_sum_Cons [simp]: "dict_sum f ((k, v) # d) = f k v + dict_sum f d"
  by (simp add: dict_sum_def)

lemma dict_sum_append [simp]: "dict_sum f (d @ e) = dict_sum f d + dict_sum f e"
  by (simp add: dict_sum_def)

lemma dict_sum_update_new:
  "map_of d k = None \<Longrightarrow> dict_sum f (AList.update k v d) = dict_sum f d + f k v"
  by (induction d) (auto split: if_splits)

lemma dict_sum_update_old:
  "map_of d k = Some w \<Longrightarrow> dict_sum f (AList.update k v d) = dict_sum f d - f k w + f k v"
  by (induction d) (auto split: if_splits)

lemma dict_sum_delete:
  "distinct (map fst d) \<Longrightarrow> map_of d k = Some w \<Longrightarrow>
    dict_sum f (AList.delete k d) = dict_sum f d - f k w"
proof (induction d)
  case Nil
  then show ?case by simp
next
  case (Cons p d)
  obtain a b where p: "p = (a, b)" by fastforce
  show ?case
  proof (cases "a = k")
    case True
    with Cons.prems p have "k \<notin> fst ` set d" by auto
    then have "AList.delete k d = d" by simp
    with True Cons.prems p show ?thesis by simp
  next
    case False
    with Cons p show ?thesis by simp
  qed
qed

lemma dict_sum_nonneg: "(\<And>k v. (k, v) \<in> set d \<Longrightarrow> 0 \<le> f k v) \<Longrightarrow> 0 \<le> dict_sum f d"
  by (induction d) (auto simp: add_nonneg_nonneg)

lemma dict_sum_cong: "(\<And>k v. (k, v) \<in> set d \<Longrightarrow> f k v = g k v) \<Longrightarrow> dict_sum f d = dict_sum g d"
  by (induction d) auto

section \<open>Time\<close>

text \<open>
  \<open>time.strftime("%Y-%m-%dT%H:%M:%SZ", time.gmtime(ts))\<close>: the proleptic Gregorian date of the whole
  seconds below \<open>ts\<close>.
\<close>

definition civil_of_days :: "int \<Rightarrow> int \<times> int \<times> int" where
  "civil_of_days z0 =
     (let z = z0 + 719468; era = z div 146097; doe = z mod 146097;
          yoe = (doe - doe div 1460 + doe div 36524 - doe div 146096) div 365;
          doy = doe - (365 * yoe + yoe div 4 - yoe div 100);
          mp = (5 * doy + 2) div 153;
          d = doy - (153 * mp + 2) div 5 + 1;
          m = (if mp < 10 then mp + 3 else mp - 9);
          y = yoe + era * 400 + (if m \<le> 2 then 1 else 0)
      in (y, m, d))"

definition two :: "int \<Rightarrow> string" where
  "two n = pad_zero 2 (show_int n)"

definition iso_utc :: "real \<Rightarrow> string" where
  "iso_utc ts =
     (let s = \<lfloor>ts\<rfloor>; (y, m, d) = civil_of_days (s div 86400); r = s mod 86400 in
      show_int y @ ''-'' @ two m @ ''-'' @ two d @ ''T'' @
      two (r div 3600) @ '':'' @ two (r div 60 mod 60) @ '':'' @ two (r mod 60) @ ''Z'')"

end
