(* ===== verification/Reconcile.thy ===== *)
theory Reconcile
  imports Prelude
begin

text \<open>\<open>agent/ops/reconcile.py\<close>: comparison of internal and on-chain balances.\<close>

record divergence =
  dv_token :: string
  dv_internal :: real
  dv_onchain :: real
  dv_pct :: real

record reconcile_result =
  rr_ok :: bool
  rr_divergences :: "divergence list"
  rr_worst_pct :: real

definition balance_of :: "(string \<times> real) list \<Rightarrow> string \<Rightarrow> real" where
  "balance_of d token = (case map_of d token of Some x \<Rightarrow> x | None \<Rightarrow> 0)"

definition divergence_pct :: "real \<Rightarrow> real \<Rightarrow> real" where
  "divergence_pct expected actual =
     \<bar>actual - expected\<bar> / max (max \<bar>expected\<bar> \<bar>actual\<bar>) (1 / 10 ^ 12) * 100"

definition reconcile_step :: "(string \<times> real) list \<Rightarrow> (string \<times> real) list \<Rightarrow> real \<Rightarrow> string \<Rightarrow>
    divergence list \<times> real \<Rightarrow> divergence list \<times> real" where
  "reconcile_step internal onchain tol_pct token acc =
     (let (divergences, worst) = acc; expected = balance_of internal token; actual = balance_of onchain token;
          pct = divergence_pct expected actual in
      (if tol_pct < pct
       then divergences @ [\<lparr>dv_token = token, dv_internal = expected, dv_onchain = actual, dv_pct = pct\<rparr>]
       else divergences, max worst pct))"

definition reconcile_tokens :: "(string \<times> real) list \<Rightarrow> (string \<times> real) list \<Rightarrow> string list" where
  "reconcile_tokens internal onchain = sort (remdups (map fst internal @ map fst onchain))"

definition reconcile :: "(string \<times> real) list \<Rightarrow> (string \<times> real) list \<Rightarrow> real \<Rightarrow> reconcile_result" where
  "reconcile internal onchain tol_pct =
     (let (divergences, worst) =
        fold (reconcile_step internal onchain tol_pct) (reconcile_tokens internal onchain) ([], 0)
      in \<lparr>rr_ok = (divergences = []), rr_divergences = divergences, rr_worst_pct = worst\<rparr>)"

lemma divergence_pct_bounds: "0 \<le> divergence_pct a b \<and> divergence_pct a b \<le> 200"
proof -
  define base where "base = max (max \<bar>a\<bar> \<bar>b\<bar>) (1 / 10 ^ 12)"
  define q where "q = \<bar>b - a\<bar> / base"
  have base: "0 < base" by (simp add: base_def max_def)
  have "\<bar>b - a\<bar> \<le> 2 * base" unfolding base_def by linarith
  then have "q \<le> 2" using base unfolding q_def by (simp add: pos_divide_le_eq)
  moreover have "0 \<le> q" using base unfolding q_def by (intro divide_nonneg_pos) simp_all
  moreover have "divergence_pct a b = q * 100" unfolding divergence_pct_def base_def q_def ..
  ultimately show ?thesis by simp
qed

lemma divergence_pct_0 [simp]: "divergence_pct a a = 0"
  by (simp add: divergence_pct_def)

lemma fold_reconcile:
  "fold (reconcile_step internal onchain tol) ts (ds, w) =
     (ds @ map (\<lambda>t. \<lparr>dv_token = t, dv_internal = balance_of internal t, dv_onchain = balance_of onchain t,
          dv_pct = divergence_pct (balance_of internal t) (balance_of onchain t)\<rparr>)
        (filter (\<lambda>t. tol < divergence_pct (balance_of internal t) (balance_of onchain t)) ts),
      fold (\<lambda>t m. max m (divergence_pct (balance_of internal t) (balance_of onchain t))) ts w)"
  by (induction ts arbitrary: ds w) (simp_all add: reconcile_step_def Let_def)

lemma fold_max_ge:
  "w \<le> fold (\<lambda>t m. max m (f t :: real)) ts w \<and> (\<forall>t \<in> set ts. f t \<le> fold (\<lambda>t m. max m (f t)) ts w) \<and>
    (fold (\<lambda>t m. max m (f t)) ts w = w \<or> (\<exists>t \<in> set ts. fold (\<lambda>t m. max m (f t)) ts w = f t))"
proof (induction ts arbitrary: w)
  case (Cons t ts)
  from Cons.IH [of "max w (f t)"] show ?case by (auto simp: max_def split: if_splits)
qed simp

text \<open>
  Reconciliation is exact: it reports ok exactly when no token of either side diverges by more than the
  tolerance (a missing token counting as zero), it lists every diverging token once in order, and the worst
  divergence bounds all of them and lies between 0 and 200 percent.
\<close>

theorem reconcile_exact:
  "(rr_ok (reconcile internal onchain tol) \<longleftrightarrow>
     (\<forall>t \<in> fst ` set internal \<union> fst ` set onchain.
        divergence_pct (balance_of internal t) (balance_of onchain t) \<le> tol)) \<and>
   map dv_token (rr_divergences (reconcile internal onchain tol)) =
     filter (\<lambda>t. tol < divergence_pct (balance_of internal t) (balance_of onchain t))
       (reconcile_tokens internal onchain) \<and>
   (\<forall>d \<in> set (rr_divergences (reconcile internal onchain tol)). dv_pct d \<le> rr_worst_pct (reconcile internal onchain tol)) \<and>
   0 \<le> rr_worst_pct (reconcile internal onchain tol) \<and> rr_worst_pct (reconcile internal onchain tol) \<le> 200"
proof -
  let ?f = "\<lambda>t. divergence_pct (balance_of internal t) (balance_of onchain t)"
  have "set (reconcile_tokens internal onchain) = fst ` set internal \<union> fst ` set onchain"
    by (simp add: reconcile_tokens_def)
  moreover note fold_max_ge [of 0 ?f "reconcile_tokens internal onchain"]
  ultimately show ?thesis
    using divergence_pct_bounds
    by (auto simp: reconcile_def fold_reconcile filter_empty_conv not_less comp_def)
qed

theorem reconcile_exact_witness:
  "\<not> rr_ok (reconcile [(''ETH'', 1)] [(''ETH'', 2), (''BTCB'', 1)] 1) \<and>
   map dv_token (rr_divergences (reconcile [(''ETH'', 1)] [(''ETH'', 2), (''BTCB'', 1)] 1)) = [''BTCB'', ''ETH'']"
proof -
  have "filter (\<lambda>t. 1 < divergence_pct (balance_of [(''ETH'', 1)] t) (balance_of [(''ETH'', 2), (''BTCB'', 1)] t))
       (reconcile_tokens [(''ETH'', 1 :: real)] [(''ETH'', 2), (''BTCB'', 1 :: real)]) = [''BTCB'', ''ETH'']"
    by code_simp
  moreover have "\<not> divergence_pct (balance_of [(''ETH'', 1)] ''ETH'') (balance_of [(''ETH'', 2), (''BTCB'', 1)] ''ETH'') \<le> 1"
    by code_simp
  ultimately show ?thesis
    using reconcile_exact [of "[(''ETH'', 1)]" "[(''ETH'', 2), (''BTCB'', 1)]" 1] by auto
qed

end
