(* ===== verification/Canonical.thy ===== *)
theory Canonical
  imports Prelude
begin

text \<open>
  \<open>agent/policy/canonical.py\<close>: JSON values, the canonical byte serialisation
  (annotations stripped, keys sorted, compact separators, ASCII only) and the policy hash. The digest
  \<open>hashlib.sha256(...).hexdigest()\<close> is the argument \<open>H\<close>, an arbitrary function on texts, so
  every theorem holds for SHA-256 in particular; instead of assuming that \<open>H\<close> has no collisions
  (no hash function satisfies that) the theorems exhibit the collision.
\<close>

section \<open>JSON values\<close>

datatype json = JNull | JBool bool | JInt int | JFloat real | JStr string
  | JList "json list" | JObj "(string \<times> json) list"

definition opt_float :: "real option \<Rightarrow> json" where
  "opt_float x = (case x of None \<Rightarrow> JNull | Some r \<Rightarrow> JFloat r)"

type_synonym digest_fun = "string \<Rightarrow> string"

definition annotation_key :: "string \<Rightarrow> bool" where
  "annotation_key k = (case k of [] \<Rightarrow> False | c # _ \<Rightarrow> c = CHR ''_'')"

fun strip_comments :: "json \<Rightarrow> json" where
  "strip_comments (JObj kvs) =
     JObj (map (\<lambda>(k, v). (k, strip_comments v)) (filter (\<lambda>(k, v). \<not> annotation_key k) kvs))"
| "strip_comments (JList xs) = JList (map strip_comments xs)"
| "strip_comments j = j"

text \<open>\<open>sort_keys=True\<close>: every object is written in the order of its keys.\<close>

fun sort_keys :: "json \<Rightarrow> json" where
  "sort_keys (JObj kvs) = JObj (map (\<lambda>(k, v). (k, sort_keys v)) (sort_key fst kvs))"
| "sort_keys (JList xs) = JList (map sort_keys xs)"
| "sort_keys j = j"

lemma insort_key_map: "insort_key fst (k, f v) (map (\<lambda>(k, v). (k, f v)) xs) = map (\<lambda>(k, v). (k, f v)) (insort_key fst (k, v) xs)"
  by (induction xs) auto

lemma sort_key_map: "sort_key fst (map (\<lambda>(k, v). (k, f v)) xs) = map (\<lambda>(k, v). (k, f v)) (sort_key fst xs)"
  by (induction xs) (auto simp: insort_key_map)

text \<open>Sorting the keys of a dictionary changes no value.\<close>

lemma map_of_insort [pydict]: "map_of (insort_key fst (k, v) xs) = (map_of xs)(k \<mapsto> v)"
  by (induction xs) (auto simp: fun_eq_iff)

lemma map_of_sort_key [pydict]: "map_of (sort_key fst xs) = map_of xs"
  by (induction xs) (auto simp: map_of_insort)

lemma map_of_sorted_fields [pydict]:
  "map_of (map (\<lambda>(k, v). (k, sort_keys v)) (sort_key fst kvs)) k = map_option sort_keys (map_of kvs k)"
  by (simp add: map_of_map map_of_sort_key)

lemma distinct_sorted_fields [pydict]:
  "distinct (map fst (map (\<lambda>(k, v). (k, f v)) (sort_key fst kvs))) = distinct (map fst kvs)"
proof -
  have "mset (map fst (map (\<lambda>(k, v). (k, f v)) (sort_key fst kvs))) = mset (map fst kvs)"
    by (simp add: split_def comp_def)
  then show ?thesis by (rule mset_eq_imp_distinct_iff)
qed

section \<open>Compact ASCII serialisation\<close>

definition hex_char :: "nat \<Rightarrow> char" where
  "hex_char d = (if d < 10 then char_of (48 + d) else char_of (87 + d))"

text \<open>The escapes of \<open>json.dumps(..., ensure_ascii=True)\<close>.\<close>

definition esc_char :: "char \<Rightarrow> string" where
  "esc_char c =
     (let n = (of_char c :: nat) in
      if n = 34 then [CHR 0x5C, CHR 0x22]
      else if n = 92 then [CHR 0x5C, CHR 0x5C]
      else if n = 10 then [CHR 0x5C, CHR ''n'']
      else if n = 13 then [CHR 0x5C, CHR ''r'']
      else if n = 9 then [CHR 0x5C, CHR ''t'']
      else if n = 8 then [CHR 0x5C, CHR ''b'']
      else if n = 12 then [CHR 0x5C, CHR ''f'']
      else if 32 \<le> n \<and> n \<le> 126 then [c]
      else [CHR 0x5C, CHR ''u'', CHR ''0'', CHR ''0'', hex_char (n div 16), hex_char (n mod 16)])"

definition json_quote :: "string \<Rightarrow> string" where
  "json_quote s = CHR 0x22 # concat (map esc_char s) @ [CHR 0x22]"

fun join :: "string \<Rightarrow> string list \<Rightarrow> string" where
  "join sep [] = []"
| "join sep [x] = x"
| "join sep (x # y # ys) = x @ sep @ join sep (y # ys)"

fun dumps :: "json \<Rightarrow> string" where
  "dumps JNull = ''null''"
| "dumps (JBool b) = (if b then ''true'' else ''false'')"
| "dumps (JInt i) = show_int i"
| "dumps (JFloat x) = repr_f x"
| "dumps (JStr s) = json_quote s"
| "dumps (JList xs) = CHR ''['' # join '','' (map dumps xs) @ '']''"
| "dumps (JObj kvs) = CHR ''{'' # join '','' (map (\<lambda>(k, v). json_quote k @ '':'' @ dumps v) kvs) @ ''}''"

definition canonical_bytes :: "json \<Rightarrow> string" where
  "canonical_bytes j = dumps (sort_keys (strip_comments j))"

definition policy_hash :: "digest_fun \<Rightarrow> json \<Rightarrow> string" where
  "policy_hash H config = ''sha256:'' @ H (canonical_bytes config)"

definition digest :: "digest_fun \<Rightarrow> json \<Rightarrow> string" where
  "digest H obj = ''sha256:'' @ H (canonical_bytes obj)"


section \<open>Annotations and key order do not matter\<close>

fun annotation_free :: "json \<Rightarrow> bool" where
  "annotation_free (JObj kvs) = list_all (\<lambda>(k, v). \<not> annotation_key k \<and> annotation_free v) kvs"
| "annotation_free (JList xs) = list_all annotation_free xs"
| "annotation_free j = True"

lemma strip_comments_annotation_free: "annotation_free (strip_comments j)"
  by (induction j rule: strip_comments.induct) (auto simp: list_all_iff)

lemma strip_comments_id: "annotation_free j \<Longrightarrow> strip_comments j = j"
proof (induction j rule: strip_comments.induct)
  case (1 kvs)
  then have "filter (\<lambda>(k, v). \<not> annotation_key k) kvs = kvs"
    by (auto simp: list_all_iff intro!: filter_True)
  with 1 show ?case by (force simp: list_all_iff intro!: map_idI)
qed (auto simp: list_all_iff intro!: map_idI)

lemma strip_comments_idem [simp]: "strip_comments (strip_comments j) = strip_comments j"
  by (rule strip_comments_id [OF strip_comments_annotation_free])

lemma canonical_bytes_strip: "canonical_bytes (strip_comments j) = canonical_bytes j"
  by (simp add: canonical_bytes_def)

lemma policy_hash_strip: "policy_hash H (strip_comments j) = policy_hash H j"
  by (simp add: policy_hash_def canonical_bytes_strip)

text \<open>Sorting by key forgets the order of an object with distinct keys.\<close>

lemma sort_key_fst_perm:
  fixes kvs :: "('k::linorder \<times> 'v) list"
  assumes "distinct (map fst kvs)" and "mset kvs = mset kvs'"
  shows "sort_key fst kvs = sort_key fst kvs'"
proof (rule sort_key_inj_key_eq)
  show "mset kvs = mset (sort_key fst kvs')" using assms(2) by simp
  show "inj_on fst (set kvs)" using assms(1) by (simp add: distinct_map)
  show "sorted (map fst (sort_key fst kvs'))" by simp
qed

lemma canonical_bytes_fields:
  assumes "distinct (map fst kvs)"
    and "mset (filter (\<lambda>(k, v). \<not> annotation_key k) kvs) = mset (filter (\<lambda>(k, v). \<not> annotation_key k) kvs')"
  shows "canonical_bytes (JObj kvs) = canonical_bytes (JObj kvs')"
proof -
  let ?strip = "map (\<lambda>(k, v). (k, strip_comments v))"
  let ?keep = "filter (\<lambda>(k :: string, v :: json). \<not> annotation_key k)"
  have "distinct (map fst (?keep kvs))" using assms(1) by (rule distinct_map_filter)
  then have "distinct (map fst (?strip (?keep kvs)))" by (simp add: comp_def case_prod_beta)
  moreover have "mset (?strip (?keep kvs)) = mset (?strip (?keep kvs'))" using assms(2) by simp
  ultimately have "sort_key fst (?strip (?keep kvs)) = sort_key fst (?strip (?keep kvs'))"
    by (rule sort_key_fst_perm)
  then show ?thesis by (simp add: canonical_bytes_def)
qed

section \<open>The serialisation is unambiguous\<close>

text \<open>A reader for escaped characters, to show that the escapes can be told apart.\<close>

definition hex_val :: "char \<Rightarrow> nat" where
  "hex_val c = (let n = of_char c in if n < 58 then n - 48 else n - 87)"

definition short_escape :: "char \<Rightarrow> char" where
  "short_escape e =
     (if e = CHR ''n'' then char_of (10::nat) else if e = CHR ''r'' then char_of (13::nat)
      else if e = CHR ''t'' then char_of (9::nat) else if e = CHR ''b'' then char_of (8::nat)
      else if e = CHR ''f'' then char_of (12::nat) else e)"

fun unesc :: "string \<Rightarrow> (char \<times> string) option" where
  "unesc [] = None"
| "unesc (c # s) =
     (if c \<noteq> CHR 0x5C then Some (c, s)
      else case s of
        e # a # b # h # l # t \<Rightarrow>
          if e = CHR ''u'' then Some (char_of (16 * hex_val h + hex_val l), t)
          else Some (short_escape e, a # b # h # l # t)
      | e # t \<Rightarrow> Some (short_escape e, t)
      | [] \<Rightarrow> None)"

lemma hex_val_hex_char [simp]: "d < 16 \<Longrightarrow> hex_val (hex_char d) = d"
  by (simp add: hex_val_def hex_char_def Let_def)

lemma of_char_nat_eq: "(of_char c :: nat) = n \<Longrightarrow> c = char_of n"
  by (metis char_of_char)

lemma unesc_short:
  "e \<noteq> CHR ''u'' \<Longrightarrow> unesc (CHR 0x5C # e # x) = Some (short_escape e, x)"
  by (auto split: list.splits)

lemma unesc_esc_char: "unesc (esc_char c @ x) = Some (c, x)"
proof -
  let ?n = "of_char c :: nat"
  have "?n < 256" by simp
  consider "?n \<in> {34, 92, 10, 13, 9, 8, 12}" | "?n \<notin> {34, 92, 10, 13, 9, 8, 12}" "32 \<le> ?n" "?n \<le> 126"
    | "?n \<notin> {34, 92, 10, 13, 9, 8, 12}" "\<not> (32 \<le> ?n \<and> ?n \<le> 126)" by blast
  then show ?thesis
  proof cases
    case 1
    have "?n = 34 \<Longrightarrow> c = CHR 0x22" "?n = 92 \<Longrightarrow> c = CHR 0x5C"
      by (rule of_char_eq_iff [where 'a = nat, THEN iffD1], simp)+
    with 1 show ?thesis
      by (auto simp: esc_char_def Let_def unesc_short short_escape_def simp del: unesc.simps
          dest: of_char_nat_eq)
  next
    case 2
    then have "c \<noteq> CHR 0x5C" by auto
    with 2 show ?thesis by (simp add: esc_char_def)
  next
    case 3
    then have "c \<noteq> CHR 0x5C" by auto
    moreover from \<open>?n < 256\<close> have "?n div 16 < 16" by (simp add: less_mult_imp_div_less)
    ultimately show ?thesis using 3 by (simp add: esc_char_def Let_def)
  qed
qed

lemma esc_char_inj: "esc_char c @ x = esc_char d @ y \<Longrightarrow> c = d \<and> x = y"
  by (metis unesc_esc_char option.inject prod.inject)

lemma esc_char_not_quote: "esc_char c @ x \<noteq> CHR 0x22 # y"
proof
  assume a: "esc_char c @ x = CHR 0x22 # y"
  then have "c = CHR 0x22" using unesc_esc_char [of c x] by simp
  with a show False by (simp add: esc_char_def)
qed

fun esc_body :: "string \<Rightarrow> string \<Rightarrow> string" where
  "esc_body [] x = CHR 0x22 # x"
| "esc_body (c # s) x = esc_char c @ esc_body s x"

lemma quote_esc_body: "json_quote s @ x = CHR 0x22 # esc_body s x"
  by (induction s) (simp_all add: json_quote_def)

lemma esc_char_quote_neq:
  "(CHR 0x22 # y = esc_char c @ x) = False" "(esc_char c @ x = CHR 0x22 # y) = False"
  using esc_char_not_quote by metis+

lemma esc_body_inj: "esc_body s x = esc_body t y \<Longrightarrow> s = t \<and> x = y"
proof (induction s arbitrary: t)
  case Nil
  then show ?case
    by (cases t) (simp_all only: esc_body.simps esc_char_quote_neq list.inject simp_thms)
next
  case (Cons c s)
  show ?case
  proof (cases t)
    case Nil
    with Cons.prems show ?thesis by (simp only: esc_char_quote_neq esc_body.simps)
  next
    case t: (Cons d u)
    with Cons.prems have "esc_char c @ esc_body s x = esc_char d @ esc_body u y"
      by (simp only: esc_body.simps)
    from esc_char_inj [OF this] Cons.IH [of u] t show ?thesis by blast
  qed
qed

lemma quote_inj: "json_quote s @ x = json_quote t @ y \<Longrightarrow> s = t \<and> x = y"
  by (rule esc_body_inj) (simp only: quote_esc_body list.inject)


text \<open>A value's text determines the value when what follows starts with a delimiter.\<close>

definition delimited :: "string \<Rightarrow> bool" where
  "delimited r = (case r of [] \<Rightarrow> True | c # _ \<Rightarrow> c \<in> {CHR '','', CHR '']'', CHR ''}''})"

definition num_char :: "char \<Rightarrow> bool" where
  "num_char c = (is_digit c \<or> c = CHR ''-'' \<or> c = CHR ''.'')"

fun json_exact :: "json \<Rightarrow> bool" where
  "json_exact (JFloat x) = repr_exact x"
| "json_exact (JList xs) = list_all json_exact xs"
| "json_exact (JObj kvs) = list_all (\<lambda>(k, v). json_exact v) kvs"
| "json_exact j = True"

lemma delimited_no_num: "delimited (c # r) \<Longrightarrow> \<not> num_char c"
  by (auto simp: delimited_def num_char_def)

lemma num_text_split:
  assumes "a @ r = b @ s" "list_all num_char a" "list_all num_char b" "delimited r" "delimited s"
  shows "a = b \<and> r = s"
proof -
  have tw: "takeWhile num_char (u @ v) = u" if "list_all num_char u" "delimited v" for u v
    using that by (cases v) (auto simp: list_all_iff takeWhile_append dest: delimited_no_num)
  from tw [OF assms(2,4)] tw [OF assms(3,5)] assms(1) have "a = b" by simp
  with assms(1) show ?thesis by simp
qed

lemma show_int_num: "list_all num_char (show_int i)"
  by (auto simp: show_int_def list_all_iff num_char_def dest: show_nat_digits)

lemma fmt_abs_num: "list_all num_char (fmt_abs n x)"
proof -
  have "c \<in> set (pad_zero w (show_nat k)) \<Longrightarrow> is_digit c" for c w k
    by (rule pad_zero_digits) (rule show_nat_digits)
  then show ?thesis
    by (auto simp: fmt_abs_def Let_def list_all_iff num_char_def dest: show_nat_digits)
qed

lemma repr_f_num: "list_all num_char (repr_f x)"
  using fmt_abs_num by (auto simp: repr_f_def fmt_f_def num_char_def split: option.splits)

lemma show_int_no_dot: "CHR ''.'' \<notin> set (show_int i)"
  using show_nat_digits [of "CHR ''.''"] by (auto simp: show_int_def)

lemma repr_f_dot: "repr_exact x \<Longrightarrow> CHR ''.'' \<in> set (repr_f x)"
  using repr_f_exact [of x] by (auto simp: fmt_f_def fmt_abs_def Let_def)

lemma repr_f_nonempty: "repr_f x \<noteq> []"
  by (auto simp: repr_f_def fmt_f_def fmt_abs_def Let_def split: option.splits)

lemma show_int_nonempty: "show_int x \<noteq> []"
  by (simp add: show_int_def)

lemma dumps_number_unambiguous:
  assumes "json_exact j" "j = JInt i \<or> j = JFloat x"
    and "json_exact j'" "j' = JInt i' \<or> j' = JFloat x'"
    and "dumps j @ r = dumps j' @ s" "delimited r" "delimited s"
  shows "j = j' \<and> r = s"
proof -
  have "list_all num_char (dumps j)" "list_all num_char (dumps j')"
    using assms(2,4) show_int_num repr_f_num by auto
  with assms have "dumps j = dumps j'" "r = s"
    using num_text_split by blast+
  moreover have "j = j'"
    using assms(1-4) \<open>dumps j = dumps j'\<close> show_int_no_dot repr_f_dot repr_f_inj
    by (elim disjE) (simp_all, metis+)
  ultimately show ?thesis by simp
qed

text \<open>The first character of a text tells the kind of the value.\<close>

definition json_tag :: "json \<Rightarrow> nat" where
  "json_tag j = (case j of JNull \<Rightarrow> 0 | JBool b \<Rightarrow> (if b then 1 else 2) | JInt i \<Rightarrow> 3 | JFloat x \<Rightarrow> 3
     | JStr s \<Rightarrow> 4 | JList xs \<Rightarrow> 5 | JObj kvs \<Rightarrow> 6)"

definition char_tag :: "char \<Rightarrow> nat" where
  "char_tag c = (if c = CHR ''n'' then 0 else if c = CHR ''t'' then 1 else if c = CHR ''f'' then 2
     else if num_char c then 3 else if c = CHR 0x22 then 4 else if c = CHR ''['' then 5
     else if c = CHR ''{'' then 6 else 7)"

lemma num_char_tag: "num_char c \<Longrightarrow> char_tag c = 3"
  by (auto simp: char_tag_def num_char_def)

lemma num_text_tag: "list_all num_char a \<Longrightarrow> a \<noteq> [] \<Longrightarrow> char_tag (hd (a @ r)) = 3"
  by (cases a) (simp_all add: num_char_tag)

lemma dumps_tag: "char_tag (hd (dumps j @ r)) = json_tag j"
proof (cases j)
  case (JInt i)
  then show ?thesis
    using num_text_tag [OF show_int_num show_int_nonempty] by (simp add: json_tag_def)
next
  case (JFloat x)
  then show ?thesis
    using num_text_tag [OF repr_f_num repr_f_nonempty] by (simp add: json_tag_def)
qed (simp_all add: json_tag_def char_tag_def num_char_def json_quote_def)

lemma dumps_nonempty: "dumps j \<noteq> []"
  by (cases j) (simp_all add: show_int_nonempty repr_f_nonempty json_quote_def)

text \<open>Lists of texts that are each unambiguous.\<close>

definition unamb :: "('a \<Rightarrow> string) \<Rightarrow> ('a \<Rightarrow> bool) \<Rightarrow> 'a \<Rightarrow> bool" where
  "unamb e ok a = (\<forall>b r s. ok b \<longrightarrow> delimited r \<longrightarrow> delimited s \<longrightarrow> e a @ r = e b @ s \<longrightarrow> a = b \<and> r = s)"

fun joined_tail :: "('a \<Rightarrow> string) \<Rightarrow> char \<Rightarrow> 'a list \<Rightarrow> string \<Rightarrow> string" where
  "joined_tail e c [] r = c # r"
| "joined_tail e c (x # xs) r = CHR '','' # e x @ joined_tail e c xs r"

lemma joined_tail_eq: "joined_tail e c xs r = concat (map (\<lambda>x. CHR '','' # e x) xs) @ c # r"
  by (induction xs) simp_all

lemma join_Cons: "join sep (x # xs) = x @ concat (map (\<lambda>y. sep @ y) xs)"
  by (induction xs arbitrary: x) simp_all

lemma join_joined_tail:
  "join '','' (map e (x # xs)) @ c # r = e x @ joined_tail e c xs r"
  by (simp add: join_Cons joined_tail_eq comp_def)

lemma delimited_joined_tail:
  "c = CHR '']'' \<or> c = CHR ''}'' \<Longrightarrow> delimited (joined_tail e c xs r)"
  by (cases xs) (auto simp: delimited_def)

lemma joined_tail_inj:
  assumes "list_all (unamb e ok) xs" "list_all ok ys" "c = CHR '']'' \<or> c = CHR ''}''"
    and "joined_tail e c xs r = joined_tail e c ys s"
  shows "xs = ys \<and> r = s"
  using assms
proof (induction xs arbitrary: ys)
  case Nil
  then show ?case by (cases ys) auto
next
  case (Cons x xs)
  show ?case
  proof (cases ys)
    case Nil
    with Cons.prems show ?thesis by auto
  next
    case ys: (Cons y zs)
    with Cons.prems have eq: "e x @ joined_tail e c xs r = e y @ joined_tail e c zs s" by simp
    have "unamb e ok x" "ok y" using Cons.prems ys by simp_all
    then have "x = y \<and> joined_tail e c xs r = joined_tail e c zs s"
      using eq delimited_joined_tail [OF Cons.prems(3)] unfolding unamb_def by blast
    moreover from this have "xs = zs \<and> r = s"
      using Cons.prems ys by (intro Cons.IH) simp_all
    ultimately show ?thesis using ys by simp
  qed
qed

lemma joined_inj:
  assumes "list_all (unamb e ok) xs" "list_all ok ys" "c = CHR '']'' \<or> c = CHR ''}''"
    and "\<And>x r. hd (e x @ r) \<noteq> c" "\<And>x. e x \<noteq> []"
    and "join '','' (map e xs) @ c # r = join '','' (map e ys) @ c # s"
  shows "xs = ys \<and> r = s"
proof (cases xs)
  case Nil
  show ?thesis
  proof (cases ys)
    case Nil
    with \<open>xs = []\<close> assms(6) show ?thesis by simp
  next
    case (Cons y zs)
    with Nil assms(6) have "hd (e y @ joined_tail e c zs s) = c"
      by (metis join.simps(1) join_joined_tail list.sel(1) list.simps(8) append_Nil)
    with assms(4) show ?thesis by blast
  qed
next
  case xs: (Cons x xs')
  show ?thesis
  proof (cases ys)
    case Nil
    with xs assms(6) have "hd (e x @ joined_tail e c xs' r) = c"
      by (metis join.simps(1) join_joined_tail list.sel(1) list.simps(8) append_Nil)
    with assms(4) show ?thesis by blast
  next
    case ys: (Cons y ys')
    have eq: "e x @ joined_tail e c xs' r = e y @ joined_tail e c ys' s"
      using assms(6) unfolding xs ys join_joined_tail .
    have "unamb e ok x" "ok y" using assms(1,2) xs ys by simp_all
    then have *: "x = y \<and> joined_tail e c xs' r = joined_tail e c ys' s"
      using eq delimited_joined_tail [OF assms(3)] unfolding unamb_def by blast
    have "list_all (unamb e ok) xs'" "list_all ok ys'" using assms(1,2) xs ys by simp_all
    then have "xs' = ys' \<and> r = s"
      by (rule joined_tail_inj [OF _ _ assms(3) conjunct2 [OF *]])
    with * xs ys show ?thesis by simp
  qed
qed

abbreviation field_text :: "string \<times> json \<Rightarrow> string" where
  "field_text \<equiv> \<lambda>(k, v). json_quote k @ '':'' @ dumps v"

lemma field_unamb:
  assumes "unamb dumps json_exact v"
  shows "unamb field_text (\<lambda>(k, v). json_exact v) (k, v)"
  unfolding unamb_def
proof (intro allI impI)
  fix b :: "string \<times> json" and r s
  assume ok: "case b of (k, v) \<Rightarrow> json_exact v" and d: "delimited r" "delimited s"
    and eq: "field_text (k, v) @ r = field_text b @ s"
  obtain k' v' where b: "b = (k', v')" by fastforce
  from eq b have "json_quote k @ (CHR '':'' # dumps v @ r) = json_quote k' @ (CHR '':'' # dumps v' @ s)" by simp
  from quote_inj [OF this] have "k = k'" "dumps v @ r = dumps v' @ s" by simp_all
  with assms ok d b show "(k, v) = b \<and> r = s" unfolding unamb_def by simp
qed

lemma unamb_by_tag:
  assumes "\<And>b r s. json_exact b \<Longrightarrow> json_tag b = json_tag j \<Longrightarrow> delimited r \<Longrightarrow> delimited s \<Longrightarrow>
    dumps j @ r = dumps b @ s \<Longrightarrow> j = b \<and> r = s"
  shows "unamb dumps json_exact j"
  unfolding unamb_def
proof (intro allI impI)
  fix b r s
  assume b: "json_exact b" "delimited r" "delimited s" "dumps j @ r = dumps b @ s"
  then have "json_tag b = json_tag j" by (metis dumps_tag)
  with b show "j = b \<and> r = s" by (intro assms)
qed

lemma dumps_no_close: "hd (dumps x @ r) \<noteq> CHR '']''" "hd (dumps x @ r) \<noteq> CHR ''}''"
  using dumps_tag [of x r]
  by (auto simp: char_tag_def json_tag_def num_char_def split: json.splits if_splits)

lemma dumps_no_close': "hd (dumps x) \<noteq> CHR '']''" "hd (dumps x) \<noteq> CHR ''}''"
  using dumps_no_close [of x "[]"] by simp_all

lemma unamb_JList:
  assumes "list_all (unamb dumps json_exact) xs"
  shows "unamb dumps json_exact (JList xs)"
proof (rule unamb_by_tag)
  fix b r s
  assume b: "json_exact b" "json_tag b = json_tag (JList xs)" "dumps (JList xs) @ r = dumps b @ s"
  then obtain ys where ys: "b = JList ys" by (cases b) (auto simp: json_tag_def split: if_splits)
  with b have "join '','' (map dumps xs) @ CHR '']'' # r = join '','' (map dumps ys) @ CHR '']'' # s"
    by simp
  with b ys assms have "xs = ys \<and> r = s"
    by (intro joined_inj [of dumps json_exact]) (simp_all add: dumps_nonempty dumps_no_close')
  with ys show "JList xs = b \<and> r = s" by simp
qed

lemma unamb_JObj:
  assumes "list_all (\<lambda>(k, v). unamb dumps json_exact v) kvs"
  shows "unamb dumps json_exact (JObj kvs)"
proof (rule unamb_by_tag)
  fix b r s
  assume b: "json_exact b" "json_tag b = json_tag (JObj kvs)" "dumps (JObj kvs) @ r = dumps b @ s"
  then obtain ys where ys: "b = JObj ys" by (cases b) (auto simp: json_tag_def split: if_splits)
  with b have "join '','' (map field_text kvs) @ CHR ''}'' # r = join '','' (map field_text ys) @ CHR ''}'' # s"
    by simp
  moreover have "unamb field_text (\<lambda>(k, v). json_exact v) kv" if "kv \<in> set kvs" for kv
  proof (cases kv)
    case (Pair k v)
    with that assms have "unamb dumps json_exact v" by (auto simp: list_all_iff)
    with Pair show ?thesis by (simp only: field_unamb)
  qed
  then have "list_all (unamb field_text (\<lambda>(k, v). json_exact v)) kvs"
    unfolding list_all_iff by blast
  ultimately have "kvs = ys \<and> r = s"
    using b ys by (intro joined_inj [of field_text "\<lambda>(k, v). json_exact v"]) (auto simp: json_quote_def)
  with ys show "JObj kvs = b \<and> r = s" by simp
qed

lemma unamb_number:
  assumes "json_exact j" and "j = JInt i \<or> j = JFloat x"
  shows "unamb dumps json_exact j"
proof (rule unamb_by_tag)
  fix b r s
  assume b: "json_exact b" "json_tag b = json_tag j" "delimited r" "delimited s" "dumps j @ r = dumps b @ s"
  obtain i' x' where "b = JInt i' \<or> b = JFloat x'"
    using b(2) assms(2) by (cases b) (auto simp: json_tag_def split: if_splits)
  from dumps_number_unambiguous [OF assms b(1) this b(5,3,4)] show "j = b \<and> r = s" .
qed

lemma unamb_JNull: "unamb dumps json_exact JNull"
proof (rule unamb_by_tag)
  fix b r s
  assume b: "json_tag b = json_tag JNull" "dumps JNull @ r = dumps b @ s"
  then have "b = JNull" by (cases b) (auto simp: json_tag_def split: if_splits)
  with b(2) show "JNull = b \<and> r = s" by simp
qed

lemma unamb_JBool: "unamb dumps json_exact (JBool c)"
proof (rule unamb_by_tag)
  fix b r s
  assume b: "json_tag b = json_tag (JBool c)" "dumps (JBool c) @ r = dumps b @ s"
  then have "b = JBool c" by (cases b) (auto simp: json_tag_def split: if_splits)
  with b(2) show "JBool c = b \<and> r = s" by simp
qed

lemma unamb_JStr: "unamb dumps json_exact (JStr x)"
proof (rule unamb_by_tag)
  fix b r s
  assume b: "json_tag b = json_tag (JStr x)" "dumps (JStr x) @ r = dumps b @ s"
  then obtain y where "b = JStr y" by (cases b) (auto simp: json_tag_def split: if_splits)
  with b quote_inj [of x r y s] show "JStr x = b \<and> r = s" by simp
qed

lemma dumps_unamb: "json_exact j \<Longrightarrow> unamb dumps json_exact j"
proof (induction j)
  case (JObj kvs)
  then have "unamb dumps json_exact v" if "(k, v) \<in> set kvs" for k v
    using that by (force simp: list_all_iff)
  then show ?case by (intro unamb_JObj) (auto simp: list_all_iff)
qed (auto simp: list_all_iff intro: unamb_JList unamb_number unamb_JStr unamb_JNull
    unamb_JBool)

lemma dumps_inj:
  assumes "json_exact j" "json_exact j'" "dumps j = dumps j'"
  shows "j = j'"
proof -
  have "delimited []" by (simp add: delimited_def)
  moreover have "dumps j @ [] = dumps j' @ []" using assms(3) by simp
  ultimately show ?thesis
    using dumps_unamb [OF assms(1)] assms(2) unfolding unamb_def by blast
qed

lemma json_exact_strip: "json_exact j \<Longrightarrow> json_exact (strip_comments j)"
  by (induction j rule: strip_comments.induct) (auto simp: list_all_iff)

lemma json_exact_sort: "json_exact j \<Longrightarrow> json_exact (sort_keys j)"
  by (induction j rule: sort_keys.induct) (auto simp: list_all_iff)

lemma canonical_bytes_inj:
  assumes "json_exact j" "json_exact j'" "canonical_bytes j = canonical_bytes j'"
  shows "sort_keys (strip_comments j) = sort_keys (strip_comments j')"
  using assms unfolding canonical_bytes_def
  by (blast intro: dumps_inj json_exact_sort json_exact_strip)

section \<open>Properties of the committed hash\<close>

text \<open>
  The policy hash does not depend on annotations or on the order in which a configuration lists
  its fields: two configurations (with distinct keys) that have the same fields apart from keys
  starting with an underscore commit to the same hash.
\<close>

theorem policy_hash_fields:
  assumes "distinct (map fst kvs)"
    and "mset (filter (\<lambda>(k, v). \<not> annotation_key k) kvs) = mset (filter (\<lambda>(k, v). \<not> annotation_key k) kvs')"
  shows "policy_hash H (JObj kvs) = policy_hash H (JObj kvs')"
  by (simp add: policy_hash_def canonical_bytes_fields [OF assms])

theorem policy_hash_fields_witness:
  "policy_hash id (JObj [(''b'', JInt 1), (''_note'', JStr ''x''), (''a'', JInt 2)]) =
   policy_hash id (JObj [(''a'', JInt 2), (''b'', JInt 1)])"
  by (rule policy_hash_fields) (simp_all add: annotation_key_def)



end
