(* ===== verification/Agent_Types.thy ===== *)
theory Agent_Types
  imports Canonical
begin

text \<open>
  The types that the components share: the decisions and results of \<open>agent/types.py\<close>, the market
  view of \<open>agent/strategy/signals.py\<close>, the portfolio of \<open>agent/strategy/survival.py\<close> and the
  committed configuration (\<open>config/strategy*.json\<close>). A configuration field that the code reads with a
  default is an option; the code's default is supplied where it is read. The two committed
  configurations are given as constants, so that examples run on the real policy.
\<close>

section \<open>Errors\<close>

datatype py_error = ZeroDivisionError | IndexError | KeyError string | ValueError string
  | RuntimeError string | TypeError string | AttributeError string

text \<open>A statement after one that may raise.\<close>

definition and_then :: "py_error + 'a \<Rightarrow> ('a \<Rightarrow> py_error + 'b) \<Rightarrow> py_error + 'b" where
  "and_then r f = (case r of Inl e \<Rightarrow> Inl e | Inr x \<Rightarrow> f x)"

lemma and_then_simps [simp]: "and_then (Inl e) f = Inl e" "and_then (Inr x) f = f x"
  by (simp_all add: and_then_def)

lemma and_then_Inr: "and_then r f = Inr y \<longleftrightarrow> (\<exists>x. r = Inr x \<and> f x = Inr y)"
  by (cases r) simp_all

text \<open>\<open>str(e)\<close> of a raised exception.\<close>

definition error_text :: "py_error \<Rightarrow> string" where
  "error_text e = (case e of ZeroDivisionError \<Rightarrow> ''division by zero'' | IndexError \<Rightarrow> ''list index out of range''
     | KeyError k \<Rightarrow> CHR 0x27 # k @ [CHR 0x27] | ValueError m \<Rightarrow> m | RuntimeError m \<Rightarrow> m | TypeError m \<Rightarrow> m | AttributeError m \<Rightarrow> m)"

section \<open>Decisions and results\<close>

datatype side = Buy | Sell | Hold

definition side_text :: "side \<Rightarrow> string" where
  "side_text s = (case s of Buy \<Rightarrow> ''buy'' | Sell \<Rightarrow> ''sell'' | Hold \<Rightarrow> ''hold'')"

record decision =
  d_side :: side
  d_chain :: string
  d_from_token :: string
  d_to_token :: string
  d_amount_usd :: real
  d_confidence :: real
  d_rationale :: string

definition is_trade :: "decision \<Rightarrow> bool" where
  "is_trade d = (d_side d \<in> {Buy, Sell} \<and> d_amount_usd d > 0)"

definition decision_json :: "decision \<Rightarrow> json" where
  "decision_json d = JObj
     [(''side'', JStr (side_text (d_side d))), (''chain'', JStr (d_chain d)),
      (''from_token'', JStr (d_from_token d)), (''to_token'', JStr (d_to_token d)),
      (''amount_usd'', JFloat (d_amount_usd d)), (''confidence'', JFloat (d_confidence d)),
      (''rationale'', JStr (d_rationale d))]"

record guardrail_verdict =
  gv_allowed :: bool
  gv_reason :: string
  gv_clamped_amount_usd :: "real option"

record execution_result =
  er_executed :: bool
  er_dry_run :: bool
  er_detail :: "(string \<times> json) list"
  er_error :: "string option"

section \<open>Market and portfolio views\<close>

record token_view =
  tv_symbol :: string
  tv_price :: real
  tv_pct_1h :: "real option"
  tv_pct_4h :: "real option"
  tv_vol_24h_pct :: "real option"
  tv_liquidity_usd :: real
  tv_spread_bps :: real
  tv_ts :: real
  tv_extra :: "(string \<times> json) list"

text \<open>The price table \<open>{v.symbol.upper(): v.price for v in views}\<close>: the last view of a symbol wins.\<close>

definition price_table :: "token_view list \<Rightarrow> (string \<rightharpoonup> real)" where
  "price_table views = map_of (rev (map (\<lambda>v. (upper (tv_symbol v), tv_price v)) views))"

record position =
  pos_symbol :: string
  pos_qty :: real
  pos_entry_price :: real
  pos_entry_ts :: real

record portfolio_state =
  ps_nav_usd :: real
  ps_stable_usd :: real
  ps_positions :: "(string \<times> position) list"
  ps_drawdown_pct :: real
  ps_risky_exposure_pct :: real
  ps_trades_this_week :: int
  ps_seconds_since_last_trade :: real

section \<open>The committed configuration\<close>

text \<open>The rungs of the drawdown ladder, from the mildest to the most severe.\<close>

datatype rung = RNone | HalveSize | NoNewRisk | StablecoinMode

definition rung_level :: "rung \<Rightarrow> nat" where
  "rung_level r = (case r of RNone \<Rightarrow> 0 | HalveSize \<Rightarrow> 1 | NoNewRisk \<Rightarrow> 2 | StablecoinMode \<Rightarrow> 3)"

instantiation rung :: linorder
begin

definition less_eq_rung :: "rung \<Rightarrow> rung \<Rightarrow> bool" where
  "less_eq_rung a b = (rung_level a \<le> rung_level b)"

definition less_rung :: "rung \<Rightarrow> rung \<Rightarrow> bool" where
  "less_rung a b = (rung_level a < rung_level b)"

instance
  by standard (auto simp: less_eq_rung_def less_rung_def rung_level_def split: rung.splits)

end

definition rung_text :: "rung \<Rightarrow> string" where
  "rung_text r = (case r of RNone \<Rightarrow> ''none'' | HalveSize \<Rightarrow> ''halve_size''
     | NoNewRisk \<Rightarrow> ''no_new_risk'' | StablecoinMode \<Rightarrow> ''stablecoin_mode'')"

record ladder_entry =
  at_pct :: real
  le_action :: rung

record risk_cfg =
  max_single_trade_usd :: real
  max_single_trade_pct :: "real option"
  min_single_trade_pct :: "real option"
  max_position_pct :: real
  max_risky_exposure_pct :: "real option"
  max_trades_per_hour :: int
  min_trade_interval_seconds :: int
  default_slippage_bps :: int
  stop_loss_pct :: real
  take_profit_pct :: real
  max_hold_hours :: real
  max_drawdown_pct :: real

record config =
  risk :: risk_cfg
  universe :: "string list"
  quote_tokens :: "string list option"
  allowed_tokens :: "string list"
  allowed_pairs :: "(string \<times> string \<times> string) list"
  drawdown_ladder :: "ladder_entry list"
  max_data_age_seconds :: "int option"
  vol_enter_max_pct :: "real option"
  target_risky_ratio :: "real option"
  rebalance_band :: "real option"
  micro_rebalance_usd :: "real option"
  chains :: "(string \<times> bool) list"
  tick_seconds :: int

definition get_or :: "'a option \<Rightarrow> 'a \<Rightarrow> 'a" where
  "get_or x d = (case x of None \<Rightarrow> d | Some v \<Rightarrow> v)"

text \<open>\<open>x or dflt\<close> of an optional text, and \<open>s.rstrip("/")\<close>.\<close>

definition strip_slashes :: "string \<Rightarrow> string" where
  "strip_slashes s = rev (dropWhile (\<lambda>c. c = CHR ''/'') (rev s))"

definition given_or :: "string option \<Rightarrow> string \<Rightarrow> string" where
  "given_or x dflt = (let v = get_or x [] in if v = [] then dflt else v)"

lemma get_or_simps [simp]: "get_or None d = d" "get_or (Some v) d = v"
  by (simp_all add: get_or_def)

definition bnb_config :: config where
  "bnb_config = \<lparr>
     risk = \<lparr>max_single_trade_usd = 100, max_single_trade_pct = Some (25 / 1000),
       min_single_trade_pct = Some (1 / 100), max_position_pct = 40 / 100,
       max_risky_exposure_pct = Some (12 / 100), max_trades_per_hour = 4,
       min_trade_interval_seconds = 900, default_slippage_bps = 50, stop_loss_pct = 2,
       take_profit_pct = 4, max_hold_hours = 48, max_drawdown_pct = 6\<rparr>,
     universe = [''WBNB'', ''BTCB'', ''ETH'', ''CAKE''],
     quote_tokens = Some [''USDT'', ''USDC''],
     allowed_tokens = [''USDT'', ''USDC'', ''WBNB'', ''BTCB'', ''ETH'', ''CAKE''],
     allowed_pairs =
       [(''bsc'', ''USDT'', ''WBNB''), (''bsc'', ''WBNB'', ''USDT''),
        (''bsc'', ''USDT'', ''BTCB''), (''bsc'', ''BTCB'', ''USDT''),
        (''bsc'', ''USDT'', ''ETH''), (''bsc'', ''ETH'', ''USDT''),
        (''bsc'', ''USDT'', ''CAKE''), (''bsc'', ''CAKE'', ''USDT'')],
     drawdown_ladder =
       [\<lparr>at_pct = 1, le_action = HalveSize\<rparr>, \<lparr>at_pct = 2, le_action = NoNewRisk\<rparr>,
        \<lparr>at_pct = 3, le_action = StablecoinMode\<rparr>],
     max_data_age_seconds = Some 600, vol_enter_max_pct = Some 4,
     target_risky_ratio = Some (10 / 100), rebalance_band = Some (4 / 100),
     micro_rebalance_usd = Some 12, chains = [(''bsc'', True), (''mantle'', False)],
     tick_seconds = 1800\<rparr>"

definition injective_config :: config where
  "injective_config = \<lparr>
     risk = \<lparr>max_single_trade_usd = 2, max_single_trade_pct = Some (25 / 100),
       min_single_trade_pct = Some (1 / 100), max_position_pct = 40 / 100,
       max_risky_exposure_pct = Some (20 / 100), max_trades_per_hour = 4,
       min_trade_interval_seconds = 900, default_slippage_bps = 50, stop_loss_pct = 2,
       take_profit_pct = 4, max_hold_hours = 48, max_drawdown_pct = 6\<rparr>,
     universe = [''INJ''],
     quote_tokens = Some [''USDT''],
     allowed_tokens = [''USDT'', ''INJ''],
     allowed_pairs = [(''injective'', ''USDT'', ''INJ''), (''injective'', ''INJ'', ''USDT'')],
     drawdown_ladder =
       [\<lparr>at_pct = 1, le_action = HalveSize\<rparr>, \<lparr>at_pct = 2, le_action = NoNewRisk\<rparr>,
        \<lparr>at_pct = 3, le_action = StablecoinMode\<rparr>],
     max_data_age_seconds = Some 600, vol_enter_max_pct = Some 4,
     target_risky_ratio = Some (10 / 100), rebalance_band = Some (4 / 100),
     micro_rebalance_usd = Some (12 / 10), chains = [(''injective'', True)],
     tick_seconds = 1800\<rparr>"

end
