(* ===== verification/BtData.thy ===== *)
theory BtData
  imports Agent_Types
begin

text \<open>
  \<open>backtest/data.py\<close>: the synthetic price series of the backtest, a geometric Brownian motion per asset through
  four regimes with an optional shock. The seeded generator \<open>random.Random(seed).gauss(0, 1)\<close> is an arbitrary
  stream of draws, consumed in the code's order (assets sorted, one draw per hour).
\<close>

definition ASSETS :: "string list" where
  "ASSETS = [''WBNB'', ''BTCB'', ''ETH'', ''CAKE'']"

definition START_PRICES :: "(string \<times> real) list" where
  "START_PRICES = [(''WBNB'', 600), (''BTCB'', 60000), (''ETH'', 3000), (''CAKE'', 3)]"

definition ASSET_BETA :: "(string \<times> real) list" where
  "ASSET_BETA = [(''WBNB'', 110 / 100), (''BTCB'', 80 / 100), (''ETH'', 1), (''CAKE'', 135 / 100)]"

definition ASSET_VOL_SCALE :: "(string \<times> real) list" where
  "ASSET_VOL_SCALE = [(''WBNB'', 110 / 100), (''BTCB'', 85 / 100), (''ETH'', 1), (''CAKE'', 135 / 100)]"

text \<open>Name, drift and volatility of a regime, with its hours \<open>[lo, hi)\<close> from \<open>REGIME_BOUNDS\<close>.\<close>

definition REGIMES :: "(string \<times> real \<times> real) list" where
  "REGIMES = [(''calm_uptrend'', 90 / 100000, 40 / 10000), (''choppy_range'', 10 / 100000, 60 / 10000),
     (''sharp_crash'', - 100 / 100000, 110 / 10000), (''recovery'', 150 / 100000, 40 / 10000)]"

definition REGIME_BOUNDS :: "nat list" where
  "REGIME_BOUNDS = [0, 240, 540, 732, 1008]"

definition regime_index :: "nat \<Rightarrow> nat" where
  "regime_index hour =
     (case filter (\<lambda>i. REGIME_BOUNDS ! i \<le> hour \<and> hour < REGIME_BOUNDS ! (i + 1)) [0..<length REGIMES] of
        i # _ \<Rightarrow> i | [] \<Rightarrow> length REGIMES - 1)"

definition regime_at :: "nat \<Rightarrow> string" where
  "regime_at hour = fst (REGIMES ! regime_index hour)"

definition regime_params_at :: "nat \<Rightarrow> real \<times> real" where
  "regime_params_at hour = snd (REGIMES ! regime_index hour)"

section \<open>The generator\<close>

definition gbm_step :: "real \<Rightarrow> real \<Rightarrow> real \<Rightarrow> real \<Rightarrow> real \<Rightarrow> real" where
  "gbm_step dt mu sigma z price = price * exp ((mu - 1 / 2 * sigma * sigma) * dt + sigma * sqrt dt * z)"

definition shocked :: "(nat \<rightharpoonup> real) \<Rightarrow> nat \<Rightarrow> real \<Rightarrow> real" where
  "shocked shocks h price = (case shocks h of None \<Rightarrow> price | Some f \<Rightarrow> price * f)"

text \<open>The prices of one asset from hour \<open>h\<close> on; \<open>draws\<close> is the rest of the stream.\<close>

fun path_from :: "real \<Rightarrow> real \<Rightarrow> (nat \<rightharpoonup> real) \<Rightarrow> nat list \<Rightarrow> (nat \<Rightarrow> real) \<Rightarrow> real \<Rightarrow> (nat \<times> real) list" where
  "path_from beta vol_scale shocks [] draws price = []"
| "path_from beta vol_scale shocks (h # hs) draws price =
     (let (mu_base, sigma_base) = regime_params_at h;
          price' = shocked shocks h (gbm_step 1 (mu_base * beta) (sigma_base * vol_scale) (draws 0) price)
      in (h, price') # path_from beta vol_scale shocks hs (\<lambda>k. draws (k + 1)) price')"

fun generate_assets :: "nat \<Rightarrow> (nat \<rightharpoonup> real) \<Rightarrow> string list \<Rightarrow> (nat \<Rightarrow> real) \<Rightarrow> py_error + (string \<times> (nat \<times> real) list) list" where
  "generate_assets hours shocks [] draws = Inr []"
| "generate_assets hours shocks (asset # assets) draws =
     (case map_of START_PRICES asset of
        None \<Rightarrow> Inl (KeyError asset)
      | Some price \<Rightarrow>
          map_sum id (Cons (asset, (0, price) # path_from (get_or (map_of ASSET_BETA asset) 1)
              (get_or (map_of ASSET_VOL_SCALE asset) 1) shocks [1..<hours] draws price))
            (generate_assets hours shocks assets (\<lambda>k. draws (k + (hours - 1)))))"

definition default_shocks :: "nat \<rightharpoonup> real" where
  "default_shocks = [564 \<mapsto> 88 / 100]"

definition generate_synthetic_prices :: "(nat \<Rightarrow> real) \<Rightarrow> nat \<Rightarrow> string list \<Rightarrow> (nat \<rightharpoonup> real) option \<Rightarrow>
    py_error + (string \<times> (nat \<times> real) list) list" where
  "generate_synthetic_prices draws hours assets shocks =
     generate_assets hours (get_or shocks default_shocks) (sort (if assets = [] then ASSETS else assets)) draws"

section \<open>The series is a price series\<close>

lemma path_from_length [simp]: "length (path_from b v sh hs draws price) = length hs"
  by (induction hs arbitrary: draws price) (auto simp: Let_def split: prod.splits)

lemma path_from_hours [simp]: "map fst (path_from b v sh hs draws price) = hs"
  by (induction hs arbitrary: draws price) (auto simp: Let_def split: prod.splits)

lemma path_from_positive:
  assumes "0 < price" "\<forall>f \<in> ran sh. 0 < f"
  shows "\<forall>x \<in> set (path_from b v sh hs draws price). 0 < snd x"
  using assms(1)
proof (induction hs arbitrary: draws price)
  case (Cons h hs)
  obtain mu sigma where ps: "regime_params_at h = (mu, sigma)" by fastforce
  let ?p = "shocked sh h (gbm_step 1 (mu * b) (sigma * v) (draws 0) price)"
  have "0 < ?p" using Cons.prems assms(2) by (auto simp: shocked_def gbm_step_def ran_def split: option.splits)
  with Cons.IH [of ?p "\<lambda>k. draws (k + 1)"] ps show ?case by (auto simp: Let_def)
qed simp

lemma start_price_pos: "map_of START_PRICES asset = Some p \<Longrightarrow> 0 < p"
  by (auto simp: START_PRICES_def split: if_splits)

lemma generate_assets_ok:
  assumes "generate_assets hours sh assets draws = Inr series" "0 < hours" "\<forall>f \<in> ran sh. 0 < f"
  shows "map fst series = assets \<and> (\<forall>(a, path) \<in> set series. map fst path = [0..<hours] \<and> (\<forall>x \<in> set path. 0 < snd x))"
  using assms(1)
proof (induction assets arbitrary: draws series)
  case (Cons asset assets)
  obtain price where price: "map_of START_PRICES asset = Some price"
    using Cons.prems by (cases "map_of START_PRICES asset") auto
  obtain rest where rest: "generate_assets hours sh assets (\<lambda>k. draws (k + (hours - 1))) = Inr rest"
    using Cons.prems price by (cases "generate_assets hours sh assets (\<lambda>k. draws (k + (hours - 1)))") auto
  have "series = (asset, (0, price) # path_from (get_or (map_of ASSET_BETA asset) 1)
              (get_or (map_of ASSET_VOL_SCALE asset) 1) sh [1..<hours] draws price) # rest"
    using Cons.prems price rest by simp
  moreover have "[0..<hours] = 0 # [1..<hours]" using assms(2) by (simp add: upt_conv_Cons)
  ultimately show ?case
    using Cons.IH [OF rest] start_price_pos [OF price]
      path_from_positive [OF start_price_pos [OF price] assms(3)]
    by auto
qed simp

lemma generate_assets_total:
  "\<forall>a \<in> set assets. map_of START_PRICES a \<noteq> None \<Longrightarrow> \<exists>s. generate_assets hours sh assets draws = Inr s"
proof (induction assets arbitrary: draws)
  case (Cons a assets)
  then obtain s where "generate_assets hours sh assets (\<lambda>k. draws (k + (hours - 1))) = Inr s" by fastforce
  with Cons.prems show ?case by auto
qed simp

text \<open>
  C32. The synthetic market is a market, whatever the generator draws: with the default assets and positive
  shocks it returns one path per asset, in sorted order, with exactly one strictly positive price per hour.
\<close>

theorem synthetic_prices_positive:
  assumes "0 < hours" "\<forall>f \<in> ran (get_or shocks default_shocks). 0 < f"
  shows "\<exists>series. generate_synthetic_prices draws hours [] shocks = Inr series \<and> map fst series = sort ASSETS \<and>
    (\<forall>(a, path) \<in> set series. map fst path = [0..<hours] \<and> (\<forall>x \<in> set path. 0 < snd x))"
proof -
  have "\<forall>a \<in> set (sort ASSETS). map_of START_PRICES a \<noteq> None" by (simp add: ASSETS_def START_PRICES_def)
  from generate_assets_total [OF this] obtain series
    where "generate_assets hours (get_or shocks default_shocks) (sort ASSETS) draws = Inr series" by blast
  with generate_assets_ok [OF this assms] show ?thesis by (simp add: generate_synthetic_prices_def)
qed

theorem synthetic_prices_positive_witness:
  "\<exists>series. generate_synthetic_prices (\<lambda>_. 0) 1008 [] None = Inr series \<and> map fst series = sort ASSETS"
proof -
  have "\<forall>f \<in> ran (get_or None default_shocks). 0 < f" by (auto simp: default_shocks_def ran_def split: if_splits)
  from synthetic_prices_positive [OF _ this, of 1008 "\<lambda>_. 0"] show ?thesis by auto
qed

end
