(* ===== verification/Csv.thy ===== *)
theory Csv
  imports BtData
begin

text \<open>
  \<open>load_csv\<close> of \<open>backtest/data.py\<close>. The file is what \<open>csv.DictReader\<close> yields: one dictionary per row, whose cells are
  \<open>None\<close> where a row is short. \<open>float\<close> of a text is an argument; \<open>int\<close> reads a sign and decimal digits.
\<close>

type_synonym csv_row = "(string \<times> string option) list"

datatype csv_key = HourKey int | TextKey string

definition csv_cell :: "string \<Rightarrow> csv_row \<Rightarrow> py_error + string option" where
  "csv_cell k row = (case map_of row k of None \<Rightarrow> Inl (KeyError k) | Some c \<Rightarrow> Inr c)"

definition stripped_cell :: "string \<Rightarrow> csv_row \<Rightarrow> py_error + string" where
  "stripped_cell k row =
     (case csv_cell k row of
        Inl e \<Rightarrow> Inl e
      | Inr None \<Rightarrow> Inl (AttributeError ''strip'')
      | Inr (Some s) \<Rightarrow> Inr (py_strip s))"

definition csv_key_of :: "string \<Rightarrow> csv_key" where
  "csv_key_of ts =
     (let (sign, ds) = (case ts of
            CHR ''-'' # r \<Rightarrow> (- 1, r) | CHR ''+'' # r \<Rightarrow> (1, r) | _ \<Rightarrow> (1, ts))
      in if ds \<noteq> [] \<and> list_all is_digit ds then HourKey (sign * int (digits_value ds)) else TextKey ts)"

definition read_csv_row :: "(string \<Rightarrow> real option) \<Rightarrow> csv_row \<Rightarrow> py_error + string \<times> csv_key \<times> real" where
  "read_csv_row float_of row =
     (case stripped_cell ''asset'' row of
        Inl e \<Rightarrow> Inl e
      | Inr asset \<Rightarrow> (case stripped_cell ''timestamp'' row of
          Inl e \<Rightarrow> Inl e
        | Inr ts \<Rightarrow> (case csv_cell ''price'' row of
            Inl e \<Rightarrow> Inl e
          | Inr None \<Rightarrow> Inl (TypeError ''float()'')
          | Inr (Some p) \<Rightarrow> (case float_of p of
              None \<Rightarrow> Inl (ValueError p)
            | Some price \<Rightarrow> Inr (upper asset, csv_key_of ts, price)))))"

type_synonym csv_series = "(string \<times> (csv_key \<times> real) list) list"

text \<open>\<open>series.setdefault(asset, []).append((ts_key, price))\<close>\<close>

definition add_price :: "csv_series \<Rightarrow> string \<times> csv_key \<times> real \<Rightarrow> csv_series" where
  "add_price series r = (case r of (asset, x) \<Rightarrow> AList.update asset (get_or (map_of series asset) [] @ [x]) series)"

fun read_csv_rows :: "(string \<Rightarrow> real option) \<Rightarrow> csv_row list \<Rightarrow> py_error + (string \<times> csv_key \<times> real) list" where
  "read_csv_rows float_of [] = Inr []"
| "read_csv_rows float_of (row # rows) =
     (case read_csv_row float_of row of
        Inl e \<Rightarrow> Inl e
      | Inr r \<Rightarrow> map_sum id (Cons r) (read_csv_rows float_of rows))"

text \<open>The stable sort by the key; an integer does not compare with a string.\<close>

definition hour_of :: "csv_key \<times> real \<Rightarrow> int" where
  "hour_of x = (case fst x of HourKey i \<Rightarrow> i | TextKey _ \<Rightarrow> 0)"

definition text_of :: "csv_key \<times> real \<Rightarrow> string" where
  "text_of x = (case fst x of HourKey _ \<Rightarrow> [] | TextKey s \<Rightarrow> s)"

definition is_hour :: "csv_key \<times> real \<Rightarrow> bool" where
  "is_hour x = (case fst x of HourKey _ \<Rightarrow> True | TextKey _ \<Rightarrow> False)"

definition sort_path :: "(csv_key \<times> real) list \<Rightarrow> py_error + (csv_key \<times> real) list" where
  "sort_path xs =
     (if list_all is_hour xs then Inr (sort_key hour_of xs)
      else if list_all (Not \<circ> is_hour) xs then Inr (sort_key text_of xs)
      else Inl (TypeError ''<''))"

fun sort_series :: "csv_series \<Rightarrow> py_error + csv_series" where
  "sort_series [] = Inr []"
| "sort_series ((asset, xs) # series) =
     (case sort_path xs of
        Inl e \<Rightarrow> Inl e
      | Inr ys \<Rightarrow> map_sum id (Cons (asset, ys)) (sort_series series))"

definition load_csv :: "(string \<Rightarrow> real option) \<Rightarrow> csv_row list \<Rightarrow> py_error + csv_series" where
  "load_csv float_of rows =
     (case read_csv_rows float_of rows of
        Inl e \<Rightarrow> Inl e
      | Inr rs \<Rightarrow> sort_series (foldl add_price [] rs))"

section \<open>Nothing is lost and every path is in order\<close>

definition prices_of :: "string \<Rightarrow> (string \<times> csv_key \<times> real) list \<Rightarrow> (csv_key \<times> real) list" where
  "prices_of asset rs = map snd (filter (\<lambda>r. fst r = asset) rs)"

lemma map_of_add_price:
  "map_of (add_price series r) asset =
    (if fst r = asset then Some (get_or (map_of series asset) [] @ [snd r]) else map_of series asset)"
  by (cases r) (simp add: add_price_def update_conv')

lemma grouped:
  "map_of (foldl add_price series rs) asset =
    (if prices_of asset rs = [] then map_of series asset
     else Some (get_or (map_of series asset) [] @ prices_of asset rs))"
proof (induction rs arbitrary: series)
  case (Cons r rs)
  have "prices_of asset (r # rs) = (if fst r = asset then snd r # prices_of asset rs else prices_of asset rs)"
    by (simp add: prices_of_def)
  then show ?case by (simp add: Cons.IH map_of_add_price)
qed (simp add: prices_of_def)

lemma sort_series_paths:
  "sort_series series = Inr out \<Longrightarrow> map_of series asset = Some xs \<Longrightarrow> \<exists>ys. map_of out asset = Some ys \<and> sort_path xs = Inr ys"
  by (induction series arbitrary: out) (auto split: sum.splits if_splits simp: map_sum_def)

lemma sorted_const: "\<forall>x \<in> set l. f x = a \<Longrightarrow> sorted (map f l)"
  by (induction l) auto

lemma sort_path_result:
  assumes "sort_path xs = Inr ys"
  shows "mset ys = mset xs" "sorted (map hour_of ys)" "sorted (map text_of ys)"
proof -
  have no_text: "text_of x = []" if "is_hour x" for x using that by (simp add: is_hour_def text_of_def split: csv_key.splits)
  have hour: "hour_of x = 0" if "\<not> is_hour x" for x using that by (simp add: is_hour_def hour_of_def split: csv_key.splits)
  consider (hours) "list_all is_hour xs" "ys = sort_key hour_of xs" | (texts) "list_all (Not \<circ> is_hour) xs" "ys = sort_key text_of xs"
    using assms by (auto simp: sort_path_def split: if_splits)
  then have "mset ys = mset xs \<and> sorted (map hour_of ys) \<and> sorted (map text_of ys)"
  proof cases
    case hours
    then have "sorted (map text_of ys)" by (intro sorted_const [where a = "[]"]) (auto simp: no_text list_all_iff)
    with hours show ?thesis by simp
  next
    case texts
    then have "sorted (map hour_of ys)" by (intro sorted_const [where a = 0]) (auto simp: hour list_all_iff)
    with texts show ?thesis by simp
  qed
  then show "mset ys = mset xs" "sorted (map hour_of ys)" "sorted (map text_of ys)" by blast+
qed

text \<open>The loaded path of an asset holds exactly its rows of the file, ascending by the key.\<close>

lemma load_csv_complete:
  assumes "load_csv float_of rows = Inr series"
  shows "\<exists>rs. read_csv_rows float_of rows = Inr rs \<and>
    (\<forall>asset. prices_of asset rs \<noteq> [] \<longrightarrow>
      (\<exists>ys. map_of series asset = Some ys \<and> mset ys = mset (prices_of asset rs) \<and>
        sorted (map hour_of ys) \<and> sorted (map text_of ys)))"
proof -
  obtain rs where rs: "read_csv_rows float_of rows = Inr rs" and s: "sort_series (foldl add_price [] rs) = Inr series"
    using assms by (auto simp: load_csv_def split: sum.splits)
  have "\<exists>ys. map_of series asset = Some ys \<and> mset ys = mset (prices_of asset rs) \<and>
      sorted (map hour_of ys) \<and> sorted (map text_of ys)" if "prices_of asset rs \<noteq> []" for asset
  proof -
    have "map_of (foldl add_price [] rs) asset = Some (prices_of asset rs)" using that by (simp add: grouped)
    then show ?thesis using sort_series_paths [OF s] sort_path_result by blast
  qed
  with rs show ?thesis by blast
qed

end
