(* ===== verification/BtPortfolio.thy ===== *)
theory BtPortfolio
  imports Agent_Types
begin

text \<open>
  \<open>backtest/portfolio.py\<close>: cash and positions with fees and slippage, the marked NAV, the high-water mark and
  the drawdown history. Dictionaries are association lists; a price table is a partial function. A method that
  may raise returns a sum.
\<close>

record bt_portfolio =
  bt_initial_cash :: real
  bt_cash :: real
  bt_positions :: "(string \<times> real) list"
  bt_entry_price :: "(string \<times> real) list"
  bt_entry_hour :: "(string \<times> int) list"
  bt_hwm :: real
  bt_nav_history :: "real list"
  bt_drawdown_history :: "real list"
  bt_trade_count :: int
  bt_hours_in_market :: int
  bt_flat_since :: "int option"

definition DEFAULT_FEE_BPS :: real where "DEFAULT_FEE_BPS = 25"

definition DEFAULT_SLIPPAGE_BPS :: real where "DEFAULT_SLIPPAGE_BPS = 30"

text \<open>\<open>Portfolio(initial_cash=c)\<close> with the other fields at their defaults, after \<open>__post_init__\<close>.\<close>

definition new_portfolio :: "real \<Rightarrow> bt_portfolio" where
  "new_portfolio initial_cash = \<lparr>bt_initial_cash = initial_cash, bt_cash = initial_cash, bt_positions = [],
     bt_entry_price = [], bt_entry_hour = [], bt_hwm = initial_cash, bt_nav_history = [],
     bt_drawdown_history = [], bt_trade_count = 0, bt_hours_in_market = 0, bt_flat_since = None\<rparr>"

section \<open>Marking\<close>

definition bt_risky_value :: "(string \<rightharpoonup> real) \<Rightarrow> bt_portfolio \<Rightarrow> real" where
  "bt_risky_value prices p =
     dict_sum (\<lambda>asset qty. if 0 < qty then qty * get_or (prices asset) 0 else 0) (bt_positions p)"

definition bt_nav :: "(string \<rightharpoonup> real) \<Rightarrow> bt_portfolio \<Rightarrow> real" where
  "bt_nav prices p = bt_cash p + bt_risky_value prices p"

definition risky_ratio :: "(string \<rightharpoonup> real) \<Rightarrow> bt_portfolio \<Rightarrow> real" where
  "risky_ratio prices p = (if bt_nav prices p \<le> 0 then 0 else bt_risky_value prices p / bt_nav prices p)"

definition mark :: "(string \<rightharpoonup> real) \<Rightarrow> bt_portfolio \<Rightarrow> bt_portfolio \<times> real" where
  "mark prices p =
     (let n = bt_nav prices p;
          hwm = (if bt_hwm p < n then n else bt_hwm p);
          dd_pct = (if hwm \<le> 0 then 0 else (hwm - n) / hwm * 100)
      in (p\<lparr>bt_nav_history := bt_nav_history p @ [n], bt_hwm := hwm,
            bt_drawdown_history := bt_drawdown_history p @ [dd_pct],
            bt_hours_in_market := bt_hours_in_market p +
              (if 1 / 10 ^ 9 < bt_risky_value prices p then 1 else 0)\<rparr>, dd_pct))"

definition current_drawdown :: "bt_portfolio \<Rightarrow> real" where
  "current_drawdown p = (if bt_drawdown_history p = [] then 0 else last (bt_drawdown_history p))"

definition rebaseline :: "(string \<rightharpoonup> real) \<Rightarrow> bt_portfolio \<Rightarrow> bt_portfolio" where
  "rebaseline prices p = p\<lparr>bt_hwm := bt_nav prices p,
     bt_drawdown_history := (if bt_drawdown_history p = [] then [] else butlast (bt_drawdown_history p) @ [0]),
     bt_flat_since := None\<rparr>"

section \<open>Trading\<close>

definition buy :: "string \<Rightarrow> real \<Rightarrow> real \<Rightarrow> int \<Rightarrow> real \<Rightarrow> real \<Rightarrow> bt_portfolio \<Rightarrow> py_error + real \<times> bt_portfolio" where
  "buy asset usd price hour fee_bps slippage_bps p =
     (if price \<le> 0 \<or> usd \<le> 0 then Inr (0, p)
      else let gross = min usd (bt_cash p) in
      if gross \<le> 0 then Inr (0, p)
      else let fill_price = price * (1 + slippage_bps / 10000); fee = gross * fee_bps / 10000;
               over = bt_cash p < gross + fee;
               spend = (if over then max 0 (bt_cash p - fee) else gross)
      in if over \<and> spend \<le> 0 then Inr (0, p)
      else if fill_price = 0 then Inl ZeroDivisionError
      else let qty = spend / fill_price; prev_qty = get_or (map_of (bt_positions p) asset) 0 in
      if 0 < prev_qty
      then (case map_of (bt_entry_price p) asset of
              None \<Rightarrow> Inl (KeyError asset)
            | Some e \<Rightarrow> Inr (spend + fee,
                p\<lparr>bt_entry_price := AList.update asset ((e * prev_qty + fill_price * qty) / (prev_qty + qty)) (bt_entry_price p),
                  bt_positions := AList.update asset (prev_qty + qty) (bt_positions p),
                  bt_cash := bt_cash p - (spend + fee), bt_trade_count := bt_trade_count p + 1\<rparr>))
      else Inr (spend + fee,
             p\<lparr>bt_entry_price := AList.update asset fill_price (bt_entry_price p),
               bt_entry_hour := AList.update asset hour (bt_entry_hour p),
               bt_positions := AList.update asset (prev_qty + qty) (bt_positions p),
               bt_cash := bt_cash p - (spend + fee), bt_trade_count := bt_trade_count p + 1\<rparr>))"

definition drop_asset :: "string \<Rightarrow> bt_portfolio \<Rightarrow> bt_portfolio" where
  "drop_asset asset p = p\<lparr>bt_positions := AList.delete asset (bt_positions p),
     bt_entry_price := AList.delete asset (bt_entry_price p),
     bt_entry_hour := AList.delete asset (bt_entry_hour p)\<rparr>"

definition sell :: "string \<Rightarrow> real \<Rightarrow> real \<Rightarrow> real \<Rightarrow> real \<Rightarrow> bt_portfolio \<Rightarrow> real \<times> bt_portfolio" where
  "sell asset fraction0 price fee_bps slippage_bps p =
     (let qty = get_or (map_of (bt_positions p) asset) 0 in
      if qty \<le> 0 \<or> price \<le> 0 \<or> fraction0 \<le> 0 then (0, p)
      else let fraction = min 1 fraction0; sell_qty = qty * fraction;
               fill_price = price * (1 - slippage_bps / 10000);
               gross = sell_qty * fill_price; proceeds = gross - gross * fee_bps / 10000;
               p1 = p\<lparr>bt_positions := AList.update asset (qty - sell_qty) (bt_positions p)\<rparr>;
               p2 = (if qty - sell_qty \<le> 1 / 10 ^ 12 then drop_asset asset p1 else p1)
           in (proceeds, p2\<lparr>bt_cash := bt_cash p2 + proceeds, bt_trade_count := bt_trade_count p2 + 1\<rparr>))"

fun flatten_assets :: "string list \<Rightarrow> (string \<rightharpoonup> real) \<Rightarrow> real \<Rightarrow> real \<Rightarrow> int \<times> bt_portfolio \<Rightarrow> py_error + int \<times> bt_portfolio" where
  "flatten_assets [] prices fee_bps slippage_bps acc = Inr acc"
| "flatten_assets (asset # assets) prices fee_bps slippage_bps (fills, p) =
     (case prices asset of
        None \<Rightarrow> Inl (KeyError asset)
      | Some price \<Rightarrow>
          let (proceeds, p') = sell asset 1 price fee_bps slippage_bps p in
          flatten_assets assets prices fee_bps slippage_bps (if 0 < proceeds then fills + 1 else fills, p'))"

definition flatten :: "(string \<rightharpoonup> real) \<Rightarrow> real \<Rightarrow> real \<Rightarrow> bt_portfolio \<Rightarrow> py_error + int \<times> bt_portfolio" where
  "flatten prices fee_bps slippage_bps p =
     flatten_assets (map fst (bt_positions p)) prices fee_bps slippage_bps (0, p)"

section \<open>Well-formed portfolios\<close>

text \<open>No overdraft, no empty position, and every position has an entry price and hour.\<close>

definition bt_ok :: "bt_portfolio \<Rightarrow> bool" where
  "bt_ok p = (0 \<le> bt_cash p \<and> distinct (map fst (bt_positions p)) \<and> (\<forall>(a, q) \<in> set (bt_positions p). 0 < q) \<and>
     (\<forall>a. map_of (bt_positions p) a \<noteq> None \<longrightarrow> map_of (bt_entry_price p) a \<noteq> None \<and> map_of (bt_entry_hour p) a \<noteq> None))"

lemma bt_ok_new: "0 \<le> c \<Longrightarrow> bt_ok (new_portfolio c)"
  by (simp add: bt_ok_def new_portfolio_def)

lemma set_update: "distinct (map fst d) \<Longrightarrow> set (AList.update k v d) = insert (k, v) {(a, b) \<in> set d. a \<noteq> k}"
  by (induction d) (auto, (metis fst_conv image_eqI)+)

lemma set_delete: "set (AList.delete k d) = {(a, b) \<in> set d. a \<noteq> k}"
  by (auto simp: AList.delete_eq)

lemma risky_value_update:
  assumes "distinct (map fst (bt_positions p))" "0 \<le> q" "0 \<le> get_or (map_of (bt_positions p) a) 0"
  shows "dict_sum (\<lambda>asset qty. if 0 < qty then qty * get_or (prices asset) 0 else 0) (AList.update a q (bt_positions p))
    = bt_risky_value prices p + (q - get_or (map_of (bt_positions p) a) 0) * get_or (prices a) 0"
proof -
  let ?f = "\<lambda>asset qty. if 0 < qty then qty * get_or (prices asset) 0 else (0 :: real)"
  have nn: "?f a x = x * get_or (prices a) 0" if "0 \<le> x" for x using that by auto
  show ?thesis
  proof (cases "map_of (bt_positions p) a")
    case None
    then have "dict_sum ?f (AList.update a q (bt_positions p)) = dict_sum ?f (bt_positions p) + ?f a q"
      by (intro dict_sum_update_new) (simp add: map_of_eq_None_iff)
    with None show ?thesis using nn [OF assms(2)] by (simp add: bt_risky_value_def)
  next
    case (Some x)
    then have "dict_sum ?f (AList.update a q (bt_positions p)) = dict_sum ?f (bt_positions p) + ?f a q - ?f a x"
      using dict_sum_update_old [OF Some, of ?f q] by simp
    moreover have "0 \<le> x" using assms(3) Some by simp
    ultimately show ?thesis using nn [OF assms(2)] nn [of x] Some by (simp add: bt_risky_value_def algebra_simps)
  qed
qed

section \<open>What a trade does\<close>

text \<open>The parts of a portfolio that trades leave alone.\<close>

definition same_marks :: "bt_portfolio \<Rightarrow> bt_portfolio \<Rightarrow> bool" where
  "same_marks p p' = (bt_nav_history p' = bt_nav_history p \<and> bt_drawdown_history p' = bt_drawdown_history p \<and>
     bt_hwm p' = bt_hwm p \<and> bt_hours_in_market p' = bt_hours_in_market p)"

lemma same_marks_refl [simp]: "same_marks p p"
  by (simp add: same_marks_def)

lemma same_marks_trans: "same_marks p q \<Longrightarrow> same_marks q r \<Longrightarrow> same_marks p r"
  by (simp add: same_marks_def)

lemma bt_ok_qty: "bt_ok p \<Longrightarrow> 0 \<le> get_or (map_of (bt_positions p) a) 0"
  by (cases "map_of (bt_positions p) a") (auto simp: bt_ok_def dest!: map_of_SomeD)

lemma bt_ok_fill:
  assumes "bt_ok p" "0 < q" "bt_positions p' = AList.update a q (bt_positions p)" "0 \<le> bt_cash p'"
    "map_of (bt_entry_price p') a \<noteq> None" "map_of (bt_entry_hour p') a \<noteq> None"
    "\<And>b. map_of (bt_entry_price p) b \<noteq> None \<Longrightarrow> map_of (bt_entry_price p') b \<noteq> None"
    "\<And>b. map_of (bt_entry_hour p) b \<noteq> None \<Longrightarrow> map_of (bt_entry_hour p') b \<noteq> None"
  shows "bt_ok p'"
  using assms by (auto simp: bt_ok_def map_of_update distinct_keys_update set_update split: if_splits)

lemma buy_cases:
  assumes ok: "bt_ok p" and fee: "0 \<le> fee" and slip: "0 \<le> slip"
  obtains (Skipped) "buy a usd price hour fee slip p = Inr (0, p)"
  | (Filled) x q p' where "buy a usd price hour fee slip p = Inr (x, p')" "0 < x" "x \<le> bt_cash p" "0 < q"
      "q * price \<le> x" "bt_positions p' = AList.update a (get_or (map_of (bt_positions p) a) 0 + q) (bt_positions p)"
      "bt_cash p' = bt_cash p - x" "bt_ok p'" "same_marks p p'" "bt_trade_count p' = bt_trade_count p + 1"
      "bt_flat_since p' = bt_flat_since p" "0 < price"
proof (cases "price \<le> 0 \<or> usd \<le> 0 \<or> min usd (bt_cash p) \<le> 0")
  case True
  then show thesis by (intro Skipped) (auto simp: buy_def Let_def)
next
  case go0: False
  define gross where "gross = min usd (bt_cash p)"
  define f where "f = gross * fee / 10000"
  define over where "over = (bt_cash p < gross + f)"
  define spend where "spend = (if over then max 0 (bt_cash p - f) else gross)"
  define fp where "fp = price * (1 + slip / 10000)"
  define prev where "prev = get_or (map_of (bt_positions p) a) 0"
  have pos: "0 < price" "0 < gross" "gross \<le> bt_cash p" "0 \<le> f" "price \<le> fp" "0 < fp"
    using go0 fee slip by (auto simp: gross_def f_def fp_def algebra_simps add_pos_nonneg)
  note eq = buy_def [of a usd price hour fee slip p, folded gross_def, unfolded Let_def,
      folded gross_def, folded f_def, folded over_def, folded spend_def, folded fp_def, folded prev_def]
  show thesis
  proof (cases "over \<and> spend \<le> 0")
    case True
    with eq pos go0 show thesis by (intro Skipped) (auto simp: gross_def)
  next
    case go: False
    then have sp: "0 < spend" "spend + f \<le> bt_cash p" using pos by (auto simp: spend_def over_def max_def split: if_splits)
    have "spend * price \<le> spend * fp" using pos sp(1) by (intro mult_left_mono) simp_all
    then have "spend / fp * price \<le> spend" using pos(6) by (simp add: pos_divide_le_eq)
    with sp pos have q: "0 < spend / fp" "spend / fp * price \<le> spend + f" by simp_all
    have prev: "0 \<le> prev" unfolding prev_def by (rule bt_ok_qty [OF ok])
    show thesis
    proof (cases "0 < prev")
      case True
      then have "map_of (bt_positions p) a \<noteq> None" by (cases "map_of (bt_positions p) a") (simp_all add: prev_def)
      then have "map_of (bt_entry_price p) a \<noteq> None \<and> map_of (bt_entry_hour p) a \<noteq> None"
        using ok unfolding bt_ok_def by blast
      then obtain e where e: "map_of (bt_entry_price p) a = Some e" "map_of (bt_entry_hour p) a \<noteq> None" by blast
      show thesis
      proof (rule Filled [of "spend + f" _ "spend / fp"])
        show "buy a usd price hour fee slip p = Inr (spend + f,
            p\<lparr>bt_entry_price := AList.update a ((e * prev + fp * (spend / fp)) / (prev + spend / fp)) (bt_entry_price p),
              bt_positions := AList.update a (prev + spend / fp) (bt_positions p),
              bt_cash := bt_cash p - (spend + f), bt_trade_count := bt_trade_count p + 1\<rparr>)" (is "_ = Inr (_, ?p')")
          using eq e(1) True go pos go0 by auto
        show "bt_ok ?p'"
          by (rule bt_ok_fill [OF ok, of "prev + spend / fp" _ a])
            (use e q prev sp in \<open>auto simp: map_of_update intro: add_nonneg_pos\<close>)
      qed (use pos sp q in \<open>auto simp: same_marks_def prev_def\<close>)
    next
      case zero: False
      show thesis
      proof (rule Filled [of "spend + f" _ "spend / fp"])
        show "buy a usd price hour fee slip p = Inr (spend + f,
            p\<lparr>bt_entry_price := AList.update a fp (bt_entry_price p), bt_entry_hour := AList.update a hour (bt_entry_hour p),
              bt_positions := AList.update a (prev + spend / fp) (bt_positions p),
              bt_cash := bt_cash p - (spend + f), bt_trade_count := bt_trade_count p + 1\<rparr>)" (is "_ = Inr (_, ?p')")
          using eq zero go pos go0 by auto
        show "bt_ok ?p'"
          by (rule bt_ok_fill [OF ok, of "prev + spend / fp" _ a])
            (use q prev sp in \<open>auto simp: map_of_update intro: add_nonneg_pos\<close>)
      qed (use pos sp q in \<open>auto simp: same_marks_def prev_def\<close>)
    qed
  qed
qed

lemma buy_nav:
  assumes "bt_ok p" "bt_positions p' = AList.update a (get_or (map_of (bt_positions p) a) 0 + q) (bt_positions p)"
    "bt_cash p' = bt_cash p - x" "0 \<le> q" "q * get_or (prices a) 0 \<le> x"
  shows "bt_nav prices p' \<le> bt_nav prices p"
proof -
  have "bt_risky_value prices p' = bt_risky_value prices p + q * get_or (prices a) 0"
    using assms(1,2,4) bt_ok_qty [OF assms(1), of a] risky_value_update [of p "get_or (map_of (bt_positions p) a) 0 + q" a prices]
    by (simp add: bt_risky_value_def bt_ok_def)
  with assms(3,5) show ?thesis by (simp add: bt_nav_def)
qed

lemma risky_value_delete:
  assumes "bt_ok p"
  shows "dict_sum (\<lambda>asset qty. if 0 < qty then qty * get_or (prices asset) 0 else 0) (AList.delete a (bt_positions p))
    = bt_risky_value prices p - get_or (map_of (bt_positions p) a) 0 * get_or (prices a) 0"
proof (cases "map_of (bt_positions p) a")
  case None
  then have "AList.delete a (bt_positions p) = bt_positions p" by (simp add: map_of_eq_None_iff)
  with None show ?thesis by (simp add: bt_risky_value_def)
next
  case (Some x)
  have "0 \<le> x" "distinct (map fst (bt_positions p))" using Some bt_ok_qty [OF assms, of a] assms by (simp_all add: bt_ok_def)
  then show ?thesis
    using dict_sum_delete [OF _ Some, of "\<lambda>asset qty. if 0 < qty then qty * get_or (prices asset) 0 else 0"] Some
    by (simp add: bt_risky_value_def)
qed

lemma bt_ok_drop:
  assumes "bt_ok p" "bt_positions p' = AList.delete a (bt_positions p)" "0 \<le> bt_cash p'"
    "bt_entry_price p' = AList.delete a (bt_entry_price p)" "bt_entry_hour p' = AList.delete a (bt_entry_hour p)"
  shows "bt_ok p'"
  using assms by (auto simp: bt_ok_def map_of_delete distinct_keys_delete set_delete split: if_splits)

lemma delete_update [simp]: "AList.delete k (AList.update k v d) = AList.delete k d"
  by (induction d) auto

lemma sell_cases:
  assumes ok: "bt_ok p" and fee: "0 \<le> fee" "fee \<le> 10000" and slip: "0 \<le> slip" "slip \<le> 10000"
  obtains (Skipped) "sell a fr price fee slip p = (0, p)" "get_or (map_of (bt_positions p) a) 0 \<le> 0 \<or> price \<le> 0 \<or> fr \<le> 0"
  | (Sold) x p' where "sell a fr price fee slip p = (x, p')" "0 \<le> x" "bt_ok p'" "same_marks p p'"
      "bt_trade_count p' = bt_trade_count p + 1" "bt_flat_since p' = bt_flat_since p"
      "\<And>prices. prices a = Some price \<Longrightarrow> bt_nav prices p' \<le> bt_nav prices p"
      "fr = 1 \<Longrightarrow> bt_positions p' = AList.delete a (bt_positions p)" "0 < price" "0 < get_or (map_of (bt_positions p) a) 0"
proof (cases "get_or (map_of (bt_positions p) a) 0 \<le> 0 \<or> price \<le> 0 \<or> fr \<le> 0")
  case True
  then show thesis by (intro Skipped) (auto simp: sell_def Let_def)
next
  case go: False
  define qty where "qty = get_or (map_of (bt_positions p) a) 0"
  define sq where "sq = qty * min 1 fr"
  define gross where "gross = sq * (price * (1 - slip / 10000))"
  define x where "x = gross - gross * fee / 10000"
  define p1 where "p1 = p\<lparr>bt_positions := AList.update a (qty - sq) (bt_positions p)\<rparr>"
  define p2 where "p2 = (if qty - sq \<le> 1 / 10 ^ 12 then drop_asset a p1 else p1)"
  define p' where "p' = p2\<lparr>bt_cash := bt_cash p2 + x, bt_trade_count := bt_trade_count p2 + 1\<rparr>"
  have eq: "sell a fr price fee slip p = (x, p')"
    using go by (simp add: sell_def Let_def qty_def sq_def gross_def x_def p1_def p2_def p'_def)
  have pos: "0 < qty" "0 < price" "0 < fr" using go by (simp_all add: qty_def)
  have sq: "0 \<le> sq" "sq \<le> qty" using pos by (simp_all add: sq_def mult_left_le)
  have "0 \<le> 1 - slip / 10000" "1 - slip / 10000 \<le> 1" using slip by simp_all
  then have "0 \<le> price * (1 - slip / 10000)" "price * (1 - slip / 10000) \<le> price"
    using pos by (simp_all add: mult_left_le)
  then have gross: "0 \<le> gross" "gross \<le> sq * price" using sq by (simp_all add: gross_def mult_left_mono)
  have x: "0 \<le> x" "x \<le> sq * price"
  proof -
    have "gross * fee / 10000 \<le> gross" using mult_left_mono [OF fee(2) gross(1)] by simp
    then show "0 \<le> x" by (simp add: x_def)
    have "0 \<le> gross * fee / 10000" using gross fee by simp
    then show "x \<le> sq * price" using gross by (simp add: x_def)
  qed
  have cash: "bt_cash p' = bt_cash p + x" by (simp add: p'_def p2_def p1_def drop_asset_def)
  have cash0: "0 \<le> bt_cash p'" using ok x cash by (simp add: bt_ok_def)
  show thesis
  proof (cases "qty - sq \<le> 1 / 10 ^ 12")
    case True
    have posn: "bt_positions p' = AList.delete a (bt_positions p)" using True by (simp add: p'_def p2_def p1_def drop_asset_def)
    show thesis
    proof (rule Sold [OF eq x(1)])
      show "bt_ok p'" using ok posn cash0 by (rule bt_ok_drop) (use True in \<open>simp_all add: p'_def p2_def p1_def drop_asset_def\<close>)
      fix prices assume pr: "prices a = Some price"
      have "bt_risky_value prices p' = bt_risky_value prices p - qty * price"
        using risky_value_delete [OF ok, of prices a] posn pr by (simp add: bt_risky_value_def qty_def)
      moreover have "sq * price \<le> qty * price" using sq pos by simp
      ultimately show "bt_nav prices p' \<le> bt_nav prices p" using cash x by (simp add: bt_nav_def)
    qed (use True pos posn in \<open>simp_all add: p'_def p2_def p1_def drop_asset_def same_marks_def qty_def\<close>)
  next
    case False
    have posn: "bt_positions p' = AList.update a (qty - sq) (bt_positions p)" using False by (simp add: p'_def p2_def p1_def)
    have left: "0 < qty - sq" using False by (smt (verit) zero_less_divide_1_iff zero_less_power)
    have entries: "map_of (bt_entry_price p) a \<noteq> None \<and> map_of (bt_entry_hour p) a \<noteq> None"
      using ok pos(1) unfolding bt_ok_def qty_def by (cases "map_of (bt_positions p) a") auto
    show thesis
    proof (rule Sold [OF eq x(1)])
      show "bt_ok p'"
        by (rule bt_ok_fill [OF ok left posn cash0]) (use False entries in \<open>simp_all add: p'_def p2_def p1_def\<close>)
      fix prices assume pr: "prices a = Some price"
      have "bt_risky_value prices p' = bt_risky_value prices p - sq * price"
        using risky_value_update [of p "qty - sq" a prices] ok left posn pr bt_ok_qty [OF ok, of a]
        by (simp add: bt_risky_value_def qty_def bt_ok_def algebra_simps)
      then show "bt_nav prices p' \<le> bt_nav prices p" using cash x by (simp add: bt_nav_def)
    next
      assume "fr = 1"
      then have "qty - sq = 0" by (simp add: sq_def)
      with left show "bt_positions p' = AList.delete a (bt_positions p)" by simp
    qed (use False pos in \<open>simp_all add: p'_def p2_def p1_def same_marks_def qty_def\<close>)
  qed
qed

text \<open>A step that only trades: it keeps the portfolio well formed and never makes it worth more.\<close>

definition trades :: "(string \<rightharpoonup> real) \<Rightarrow> bt_portfolio \<Rightarrow> bt_portfolio \<Rightarrow> bool" where
  "trades prices p p' = (bt_ok p' \<and> same_marks p p' \<and> bt_nav prices p' \<le> bt_nav prices p \<and>
     bt_trade_count p \<le> bt_trade_count p' \<and> bt_flat_since p' = bt_flat_since p)"

lemma trades_refl: "bt_ok p \<Longrightarrow> trades prices p p"
  by (simp add: trades_def)

lemma trades_trans: "trades prices p q \<Longrightarrow> trades prices q r \<Longrightarrow> trades prices p r"
  by (auto simp: trades_def intro: same_marks_trans)

lemma buy_trades:
  assumes "bt_ok p" "0 \<le> fee" "0 \<le> slip" "prices a = Some price"
  shows "\<exists>x p'. buy a usd price hour fee slip p = Inr (x, p') \<and> trades prices p p' \<and> 0 \<le> x \<and> x \<le> bt_cash p"
  using assms(1-3)
proof (cases rule: buy_cases [of p fee slip a usd price hour])
  case Skipped
  then show ?thesis using assms(1) by (auto simp: trades_refl bt_ok_def)
next
  case (Filled x q p')
  then show ?thesis using buy_nav [OF assms(1) Filled(6,7), of prices] assms(4) by (auto simp: trades_def)
qed

lemma sell_trades:
  assumes "bt_ok p" "0 \<le> fee" "fee \<le> 10000" "0 \<le> slip" "slip \<le> 10000" "prices a = Some price"
    "sell a fr price fee slip p = (x, p')"
  shows "trades prices p p' \<and> 0 \<le> x"
  using assms(1-5)
proof (cases rule: sell_cases [of p fee slip a fr price])
  case Skipped
  then show ?thesis using assms(1,7) by (simp add: trades_refl)
next
  case (Sold y q)
  then show ?thesis using assms(6,7) by (auto simp: trades_def)
qed

lemma flatten_assets_trades:
  assumes "bt_ok p" "0 \<le> fee" "fee \<le> 10000" "0 \<le> slip" "slip \<le> 10000" "\<forall>a \<in> set as. prices a \<noteq> None"
  shows "\<exists>n p'. flatten_assets as prices fee slip (k, p) = Inr (n, p') \<and> trades prices p p' \<and>
    ((\<forall>a \<in> set as. 0 < get_or (prices a) 0) \<longrightarrow>
       set (map fst (bt_positions p')) \<subseteq> set (map fst (bt_positions p)) - set as)"
  using assms
proof (induction as arbitrary: k p)
  case Nil
  then show ?case by (simp add: trades_refl)
next
  case (Cons a as)
  obtain price where price: "prices a = Some price" using Cons.prems(6) by auto
  obtain x p1 where s: "sell a 1 price fee slip p = (x, p1)" by fastforce
  have t: "trades prices p p1" using sell_trades [of p fee slip prices a price 1 x p1] Cons.prems(1-5) price s by simp
  have gone: "set (map fst (bt_positions p1)) \<subseteq> set (map fst (bt_positions p)) - {a}" if "0 < price"
    using Cons.prems(1-5)
  proof (cases rule: sell_cases [of p fee slip a 1 price])
    case Skipped
    then have "get_or (map_of (bt_positions p) a) 0 \<le> 0" using that by simp
    then have "map_of (bt_positions p) a = None"
      using Cons.prems(1) by (cases "map_of (bt_positions p) a") (auto simp: bt_ok_def dest!: map_of_SomeD)
    with Skipped s show ?thesis by (auto simp: map_of_eq_None_iff)
  next
    case (Sold y q)
    with s have "bt_positions p1 = AList.delete a (bt_positions p)" by simp
    then show ?thesis by (auto simp: set_delete)
  qed
  have "bt_ok p1" using t by (simp add: trades_def)
  from Cons.IH [OF this Cons.prems(2-5), of "if 0 < x then k + 1 else k"] Cons.prems(6)
  obtain n p' where n: "flatten_assets as prices fee slip (if 0 < x then k + 1 else k, p1) = Inr (n, p')"
      "trades prices p1 p'" "(\<forall>a \<in> set as. 0 < get_or (prices a) 0) \<longrightarrow>
       set (map fst (bt_positions p')) \<subseteq> set (map fst (bt_positions p1)) - set as"
    by auto
  moreover have "flatten_assets (a # as) prices fee slip (k, p) = Inr (n, p')" using price s n(1) by simp
  moreover have "trades prices p p'" using trades_trans [OF t n(2)] .
  moreover have "set (map fst (bt_positions p')) \<subseteq> set (map fst (bt_positions p)) - set (a # as)"
    if all: "\<forall>b \<in> set (a # as). 0 < get_or (prices b) 0"
  proof -
    have "set (map fst (bt_positions p')) \<subseteq> set (map fst (bt_positions p1)) - set as" using n(3) all by simp
    moreover have "set (map fst (bt_positions p1)) \<subseteq> set (map fst (bt_positions p)) - {a}" using all price gone by simp
    ultimately show ?thesis by auto
  qed
  ultimately show ?case by blast
qed

text \<open>
  Flattening goes flat: with a positive price for every held asset it returns, no position is left, the
  NAV is the cash at any prices, and it is no more than before; the marks are untouched.
\<close>

theorem flatten_goes_flat:
  assumes "bt_ok p" "0 \<le> fee" "fee \<le> 10000" "0 \<le> slip" "slip \<le> 10000"
    and "\<forall>a \<in> set (map fst (bt_positions p)). prices a \<noteq> None \<and> 0 < get_or (prices a) 0"
  shows "\<exists>n p'. flatten prices fee slip p = Inr (n, p') \<and> bt_ok p' \<and> bt_positions p' = [] \<and>
    bt_nav other p' = bt_cash p' \<and> bt_nav prices p' \<le> bt_nav prices p \<and> same_marks p p'"
proof -
  obtain n p' where f: "flatten_assets (map fst (bt_positions p)) prices fee slip (0, p) = Inr (n, p')" "trades prices p p'"
      "set (map fst (bt_positions p')) \<subseteq> set (map fst (bt_positions p)) - set (map fst (bt_positions p))"
    using flatten_assets_trades [OF assms(1-5), of "map fst (bt_positions p)" prices 0] assms(6) by auto
  then have "bt_positions p' = []" by simp
  with f show ?thesis by (auto simp: flatten_def trades_def bt_nav_def bt_risky_value_def)
qed

definition ex_bt :: bt_portfolio where
  "ex_bt = (new_portfolio 1000)\<lparr>bt_positions := [(''ETH'', 2)], bt_entry_price := [(''ETH'', 90)], bt_entry_hour := [(''ETH'', 1)]\<rparr>"

theorem flatten_goes_flat_witness:
  "\<exists>n p'. flatten [''ETH'' \<mapsto> 100] 25 30 ex_bt = Inr (n, p') \<and> bt_positions p' = []"
proof -
  have "bt_ok ex_bt" by (simp add: bt_ok_def ex_bt_def new_portfolio_def)
  from flatten_goes_flat [OF this, of 25 30 "[''ETH'' \<mapsto> 100]" Map.empty] show ?thesis
    by (auto simp: ex_bt_def new_portfolio_def)
qed

end
