(* ===== verification/Champion.thy ===== *)
theory Champion
  imports BtPortfolio
begin

text \<open>
  \<open>backtest/champion.py\<close> and \<open>backtest/challenger.py\<close>: the survival strategy of the backtest and the naive
  baseline. A decision may touch the portfolio's bookkeeping (the champion re-arms after a flat day), so it
  returns the portfolio together with the intent; a missing price or key is an error.
\<close>

datatype bt_action = BuyA | SellA | FlattenA | HoldA

record bt_intent =
  bi_action :: bt_action
  bi_asset :: string
  bi_size :: real
  bi_reason :: string

definition HOLD :: bt_intent where
  "HOLD = \<lparr>bi_action = HoldA, bi_asset = [], bi_size = 0, bi_reason = []\<rparr>"

record bt_market =
  bm_prices :: "string \<rightharpoonup> real"
  bm_history :: "string \<rightharpoonup> real list"
  bm_t :: int

record champion_cfg =
  cc_universe :: "string list"
  cc_lookbacks :: "nat list"
  cc_require_agreement :: bool
  cc_vol_max :: real
  cc_vol_window :: nat
  cc_max_single :: real
  cc_min_single :: real
  cc_max_risky :: real
  cc_stop_loss_pct :: real
  cc_take_profit_pct :: real
  cc_max_hold_hours :: int
  cc_ladder :: "ladder_entry list"
  cc_micro_usd :: real
  cc_target_ratio :: real
  cc_band :: real
  cc_cadence_h :: int

definition CHAMPION_CFG :: champion_cfg where
  "CHAMPION_CFG = \<lparr>cc_universe = [''WBNB'', ''BTCB'', ''ETH'', ''CAKE''], cc_lookbacks = [1, 4],
     cc_require_agreement = True, cc_vol_max = 4, cc_vol_window = 24, cc_max_single = 3 / 100,
     cc_min_single = 1 / 100, cc_max_risky = 20 / 100, cc_stop_loss_pct = 3, cc_take_profit_pct = 4,
     cc_max_hold_hours = 48,
     cc_ladder = [\<lparr>at_pct = 3 / 2, le_action = HalveSize\<rparr>, \<lparr>at_pct = 3, le_action = NoNewRisk\<rparr>,
       \<lparr>at_pct = 4, le_action = StablecoinMode\<rparr>],
     cc_micro_usd = 12, cc_target_ratio = 15 / 100, cc_band = 5 / 100, cc_cadence_h = 12\<rparr>"

section \<open>Signals\<close>

text \<open>\<open>price_history[-k]\<close>\<close>

definition from_end :: "nat \<Rightarrow> real list \<Rightarrow> real" where
  "from_end k hist = hist ! (length hist - k)"

definition momentum :: "real list \<Rightarrow> nat \<Rightarrow> real" where
  "momentum hist lookback =
     (if length hist < lookback + 1 then 0
      else let was = from_end (lookback + 1) hist; now = from_end 1 hist in
           if was \<le> 0 then 0 else now / was - 1)"

definition log_returns :: "real list \<Rightarrow> nat \<Rightarrow> real list" where
  "log_returns hist window =
     map (\<lambda>i. ln (hist ! i / hist ! (i - 1)))
       (filter (\<lambda>i. 0 < hist ! (i - 1) \<and> 0 < hist ! i) [length hist - window..<length hist])"

definition pop_stdev :: "real list \<Rightarrow> real" where
  "pop_stdev xs = (let m = sum_list xs / length xs in sqrt (sum_list (map (\<lambda>x. (x - m) ^ 2) xs) / length xs))"

definition realized_vol_pct :: "real list \<Rightarrow> nat \<Rightarrow> real" where
  "realized_vol_pct hist window0 =
     (let window = (if length hist < window0 + 1 then length hist - 1 else window0) in
      if window < 2 then 0
      else let rets = log_returns hist window in
           if length rets < 2 then 0 else pop_stdev rets * sqrt 24 * 100)"

datatype champion_rung = LadderOk | LadderHalve | LadderNoRisk | LadderFlatten

definition ladder_state :: "real \<Rightarrow> ladder_entry list \<Rightarrow> champion_rung" where
  "ladder_state drawdown_pct ladder =
     foldl (\<lambda>state r. if at_pct r \<le> drawdown_pct
        then (case le_action r of HalveSize \<Rightarrow> LadderHalve | NoNewRisk \<Rightarrow> LadderNoRisk
              | StablecoinMode \<Rightarrow> LadderFlatten | RNone \<Rightarrow> state)
        else state) LadderOk ladder"

section \<open>The decision\<close>

text \<open>Block 0: after a flat day with a drawdown the high-water mark is re-anchored.\<close>

definition rearm :: "(string \<rightharpoonup> real) \<Rightarrow> int \<Rightarrow> bt_portfolio \<Rightarrow> bt_portfolio \<times> real" where
  "rearm prices hour p =
     (let dd = current_drawdown p in
      if bt_risky_value prices p \<le> 1 / 10 ^ 9
      then (case bt_flat_since p of
              None \<Rightarrow> (p\<lparr>bt_flat_since := Some hour\<rparr>, dd)
            | Some f \<Rightarrow>
                if 24 \<le> hour - f \<and> 1 / 2 < dd
                then (let p' = rebaseline prices p in (p', current_drawdown p'))
                else (p, dd))
      else (p\<lparr>bt_flat_since := None\<rparr>, dd))"

definition sell_all :: "string \<Rightarrow> string \<Rightarrow> bt_intent" where
  "sell_all asset reason = \<lparr>bi_action = SellA, bi_asset = asset, bi_size = 1, bi_reason = reason\<rparr>"

text \<open>Block 2: the first position in the universe that is due.\<close>

fun champion_exit :: "champion_cfg \<Rightarrow> (string \<rightharpoonup> real) \<Rightarrow> int \<Rightarrow> bt_portfolio \<Rightarrow> string list \<Rightarrow> py_error + bt_intent option" where
  "champion_exit cfg prices hour p [] = Inr None"
| "champion_exit cfg prices hour p (asset # assets) =
     (let sl = cc_stop_loss_pct cfg / 100; tp = cc_take_profit_pct cfg / 100 in
      if get_or (map_of (bt_positions p) asset) 0 \<le> 0 then champion_exit cfg prices hour p assets
      else let entry = get_or (map_of (bt_entry_price p) asset) 0;
               entry_h = get_or (map_of (bt_entry_hour p) asset) hour in
      case prices asset of
        None \<Rightarrow> Inl (KeyError asset)
      | Some px \<Rightarrow>
          if px \<le> entry * (1 - sl)
          then Inr (Some (sell_all asset (''stop_loss:'' @ asset @ ''@'' @ fmt_f 0 (- sl * 100) @ ''%'')))
          else if entry * (1 + tp) \<le> px
          then Inr (Some (sell_all asset (''take_profit:'' @ asset @ ''@'' @ fmt_f 0 (tp * 100) @ ''%'')))
          else if cc_max_hold_hours cfg \<le> hour - entry_h
          then Inr (Some (sell_all asset (''time_stop:'' @ asset @ ''@'' @ show_int (cc_max_hold_hours cfg) @ ''h'')))
          else champion_exit cfg prices hour p assets)"

text \<open>Block 4: a candidate is an asset with its momentum score, its size and its volatility.\<close>

definition history_of :: "bt_market \<Rightarrow> string \<Rightarrow> real list" where
  "history_of m asset = get_or (bm_history m asset) []"

definition is_candidate :: "champion_cfg \<Rightarrow> bt_market \<Rightarrow> string \<Rightarrow> bool" where
  "is_candidate cfg m asset =
     (let hist = history_of m asset in
      Max (set (cc_lookbacks cfg)) + 1 \<le> length hist \<and>
      (cc_require_agreement cfg \<longrightarrow> list_all (\<lambda>lb. 0 < momentum hist lb) (cc_lookbacks cfg)) \<and>
      realized_vol_pct hist (cc_vol_window cfg) \<le> cc_vol_max cfg)"

definition entry_size_pct :: "champion_cfg \<Rightarrow> bt_market \<Rightarrow> real \<Rightarrow> string \<Rightarrow> real" where
  "entry_size_pct cfg m size_mult asset =
     (let rvol = realized_vol_pct (history_of m asset) (cc_vol_window cfg);
          raw = (if 0 < rvol then cc_max_single cfg * (2 / rvol) else cc_max_single cfg)
      in max (cc_min_single cfg) (min (cc_max_single cfg) raw) * size_mult)"

definition score :: "champion_cfg \<Rightarrow> bt_market \<Rightarrow> string \<Rightarrow> real" where
  "score cfg m asset = momentum (history_of m asset) (last (cc_lookbacks cfg))"

definition champion_entry :: "champion_cfg \<Rightarrow> bt_market \<Rightarrow> champion_rung \<Rightarrow> real \<Rightarrow> bt_portfolio \<Rightarrow> py_error + bt_intent option" where
  "champion_entry cfg m rung nav p =
     (let size_mult = (if rung = LadderHalve then 1 / 2 else 1) in
      if \<not> risky_ratio (bm_prices m) p < cc_max_risky cfg then Inr None
      else if cc_lookbacks cfg = [] \<and> cc_universe cfg \<noteq> [] then Inl (ValueError ''max of empty sequence'')
      else case max_by (score cfg m) (filter (is_candidate cfg m) (cc_universe cfg)) of
             None \<Rightarrow> Inr None
           | Some asset \<Rightarrow>
               let pct = entry_size_pct cfg m size_mult asset; usd = pct * nav in
               if 0 < usd \<and> usd \<le> bt_cash p
               then Inr (Some \<lparr>bi_action = BuyA, bi_asset = asset, bi_size = usd,
                 bi_reason = ''entry:'' @ asset @ '' moms+ vol='' @
                   fmt_f 1 (realized_vol_pct (history_of m asset) (cc_vol_window cfg)) @ ''% sz='' @
                   fmt_f 1 (pct * 100) @ ''%''\<rparr>)
               else Inr None)"

text \<open>Block 5.\<close>

definition champion_micro :: "champion_cfg \<Rightarrow> bt_market \<Rightarrow> champion_rung \<Rightarrow> bt_portfolio \<Rightarrow> py_error + bt_intent" where
  "champion_micro cfg m rung p =
     (let hour = bm_t m in
      if rung \<noteq> LadderOk then Inr HOLD
      else if cc_cadence_h cfg = 0 then Inl ZeroDivisionError
      else if hour mod cc_cadence_h cfg = 0 \<and> 0 < hour \<and>
          risky_ratio (bm_prices m) p < cc_target_ratio cfg - cc_band cfg \<and> cc_micro_usd cfg \<le> bt_cash p
      then (if cc_lookbacks cfg = [] \<and> cc_universe cfg \<noteq> [] then Inl IndexError
            else case max_by (score cfg m)
                (filter (\<lambda>a. last (cc_lookbacks cfg) < length (history_of m a)) (cc_universe cfg)) of
              None \<Rightarrow> Inr HOLD
            | Some pick \<Rightarrow> Inr \<lparr>bi_action = BuyA, bi_asset = pick, bi_size = cc_micro_usd cfg, bi_reason = ''micro_rebalance''\<rparr>)
      else Inr HOLD)"

definition champion_decide :: "champion_cfg \<Rightarrow> bt_market \<Rightarrow> bt_portfolio \<Rightarrow> py_error + bt_portfolio \<times> bt_intent" where
  "champion_decide cfg m p0 =
     (let prices = bm_prices m; nav = bt_nav prices p0; (p, dd) = rearm prices (bm_t m) p0;
          rung = ladder_state dd (cc_ladder cfg) in
      if rung = LadderFlatten
      then Inr (p, if 1 / 10 ^ 9 < bt_risky_value prices p
          then \<lparr>bi_action = FlattenA, bi_asset = [], bi_size = 0, bi_reason = ''ladder:stablecoin@dd='' @ fmt_f 2 dd @ ''%''\<rparr>
          else HOLD)
      else case champion_exit cfg prices (bm_t m) p (cc_universe cfg) of
        Inl e \<Rightarrow> Inl e
      | Inr (Some i) \<Rightarrow> Inr (p, i)
      | Inr None \<Rightarrow>
          if rung = LadderNoRisk then Inr (p, HOLD)
          else (case champion_entry cfg m rung nav p of
                  Inl e \<Rightarrow> Inl e
                | Inr (Some i) \<Rightarrow> Inr (p, i)
                | Inr None \<Rightarrow> map_sum id (Pair p) (champion_micro cfg m rung p)))"

section \<open>The baseline\<close>

record challenger_cfg =
  ch_universe :: "string list"
  ch_notional_usd :: real
  ch_cadence_h :: int

definition CHALLENGER_CFG :: challenger_cfg where
  "CHALLENGER_CFG = \<lparr>ch_universe = [''WBNB'', ''BTCB'', ''ETH'', ''CAKE''], ch_notional_usd = 120, ch_cadence_h = 6\<rparr>"

definition challenger_decide :: "challenger_cfg \<Rightarrow> bt_market \<Rightarrow> bt_portfolio \<Rightarrow> py_error + bt_portfolio \<times> bt_intent" where
  "challenger_decide cfg m p =
     (let hour = bm_t m; cadence = ch_cadence_h cfg; universe = ch_universe cfg in
      if hour = 0 \<or> cadence \<le> 0 \<or> hour mod cadence \<noteq> 0 then Inr (p, HOLD)
      else if universe = [] then Inl ZeroDivisionError
      else let asset = universe ! nat ((hour div cadence) mod int (length universe)) in
      if bt_cash p < ch_notional_usd cfg then Inr (p, HOLD)
      else Inr (p, \<lparr>bi_action = BuyA, bi_asset = asset, bi_size = ch_notional_usd cfg,
        bi_reason = ''dca:'' @ asset @ ''@$'' @ fmt_f 0 (ch_notional_usd cfg) @ ''/'' @ show_int cadence @ ''h''\<rparr>))"

section \<open>What a champion's intent means\<close>

lemma champion_exit_Some:
  "champion_exit cfg prices hour p assets = Inr (Some i) \<Longrightarrow>
    \<exists>asset \<in> set assets. bi_action i = SellA \<and> bi_asset i = asset \<and> bi_size i = 1 \<and>
      0 < get_or (map_of (bt_positions p) asset) 0 \<and> prices asset \<noteq> None"
  by (induction assets) (auto simp: Let_def sell_all_def split: if_splits option.splits)

lemma champion_exit_total:
  "\<forall>a \<in> set assets. prices a \<noteq> None \<Longrightarrow> \<exists>x. champion_exit cfg prices hour p assets = Inr x"
  by (induction assets) (auto simp: Let_def)

lemma champion_entry_Some:
  assumes "champion_entry cfg m rung nav p = Inr (Some i)"
  shows "bi_action i = BuyA \<and> bi_asset i \<in> set (cc_universe cfg) \<and> is_candidate cfg m (bi_asset i) \<and>
    risky_ratio (bm_prices m) p < cc_max_risky cfg \<and> 0 < bi_size i \<and> bi_size i \<le> bt_cash p \<and>
    bi_size i = entry_size_pct cfg m (if rung = LadderHalve then 1 / 2 else 1) (bi_asset i) * nav \<and>
    (\<forall>b \<in> set (cc_universe cfg). is_candidate cfg m b \<longrightarrow> score cfg m b \<le> score cfg m (bi_asset i))"
proof -
  obtain asset where a: "max_by (score cfg m) (filter (is_candidate cfg m) (cc_universe cfg)) = Some asset"
    using assms by (auto simp: champion_entry_def Let_def split: if_splits option.splits)
  from max_by_in [OF a] max_by_ge [OF a] assms a show ?thesis
    by (auto simp: champion_entry_def Let_def split: if_splits)
qed

lemma champion_micro_Inr:
  assumes "champion_micro cfg m rung p = Inr i"
  shows "i = HOLD \<or> bi_action i = BuyA \<and> bi_asset i \<in> set (cc_universe cfg) \<and> rung = LadderOk \<and>
    bi_size i = cc_micro_usd cfg \<and> bi_size i \<le> bt_cash p \<and>
    risky_ratio (bm_prices m) p < cc_target_ratio cfg - cc_band cfg"
proof -
  define picks where "picks = filter (\<lambda>a. last (cc_lookbacks cfg) < length (history_of m a)) (cc_universe cfg)"
  define due where "due \<longleftrightarrow> bm_t m mod cc_cadence_h cfg = 0 \<and> 0 < bm_t m \<and>
      risky_ratio (bm_prices m) p < cc_target_ratio cfg - cc_band cfg \<and> cc_micro_usd cfg \<le> bt_cash p"
  note eq = assms [unfolded champion_micro_def Let_def, folded picks_def due_def]
  show ?thesis
  proof (cases "due \<and> rung = LadderOk \<and> max_by (score cfg m) picks \<noteq> None")
    case True
    then obtain pick where pick: "max_by (score cfg m) picks = Some pick" by blast
    have "pick \<in> set (cc_universe cfg)" using max_by_in [OF pick] by (simp add: picks_def)
    moreover have "i = \<lparr>bi_action = BuyA, bi_asset = pick, bi_size = cc_micro_usd cfg, bi_reason = ''micro_rebalance''\<rparr>"
      using eq True pick by (simp split: if_splits)
    ultimately show ?thesis using True unfolding due_def by simp
  next
    case False
    with eq have "i = HOLD" by (auto split: if_splits)
    then show ?thesis by simp
  qed
qed

lemma HOLD_action [simp]: "bi_action HOLD = HoldA"
  by (simp add: HOLD_def)

lemma champion_decide_cases:
  assumes "champion_decide cfg m p = Inr (p', i)"
  obtains (Flat) dd where "rearm (bm_prices m) (bm_t m) p = (p', dd)" "ladder_state dd (cc_ladder cfg) = LadderFlatten"
      "if 1 / 10 ^ 9 < bt_risky_value (bm_prices m) p' then bi_action i = FlattenA else i = HOLD"
  | (Exit) dd where "rearm (bm_prices m) (bm_t m) p = (p', dd)" "ladder_state dd (cc_ladder cfg) \<noteq> LadderFlatten"
      "champion_exit cfg (bm_prices m) (bm_t m) p' (cc_universe cfg) = Inr (Some i)"
  | (Stay) dd where "rearm (bm_prices m) (bm_t m) p = (p', dd)" "ladder_state dd (cc_ladder cfg) = LadderNoRisk" "i = HOLD"
  | (Entry) dd where "rearm (bm_prices m) (bm_t m) p = (p', dd)" "ladder_state dd (cc_ladder cfg) \<in> {LadderOk, LadderHalve}"
      "champion_entry cfg m (ladder_state dd (cc_ladder cfg)) (bt_nav (bm_prices m) p) p' = Inr (Some i)"
  | (Micro) dd where "rearm (bm_prices m) (bm_t m) p = (p', dd)" "ladder_state dd (cc_ladder cfg) \<in> {LadderOk, LadderHalve}"
      "champion_micro cfg m (ladder_state dd (cc_ladder cfg)) p' = Inr i"
proof -
  obtain q dd where q: "rearm (bm_prices m) (bm_t m) p = (q, dd)" by fastforce
  note eq = assms [unfolded champion_decide_def Let_def q prod.case]
  show thesis
  proof (cases "ladder_state dd (cc_ladder cfg) = LadderFlatten")
    case True
    with eq q show thesis by (intro Flat [of dd]) (auto split: if_splits)
  next
    case no_flat: False
    show thesis
    proof (cases "champion_exit cfg (bm_prices m) (bm_t m) q (cc_universe cfg)")
      case (Inl e)
      with eq no_flat show thesis by simp
    next
      case (Inr x)
      show thesis
      proof (cases x)
        case (Some j)
        with eq no_flat Inr q show thesis by (intro Exit [of dd]) auto
      next
        case None
        show thesis
        proof (cases "ladder_state dd (cc_ladder cfg) = LadderNoRisk")
          case True
          with eq no_flat Inr None q show thesis by (intro Stay [of dd]) auto
        next
          case False
          then have rung: "ladder_state dd (cc_ladder cfg) \<in> {LadderOk, LadderHalve}"
            using no_flat by (cases "ladder_state dd (cc_ladder cfg)") auto
          show thesis
          proof (cases "champion_entry cfg m (ladder_state dd (cc_ladder cfg)) (bt_nav (bm_prices m) p) q")
            case (Inl e)
            with eq no_flat Inr None False \<open>champion_exit _ _ _ _ _ = _\<close> show thesis by simp
          next
            case ent: (Inr y)
            show thesis
            proof (cases y)
              case (Some j)
              with eq no_flat Inr None False ent q rung show thesis by (intro Entry [of dd]) auto
            next
              case no: None
              with eq no_flat Inr None False ent
              have "map_sum id (Pair q) (champion_micro cfg m (ladder_state dd (cc_ladder cfg)) q) = Inr (p', i)" by simp
              then have "q = p'" "champion_micro cfg m (ladder_state dd (cc_ladder cfg)) q = Inr i"
                by (cases "champion_micro cfg m (ladder_state dd (cc_ladder cfg)) q"; simp)+
              with q rung show thesis by (intro Micro [of dd]) auto
            qed
          qed
        qed
      qed
    qed
  qed
qed

text \<open>
  The champion buys only with a reason: a purchase is made only below the no-new-risk rung, with the cash
  for it, and it is either an entry (a candidate of the universe with the best momentum, every momentum
  positive and the volatility under the ceiling when the policy asks for it, exposure below the cap, sized
  within the single-trade bounds, halved on the half-size rung) or the fixed micro-rebalance with no rung
  active and the risky share below the band. On the flatten rung it flattens exactly when it holds risk.
\<close>

theorem champion_buy_justified:
  assumes "champion_decide cfg m p = Inr (p', i)" "rearm (bm_prices m) (bm_t m) p = (q, dd)"
  shows "(bi_action i = BuyA \<longrightarrow>
      ladder_state dd (cc_ladder cfg) \<in> {LadderOk, LadderHalve} \<and> bi_size i \<le> bt_cash p' \<and>
      bi_asset i \<in> set (cc_universe cfg) \<and>
      (is_candidate cfg m (bi_asset i) \<and> risky_ratio (bm_prices m) p' < cc_max_risky cfg \<and>
         (\<forall>b \<in> set (cc_universe cfg). is_candidate cfg m b \<longrightarrow> score cfg m b \<le> score cfg m (bi_asset i)) \<and>
         bi_size i = entry_size_pct cfg m (if ladder_state dd (cc_ladder cfg) = LadderHalve then 1 / 2 else 1) (bi_asset i)
           * bt_nav (bm_prices m) p
       \<or> ladder_state dd (cc_ladder cfg) = LadderOk \<and> bi_size i = cc_micro_usd cfg \<and>
         risky_ratio (bm_prices m) p' < cc_target_ratio cfg - cc_band cfg)) \<and>
    (ladder_state dd (cc_ladder cfg) = LadderFlatten \<longrightarrow>
      (if 1 / 10 ^ 9 < bt_risky_value (bm_prices m) p' then bi_action i = FlattenA else i = HOLD))"
  using assms(1)
proof (cases rule: champion_decide_cases)
  case (Exit dd')
  with assms(2) champion_exit_Some [OF Exit(3)] show ?thesis by auto
next
  case (Entry dd')
  with assms(2) champion_entry_Some [OF Entry(3)] show ?thesis by auto
next
  case (Micro dd')
  with assms(2) champion_micro_Inr [OF Micro(3)] show ?thesis by auto
qed (use assms(2) in \<open>auto split: if_splits\<close>)

definition ex_market :: bt_market where
  "ex_market = \<lparr>bm_prices = [''ETH'' \<mapsto> 100], bm_history = Map.empty, bm_t = 30\<rparr>"

definition ex_fallen :: bt_portfolio where
  "ex_fallen = ex_bt\<lparr>bt_drawdown_history := [5]\<rparr>"

theorem champion_buy_justified_witness:
  "\<exists>p' i. champion_decide CHAMPION_CFG ex_market ex_fallen = Inr (p', i) \<and> bi_action i = FlattenA"
proof -
  have rear: "rearm (bm_prices ex_market) (bm_t ex_market) ex_fallen = (ex_fallen, 5)"
    by (simp add: rearm_def current_drawdown_def bt_risky_value_def ex_fallen_def ex_bt_def ex_market_def new_portfolio_def)
  have rung: "ladder_state 5 (cc_ladder CHAMPION_CFG) = LadderFlatten"
    by (simp add: ladder_state_def CHAMPION_CFG_def)
  have risk: "1 / 10 ^ 9 < bt_risky_value (bm_prices ex_market) ex_fallen"
    by (simp add: bt_risky_value_def ex_fallen_def ex_bt_def ex_market_def new_portfolio_def)
  obtain i where d: "champion_decide CHAMPION_CFG ex_market ex_fallen = Inr (ex_fallen, i)"
    using rear rung by (auto simp: champion_decide_def Let_def)
  from champion_buy_justified [OF d rear] rung risk d show ?thesis by auto
qed

end
