(* ===== verification/Metrics.thy ===== *)
theory Metrics
  imports BtPortfolio
begin

text \<open>\<open>backtest/metrics.py\<close>: returns, drawdown, Sharpe and Calmar of a NAV curve.\<close>

definition PERIODS_PER_YEAR :: real where "PERIODS_PER_YEAR = 24 * 365"

definition period_returns :: "real list \<Rightarrow> real list" where
  "period_returns navs = map (\<lambda>(a, b). b / a - 1) (filter (\<lambda>(a, b). 0 < a) (zip navs (tl navs)))"

definition total_return_pct :: "real list \<Rightarrow> real" where
  "total_return_pct navs =
     (case navs of a # b # _ \<Rightarrow> if a \<le> 0 then 0 else (last navs / a - 1) * 100 | _ \<Rightarrow> 0)"

text \<open>One point of the scan; the running peak starts at minus infinity, which is \<open>None\<close>.\<close>

definition dd_step :: "real option \<times> real \<Rightarrow> real \<Rightarrow> real option \<times> real" where
  "dd_step st n =
     (let (hwm0, max_dd) = st; hwm = (case hwm0 of None \<Rightarrow> n | Some h \<Rightarrow> if h < n then n else h) in
      (Some hwm, if 0 < hwm then let dd = (hwm - n) / hwm * 100 in if max_dd < dd then dd else max_dd else max_dd))"

definition max_drawdown_pct :: "real list \<Rightarrow> real" where
  "max_drawdown_pct navs = snd (foldl dd_step (None, 0) navs)"

definition mean :: "real list \<Rightarrow> real" where
  "mean xs = sum_list xs / length xs"

definition pstdev :: "real list \<Rightarrow> real" where
  "pstdev xs = sqrt (sum_list (map (\<lambda>x. (x - mean xs) ^ 2) xs) / length xs)"

definition sharpe :: "real list \<Rightarrow> real \<Rightarrow> real" where
  "sharpe navs periods_per_year =
     (let rets = period_returns navs in
      if length rets < 2 then 0
      else let mu = mean rets; sd = pstdev rets in if sd \<le> 0 then 0 else mu / sd * sqrt periods_per_year)"

definition calmar :: "real list \<Rightarrow> real" where
  "calmar navs = (let mdd = max_drawdown_pct navs in if mdd \<le> 0 then 0 else total_return_pct navs / mdd)"

fun first_breach_from :: "nat \<Rightarrow> real list \<Rightarrow> real \<Rightarrow> nat option" where
  "first_breach_from h [] gate = None"
| "first_breach_from h (dd # dds) gate = (if gate \<le> dd then Some h else first_breach_from (h + 1) dds gate)"

definition first_breach_hour :: "real list \<Rightarrow> real \<Rightarrow> nat option" where
  "first_breach_hour drawdowns gate = first_breach_from 0 drawdowns gate"

record metric_bundle =
  mb_total_return_pct :: real
  mb_max_drawdown_pct :: real
  mb_sharpe :: real
  mb_calmar :: real
  mb_trade_count :: int
  mb_pct_time_in_market :: real

definition metrics_from_nav :: "real list \<Rightarrow> real \<times> real \<times> real \<times> real" where
  "metrics_from_nav navs = (py_round (total_return_pct navs) 4, py_round (max_drawdown_pct navs) 4,
     py_round (sharpe navs PERIODS_PER_YEAR) 4, py_round (calmar navs) 4)"

definition all_metrics :: "bt_portfolio \<Rightarrow> real list \<Rightarrow> int \<Rightarrow> metric_bundle" where
  "all_metrics p navs total_hours =
     (let (ret, mdd, sh, cal) = metrics_from_nav navs in
      \<lparr>mb_total_return_pct = ret, mb_max_drawdown_pct = mdd, mb_sharpe = sh, mb_calmar = cal,
       mb_trade_count = bt_trade_count p,
       mb_pct_time_in_market = (if 0 < total_hours
         then py_round (of_int (bt_hours_in_market p) / of_int total_hours * 100) 4 else 0)\<rparr>)"

section \<open>The maximum drawdown is the largest drop\<close>

text \<open>The peak up to a point.\<close>

definition peak :: "real list \<Rightarrow> real" where
  "peak navs = Max (set navs)"

lemma peak_snoc: "navs \<noteq> [] \<Longrightarrow> peak (navs @ [n]) = max (peak navs) n"
  by (simp add: peak_def max.commute)

lemma fst_dd_step: "fst (dd_step st n) = Some (case fst st of None \<Rightarrow> n | Some h \<Rightarrow> max h n)"
  by (auto simp: dd_step_def Let_def max_def split: prod.splits option.splits)

lemma foldl_dd_hwm: "navs \<noteq> [] \<Longrightarrow> fst (foldl dd_step (None, 0) navs) = Some (peak navs)"
proof (induction navs rule: rev_induct)
  case (snoc n navs)
  then show ?case by (cases "navs = []") (simp_all add: fst_dd_step peak_snoc, simp add: peak_def)
qed simp

lemma max_drawdown_snoc:
  "max_drawdown_pct (navs @ [n]) =
     (let h = peak (navs @ [n]) in
      if 0 < h then max (max_drawdown_pct navs) ((h - n) / h * 100) else max_drawdown_pct navs)"
proof -
  have "fst (foldl dd_step (None, 0) (navs @ [n])) = Some (peak (navs @ [n]))" by (rule foldl_dd_hwm) simp
  then show ?thesis
    by (cases "foldl dd_step (None, 0) navs") (auto simp: max_drawdown_pct_def dd_step_def Let_def max_def)
qed

lemma max_drawdown_nonneg: "0 \<le> max_drawdown_pct navs"
proof (induction navs rule: rev_induct)
  case (snoc n navs)
  then show ?case by (auto simp: max_drawdown_snoc Let_def max_def)
qed (simp add: max_drawdown_pct_def)

lemma peak_ge: "i < length navs \<Longrightarrow> navs ! i \<le> peak navs"
  by (simp add: peak_def)

lemma peak_attained: "navs \<noteq> [] \<Longrightarrow> \<exists>i < length navs. peak navs = navs ! i"
  unfolding peak_def by (metis List.finite_set Max_in in_set_conv_nth set_empty)

lemma drop_le_peak:
  assumes "0 < x" "x \<le> h" "0 \<le> n"
  shows "(x - n) / x * 100 \<le> (h - n) / h * (100 :: real)"
proof -
  have "n / h \<le> n / x" using assms by (intro divide_left_mono) auto
  then have "1 - n / x \<le> 1 - n / h" by (rule diff_left_mono)
  moreover have "(x - n) / x = 1 - n / x" "(h - n) / h = 1 - n / h" using assms by (simp_all add: diff_divide_distrib)
  ultimately show ?thesis by (metis mult_right_mono zero_le_numeral)
qed

text \<open>
  C25. The one-pass maximum drawdown is the largest relative drop from any point of a non-negative equity curve
  to any later one: no pair of points drops further, and it is zero or attained by a pair.
\<close>

theorem max_drawdown_largest:
  assumes "\<forall>n \<in> set navs. 0 \<le> n"
  shows "(\<forall>i j. i \<le> j \<and> j < length navs \<and> 0 < navs ! i \<longrightarrow>
      (navs ! i - navs ! j) / navs ! i * 100 \<le> max_drawdown_pct navs) \<and>
    (max_drawdown_pct navs = 0 \<or>
     (\<exists>i j. i \<le> j \<and> j < length navs \<and> 0 < navs ! i \<and> max_drawdown_pct navs = (navs ! i - navs ! j) / navs ! i * 100))"
  using assms
proof (induction navs rule: rev_induct)
  case (snoc n navs)
  let ?h = "peak (navs @ [n])"
  have IH: "\<forall>i j. i \<le> j \<and> j < length navs \<and> 0 < navs ! i \<longrightarrow>
      (navs ! i - navs ! j) / navs ! i * 100 \<le> max_drawdown_pct navs"
    "max_drawdown_pct navs = 0 \<or>
     (\<exists>i j. i \<le> j \<and> j < length navs \<and> 0 < navs ! i \<and> max_drawdown_pct navs = (navs ! i - navs ! j) / navs ! i * 100)"
    using snoc by auto
  have mono: "max_drawdown_pct navs \<le> max_drawdown_pct (navs @ [n])" by (simp add: max_drawdown_snoc Let_def)
  have bound: "((navs @ [n]) ! i - (navs @ [n]) ! j) / (navs @ [n]) ! i * 100 \<le> max_drawdown_pct (navs @ [n])"
    if ij: "i \<le> j" "j < length (navs @ [n])" "0 < (navs @ [n]) ! i" for i j
  proof (cases "j < length navs")
    case True
    with IH(1) ij mono show ?thesis by (fastforce simp: nth_append)
  next
    case False
    then have j: "(navs @ [n]) ! j = n" using ij by (simp add: nth_append less_Suc_eq)
    have le: "(navs @ [n]) ! i \<le> ?h" using ij by (intro peak_ge) simp
    have "((navs @ [n]) ! i - n) / (navs @ [n]) ! i * 100 \<le> (?h - n) / ?h * 100"
      using ij(3) le snoc.prems by (intro drop_le_peak) auto
    also have "\<dots> \<le> max_drawdown_pct (navs @ [n])" using ij(3) le by (simp add: max_drawdown_snoc Let_def)
    finally show ?thesis using j by simp
  qed
  have attained: "max_drawdown_pct (navs @ [n]) = 0 \<or>
     (\<exists>i j. i \<le> j \<and> j < length (navs @ [n]) \<and> 0 < (navs @ [n]) ! i \<and>
        max_drawdown_pct (navs @ [n]) = ((navs @ [n]) ! i - (navs @ [n]) ! j) / (navs @ [n]) ! i * 100)"
  proof (cases "max_drawdown_pct (navs @ [n]) = max_drawdown_pct navs")
    case True
    from IH(2) show ?thesis
    proof (elim disjE exE conjE)
      fix i j assume ij: "i \<le> j" "j < length navs" "0 < navs ! i" "max_drawdown_pct navs = (navs ! i - navs ! j) / navs ! i * 100"
      with True show ?thesis by (intro disjI2 exI [of _ i] exI [of _ j]) (simp add: nth_append)
    qed (simp add: True)
  next
    case False
    then have h: "0 < ?h" "max_drawdown_pct (navs @ [n]) = (?h - n) / ?h * 100"
      by (auto simp: max_drawdown_snoc Let_def max_def split: if_splits)
    obtain i where "i < length (navs @ [n])" "?h = (navs @ [n]) ! i" using peak_attained [of "navs @ [n]"] by auto
    with h show ?thesis by (intro disjI2 exI [of _ i] exI [of _ "length navs"]) simp
  qed
  from bound attained show ?case by blast
qed (simp add: max_drawdown_pct_def)

theorem max_drawdown_largest_witness:
  "max_drawdown_pct [100, 120, 90, 150, 140] = 25 \<and> (120 - 90) / 120 * 100 \<le> max_drawdown_pct [100, 120, 90, 150, 140]"
proof -
  have "max_drawdown_pct [100, 120, 90, 150, 140] = 25" by (simp add: max_drawdown_pct_def dd_step_def Let_def)
  moreover have "[100, 120, 90, 150, 140 :: real] ! 1 = 120" "[100, 120, 90, 150, 140 :: real] ! 2 = 90" by simp_all
  ultimately show ?thesis using max_drawdown_largest [of "[100, 120, 90, 150, 140]"]
    by (auto dest!: spec [of _ 1] spec [of _ 2])
qed

end
