(* ===== verification/BtRun.thy ===== *)
theory BtRun
  imports Champion Metrics BtData
begin

text \<open>
  \<open>backtest/run.py\<close>: the backtest engine and its results. A strategy is any function with the contract
  \<open>bt_strategy\<close>: it always decides when its universe is priced, it trades only its universe, and it leaves the
  books to the engine. Champion and challenger are shown to satisfy it, so what holds of the engine over any
  strategy holds of both. A ledger line is a record instead of its text.
\<close>

definition MAX_TRADES_PER_HOUR :: nat where "MAX_TRADES_PER_HOUR = 4"

definition INITIAL_NAV :: real where "INITIAL_NAV = 10000"

definition GATE_DD_PCT :: real where "GATE_DD_PCT = 6"

definition HOURS :: nat where "HOURS = 1008"

type_synonym strategy = "bt_market \<Rightarrow> bt_portfolio \<Rightarrow> py_error + bt_portfolio \<times> bt_intent"

section \<open>The engine\<close>

definition price_at :: "(string \<rightharpoonup> real) \<Rightarrow> string \<Rightarrow> py_error + real" where
  "price_at prices asset = (case prices asset of None \<Rightarrow> Inl (KeyError asset) | Some px \<Rightarrow> Inr px)"

definition bt_execute :: "bt_intent \<Rightarrow> bt_portfolio \<Rightarrow> (string \<rightharpoonup> real) \<Rightarrow> int \<Rightarrow> py_error + bool \<times> bt_portfolio" where
  "bt_execute i p prices hour =
     (case bi_action i of
        BuyA \<Rightarrow> (case price_at prices (bi_asset i) of
            Inl e \<Rightarrow> Inl e
          | Inr px \<Rightarrow> map_sum id (\<lambda>(spent, p'). (0 < spent, p'))
              (buy (bi_asset i) (bi_size i) px hour DEFAULT_FEE_BPS DEFAULT_SLIPPAGE_BPS p))
      | SellA \<Rightarrow> (case price_at prices (bi_asset i) of
            Inl e \<Rightarrow> Inl e
          | Inr px \<Rightarrow> (let (proceeds, p') = sell (bi_asset i) (bi_size i) px DEFAULT_FEE_BPS DEFAULT_SLIPPAGE_BPS p
              in Inr (0 < proceeds, p')))
      | FlattenA \<Rightarrow> map_sum id (\<lambda>(fills, p'). (0 < fills, p')) (flatten prices DEFAULT_FEE_BPS DEFAULT_SLIPPAGE_BPS p)
      | HoldA \<Rightarrow> Inr (False, p))"

record ledger_line =
  ll_hour :: int
  ll_dd :: real
  ll_action :: bt_action
  ll_asset :: string
  ll_size :: real
  ll_reason :: string

text \<open>The loop of one hour: decide and execute until a hold, a trade that does not execute, or the limit.\<close>

fun hour_loop :: "nat \<Rightarrow> strategy \<Rightarrow> bt_market \<Rightarrow> bt_portfolio \<Rightarrow> ledger_line list \<Rightarrow>
    py_error + bt_portfolio \<times> ledger_line list" where
  "hour_loop 0 decide_fn m p ledger = Inr (p, ledger)"
| "hour_loop (Suc n) decide_fn m p ledger =
     (let dd = current_drawdown p in
      case decide_fn m p of
        Inl e \<Rightarrow> Inl e
      | Inr (p1, i) \<Rightarrow>
          if bi_action i = HoldA then Inr (p1, ledger)
          else case bt_execute i p1 (bm_prices m) (bm_t m) of
            Inl e \<Rightarrow> Inl e
          | Inr (executed, p2) \<Rightarrow>
              if \<not> executed then Inr (p2, ledger)
              else hour_loop n decide_fn m p2 (ledger @ [\<lparr>ll_hour = bm_t m, ll_dd = dd, ll_action = bi_action i,
                ll_asset = bi_asset i, ll_size = bi_size i, ll_reason = bi_reason i\<rparr>]))"

text \<open>\<open>prices_per_asset\<close> is an association list of paths; a path that is too short is an \<open>IndexError\<close>.\<close>

definition market_at :: "(string \<times> real list) list \<Rightarrow> nat \<Rightarrow> py_error + bt_market" where
  "market_at ppa h =
     (if list_all (\<lambda>(a, path). h < length path) ppa
      then Inr \<lparr>bm_prices = map_of (map (\<lambda>(a, path). (a, path ! h)) ppa),
                bm_history = map_of (map (\<lambda>(a, path). (a, take (h + 1) path)) ppa), bm_t = int h\<rparr>
      else Inl IndexError)"

fun run_hours :: "strategy \<Rightarrow> (string \<times> real list) list \<Rightarrow> nat list \<Rightarrow> bt_portfolio \<Rightarrow> ledger_line list \<Rightarrow>
    py_error + bt_portfolio \<times> ledger_line list" where
  "run_hours decide_fn ppa [] p ledger = Inr (p, ledger)"
| "run_hours decide_fn ppa (h # hs) p ledger =
     (case market_at ppa h of
        Inl e \<Rightarrow> Inl e
      | Inr m \<Rightarrow>
          (case hour_loop MAX_TRADES_PER_HOUR decide_fn m p ledger of
             Inl e \<Rightarrow> Inl e
           | Inr (p', ledger') \<Rightarrow> run_hours decide_fn ppa hs (fst (mark (bm_prices m) p')) ledger'))"

definition run_strategy :: "strategy \<Rightarrow> (string \<times> real list) list \<Rightarrow> nat list \<Rightarrow>
    py_error + bt_portfolio \<times> ledger_line list" where
  "run_strategy decide_fn ppa hours = run_hours decide_fn ppa hours (new_portfolio INITIAL_NAV) []"

section \<open>The results\<close>

text \<open>\<open>_per_regime_drawdown\<close>: one pass over the regimes with a high-water mark that is never reset.\<close>

definition regime_scan :: "real list \<Rightarrow> real \<times> real \<Rightarrow> nat \<Rightarrow> real \<times> real" where
  "regime_scan navs st h =
     (let (hwm0, mdd) = st; n = navs ! h; hwm = (if hwm0 < n then n else hwm0) in
      (hwm, if 0 < hwm then let dd = (hwm - n) / hwm * 100 in if mdd < dd then dd else mdd else mdd))"

fun regimes_from :: "nat \<Rightarrow> (string \<times> real \<times> real) list \<Rightarrow> real list \<Rightarrow> real \<Rightarrow> (string \<times> real) list" where
  "regimes_from i [] navs hwm = []"
| "regimes_from i ((name, _) # rs) navs hwm =
     (let (hwm', mdd) = foldl (regime_scan navs) (hwm, 0)
        [REGIME_BOUNDS ! i..<min (REGIME_BOUNDS ! (i + 1)) (length navs)]
      in (name, py_round mdd 4) # regimes_from (i + 1) rs navs hwm')"

definition per_regime_drawdown :: "bt_portfolio \<Rightarrow> (string \<times> real) list" where
  "per_regime_drawdown p = regimes_from 0 REGIMES (bt_nav_history p) (- (10 ^ 18))"

record bt_results =
  br_champion_full :: metric_bundle
  br_challenger_full :: metric_bundle
  br_champion_elimination :: "nat option"
  br_challenger_elimination :: "nat option"
  br_window_hours :: nat
  br_champion_window :: "real \<times> real \<times> real \<times> real"
  br_challenger_window :: "real \<times> real \<times> real \<times> real"
  br_champion_regimes :: "(string \<times> real) list"
  br_challenger_regimes :: "(string \<times> real) list"
  br_champion_final_nav :: real
  br_challenger_final_nav :: real
  br_champion_trades :: nat
  br_challenger_trades :: nat

definition first_elimination :: "nat option \<Rightarrow> nat option \<Rightarrow> nat option" where
  "first_elimination a b = (case (a, b) of (None, y) \<Rightarrow> y | (x, None) \<Rightarrow> x | (Some x, Some y) \<Rightarrow> Some (min x y))"

definition results :: "bt_portfolio \<times> ledger_line list \<Rightarrow> bt_portfolio \<times> ledger_line list \<Rightarrow> bt_results" where
  "results champ chal =
     (let (champ_pf, champ_ledger) = champ; (chal_pf, chal_ledger) = chal;
          champ_elim = first_breach_hour (bt_drawdown_history champ_pf) GATE_DD_PCT;
          chal_elim = first_breach_hour (bt_drawdown_history chal_pf) GATE_DD_PCT;
          win_end = (case first_elimination champ_elim chal_elim of Some h \<Rightarrow> h + 1 | None \<Rightarrow> HOURS)
      in \<lparr>br_champion_full = all_metrics champ_pf (bt_nav_history champ_pf) (int HOURS),
          br_challenger_full = all_metrics chal_pf (bt_nav_history chal_pf) (int HOURS),
          br_champion_elimination = champ_elim, br_challenger_elimination = chal_elim,
          br_window_hours = win_end,
          br_champion_window = metrics_from_nav (take win_end (bt_nav_history champ_pf)),
          br_challenger_window = metrics_from_nav (take win_end (bt_nav_history chal_pf)),
          br_champion_regimes = per_regime_drawdown champ_pf, br_challenger_regimes = per_regime_drawdown chal_pf,
          br_champion_final_nav = py_round (last (bt_nav_history champ_pf)) 4,
          br_challenger_final_nav = py_round (last (bt_nav_history chal_pf)) 4,
          br_champion_trades = length champ_ledger, br_challenger_trades = length chal_ledger\<rparr>)"

definition bt_main :: "(nat \<Rightarrow> real) \<Rightarrow> py_error + bt_results" where
  "bt_main draws =
     (case generate_synthetic_prices draws HOURS [] None of
        Inl e \<Rightarrow> Inl e
      | Inr series \<Rightarrow>
          let ppa = map (\<lambda>(a, path). (a, map snd path)) series; hours = [0..<HOURS] in
          (case run_strategy (champion_decide CHAMPION_CFG) ppa hours of
             Inl e \<Rightarrow> Inl e
           | Inr champ \<Rightarrow> map_sum id (results champ) (run_strategy (challenger_decide CHALLENGER_CFG) ppa hours)))"

section \<open>The contract of a strategy\<close>

lemma market_priced:
  assumes "\<forall>(a, path) \<in> set ppa. h < length path \<and> 0 < path ! h"
  shows "\<exists>m. market_at ppa h = Inr m \<and> (\<forall>a \<in> fst ` set ppa. \<exists>px. bm_prices m a = Some px \<and> 0 < px)"
proof -
  let ?now = "map (\<lambda>(a, path). (a, path ! h)) ppa"
  have "list_all (\<lambda>(a, path). h < length path) ppa" using assms by (auto simp: list_all_iff)
  then obtain m where m: "market_at ppa h = Inr m" "bm_prices m = map_of ?now" by (simp add: market_at_def)
  have "\<exists>px. bm_prices m a = Some px \<and> 0 < px" if "a \<in> fst ` set ppa" for a
  proof -
    have "a \<in> fst ` set ?now" using that by force
    then obtain px where px: "bm_prices m a = Some px" unfolding m(2) by (metis map_of_eq_None_iff not_None_eq)
    then have "(a, px) \<in> set ?now" unfolding m(2) by (rule map_of_SomeD)
    then show ?thesis using px assms by auto
  qed
  with m(1) show ?thesis by blast
qed

lemma bt_nav_nonneg:
  assumes "bt_ok p" "\<And>a. a \<in> fst ` set (bt_positions p) \<Longrightarrow> \<exists>px. prices a = Some px \<and> 0 < px"
  shows "0 \<le> bt_nav prices p"
proof -
  have "0 \<le> bt_risky_value prices p"
    unfolding bt_risky_value_def
  proof (rule dict_sum_nonneg)
    fix a q assume "(a, q) \<in> set (bt_positions p)"
    then have "a \<in> fst ` set (bt_positions p)" by force
    from assms(2) [OF this] show "0 \<le> (if 0 < q then q * get_or (prices a) 0 else 0)" by auto
  qed
  with assms(1) show ?thesis by (simp add: bt_nav_def bt_ok_def)
qed

text \<open>What a decision may change: the high-water mark, the last drawdown entry and the flat timer.\<close>

definition books_kept :: "bt_portfolio \<Rightarrow> bt_portfolio \<Rightarrow> bool" where
  "books_kept p p' = (bt_cash p' = bt_cash p \<and> bt_positions p' = bt_positions p \<and>
     bt_entry_price p' = bt_entry_price p \<and> bt_entry_hour p' = bt_entry_hour p \<and>
     bt_nav_history p' = bt_nav_history p \<and> bt_trade_count p' = bt_trade_count p \<and>
     bt_hours_in_market p' = bt_hours_in_market p \<and>
     length (bt_drawdown_history p') = length (bt_drawdown_history p))"

locale bt_strategy =
  fixes decide_fn :: strategy
    and assets :: "string set"
  assumes decides: "bt_ok p \<Longrightarrow> \<forall>a \<in> assets. bm_prices m a \<noteq> None \<Longrightarrow>
      set (map fst (bt_positions p)) \<subseteq> assets \<Longrightarrow> \<exists>p' i. decide_fn m p = Inr (p', i)"
    and keeps_books: "decide_fn m p = Inr (p', i) \<Longrightarrow> books_kept p p'"
    and in_universe: "decide_fn m p = Inr (p', i) \<Longrightarrow> bi_action i \<in> {BuyA, SellA} \<Longrightarrow> bi_asset i \<in> assets"

lemma rearm_keeps: "rearm prices hour p = (p', dd) \<Longrightarrow> books_kept p p'"
  by (auto simp: rearm_def books_kept_def rebaseline_def Let_def split: if_splits option.splits)

lemma champion_total:
  assumes "\<forall>a \<in> set (cc_universe cfg). bm_prices m a \<noteq> None" "cc_lookbacks cfg \<noteq> []" "cc_cadence_h cfg \<noteq> 0"
  shows "\<exists>p' i. champion_decide cfg m p = Inr (p', i)"
proof -
  obtain q dd where q: "rearm (bm_prices m) (bm_t m) p = (q, dd)" by fastforce
  obtain x where x: "champion_exit cfg (bm_prices m) (bm_t m) q (cc_universe cfg) = Inr x"
    using champion_exit_total [OF assms(1)] by blast
  have ent: "\<exists>y. champion_entry cfg m rung nav q = Inr y" for rung nav
    using assms(2) unfolding champion_entry_def Let_def by (simp split: option.split)
  have mic: "\<exists>z. champion_micro cfg m rung q = Inr z" for rung
  proof -
    define due where "due \<longleftrightarrow> bm_t m mod cc_cadence_h cfg = 0 \<and> 0 < bm_t m \<and>
      risky_ratio (bm_prices m) q < cc_target_ratio cfg - cc_band cfg \<and> cc_micro_usd cfg \<le> bt_cash q"
    show ?thesis unfolding champion_micro_def Let_def due_def [symmetric]
      using assms(2,3) by (simp split: option.split)
  qed
  obtain y where y: "champion_entry cfg m (ladder_state dd (cc_ladder cfg)) (bt_nav (bm_prices m) p) q = Inr y"
    using ent by blast
  obtain z where z: "champion_micro cfg m (ladder_state dd (cc_ladder cfg)) q = Inr z" using mic by blast
  show ?thesis
    using q x y z unfolding champion_decide_def Let_def by (cases x; cases y) auto
qed

text \<open>The champion satisfies the contract with every configuration over the four assets.\<close>

lemma champion_strategy:
  assumes univ: "cc_universe cfg = ASSETS" and cfg: "cc_lookbacks cfg \<noteq> []" "cc_cadence_h cfg \<noteq> 0"
  shows "bt_strategy (champion_decide cfg) (set ASSETS)"
proof
  fix p p' m i
  show "\<exists>p' i. champion_decide cfg m p = Inr (p', i)" if "\<forall>a \<in> set ASSETS. bm_prices m a \<noteq> None"
    using champion_total [of cfg m p] that cfg by (simp add: univ)
  assume d: "champion_decide cfg m p = Inr (p', i)"
  show "books_kept p p'"
    using d by (cases rule: champion_decide_cases) (auto dest: rearm_keeps)
  assume "bi_action i \<in> {BuyA, SellA}"
  with d show "bi_asset i \<in> set ASSETS"
  proof (cases rule: champion_decide_cases)
    case (Exit dd)
    from champion_exit_Some [OF Exit(3)] show ?thesis by (auto simp: univ)
  next
    case (Entry dd)
    from champion_entry_Some [OF Entry(3)] show ?thesis by (auto simp: univ)
  next
    case (Micro dd)
    with \<open>bi_action i \<in> _\<close> champion_micro_Inr [OF Micro(3)] show ?thesis by (auto simp: univ)
  qed (auto split: if_splits)
qed

interpretation champion: bt_strategy "champion_decide CHAMPION_CFG" "set ASSETS"
  by (rule champion_strategy) (simp_all add: CHAMPION_CFG_def ASSETS_def)

interpretation challenger: bt_strategy "challenger_decide CHALLENGER_CFG" "set ASSETS"
proof
  have univ: "ch_universe CHALLENGER_CFG = ASSETS" "ASSETS \<noteq> []" by (simp_all add: CHALLENGER_CFG_def ASSETS_def)
  have idx: "ASSETS ! nat (k mod int (length ASSETS)) \<in> set ASSETS" for k :: int
    using univ(2) by (intro nth_mem) (simp add: nat_less_iff)
  fix p p' :: bt_portfolio and m i
  show "\<exists>p' i. challenger_decide CHALLENGER_CFG m p = Inr (p', i)"
    by (simp add: challenger_decide_def Let_def univ)
  assume d: "challenger_decide CHALLENGER_CFG m p = Inr (p', i)"
  then show "books_kept p p'"
    by (auto simp: challenger_decide_def Let_def books_kept_def split: if_splits)
  assume "bi_action i \<in> {BuyA, SellA}"
  with d show "bi_asset i \<in> set ASSETS"
    using idx by (auto simp: challenger_decide_def Let_def univ split: if_splits)
qed

section \<open>The engine over any strategy\<close>

definition held :: "bt_portfolio \<Rightarrow> string set" where
  "held p = set (map fst (bt_positions p))"

lemma keys_update [simp]: "fst ` set (AList.update k v d) = insert k (fst ` set d)"
  by (induction d) auto

lemma buy_positions:
  "buy a usd px h f s p = Inr (x, p') \<Longrightarrow>
    bt_positions p' = bt_positions p \<or> (\<exists>v. bt_positions p' = AList.update a v (bt_positions p))"
  by (auto simp: buy_def Let_def split: if_splits option.splits)

lemma buy_held: "buy a usd px h f s p = Inr (x, p') \<Longrightarrow> held p' \<subseteq> insert a (held p)"
  by (drule buy_positions) (elim disjE exE; simp add: held_def; blast)

lemma sell_positions:
  "sell a fr px f s p = (x, p') \<Longrightarrow> bt_positions p' = bt_positions p \<or>
    (\<exists>v. bt_positions p' = AList.update a v (bt_positions p)) \<or> bt_positions p' = AList.delete a (bt_positions p)"
  by (auto simp: sell_def Let_def drop_asset_def split: if_splits)

lemma keys_delete [simp]: "fst ` set (AList.delete a d) = fst ` set d - {a}"
  by (auto simp: set_delete)

lemma sell_held: "sell a fr px f s p = (x, p') \<Longrightarrow> held p' \<subseteq> insert a (held p)"
  by (drule sell_positions) (elim disjE exE; simp add: held_def; blast)

lemma books_kept_ok: "books_kept p p' \<Longrightarrow> bt_ok p \<Longrightarrow> bt_ok p'"
  by (simp add: books_kept_def bt_ok_def)

lemma books_kept_nav: "books_kept p p' \<Longrightarrow> bt_nav prices p' = bt_nav prices p \<and> held p' = held p"
  by (simp add: books_kept_def bt_nav_def bt_risky_value_def held_def)

lemma flatten_assets_held:
  "flatten_assets as prices f s (k, p) = Inr (n, p') \<Longrightarrow> held p' \<subseteq> set as \<union> held p"
proof (induction as arbitrary: k p)
  case (Cons a as)
  obtain px where px: "prices a = Some px" using Cons.prems by (cases "prices a") auto
  obtain x p1 where sl: "sell a 1 px f s p = (x, p1)" by fastforce
  have "held p' \<subseteq> set as \<union> held p1" by (rule Cons.IH) (use Cons.prems px sl in simp)
  with sell_held [OF sl] show ?case by auto
qed simp

context bt_strategy
begin

lemma execute_ok:
  assumes "bt_ok p" "held p \<subseteq> assets" "\<forall>a \<in> assets. \<exists>px. prices a = Some px \<and> 0 < px"
    "bi_action i \<in> {BuyA, SellA} \<longrightarrow> bi_asset i \<in> assets"
  shows "\<exists>ex p'. bt_execute i p prices hour = Inr (ex, p') \<and> trades prices p p' \<and> held p' \<subseteq> assets"
proof (cases "bi_action i")
  case BuyA
  then obtain px where px: "prices (bi_asset i) = Some px" using assms(3,4) by auto
  obtain x p' where b: "buy (bi_asset i) (bi_size i) px hour DEFAULT_FEE_BPS DEFAULT_SLIPPAGE_BPS p = Inr (x, p')"
      "trades prices p p'"
    using buy_trades [of p DEFAULT_FEE_BPS DEFAULT_SLIPPAGE_BPS prices "bi_asset i" px "bi_size i" hour] assms(1) px
    by (auto simp: DEFAULT_FEE_BPS_def DEFAULT_SLIPPAGE_BPS_def)
  with BuyA px buy_held [OF b(1)] assms(2,4) show ?thesis by (auto simp: bt_execute_def price_at_def)
next
  case SellA
  then obtain px where px: "prices (bi_asset i) = Some px" using assms(3,4) by auto
  obtain x p' where s: "sell (bi_asset i) (bi_size i) px DEFAULT_FEE_BPS DEFAULT_SLIPPAGE_BPS p = (x, p')" by fastforce
  have "trades prices p p'"
    using sell_trades [of p DEFAULT_FEE_BPS DEFAULT_SLIPPAGE_BPS prices "bi_asset i" px "bi_size i" x p'] assms(1) px s
    by (simp add: DEFAULT_FEE_BPS_def DEFAULT_SLIPPAGE_BPS_def)
  with SellA px s sell_held [OF s] assms(2,4) show ?thesis by (auto simp: bt_execute_def price_at_def)
next
  case FlattenA
  have "\<forall>a \<in> held p. prices a \<noteq> None" using assms(2,3) by (metis option.distinct(1) subsetD)
  then have "\<forall>a \<in> set (map fst (bt_positions p)). prices a \<noteq> None" by (simp only: held_def)
  then obtain n p' where f: "flatten_assets (map fst (bt_positions p)) prices DEFAULT_FEE_BPS DEFAULT_SLIPPAGE_BPS (0, p) = Inr (n, p')"
      "trades prices p p'"
    using flatten_assets_trades [of p DEFAULT_FEE_BPS DEFAULT_SLIPPAGE_BPS "map fst (bt_positions p)" prices 0] assms(1)
    by (auto simp: DEFAULT_FEE_BPS_def DEFAULT_SLIPPAGE_BPS_def)
  have "held p' \<subseteq> held p" using flatten_assets_held [OF f(1)] by (simp add: held_def)
  with FlattenA f assms(2) show ?thesis by (auto simp: bt_execute_def flatten_def)
next
  case HoldA
  with assms show ?thesis by (auto simp: bt_execute_def trades_refl)
qed

lemma hour_loop_ok:
  assumes "bt_ok p" "held p \<subseteq> assets" "\<forall>a \<in> assets. \<exists>px. bm_prices m a = Some px \<and> 0 < px"
  shows "\<exists>p' l'. hour_loop n decide_fn m p l = Inr (p', l') \<and> bt_ok p' \<and> held p' \<subseteq> assets \<and>
    bt_nav (bm_prices m) p' \<le> bt_nav (bm_prices m) p \<and> bt_nav_history p' = bt_nav_history p \<and>
    length (bt_drawdown_history p') = length (bt_drawdown_history p) \<and>
    prefix l l' \<and> length l' \<le> length l + n"
  using assms(1,2)
proof (induction n arbitrary: p l)
  case (Suc n)
  have priced: "\<forall>a \<in> assets. bm_prices m a \<noteq> None" using assms(3) by auto
  obtain p1 i where d: "decide_fn m p = Inr (p1, i)"
    using decides [OF Suc.prems(1) priced] Suc.prems(2) by (auto simp: held_def)
  have kept: "books_kept p p1" by (rule keeps_books [OF d])
  have p1: "bt_ok p1" "held p1 \<subseteq> assets" "bt_nav (bm_prices m) p1 = bt_nav (bm_prices m) p"
    "bt_nav_history p1 = bt_nav_history p" "length (bt_drawdown_history p1) = length (bt_drawdown_history p)"
    using books_kept_ok [OF kept Suc.prems(1)] books_kept_nav [OF kept] Suc.prems(2) kept
    by (auto simp: books_kept_def)
  show ?case
  proof (cases "bi_action i = HoldA")
    case True
    with d p1 show ?thesis by (auto simp: Let_def)
  next
    case False
    obtain ex p2 where ex: "bt_execute i p1 (bm_prices m) (bm_t m) = Inr (ex, p2)" "trades (bm_prices m) p1 p2"
        "held p2 \<subseteq> assets"
      using execute_ok [OF p1(1,2) assms(3)] in_universe [OF d] by blast
    then have p2: "bt_ok p2" "bt_nav (bm_prices m) p2 \<le> bt_nav (bm_prices m) p" "bt_nav_history p2 = bt_nav_history p"
      "length (bt_drawdown_history p2) = length (bt_drawdown_history p)"
      using p1 by (auto simp: trades_def same_marks_def)
    show ?thesis
    proof (cases ex)
      case False
      with d \<open>bi_action i \<noteq> HoldA\<close> ex p2 show ?thesis by (auto simp: Let_def)
    next
      case True
      let ?line = "\<lparr>ll_hour = bm_t m, ll_dd = current_drawdown p, ll_action = bi_action i, ll_asset = bi_asset i,
        ll_size = bi_size i, ll_reason = bi_reason i\<rparr>"
      from Suc.IH [OF p2(1) ex(3), of "l @ [?line]"] obtain p' l' where
        "hour_loop n decide_fn m p2 (l @ [?line]) = Inr (p', l')" "bt_ok p'" "held p' \<subseteq> assets"
        "bt_nav (bm_prices m) p' \<le> bt_nav (bm_prices m) p2" "bt_nav_history p' = bt_nav_history p2"
        "length (bt_drawdown_history p') = length (bt_drawdown_history p2)" "prefix (l @ [?line]) l'"
        "length l' \<le> length (l @ [?line]) + n" by blast
      with d \<open>bi_action i \<noteq> HoldA\<close> ex p2 True show ?thesis
        by (auto simp: Let_def dest: append_prefixD)
    qed
  qed
qed simp

lemma run_hours_ok:
  assumes "bt_ok p" "held p \<subseteq> assets" "assets \<subseteq> fst ` set ppa"
    "\<forall>(a, path) \<in> set ppa. \<forall>h \<in> set hs. h < length path \<and> 0 < path ! h"
  shows "\<exists>p' l' navs. run_hours decide_fn ppa hs p l = Inr (p', l') \<and> bt_ok p' \<and> held p' \<subseteq> assets \<and>
    bt_nav_history p' = bt_nav_history p @ navs \<and> length navs = length hs \<and> (\<forall>n \<in> set navs. 0 \<le> n) \<and>
    length (bt_drawdown_history p') = length (bt_drawdown_history p) + length hs \<and>
    prefix l l' \<and> length l' \<le> length l + MAX_TRADES_PER_HOUR * length hs \<and>
    ((\<forall>h \<in> set hs. \<exists>m. market_at ppa h = Inr m \<and> bm_prices m = prices) \<longrightarrow>
      sorted_wrt (\<ge>) (bt_nav prices p # navs))"
  using assms(1,2,4)
proof (induction hs arbitrary: p l)
  case (Cons h hs)
  have at_h: "\<forall>(a, path) \<in> set ppa. h < length path \<and> 0 < path ! h" using Cons.prems(3) by auto
  obtain m where m: "market_at ppa h = Inr m" and px: "\<forall>a \<in> fst ` set ppa. \<exists>px. bm_prices m a = Some px \<and> 0 < px"
    using market_priced [OF at_h] by blast
  have priced: "\<exists>px. bm_prices m a = Some px \<and> 0 < px" if "a \<in> assets" for a
    using px that assms(3) by blast
  obtain p1 l1 where h1: "hour_loop MAX_TRADES_PER_HOUR decide_fn m p l = Inr (p1, l1)" "bt_ok p1" "held p1 \<subseteq> assets"
      "bt_nav (bm_prices m) p1 \<le> bt_nav (bm_prices m) p" "bt_nav_history p1 = bt_nav_history p"
      "length (bt_drawdown_history p1) = length (bt_drawdown_history p)" "prefix l l1"
      "length l1 \<le> length l + MAX_TRADES_PER_HOUR"
    using hour_loop_ok [OF Cons.prems(1,2), of m MAX_TRADES_PER_HOUR l] priced by blast
  define p2 where "p2 = fst (mark (bm_prices m) p1)"
  have p2: "bt_ok p2" "held p2 \<subseteq> assets" "bt_nav_history p2 = bt_nav_history p @ [bt_nav (bm_prices m) p1]"
      "length (bt_drawdown_history p2) = length (bt_drawdown_history p) + 1" "bt_nav q p2 = bt_nav q p1" for q
    using h1 by (simp_all add: p2_def mark_def Let_def bt_ok_def held_def bt_nav_def bt_risky_value_def)
  have nav: "0 \<le> bt_nav (bm_prices m) p1"
  proof (rule bt_nav_nonneg [OF h1(2)])
    fix a assume "a \<in> fst ` set (bt_positions p1)"
    then have "a \<in> assets" using h1(3) unfolding held_def set_map by blast
    then show "\<exists>px. bm_prices m a = Some px \<and> 0 < px" by (rule priced)
  qed
  obtain p' l' navs where run: "run_hours decide_fn ppa hs p2 l1 = Inr (p', l')" "bt_ok p'" "held p' \<subseteq> assets"
      "bt_nav_history p' = bt_nav_history p2 @ navs" "length navs = length hs" "\<forall>n \<in> set navs. 0 \<le> n"
      "length (bt_drawdown_history p') = length (bt_drawdown_history p2) + length hs" "prefix l1 l'"
      "length l' \<le> length l1 + MAX_TRADES_PER_HOUR * length hs"
      "(\<forall>h \<in> set hs. \<exists>m. market_at ppa h = Inr m \<and> bm_prices m = prices) \<longrightarrow> sorted_wrt (\<ge>) (bt_nav prices p2 # navs)"
    using Cons.IH [OF p2(1,2), of l1] Cons.prems(3) by fastforce
  show ?case
  proof (intro exI conjI)
    show "run_hours decide_fn ppa (h # hs) p l = Inr (p', l')" using m h1(1) run(1) by (simp add: p2_def)
    show "bt_nav_history p' = bt_nav_history p @ (bt_nav (bm_prices m) p1 # navs)" using run(4) p2(3) by simp
    show "prefix l l'" using h1(7) run(8) by (rule prefix_order.trans)
    show "(\<forall>h \<in> set (h # hs). \<exists>m. market_at ppa h = Inr m \<and> bm_prices m = prices) \<longrightarrow>
        sorted_wrt (\<ge>) (bt_nav prices p # bt_nav (bm_prices m) p1 # navs)"
    proof
      assume all: "\<forall>h \<in> set (h # hs). \<exists>m. market_at ppa h = Inr m \<and> bm_prices m = prices"
      then have "bm_prices m = prices" using m by auto
      moreover from this all run(10) p2(5) have "sorted_wrt (\<ge>) (bt_nav (bm_prices m) p1 # navs)" by simp
      ultimately show "sorted_wrt (\<ge>) (bt_nav prices p # bt_nav (bm_prices m) p1 # navs)"
        using h1(4) by (fastforce intro: order_trans)
    qed
  qed (use run p2 nav h1 in auto)
next
  case Nil
  then show ?case by auto
qed

end

section \<open>Both strategies\<close>

definition strategies :: "strategy list" where
  "strategies = [champion_decide CHAMPION_CFG, challenger_decide CHALLENGER_CFG]"

definition priced_market :: "(string \<times> real list) list \<Rightarrow> nat list \<Rightarrow> bool" where
  "priced_market ppa hours = (set ASSETS \<subseteq> fst ` set ppa \<and>
     (\<forall>(a, path) \<in> set ppa. \<forall>h \<in> set hours. h < length path \<and> 0 < path ! h))"

lemma run_both:
  assumes "decide_fn \<in> set strategies" "priced_market ppa hours"
  shows "\<exists>p l. run_strategy decide_fn ppa hours = Inr (p, l) \<and> bt_ok p \<and> held p \<subseteq> set ASSETS \<and>
    length (bt_nav_history p) = length hours \<and> (\<forall>n \<in> set (bt_nav_history p). 0 \<le> n) \<and>
    length (bt_drawdown_history p) = length hours \<and> length l \<le> MAX_TRADES_PER_HOUR * length hours \<and>
    ((\<forall>h \<in> set hours. \<exists>m. market_at ppa h = Inr m \<and> bm_prices m = prices) \<longrightarrow>
      sorted_wrt (\<ge>) (INITIAL_NAV # bt_nav_history p))"
proof -
  have ok: "bt_ok (new_portfolio INITIAL_NAV)" by (rule bt_ok_new) (simp add: INITIAL_NAV_def)
  have empty: "held (new_portfolio INITIAL_NAV) \<subseteq> set ASSETS" "bt_nav_history (new_portfolio INITIAL_NAV) = []"
    "bt_drawdown_history (new_portfolio INITIAL_NAV) = []" "bt_nav prices (new_portfolio INITIAL_NAV) = INITIAL_NAV"
    by (simp_all add: held_def new_portfolio_def bt_nav_def bt_risky_value_def)
  have ppa: "set ASSETS \<subseteq> fst ` set ppa" "\<forall>(a, path) \<in> set ppa. \<forall>h \<in> set hours. h < length path \<and> 0 < path ! h"
    using assms(2) by (simp_all add: priced_market_def)
  from assms(1) consider "decide_fn = champion_decide CHAMPION_CFG" | "decide_fn = challenger_decide CHALLENGER_CFG"
    by (auto simp: strategies_def)
  then show ?thesis
  proof cases
    case 1
    with champion.run_hours_ok [OF ok empty(1) ppa, of "[]" prices] empty show ?thesis
      by (auto simp: run_strategy_def)
  next
    case 2
    with challenger.run_hours_ok [OF ok empty(1) ppa, of "[]" prices] empty show ?thesis
      by (auto simp: run_strategy_def)
  qed
qed

text \<open>The lines that a run adds, hour by hour: those of an hour carry it and are at most as many as the limit.\<close>

definition hourly_lines :: "nat \<Rightarrow> ledger_line list \<Rightarrow> bool" where
  "hourly_lines h ls = (length ls \<le> MAX_TRADES_PER_HOUR \<and> (\<forall>x \<in> set ls. ll_hour x = int h))"

lemma hour_loop_lines:
  "hour_loop n decide_fn m p l = Inr (p', l') \<Longrightarrow>
    \<exists>ls. l' = l @ ls \<and> length ls \<le> n \<and> (\<forall>x \<in> set ls. ll_hour x = bm_t m)"
proof (induction n arbitrary: p l)
  case (Suc n)
  let ?line = "\<lambda>i :: bt_intent. \<lparr>ll_hour = bm_t m, ll_dd = current_drawdown p, ll_action = bi_action i, ll_asset = bi_asset i,
    ll_size = bi_size i, ll_reason = bi_reason i\<rparr>"
  from Suc.prems consider "l' = l" | p2 i where "hour_loop n decide_fn m p2 (l @ [?line i]) = Inr (p', l')"
    by (auto simp: Let_def split: sum.splits if_splits)
  then show ?case
  proof cases
    case 2
    from Suc.IH [OF this] obtain ls where "l' = (l @ [?line i]) @ ls" "length ls \<le> n" "\<forall>x \<in> set ls. ll_hour x = bm_t m"
      by blast
    then show ?thesis by (intro exI [of _ "?line i # ls"]) simp
  qed simp
qed simp

lemma run_hours_lines:
  "run_hours decide_fn ppa hs p l = Inr (p', l') \<Longrightarrow> \<exists>lss. l' = l @ concat lss \<and> list_all2 hourly_lines hs lss"
proof (induction hs arbitrary: p l)
  case (Cons h hs)
  obtain m where m: "market_at ppa h = Inr m" using Cons.prems by (cases "market_at ppa h") auto
  then have t: "bm_t m = int h" by (auto simp: market_at_def split: if_splits)
  obtain p1 l1 where h1: "hour_loop MAX_TRADES_PER_HOUR decide_fn m p l = Inr (p1, l1)"
    using Cons.prems m by (cases "hour_loop MAX_TRADES_PER_HOUR decide_fn m p l") auto
  obtain ls where ls: "l1 = l @ ls" "hourly_lines h ls" using hour_loop_lines [OF h1] t by (auto simp: hourly_lines_def)
  have "run_hours decide_fn ppa hs (fst (mark (bm_prices m) p1)) l1 = Inr (p', l')" using Cons.prems m h1 by simp
  from Cons.IH [OF this] obtain lss where "l' = l1 @ concat lss" "list_all2 hourly_lines hs lss" by blast
  with ls show ?case by (intro exI [of _ "ls # lss"]) simp
qed simp

text \<open>
  C24. The backtest runs through for both strategies: with a positive price for every asset and hour it returns a
  portfolio without overdraft or empty position, with one non-negative NAV and one drawdown per hour. Its ledger is
  one block of lines per hour, in the order of the hours: at most four executed intents in any hour, whatever happened
  in the hours before (a flatten is one intent and one line, however many positions it sells).
\<close>

theorem backtest_returns:
  assumes "decide_fn \<in> set strategies" "priced_market ppa hours"
  shows "\<exists>p lss. run_strategy decide_fn ppa hours = Inr (p, concat lss) \<and> bt_ok p \<and>
    length (bt_nav_history p) = length hours \<and> (\<forall>n \<in> set (bt_nav_history p). 0 \<le> n) \<and>
    length (bt_drawdown_history p) = length hours \<and>
    list_all2 (\<lambda>h ls. length ls \<le> 4 \<and> (\<forall>x \<in> set ls. ll_hour x = int h)) hours lss"
proof -
  obtain p l where r: "run_strategy decide_fn ppa hours = Inr (p, l)" "bt_ok p"
      "length (bt_nav_history p) = length hours" "\<forall>n \<in> set (bt_nav_history p). 0 \<le> n"
      "length (bt_drawdown_history p) = length hours"
    using run_both [OF assms] by blast
  obtain lss where "l = concat lss" "list_all2 hourly_lines hours lss"
    using run_hours_lines [OF r(1) [unfolded run_strategy_def]] by auto
  with r show ?thesis unfolding hourly_lines_def [abs_def] MAX_TRADES_PER_HOUR_def by blast
qed

definition ex_paths :: "(string \<times> real list) list" where
  "ex_paths = map (\<lambda>a. (a, replicate 30 100)) ASSETS"

lemma ex_paths_priced: "priced_market ex_paths [0..<30]"
  by (auto simp: priced_market_def ex_paths_def image_image)

theorem backtest_returns_witness:
  "\<exists>p l. run_strategy (champion_decide CHAMPION_CFG) ex_paths [0..<30] = Inr (p, l) \<and> length (bt_nav_history p) = 30"
  using backtest_returns [OF _ ex_paths_priced, of "champion_decide CHAMPION_CFG"] by (auto simp: strategies_def)

text \<open>
  Trading creates no value: when prices do not move, fees and slippage can only cost, so the equity curve of
  either strategy starts at or below the initial NAV and never rises.
\<close>

theorem flat_market_never_gains:
  assumes "decide_fn \<in> set strategies" "priced_market ppa hours"
    and "\<forall>h \<in> set hours. \<exists>m. market_at ppa h = Inr m \<and> bm_prices m = prices"
  shows "\<exists>p l. run_strategy decide_fn ppa hours = Inr (p, l) \<and> sorted_wrt (\<ge>) (INITIAL_NAV # bt_nav_history p)"
  using run_both [OF assms(1,2), of prices] assms(3) by blast

theorem flat_market_never_gains_witness:
  "\<exists>p l. run_strategy (challenger_decide CHALLENGER_CFG) ex_paths [0..<30] = Inr (p, l) \<and>
    sorted_wrt (\<ge>) (10000 # bt_nav_history p)"
proof -
  have "market_at ex_paths h = Inr \<lparr>bm_prices = map_of (map (\<lambda>a. (a, 100)) ASSETS),
      bm_history = map_of (map (\<lambda>(a, path). (a, take (h + 1) path)) ex_paths), bm_t = int h\<rparr>" if "h < 30" for h
  proof -
    have "list_all (\<lambda>(a, path). h < length path) ex_paths" using that by (auto simp: ex_paths_def list_all_iff)
    moreover have "map (\<lambda>(a, path). (a, path ! h)) ex_paths = map (\<lambda>a. (a, 100)) ASSETS"
      using that by (simp add: ex_paths_def)
    ultimately show ?thesis by (simp add: market_at_def)
  qed
  then have "\<forall>h \<in> set [0..<30]. \<exists>m. market_at ex_paths h = Inr m \<and> bm_prices m = map_of (map (\<lambda>a. (a, 100)) ASSETS)"
    by auto
  from flat_market_never_gains [OF _ ex_paths_priced this, of "challenger_decide CHALLENGER_CFG"] show ?thesis
    by (auto simp: strategies_def INITIAL_NAV_def)
qed

section \<open>The baseline's cadence\<close>

lemma buy_notional:
  assumes "bt_ok p" "0 < px" "0 < usd" "usd * (1 + fee / 10000) \<le> bt_cash p" "0 \<le> fee" "0 \<le> slip"
  shows "\<exists>p'. buy a usd px hour fee slip p = Inr (usd + usd * fee / 10000, p') \<and> bt_ok p' \<and>
    bt_cash p' = bt_cash p - usd * (1 + fee / 10000)"
proof -
  have fee: "0 \<le> usd * fee / 10000" using assms by simp
  have "usd + usd * fee / 10000 \<le> bt_cash p" using assms(4) by (simp add: algebra_simps)
  moreover from this fee have min: "min usd (bt_cash p) = usd" by simp
  moreover have "0 < px * (1 + slip / 10000)" using assms by (simp add: add_pos_nonneg)
  ultimately have "buy a usd px hour fee slip p \<noteq> Inr (0, p)" "\<And>x p'. buy a usd px hour fee slip p = Inr (x, p') \<Longrightarrow> x = usd + usd * fee / 10000"
    using assms(2,3) fee by (auto simp: buy_def Let_def min split: if_splits option.splits)
  with assms(1,5,6) show ?thesis
    by (cases rule: buy_cases [of p fee slip a usd px hour]) (auto simp: algebra_simps)
qed

lemma dca_hour:
  assumes "bm_prices m a = Some px" "0 < px" "0 < bi_size i" "bi_action i = BuyA" "bi_asset i = a"
    "\<And>q. bi_size i \<le> bt_cash q \<Longrightarrow> decide_fn m q = Inr (q, i)"
  shows "bt_ok p \<Longrightarrow> of_nat n * (bi_size i * (1 + DEFAULT_FEE_BPS / 10000)) \<le> bt_cash p \<Longrightarrow>
    \<exists>p' l'. hour_loop n decide_fn m p l = Inr (p', l') \<and> length l' = length l + n \<and>
      bt_cash p' = bt_cash p - of_nat n * (bi_size i * (1 + DEFAULT_FEE_BPS / 10000))"
proof (induction n arbitrary: p l)
  case (Suc n)
  let ?c = "bi_size i * (1 + DEFAULT_FEE_BPS / 10000)"
  have c: "bi_size i \<le> ?c" "0 < ?c" using assms(3) by (simp_all add: DEFAULT_FEE_BPS_def)
  have nonneg: "0 \<le> of_nat n * ?c" using c by simp
  have split: "of_nat (Suc n) * ?c = ?c + of_nat n * ?c" by (simp only: of_nat_Suc distrib_right mult_1_left)
  have cash: "?c \<le> bt_cash p" "of_nat n * ?c \<le> bt_cash p - ?c"
    using nonneg Suc.prems(2) [unfolded split] by linarith+
  obtain p1 where b: "buy a (bi_size i) px (bm_t m) DEFAULT_FEE_BPS DEFAULT_SLIPPAGE_BPS p =
      Inr (bi_size i + bi_size i * DEFAULT_FEE_BPS / 10000, p1)" "bt_ok p1" "bt_cash p1 = bt_cash p - ?c"
    using buy_notional [of p px "bi_size i" DEFAULT_FEE_BPS DEFAULT_SLIPPAGE_BPS a "bm_t m"] Suc.prems(1) assms(2,3) cash(1)
    by (auto simp: DEFAULT_FEE_BPS_def DEFAULT_SLIPPAGE_BPS_def)
  have pos: "0 < bi_size i + bi_size i * DEFAULT_FEE_BPS / 10000" using assms(3) by (simp add: DEFAULT_FEE_BPS_def)
  have d: "decide_fn m p = Inr (p, i)" using assms(6) c(1) cash(1) by simp
  have ex: "bt_execute i p (bm_prices m) (bm_t m) = Inr (True, p1)"
    using b(1) pos assms(1,4,5) by (simp add: bt_execute_def price_at_def)
  let ?l = "l @ [\<lparr>ll_hour = bm_t m, ll_dd = current_drawdown p, ll_action = bi_action i,
    ll_asset = bi_asset i, ll_size = bi_size i, ll_reason = bi_reason i\<rparr>]"
  obtain p' l' where r: "hour_loop n decide_fn m p1 ?l = Inr (p', l')" "length l' = length ?l + n"
      "bt_cash p' = bt_cash p1 - of_nat n * ?c"
    using Suc.IH [OF b(2), of ?l] cash(2) b(3) by auto
  have "hour_loop (Suc n) decide_fn m p l = Inr (p', l')" using d ex r(1) assms(4) by (simp add: Let_def)
  moreover have "bt_cash p' = bt_cash p - of_nat (Suc n) * ?c" unfolding r(3) b(3) split by linarith
  ultimately show ?case using r(2) by simp
qed simp

text \<open>
  The baseline buys four times per cadence, not once: the engine asks again until a hold or the hourly limit,
  and the baseline decides by the clock alone, so in an hour on cadence with enough cash it spends its notional
  (and the fee) as often as the limit allows, and only then stops.
\<close>

theorem dca_buys_four_times:
  assumes "bt_ok p" "bm_t m \<noteq> 0" "0 < ch_cadence_h cfg" "bm_t m mod ch_cadence_h cfg = 0" "ch_universe cfg \<noteq> []"
    and "\<forall>a \<in> set (ch_universe cfg). \<exists>px. bm_prices m a = Some px \<and> 0 < px" "0 < ch_notional_usd cfg"
    and "4 * (ch_notional_usd cfg * (1 + DEFAULT_FEE_BPS / 10000)) \<le> bt_cash p"
  shows "\<exists>p' l'. hour_loop MAX_TRADES_PER_HOUR (challenger_decide cfg) m p l = Inr (p', l') \<and>
    length l' = length l + 4 \<and> bt_cash p' = bt_cash p - 4 * (ch_notional_usd cfg * (1 + DEFAULT_FEE_BPS / 10000))"
proof -
  define a where "a = ch_universe cfg ! nat ((bm_t m div ch_cadence_h cfg) mod int (length (ch_universe cfg)))"
  define i where "i = \<lparr>bi_action = BuyA, bi_asset = a, bi_size = ch_notional_usd cfg,
    bi_reason = ''dca:'' @ a @ ''@$'' @ fmt_f 0 (ch_notional_usd cfg) @ ''/'' @ show_int (ch_cadence_h cfg) @ ''h''\<rparr>"
  have "a \<in> set (ch_universe cfg)" using assms(5) unfolding a_def by (intro nth_mem) (simp add: nat_less_iff)
  then obtain px where px: "bm_prices m a = Some px" "0 < px" using assms(6) by blast
  have "challenger_decide cfg m q = Inr (q, i)" if "bi_size i \<le> bt_cash q" for q
    using that assms(2-5) by (simp add: challenger_decide_def Let_def i_def a_def)
  moreover have "0 < bi_size i" "bi_action i = BuyA" "bi_asset i = a" "bi_size i = ch_notional_usd cfg"
    using assms(7) by (simp_all add: i_def)
  ultimately show ?thesis
    using dca_hour [of m a px i "challenger_decide cfg" p 4 l] px assms(1,8) by (simp add: MAX_TRADES_PER_HOUR_def)
qed

theorem dca_buys_four_times_witness:
  "\<exists>p' l'. hour_loop 4 (challenger_decide CHALLENGER_CFG)
     \<lparr>bm_prices = (\<lambda>_. Some 100), bm_history = Map.empty, bm_t = 6\<rparr> (new_portfolio 10000) [] = Inr (p', l') \<and> length l' = 4"
  using dca_buys_four_times [of "new_portfolio 10000" "\<lparr>bm_prices = (\<lambda>_. Some 100), bm_history = Map.empty, bm_t = 6\<rparr>"
      CHALLENGER_CFG "[]"] bt_ok_new [of 10000]
  by (auto simp: CHALLENGER_CFG_def new_portfolio_def DEFAULT_FEE_BPS_def MAX_TRADES_PER_HOUR_def)

text \<open>
  The elimination hour is read off the drawdowns that the champion's re-arming restarts: a portfolio that lost
  five percent, stayed flat for a day, re-armed and lost five percent again is never counted as eliminated,
  although its equity curve has fallen by more than the six percent of the gate.
\<close>

definition ex_rearmed :: bt_portfolio where
  "ex_rearmed = fst (rearm Map.empty 24 ((new_portfolio 9500)\<lparr>bt_hwm := 10000, bt_nav_history := [10000, 9500],
     bt_drawdown_history := [0, 5], bt_flat_since := Some 0\<rparr>))"

theorem rearming_hides_elimination:
  "let p = fst (mark Map.empty (ex_rearmed\<lparr>bt_cash := 9025\<rparr>)) in
   first_breach_hour (bt_drawdown_history p) GATE_DD_PCT = None \<and> GATE_DD_PCT < max_drawdown_pct (bt_nav_history p)"
  by (simp add: ex_rearmed_def rearm_def current_drawdown_def bt_risky_value_def new_portfolio_def rebaseline_def
      bt_nav_def mark_def Let_def first_breach_hour_def GATE_DD_PCT_def max_drawdown_pct_def dd_step_def)

end
