(* ===== verification/BtReport.thy ===== *)
theory BtReport
  imports BtRun
begin

text \<open>
  The printed comparison of \<open>backtest/run.py\<close>: its three tables, the verdict and the results file's contents. A report
  is the list of the texts given to \<open>print\<close>. A metric printed with \<open>{c:>11.4f}\<close> or \<open>{c:>11}\<close> is a cell of its kind.
\<close>

section \<open>Fields of a line\<close>

text \<open>\<open>f"{s:>w}"\<close>, \<open>f"{s:<w}"\<close> and \<open>s.center(w)\<close> of Python, which gives an odd rest to the left when the width is odd.\<close>

definition blanks :: "nat \<Rightarrow> string" where
  "blanks n = replicate n CHR '' ''"

definition pad_left :: "nat \<Rightarrow> string \<Rightarrow> string" where
  "pad_left w s = blanks (w - length s) @ s"

definition pad_right :: "nat \<Rightarrow> string \<Rightarrow> string" where
  "pad_right w s = s @ blanks (w - length s)"

definition centered :: "nat \<Rightarrow> string \<Rightarrow> string" where
  "centered w s = (let m = w - length s; l = m div 2 + (if odd m \<and> odd w then 1 else 0) in blanks l @ s @ blanks (m - l))"

datatype cell = FloatCell real | IntCell int

definition cell_text :: "cell \<Rightarrow> string" where
  "cell_text c = (case c of FloatCell x \<Rightarrow> pad_left 11 (fmt_f 4 x) | IntCell i \<Rightarrow> pad_left 11 (show_int i))"

definition table_row :: "string \<Rightarrow> string \<Rightarrow> string \<Rightarrow> string" where
  "table_row label c n = ''| '' @ pad_right 44 label @ '' | '' @ c @ '' | '' @ n @ '' |''"

definition rule_line :: "char \<Rightarrow> string" where
  "rule_line ch = ''+'' @ replicate 46 ch @ ''+'' @ replicate 13 ch @ ''+'' @ replicate 13 ch @ ''+''"

definition header_row :: "string \<Rightarrow> string" where
  "header_row title = table_row title (pad_left 11 ''champion'') (pad_left 11 ''challenger'')"

section \<open>The tables\<close>

definition full_rows :: "metric_bundle \<Rightarrow> metric_bundle \<Rightarrow> (string \<times> cell \<times> cell) list" where
  "full_rows champ chal =
     [(''total return (%)'', FloatCell (mb_total_return_pct champ), FloatCell (mb_total_return_pct chal)),
      (''max drawdown (%)'', FloatCell (mb_max_drawdown_pct champ), FloatCell (mb_max_drawdown_pct chal)),
      (''Sharpe (annualised)'', FloatCell (mb_sharpe champ), FloatCell (mb_sharpe chal)),
      (''Calmar (period: ret/maxDD)'', FloatCell (mb_calmar champ), FloatCell (mb_calmar chal)),
      (''trade count'', IntCell (mb_trade_count champ), IntCell (mb_trade_count chal)),
      (''% time in market'', FloatCell (mb_pct_time_in_market champ), FloatCell (mb_pct_time_in_market chal))]"

text \<open>The remark on the drawdown row; the champion's is shown only when the challenger has none.\<close>

definition drawdown_flag :: "string \<Rightarrow> real \<Rightarrow> real \<Rightarrow> string" where
  "drawdown_flag label c n =
     (if prefix ''max drawdown'' label
      then if GATE_DD_PCT \<le> n then ''  <-- breaches 6% gate'' else if 4 \<le> c then ''  <-- ladder flatten rung'' else []
      else [])"

definition cell_value :: "cell \<Rightarrow> real" where
  "cell_value c = (case c of FloatCell x \<Rightarrow> x | IntCell i \<Rightarrow> of_int i)"

definition full_table :: "metric_bundle \<Rightarrow> metric_bundle \<Rightarrow> string list" where
  "full_table champ chal =
     [newline @ replicate 78 CHR ''='', centered 78 '' TRACK-2 HEAD-TO-HEAD: CHAMPION vs CHALLENGER'',
      centered 78 '' 6 weeks of hourly bars | 4 regimes | same costs (25 bps fee + 30 bps slip)'', replicate 78 CHR ''='',
      ''(A) FULL-PERIOD METRICS  (honest; includes challenger's post-elim paper gain)'',
      rule_line CHR ''-'', header_row ''metric'', rule_line CHR ''=''] @
     map (\<lambda>(label, c, n). table_row label (cell_text c) (cell_text n) @ drawdown_flag label (cell_value c) (cell_value n))
       (full_rows champ chal) @
     [rule_line CHR ''-'']"

definition window_rows :: "real \<times> real \<times> real \<times> real \<Rightarrow> real \<times> real \<times> real \<times> real \<Rightarrow> (string \<times> cell \<times> cell) list" where
  "window_rows champ_win chal_win =
     (case (champ_win, chal_win) of ((r, d, s, k), (r', d', s', k')) \<Rightarrow>
       [(''total return (%)'', FloatCell r, FloatCell r'), (''max drawdown (%)'', FloatCell d, FloatCell d'),
        (''Sharpe (annualised)'', FloatCell s, FloatCell s'), (''Calmar (period: ret/maxDD)'', FloatCell k, FloatCell k')])"

definition competition_table :: "real \<times> real \<times> real \<times> real \<Rightarrow> real \<times> real \<times> real \<times> real \<Rightarrow> nat \<Rightarrow> nat option \<Rightarrow> string list" where
  "competition_table champ_win chal_win window_hours elim_hour =
     [case elim_hour of
        None \<Rightarrow> newline @ ''(B) COMPETITION-WINDOW METRICS  (neither strategy breached 6%)''
      | Some h \<Rightarrow> newline @ ''(B) COMPETITION-WINDOW METRICS  (both alive: hours 0..'' @ show_nat h @
          '', the moment the challenger is eliminated)'',
      rule_line CHR ''-'', header_row (''metric (over '' @ show_nat window_hours @ ''-hour window)''), rule_line CHR ''=''] @
     map (\<lambda>(label, c, n). table_row label (cell_text c) (cell_text n)) (window_rows champ_win chal_win) @
     [rule_line CHR ''-'']"

definition regime_rule :: "char \<Rightarrow> string" where
  "regime_rule ch = ''+'' @ replicate 18 ch @ ''+'' @ replicate 13 ch @ ''+'' @ replicate 13 ch @ ''+''"

definition regime_row :: "string \<Rightarrow> string \<Rightarrow> string \<Rightarrow> string" where
  "regime_row name c n = ''| '' @ pad_right 16 name @ '' | '' @ c @ '' | '' @ n @ '' |''"

definition regime_table :: "(string \<times> real) list \<Rightarrow> (string \<times> real) list \<Rightarrow> string list" where
  "regime_table champion challenger =
     [newline @ ''(C) MAX DRAWDOWN (%) BY REGIME  (continuous global HWM)'', regime_rule CHR ''-'',
      regime_row ''regime'' (pad_left 11 ''champion'') (pad_left 11 ''challenger''), regime_rule CHR ''=''] @
     map (\<lambda>(name, _). let c = get_or (map_of champion name) 0; n = get_or (map_of challenger name) 0 in
         regime_row name (pad_left 11 (fmt_f 4 c)) (pad_left 11 (fmt_f 4 n)) @
         (if GATE_DD_PCT \<le> n then ''  <-- eliminated'' else [])) REGIMES @
     [regime_rule CHR ''-'']"

section \<open>The verdict\<close>

definition survival_verdict :: "real \<Rightarrow> real \<Rightarrow> nat \<Rightarrow> string list" where
  "survival_verdict cdd ndd chal_elim =
     [''   champion  : SURVIVES the full 6 weeks. maxDD '' @ fmt_f 2 cdd @ ''%  (headroom to 6% gate: '' @
        fmt_f 2 (GATE_DD_PCT - cdd) @ '' pts)'',
      ''   challenger: ELIMINATED at hour '' @ show_nat chal_elim @ '' (maxDD hit '' @ fmt_f 2 ndd @
        ''% later in the crash). DISQUALIFIED.'',
      ''   -> The challenger's attractive full-period paper return is a'',
      ''      mirage: it is only achievable by holding through a drawdown'',
      ''      the competition forbids. An eliminated bot cannot recover.'']"

definition verdict_report :: "metric_bundle \<Rightarrow> metric_bundle \<Rightarrow> real \<times> real \<times> real \<times> real \<Rightarrow> real \<times> real \<times> real \<times> real \<Rightarrow>
    nat option \<Rightarrow> nat option \<Rightarrow> string list" where
  "verdict_report champ_full chal_full champ_win chal_win champ_elim chal_elim =
     [newline @ replicate 78 CHR ''='', centered 78 '' VERDICT'', replicate 78 CHR ''=''] @
     (case (champ_elim, chal_elim) of
        (None, Some h) \<Rightarrow> survival_verdict (mb_max_drawdown_pct champ_full) (mb_max_drawdown_pct chal_full) h
      | _ \<Rightarrow> []) @
     (case (champ_win, chal_win) of ((_, _, s, k), (r', _, s', k')) \<Rightarrow>
       [newline @ ''   risk-adjusted on the comparable (both-alive) window:'',
        ''     Sharpe : champion '' @ pad_left 6 (fmt_f 3 s) @ ''  vs  challenger '' @ pad_left 6 (fmt_f 3 s'),
        ''     Calmar: champion '' @ pad_left 6 (fmt_f 3 k) @ ''  vs  challenger '' @ pad_left 6 (fmt_f 3 k')] @
       (if chal_elim = None then []
        else [''   challenger realised return AT elimination: '' @ fmt_plus 2 r' @ ''%  (vs champion full-period '' @
               fmt_plus 2 (mb_total_return_pct champ_full) @ ''%)''])) @
     [[]]"

definition bt_report :: "bt_results \<Rightarrow> string list" where
  "bt_report r =
     full_table (br_champion_full r) (br_challenger_full r) @
     competition_table (br_champion_window r) (br_challenger_window r) (br_window_hours r)
       (first_elimination (br_champion_elimination r) (br_challenger_elimination r)) @
     regime_table (br_champion_regimes r) (br_challenger_regimes r) @
     verdict_report (br_champion_full r) (br_challenger_full r) (br_champion_window r) (br_challenger_window r)
       (br_champion_elimination r) (br_challenger_elimination r)"

section \<open>The results file\<close>

definition SEED :: int where
  "SEED = 20240622"

definition metrics_json :: "metric_bundle \<Rightarrow> json" where
  "metrics_json b = JObj
     [(''total_return_pct'', JFloat (mb_total_return_pct b)), (''max_drawdown_pct'', JFloat (mb_max_drawdown_pct b)),
      (''sharpe'', JFloat (mb_sharpe b)), (''calmar'', JFloat (mb_calmar b)),
      (''trade_count'', JInt (mb_trade_count b)), (''pct_time_in_market'', JFloat (mb_pct_time_in_market b))]"

definition window_json :: "real \<times> real \<times> real \<times> real \<Rightarrow> json" where
  "window_json w = (case w of (r, d, s, k) \<Rightarrow> JObj
     [(''total_return_pct'', JFloat r), (''max_drawdown_pct'', JFloat d), (''sharpe'', JFloat s), (''calmar'', JFloat k)])"

definition hour_json :: "nat option \<Rightarrow> json" where
  "hour_json h = (case h of None \<Rightarrow> JNull | Some k \<Rightarrow> JInt (int k))"

definition results_meta :: json where
  "results_meta = JObj
     [(''seed'', JInt SEED), (''hours'', JInt (int HOURS)), (''initial_nav'', JFloat INITIAL_NAV),
      (''fee_bps'', JFloat DEFAULT_FEE_BPS), (''slippage_bps'', JFloat DEFAULT_SLIPPAGE_BPS),
      (''assets'', JList (map JStr ASSETS)),
      (''regimes'', JList (map (\<lambda>(i, n, m, s). JObj
         [(''name'', JStr n), (''lo'', JInt (int (REGIME_BOUNDS ! i))), (''hi'', JInt (int (REGIME_BOUNDS ! (i + 1)))),
          (''mu'', JFloat m), (''sigma'', JFloat s)]) (enumerate 0 REGIMES))),
      (''elimination_gate_dd_pct'', JFloat GATE_DD_PCT)]"

definition results_json :: "bt_results \<Rightarrow> json" where
  "results_json r = JObj
     [(''meta'', results_meta), (''champion_full_period'', metrics_json (br_champion_full r)),
      (''challenger_full_period'', metrics_json (br_challenger_full r)),
      (''champion_elimination_hour'', hour_json (br_champion_elimination r)),
      (''challenger_elimination_hour'', hour_json (br_challenger_elimination r)),
      (''competition_window_hours'', JInt (int (br_window_hours r))),
      (''champion_competition_window'', window_json (br_champion_window r)),
      (''challenger_competition_window'', window_json (br_challenger_window r)),
      (''per_regime_max_drawdown_pct'', JObj
         [(''champion'', JObj (map (apsnd JFloat) (br_champion_regimes r))),
          (''challenger'', JObj (map (apsnd JFloat) (br_challenger_regimes r)))]),
      (''champion_final_nav'', JFloat (br_champion_final_nav r)),
      (''challenger_final_nav'', JFloat (br_challenger_final_nav r)),
      (''champion_trade_count'', JInt (int (br_champion_trades r))),
      (''challenger_trade_count'', JInt (int (br_challenger_trades r)))]"

section \<open>What the report says\<close>

lemma length_blanks [simp]: "length (blanks n) = n"
  by (simp add: blanks_def)

lemma length_pads [simp]: "length (pad_left w s) = max w (length s)" "length (pad_right w s) = max w (length s)"
  by (simp_all add: pad_left_def pad_right_def)

lemma length_centered:
  assumes "length s \<le> w"
  shows "length (centered w s) = w"
proof -
  have "m div 2 + (if odd m \<and> odd w then 1 else 0) \<le> m" for m :: nat by (auto elim!: oddE)
  from this [of "w - length s"] have "(w - length s) div 2 + (if odd (w - length s) \<and> odd w then 1 else 0) \<le> w - length s" .
  with assms show ?thesis by (simp add: centered_def Let_def)
qed

text \<open>The rows line up with the rules as long as the numbers fit their columns.\<close>

lemma table_row_width:
  "length label \<le> 44 \<Longrightarrow> length c = 11 \<Longrightarrow> length n = 11 \<Longrightarrow> length (table_row label c n) = length (rule_line ch)"
  by (simp add: table_row_def rule_line_def)

lemma full_table_width:
  assumes "(label, c, n) \<in> set (full_rows champ chal)" "length (cell_text c) = 11" "length (cell_text n) = 11"
  shows "length (table_row label (cell_text c) (cell_text n)) = length (rule_line ch)"
proof (rule table_row_width [OF _ assms(2,3)])
  show "length label \<le> 44" using assms(1) by (auto simp: full_rows_def)
qed

text \<open>The verdict speaks of survival exactly when only the challenger has an elimination hour; the drawdown that it prints
  beside does not matter.\<close>

definition says_survives :: "string list \<Rightarrow> bool" where
  "says_survives lines = list_ex (prefix ''   champion  : SURVIVES'') lines"

lemma verdict_head: "\<not> says_survives [newline @ replicate 78 CHR ''='', centered 78 '' VERDICT'', replicate 78 CHR ''='']"
  by code_simp

lemma verdict_survives:
  "says_survives (verdict_report cf nf cw nw ce ne) \<longleftrightarrow> ce = None \<and> ne \<noteq> None"
  using verdict_head
  by (cases cw; cases nw; cases ce; cases ne)
    (simp_all add: says_survives_def verdict_report_def survival_verdict_def newline_def)

text \<open>
  The verdict of a run praises the champion as the survivor exactly when the recorded drawdowns, which the champion re-anchors
  after a flat day, never reach the gate and those of the challenger do: a champion that has really lost more
  than the gate allows is still reported as surviving, with a negative headroom beside it.
\<close>

theorem survival_claim_ignores_drawdown:
  "let champ = fst (mark Map.empty (ex_rearmed\<lparr>bt_cash := 9025\<rparr>));
       chal = (new_portfolio 10000)\<lparr>bt_nav_history := [10000, 9000], bt_drawdown_history := [0, 10]\<rparr>;
       r = results (champ, []) (chal, [])
   in says_survives (verdict_report (br_champion_full r) (br_challenger_full r) (br_champion_window r) (br_challenger_window r)
        (br_champion_elimination r) (br_challenger_elimination r)) \<and>
      GATE_DD_PCT < max_drawdown_pct (bt_nav_history champ)"
proof -
  let ?champ = "fst (mark Map.empty (ex_rearmed\<lparr>bt_cash := 9025\<rparr>))"
  let ?chal = "(new_portfolio 10000)\<lparr>bt_nav_history := [10000, 9000], bt_drawdown_history := [0, 10]\<rparr>"
  have "first_breach_hour (bt_drawdown_history ?champ) GATE_DD_PCT = None" "GATE_DD_PCT < max_drawdown_pct (bt_nav_history ?champ)"
    using rearming_hides_elimination by (simp_all add: Let_def)
  moreover have "first_breach_hour (bt_drawdown_history ?chal) GATE_DD_PCT \<noteq> None"
    by (simp add: first_breach_hour_def GATE_DD_PCT_def)
  ultimately show ?thesis unfolding Let_def verdict_survives by (simp add: results_def Let_def split: prod.split)
qed

end
