(* ===== verification/Gate.thy ===== *)
theory Gate
  imports Agent_Types
begin

text \<open>
  The contract of a risk gate, the interface that the tick relies on and that both gates of the
  program provide (\<open>agent/policy/engine.py\<close> and \<open>agent/guardrail/policy.py\<close>): a gate looks at a
  decision and a view of the portfolio; what it lets through is on the committed list, and the amount
  it approves is within the cap of the view, up to the gate's rounding.
\<close>

locale risk_gate =
  fixes gate :: "decision \<Rightarrow> 'p \<Rightarrow> 'v"
    and passed :: "'v \<Rightarrow> bool"
    and approved :: "decision \<Rightarrow> 'v \<Rightarrow> real"
    and committed :: "decision \<Rightarrow> bool"
    and limit :: "'p \<Rightarrow> real"
    and slack :: real
  assumes gate_committed: "is_trade d \<Longrightarrow> passed (gate d p) \<Longrightarrow> committed d"
    and gate_capped: "is_trade d \<Longrightarrow> passed (gate d p) \<Longrightarrow> approved d (gate d p) \<le> limit p + slack"
    and gate_hold: "\<not> is_trade d \<Longrightarrow> passed (gate d p)"
begin

text \<open>The trades of a run that the gate lets through, with the amounts it approved.\<close>

definition fills :: "(decision \<times> 'p) list \<Rightarrow> (decision \<times> 'p \<times> real) list" where
  "fills run = map (\<lambda>(d, p). (d, p, approved d (gate d p)))
     (filter (\<lambda>(d, p). is_trade d \<and> passed (gate d p)) run)"

lemma fills_Nil [simp]: "fills [] = []"
  by (simp add: fills_def)

lemma fills_Cons:
  "fills ((d, p) # run) =
     (if is_trade d \<and> passed (gate d p) then (d, p, approved d (gate d p)) # fills run else fills run)"
  by (simp add: fills_def)

lemma fills_committed: "(d, p, a) \<in> set (fills run) \<Longrightarrow> is_trade d \<and> committed d"
  by (induction run) (auto simp: fills_Cons gate_committed split: if_splits)

lemma fills_capped: "(d, p, a) \<in> set (fills run) \<Longrightarrow> a \<le> limit p + slack"
  by (induction run) (auto simp: fills_Cons gate_capped split: if_splits)

lemma fills_total:
  assumes "\<forall>x \<in> set run. limit (snd x) \<le> c"
  shows "sum_list (map (\<lambda>(d, p, a). a) (fills run)) \<le> real (length (fills run)) * (c + slack)"
  using assms
proof (induction run)
  case Nil
  then show ?case by simp
next
  case (Cons x run)
  obtain d p where x: "x = (d, p)" by fastforce
  have IH: "sum_list (map (\<lambda>(d, p, a). a) (fills run)) \<le> real (length (fills run)) * (c + slack)"
    using Cons.IH Cons.prems by simp
  have "limit p \<le> c" using Cons.prems x by simp
  then have "approved d (gate d p) \<le> c + slack" if "is_trade d \<and> passed (gate d p)"
    using gate_capped [of d p] that by linarith
  with IH show ?case by (auto simp: x fills_Cons algebra_simps)
qed

end

end
