(* ===== verification/Guardrail.thy ===== *)
theory Guardrail
  imports Gate
begin

text \<open>
  \<open>agent/guardrail/policy.py\<close>: the local guardrail of the older loop. Token whitelist, pair whitelist,
  drawdown breaker and rate limit reject; the size caps clamp.
\<close>

section \<open>The strategy file as the older loop reads it\<close>

text \<open>
  A number of the strategy file or of a live override: an int and a float with the same value compare
  alike and print differently.
\<close>

datatype pynum = PInt int | PFloat real

definition num_value :: "pynum \<Rightarrow> real" where
  "num_value n = (case n of PInt i \<Rightarrow> of_int i | PFloat x \<Rightarrow> x)"

definition num_text :: "pynum \<Rightarrow> string" where
  "num_text n = (case n of PInt i \<Rightarrow> show_int i | PFloat x \<Rightarrow> repr_f x)"

lemma num_value_simps [simp]: "num_value (PInt i) = of_int i" "num_value (PFloat x) = x"
  by (simp_all add: num_value_def)

text \<open>The four risk caps that the guardrail reads; the other keys of \<open>cfg["risk"]\<close> only count as known names.\<close>

record guard_risk =
  gk_max_single_trade_usd :: pynum
  gk_max_position_pct :: pynum
  gk_max_drawdown_pct :: pynum
  gk_max_trades_per_hour :: pynum

record strategy_cfg =
  sc_risk :: guard_risk
  sc_risk_keys :: "string list"
  sc_allowed_tokens :: "string list"
  sc_allowed_pairs :: "(string \<times> string \<times> string) list"
  sc_chains :: "(string \<times> bool) list"

definition bnb_strategy :: strategy_cfg where
  "bnb_strategy = \<lparr>
     sc_risk = \<lparr>gk_max_single_trade_usd = PInt 100, gk_max_position_pct = PFloat (40 / 100),
       gk_max_drawdown_pct = PFloat 6, gk_max_trades_per_hour = PInt 4\<rparr>,
     sc_risk_keys = [''max_single_trade_pct'', ''min_single_trade_pct'', ''max_single_trade_usd'',
       ''max_position_pct'', ''max_risky_exposure_pct'', ''max_trades_per_hour'',
       ''min_trade_interval_seconds'', ''default_slippage_bps'', ''max_slippage_bps'', ''stop_loss_pct'',
       ''take_profit_pct'', ''max_hold_hours'', ''max_drawdown_pct'', ''_comment''],
     sc_allowed_tokens = allowed_tokens bnb_config, sc_allowed_pairs = allowed_pairs bnb_config,
     sc_chains = chains bnb_config\<rparr>"

section \<open>The guardrail\<close>

record guardrail =
  gr_risk :: guard_risk
  gr_allowed_tokens :: "string set"
  gr_allowed_pairs :: "(string \<times> string \<times> string) set"

definition init_guardrail :: "strategy_cfg \<Rightarrow> guardrail" where
  "init_guardrail cfg = \<lparr>gr_risk = sc_risk cfg, gr_allowed_tokens = set (sc_allowed_tokens cfg),
     gr_allowed_pairs = (\<lambda>(c, f, t). (c, upper f, upper t)) ` set (sc_allowed_pairs cfg)\<rparr>"

record guard_view =
  gw_portfolio_value_usd :: real
  gw_drawdown_pct :: real
  gw_trades_last_hour :: int

definition guard_cap :: "guardrail \<Rightarrow> guard_view \<Rightarrow> real" where
  "guard_cap g w = min (num_value (gk_max_single_trade_usd (gr_risk g)))
     (gw_portfolio_value_usd w * num_value (gk_max_position_pct (gr_risk g)))"

definition gv_allow :: "string \<Rightarrow> guardrail_verdict" where
  "gv_allow reason = \<lparr>gv_allowed = True, gv_reason = reason, gv_clamped_amount_usd = None\<rparr>"

definition gv_reject :: "string \<Rightarrow> guardrail_verdict" where
  "gv_reject reason = \<lparr>gv_allowed = False, gv_reason = reason, gv_clamped_amount_usd = None\<rparr>"

definition guard_check :: "guardrail \<Rightarrow> decision \<Rightarrow> guard_view \<Rightarrow> guardrail_verdict" where
  "guard_check g d w =
     (if \<not> is_trade d then gv_allow ''hold - no action'' else
      let ft = upper (d_from_token d); tt = upper (d_to_token d) in
      if ft \<notin> gr_allowed_tokens g \<or> tt \<notin> gr_allowed_tokens g
      then gv_reject (''rejected: token '' @ (if ft \<notin> gr_allowed_tokens g then ft else tt) @
             '' is not on the whitelist'')
      else if (d_chain d, ft, tt) \<notin> gr_allowed_pairs g
      then gv_reject (''rejected: pair '' @ ft @ ''->'' @ tt @ '' on '' @ d_chain d @ '' is not allowed'')
      else if num_value (gk_max_drawdown_pct (gr_risk g)) \<le> gw_drawdown_pct w
      then gv_reject (''rejected: drawdown '' @ fmt_f 1 (gw_drawdown_pct w) @ ''% >= cap '' @
             num_text (gk_max_drawdown_pct (gr_risk g)) @ ''%'')
      else if num_value (gk_max_trades_per_hour (gr_risk g)) \<le> of_int (gw_trades_last_hour w)
      then gv_reject (''rejected: '' @ show_int (gw_trades_last_hour w) @ '' trades this hour >= cap '' @
             num_text (gk_max_trades_per_hour (gr_risk g)))
      else if guard_cap g w < d_amount_usd d
      then \<lparr>gv_allowed = True,
             gv_reason = ''allowed (clamped '' @ fmt_f 2 (d_amount_usd d) @ ''->'' @
               fmt_f 2 (guard_cap g w) @ '' to respect caps)'',
             gv_clamped_amount_usd = Some (guard_cap g w)\<rparr>
      else gv_allow ''allowed - within policy'')"

section \<open>What the guardrail permits\<close>

definition guard_permits :: "guardrail \<Rightarrow> decision \<Rightarrow> guard_view \<Rightarrow> bool" where
  "guard_permits g d w =
     (upper (d_from_token d) \<in> gr_allowed_tokens g \<and> upper (d_to_token d) \<in> gr_allowed_tokens g \<and>
      (d_chain d, upper (d_from_token d), upper (d_to_token d)) \<in> gr_allowed_pairs g \<and>
      gw_drawdown_pct w < num_value (gk_max_drawdown_pct (gr_risk g)) \<and>
      of_int (gw_trades_last_hour w) < num_value (gk_max_trades_per_hour (gr_risk g)))"

text \<open>The amount that the verdict approves: the clamped amount when one is set, else the request.\<close>

definition gv_amount :: "decision \<Rightarrow> guardrail_verdict \<Rightarrow> real" where
  "gv_amount d v = get_or (gv_clamped_amount_usd v) (d_amount_usd d)"

lemma gv_simps [simp]:
  "gv_allowed (gv_allow r)" "\<not> gv_allowed (gv_reject r)" "gv_clamped_amount_usd (gv_allow r) = None"
  by (simp_all add: gv_allow_def gv_reject_def)

lemma guard_allowed: "is_trade d \<Longrightarrow> gv_allowed (guard_check g d w) \<longleftrightarrow> guard_permits g d w"
  by (auto simp: guard_check_def Let_def guard_permits_def)

lemma guard_amount:
  assumes "is_trade d" "gv_allowed (guard_check g d w)"
  shows "gv_amount d (guard_check g d w) = min (d_amount_usd d) (guard_cap g w)"
proof -
  have "guard_permits g d w" using assms by (simp add: guard_allowed)
  then show ?thesis using assms(1)
    by (simp add: guard_check_def Let_def guard_permits_def gv_amount_def min_def)
qed

lemma guard_clamped:
  "gv_clamped_amount_usd (guard_check g d w) = Some c \<Longrightarrow>
    c = guard_cap g w \<and> c < d_amount_usd d \<and> gv_allowed (guard_check g d w)"
  by (auto simp: guard_check_def Let_def gv_reject_def split: if_splits)

text \<open>The guardrail is a risk gate with no slack: it does not round.\<close>

interpretation guard_gate: risk_gate "guard_check g" gv_allowed gv_amount
    "\<lambda>d. (d_chain d, upper (d_from_token d), upper (d_to_token d)) \<in> gr_allowed_pairs g"
    "guard_cap g" 0 for g
  by unfold_locales (simp_all add: guard_allowed guard_permits_def guard_amount, simp add: guard_check_def)

text \<open>
  The guardrail allows a trade exactly when tokens and pair are committed, the drawdown is below the
  circuit breaker and the hour has trades left; the approved amount is the request cut to the caps.
\<close>

theorem guardrail_allows:
  assumes "is_trade d"
  shows "(gv_allowed (guard_check g d w) \<longleftrightarrow> guard_permits g d w) \<and>
    (guard_permits g d w \<longrightarrow> gv_amount d (guard_check g d w) = min (d_amount_usd d) (guard_cap g w))"
  using guard_allowed [OF assms] guard_amount [OF assms] by blast

definition ex_guard_buy :: decision where
  "ex_guard_buy = \<lparr>d_side = Buy, d_chain = ''bsc'', d_from_token = ''usdt'', d_to_token = ''WBNB'',
     d_amount_usd = 500, d_confidence = 1, d_rationale = []\<rparr>"

theorem guardrail_allows_witness:
  "gv_amount ex_guard_buy (guard_check (init_guardrail bnb_strategy) ex_guard_buy
     \<lparr>gw_portfolio_value_usd = 200, gw_drawdown_pct = 5, gw_trades_last_hour = 3\<rparr>) = 80"
proof -
  let ?w = "\<lparr>gw_portfolio_value_usd = 200, gw_drawdown_pct = 5, gw_trades_last_hour = 3\<rparr>"
  have "is_trade ex_guard_buy" "guard_permits (init_guardrail bnb_strategy) ex_guard_buy ?w"
    "min (d_amount_usd ex_guard_buy) (guard_cap (init_guardrail bnb_strategy) ?w) = 80"
    by code_simp+
  with guardrail_allows [of ex_guard_buy "init_guardrail bnb_strategy" ?w] show ?thesis by simp
qed

section \<open>The demonstration\<close>

text \<open>\<open>agent/demo/guardrail_demo.py\<close>: three scenarios and the status line of each.\<close>

definition demo_decision :: "string \<Rightarrow> real \<Rightarrow> real \<Rightarrow> string \<Rightarrow> decision" where
  "demo_decision to_token amount confidence rationale =
     \<lparr>d_side = Buy, d_chain = ''bsc'', d_from_token = ''USDT'', d_to_token = to_token, d_amount_usd = amount,
      d_confidence = confidence, d_rationale = rationale\<rparr>"

definition SCENARIOS :: "(string \<times> decision) list" where
  "SCENARIOS =
     [(''In-policy buy'', demo_decision ''WBNB'' 50 (7 / 10) ''BNB trend up, small size''),
      (''Oversized buy'', demo_decision ''WBNB'' 5000 (9 / 10) ''very confident, wants to go big''),
      (''Off-whitelist token'', demo_decision ''SHIB'' 25 (95 / 100) ''shilled token, looks hot'')]"

definition demo_status :: "guardrail_verdict \<Rightarrow> string" where
  "demo_status v = (if gv_clamped_amount_usd v \<noteq> None then ''ALLOWED (CLAMPED)''
     else if gv_allowed v then ''ALLOWED'' else ''REJECTED'')"

definition demo_run :: "strategy_cfg \<Rightarrow> (string \<times> string \<times> guardrail_verdict) list" where
  "demo_run cfg = map (\<lambda>(name, d).
     let v = guard_check (init_guardrail cfg) d
           \<lparr>gw_portfolio_value_usd = 1000, gw_drawdown_pct = 0, gw_trades_last_hour = 0\<rparr>
     in (name, demo_status v, v)) SCENARIOS"

lemma guard_clamps:
  "is_trade d \<Longrightarrow> gv_clamped_amount_usd (guard_check g d w) =
    (if guard_permits g d w \<and> guard_cap g w < d_amount_usd d then Some (guard_cap g w) else None)"
  by (auto simp: guard_check_def Let_def guard_permits_def gv_reject_def)

lemma demo_status_permits:
  "is_trade d \<Longrightarrow> demo_status (guard_check g d w) =
    (if \<not> guard_permits g d w then ''REJECTED'' else if guard_cap g w < d_amount_usd d then ''ALLOWED (CLAMPED)''
     else ''ALLOWED'')"
  by (simp add: demo_status_def guard_clamps guard_allowed)

text \<open>On the committed configuration the transcript is the promised one: allowed, cut to 100 dollars, rejected.\<close>

lemma demo_outcomes:
  "map (\<lambda>(_, s, v). (s, gv_clamped_amount_usd v)) (demo_run bnb_strategy) =
     [(''ALLOWED'', None), (''ALLOWED (CLAMPED)'', Some 100), (''REJECTED'', None)]"
proof -
  let ?w = "\<lparr>gw_portfolio_value_usd = 1000, gw_drawdown_pct = 0, gw_trades_last_hour = 0\<rparr>"
  let ?g = "init_guardrail bnb_strategy"
  have t: "is_trade (demo_decision t 50 c r)" "is_trade (demo_decision t 5000 c r)" "is_trade (demo_decision t 25 c r)"
    for t c r by (simp_all add: demo_decision_def is_trade_def)
  have p: "guard_permits ?g (demo_decision ''WBNB'' a c r) ?w" "guard_cap ?g ?w = 100"
    "\<not> guard_permits ?g (demo_decision ''SHIB'' a c r) ?w" for a c r
    by code_simp+
  have a: "d_amount_usd (demo_decision t a c r) = a" for t a c r by (simp add: demo_decision_def)
  show ?thesis
    unfolding demo_run_def SCENARIOS_def Let_def list.map case_prod_conv
      t [THEN demo_status_permits] t [THEN guard_clamps] a p
    by (simp add: p)
qed

end
