(* ===== verification/Execution.thy ===== *)
theory Execution
  imports Agent_Types
begin

text \<open>
  \<open>agent/execution\<close>: the backend interface, the executor and the backends that need no chain client:
  mock, Trust Wallet CLI (\<open>twak\<close>) and hosted Maria. A swap returns what it sent to the outside world
  beside its result; a raised exception is \<open>Inl\<close>. The shell and the hosted service are parameters: they
  are functions from what is sent to what comes back. The amount that the executor passes on as the text
  \<open>f"{amount_usd:g}"\<close> is represented by the number that text denotes, \<open>g_value amount_usd\<close>.
\<close>

section \<open>The text of an amount\<close>

text \<open>\<open>f"{x:g}"\<close>: six significant digits, trailing zeros dropped, an exponent below 1e-4 and from 1e6 on.\<close>

definition strip_zeros :: "string \<Rightarrow> string" where
  "strip_zeros s = rev (dropWhile (\<lambda>c. c = CHR ''0'') (rev s))"

definition with_fraction :: "string \<Rightarrow> string \<Rightarrow> string" where
  "with_fraction i f = (if strip_zeros f = [] then i else i @ CHR ''.'' # strip_zeros f)"

definition fmt_g_abs :: "real \<Rightarrow> string" where
  "fmt_g_abs m =
     (let e0 = dec_exp m; k0 = nat (round_half_even (m / pow10 (e0 - 5)));
          (e, k) = (if k0 = 10 ^ 6 then (e0 + 1, 10 ^ 5) else (e0, k0));
          ds = show_nat k in
      if - 4 \<le> e \<and> e < 6
      then if 0 \<le> e then with_fraction (take (nat e + 1) ds) (drop (nat e + 1) ds)
           else with_fraction ''0'' (replicate (nat (- e) - 1) CHR ''0'' @ ds)
      else with_fraction (take 1 ds) (drop 1 ds) @ ''e'' @ (if e < 0 then ''-'' else ''+'') @
             pad_zero 2 (show_nat (nat \<bar>e\<bar>)))"

definition fmt_g :: "real \<Rightarrow> string" where
  "fmt_g x = (if x = 0 then ''0'' else if x < 0 then CHR ''-'' # fmt_g_abs (- x) else fmt_g_abs x)"

section \<open>The backend interface\<close>

record swap_args =
  sw_chain :: string
  sw_from :: string
  sw_to :: string
  sw_amount :: real
  sw_slippage_bps :: int
  sw_cid :: string

record spot_order =
  so_market :: string
  so_subaccount :: string
  so_fee_recipient :: string
  so_price_ufixed :: int
  so_quantity_ufixed :: int
  so_cid :: string
  so_order_type :: string

text \<open>What a swap can send out: a shell command, a request to the hosted service, a spot order.\<close>

datatype broadcast = ShellSwap "string list" | HostedSwap swap_args | SpotOrder spot_order

type_synonym detail = "(string \<times> json) list"

record backend =
  b_quote :: "swap_args \<Rightarrow> py_error + detail"
  b_swap :: "swap_args \<Rightarrow> broadcast list \<times> (py_error + execution_result)"
  b_accepts_cid :: bool

text \<open>
  The contract of a backend that the tick relies on: a result that claims execution is no dry run and
  comes with exactly one broadcast, and no swap broadcasts twice.
\<close>

locale exec_backend =
  fixes backend :: "backend"
  assumes executed_is_real: "b_swap backend a = (sent, Inr r) \<Longrightarrow> er_executed r \<Longrightarrow> \<not> er_dry_run r \<and> length sent = 1"
    and one_broadcast: "b_swap backend a = (sent, x) \<Longrightarrow> length sent \<le> 1"

section \<open>The executor\<close>

datatype exec_mode = Mock | Paper | Live

definition detail_json :: "detail \<Rightarrow> json" where
  "detail_json d = JObj d"

definition swap_request :: "backend \<Rightarrow> int \<Rightarrow> decision \<Rightarrow> real \<Rightarrow> string \<Rightarrow> swap_args" where
  "swap_request b slippage_bps d amount_usd cid =
     \<lparr>sw_chain = d_chain d, sw_from = d_from_token d, sw_to = d_to_token d,
      sw_amount = g_value amount_usd, sw_slippage_bps = slippage_bps,
      sw_cid = (if b_accepts_cid b then cid else [])\<rparr>"

definition execute :: "backend \<Rightarrow> exec_mode \<Rightarrow> int \<Rightarrow> decision \<Rightarrow> real \<Rightarrow> string \<Rightarrow>
    broadcast list \<times> (py_error + execution_result)" where
  "execute b mode slippage_bps d amount_usd cid =
     (let a = swap_request b slippage_bps d amount_usd cid in
      if mode = Paper
      then ([], map_sum id (\<lambda>q. \<lparr>er_executed = False, er_dry_run = True,
                  er_detail = [(''mode'', JStr ''paper''), (''quote'', detail_json q)], er_error = None\<rparr>)
              (b_quote b a))
      else b_swap b a)"

context exec_backend
begin

lemma execute_one: "execute backend mode s d amt cid = (sent, x) \<Longrightarrow> length sent \<le> 1"
  by (auto simp: execute_def Let_def split: if_splits dest: one_broadcast)

lemma execute_paper:
  "execute backend Paper s d amt cid = (sent, Inr r) \<Longrightarrow> sent = [] \<and> er_dry_run r \<and> \<not> er_executed r"
  by (auto simp: execute_def Let_def map_sum_def split: sum.splits)

lemma execute_executed:
  "execute backend mode s d amt cid = (sent, Inr r) \<Longrightarrow> er_executed r \<Longrightarrow>
    mode \<noteq> Paper \<and> \<not> er_dry_run r \<and> length sent = 1"
  by (cases mode) (auto simp: execute_def Let_def map_sum_def split: sum.splits dest: executed_is_real)

end

section \<open>The mock backend\<close>

definition REF_USD :: "string \<rightharpoonup> real" where
  "REF_USD = map_of [(''USDC'', 1), (''USDT'', 1), (''MNT'', 80 / 100), (''WMNT'', 80 / 100),
     (''BNB'', 600), (''WBNB'', 600)]"

definition mock_amount_out :: "swap_args \<Rightarrow> real" where
  "mock_amount_out a =
     (let fp = get_or (REF_USD (upper (sw_from a))) 1; tp = get_or (REF_USD (upper (sw_to a))) 1
      in sw_amount a * fp / tp * (1 - of_int (sw_slippage_bps a) / 10000))"

definition mock_quote :: "swap_args \<Rightarrow> detail" where
  "mock_quote a =
     [(''from_token'', JStr (sw_from a)), (''to_token'', JStr (sw_to a)), (''amount_in'', JFloat (sw_amount a)),
      (''amount_out'', JFloat (py_round (mock_amount_out a) 6)),
      (''price_usd'', JFloat (get_or (REF_USD (upper (sw_to a))) 1)),
      (''slippage_bps'', JInt (sw_slippage_bps a)), (''source'', JStr ''mock''), (''chain'', JStr (sw_chain a))]"

definition mock_backend :: backend where
  "mock_backend = \<lparr>
     b_quote = (\<lambda>a. Inr (mock_quote a)),
     b_swap = (\<lambda>a. ([], Inr \<lparr>er_executed = False, er_dry_run = True,
        er_detail = [(''mode'', JStr ''mock''), (''would_send'', JObj (mock_quote a)), (''tx_hash'', JNull)],
        er_error = None\<rparr>)),
     b_accepts_cid = False\<rparr>"

section \<open>The Trust Wallet CLI backend\<close>

definition TOKEN_ADDRESSES :: "string \<Rightarrow> (string \<times> string) list" where
  "TOKEN_ADDRESSES chain =
     (if chain = ''bsc'' then
       [(''USDT'', ''0x55d398326f99059fF775485246999027B3197955''),
        (''USDC'', ''0x8AC76a51cc950d9822D68b83fE1Ad97B32Cd580d''),
        (''WBNB'', ''0xbb4CdB9CBd36B01bD1cBaEBF2De08d9173bc095c''),
        (''BTCB'', ''0x7130d2A12B9BCbFAe4f2634d864A1Ee1Ce3Ead9c''),
        (''ETH'', ''0x2170Ed0880ac9A755fd29B2688956BD959F933F8''),
        (''CAKE'', ''0x0E09FaBB73Bd3Ade0a17ECC321fD13a19e81cE82'')]
      else [])"

definition resolve_token :: "string \<Rightarrow> string \<Rightarrow> string" where
  "resolve_token chain token =
     (if prefix ''0x'' token then token
      else get_or (map_of (TOKEN_ADDRESSES chain) (upper token)) token)"

record twak =
  tw_bin :: string
  tw_chain_default :: string
  tw_dry_run :: bool

text \<open>
  The shell's answer to a command: the exit code, the text for the error message, and what
  \<open>json.loads\<close> makes of the output (nothing when it is not JSON).
\<close>

record shell_answer =
  sh_code :: int
  sh_message :: string
  sh_stdout :: string
  sh_json :: "json option"

definition twak_cmd :: "twak \<Rightarrow> bool \<Rightarrow> swap_args \<Rightarrow> string list" where
  "twak_cmd t quote_only a =
     (let chain = (if sw_chain a = [] then tw_chain_default t else sw_chain a) in
      [tw_bin t, ''swap'', resolve_token chain (sw_from a), resolve_token chain (sw_to a),
       ''--usd'', fmt_g (sw_amount a), ''--chain'', chain,
       ''--slippage'', fmt_g (of_int (sw_slippage_bps a) / 100), ''--json''] @
      (if quote_only then [''--quote-only''] else []))"

text \<open>\<open>" ".join(cmd)\<close>\<close>

definition unwords :: "string list \<Rightarrow> string" where
  "unwords ws = join '' '' ws"

definition twak_run :: "(string list \<Rightarrow> shell_answer) \<Rightarrow> twak \<Rightarrow> string list \<Rightarrow> bool \<times> (py_error + detail)" where
  "twak_run shell t cmd =
     (if tw_dry_run t
      then (False, Inr [(''dry_run'', JBool True), (''would_run'', JStr (unwords cmd)), (''source'', JStr ''twak'')])
      else let ans = shell cmd in
        (True,
         if sh_code ans \<noteq> 0
         then Inl (RuntimeError (''twak error '' @ show_int (sh_code ans) @ '': '' @ sh_message ans))
         else case sh_json ans of
           None \<Rightarrow> Inr [(''raw'', JStr (sh_stdout ans)), (''source'', JStr ''twak'')]
         | Some (JObj out) \<Rightarrow> Inr out
         | Some _ \<Rightarrow> Inl (RuntimeError ''answer is not an object'')))"

text \<open>Python's truth value of a JSON value, and \<open>d.get(k)\<close>.\<close>

definition truthy :: "json \<Rightarrow> bool" where
  "truthy j = (case j of JNull \<Rightarrow> False | JBool b \<Rightarrow> b | JInt i \<Rightarrow> i \<noteq> 0 | JFloat x \<Rightarrow> x \<noteq> 0
     | JStr s \<Rightarrow> s \<noteq> [] | JList l \<Rightarrow> l \<noteq> [] | JObj kvs \<Rightarrow> kvs \<noteq> [])"

definition dget :: "string \<Rightarrow> detail \<Rightarrow> json" where
  "dget k d = get_or (map_of d k) JNull"

definition json_or :: "json \<Rightarrow> json \<Rightarrow> json" where
  "json_or a b = (if truthy a then a else b)"

text \<open>\<open>{**d, **e}\<close>: the second dictionary wins.\<close>

definition dict_merge :: "detail \<Rightarrow> detail \<Rightarrow> detail" where
  "dict_merge d e = foldl (\<lambda>acc (k, v). AList.update k v acc) d e"

definition twak_result :: "detail \<Rightarrow> execution_result" where
  "twak_result out =
     (if truthy (dget ''dry_run'' out)
      then \<lparr>er_executed = False, er_dry_run = True, er_detail = out, er_error = None\<rparr>
      else let tx = json_or (json_or (dget ''hash'' out) (dget ''txHash'' out)) (dget ''transactionHash'' out)
        in \<lparr>er_executed = truthy (json_or tx (dget ''executed'' out)), er_dry_run = False,
             er_detail = dict_merge [(''tx'', tx), (''source'', JStr ''twak'')] out, er_error = None\<rparr>)"

definition twak_backend :: "(string list \<Rightarrow> shell_answer) \<Rightarrow> twak \<Rightarrow> backend" where
  "twak_backend shell t = \<lparr>
     b_quote = (\<lambda>a. snd (twak_run shell t (twak_cmd t True a))),
     b_swap = (\<lambda>a. let cmd = twak_cmd t False a; (ran, out) = twak_run shell t cmd in
        (if ran then [ShellSwap cmd] else [], map_sum id twak_result out)),
     b_accepts_cid = False\<rparr>"

section \<open>The hosted Maria backend\<close>

text \<open>
  The client's request and what it makes of the answer; an HTTP status of 400 or more raises. The
  service itself, from the request to status and body, is the parameter \<open>post\<close>.
\<close>

definition maria_body :: "string \<Rightarrow> swap_args \<Rightarrow> json" where
  "maria_body action a = JObj
     [(''action'', JStr action), (''chain'', JStr (sw_chain a)), (''from_token'', JStr (sw_from a)),
      (''to_token'', JStr (sw_to a)), (''amount'', JStr (fmt_g (sw_amount a))),
      (''slippage_bps'', JInt (sw_slippage_bps a))]"

definition maria_invoke :: "(json \<Rightarrow> int \<times> detail) \<Rightarrow> json \<Rightarrow> py_error + detail" where
  "maria_invoke post body =
     (let (status, out) = post body in
      if 400 \<le> status then Inl (RuntimeError (''Maria error '' @ show_int status)) else Inr out)"

definition maria_answer :: "detail \<Rightarrow> py_error + detail" where
  "maria_answer out = (case map_of out ''result'' of None \<Rightarrow> Inr [] | Some (JObj r) \<Rightarrow> Inr r
     | Some _ \<Rightarrow> Inl (RuntimeError ''result is not an object''))"

definition maria_result :: "detail \<Rightarrow> execution_result" where
  "maria_result r = \<lparr>er_executed = truthy (dget ''executed'' r), er_dry_run = truthy (dget ''dry_run'' r),
     er_detail = r, er_error = None\<rparr>"

definition sum_bind :: "'e + 'a \<Rightarrow> ('a \<Rightarrow> 'e + 'b) \<Rightarrow> 'e + 'b" where
  "sum_bind x f = (case x of Inl e \<Rightarrow> Inl e | Inr a \<Rightarrow> f a)"

definition maria_backend :: "(json \<Rightarrow> int \<times> detail) \<Rightarrow> backend" where
  "maria_backend post = \<lparr>
     b_quote = (\<lambda>a. sum_bind (maria_invoke post (maria_body ''get_quote'' a)) maria_answer),
     b_swap = (\<lambda>a. ([HostedSwap a], map_sum id maria_result
        (sum_bind (maria_invoke post (maria_body ''execute_swap'' a)) maria_answer))),
     b_accepts_cid = False\<rparr>"

section \<open>The contract on these backends\<close>

lemma twak_result_executed: "er_executed (twak_result out) \<Longrightarrow> \<not> er_dry_run (twak_result out)"
  by (auto simp: twak_result_def Let_def split: if_splits)

lemma twak_dry:
  "tw_dry_run t \<Longrightarrow> b_swap (twak_backend shell t) a =
    ([], Inr \<lparr>er_executed = False, er_dry_run = True,
       er_detail = [(''dry_run'', JBool True), (''would_run'', JStr (unwords (twak_cmd t False a))),
         (''source'', JStr ''twak'')], er_error = None\<rparr>)"
  by (simp add: twak_backend_def twak_run_def twak_result_def dget_def truthy_def Let_def)

interpretation mock: exec_backend mock_backend
  by unfold_locales (auto simp: mock_backend_def)

interpretation twak: exec_backend "twak_backend shell t" for shell t
proof unfold_locales
  fix a sent r
  assume swap: "b_swap (twak_backend shell t) a = (sent, Inr r)" and ex: "er_executed r"
  have live: "\<not> tw_dry_run t" using swap ex by (auto simp: twak_dry)
  then have "sent = [ShellSwap (twak_cmd t False a)]"
    using swap by (auto simp: twak_backend_def twak_run_def Let_def)
  moreover obtain out where "r = twak_result out"
    using swap by (auto simp: twak_backend_def Let_def map_sum_def split: sum.splits prod.splits)
  ultimately show "\<not> er_dry_run r \<and> length sent = 1" using twak_result_executed ex by simp
next
  fix a sent x
  assume "b_swap (twak_backend shell t) a = (sent, x)"
  then show "length sent \<le> 1"
    by (auto simp: twak_backend_def Let_def split: prod.splits if_splits)
qed

section \<open>Choosing a backend\<close>

datatype backend_kind = TwakKind | InjectiveKind | MariaKind | MockKind

definition make_backend :: "string \<Rightarrow> bool \<Rightarrow> exec_mode \<Rightarrow> backend_kind" where
  "make_backend execution_backend maria_url_set mode =
     (let chosen = lower execution_backend in
      if chosen = ''twak'' then TwakKind
      else if chosen = ''injective'' then InjectiveKind
      else if chosen = ''mock'' \<or> mode = Mock then MockKind
      else if chosen = ''maria'' \<or> maria_url_set then MariaKind
      else MockKind)"

section \<open>What the amount's text loses\<close>

lemma dec_exp_upper:
  assumes "0 < x" "x < 10 ^ w" "0 < w"
  shows "dec_exp x \<le> int w - 1"
proof (cases "1 \<le> x")
  case True
  have "real (nat \<lfloor>x\<rfloor>) < real (10 ^ w)"
    using assms True by (simp add: floor_less_iff of_nat_nat)
  then have "nat \<lfloor>x\<rfloor> < 10 ^ w" by (simp only: of_nat_less_iff)
  with assms(3) have "length (show_nat (nat \<lfloor>x\<rfloor>)) \<le> w" by (intro length_show_nat)
  with True show ?thesis by (simp add: dec_exp_def)
qed (use assms(3) in \<open>simp add: dec_exp_def\<close>)

text \<open>Below ten thousand, an amount in cents survives the six significant digits.\<close>

lemma g_value_cents:
  assumes "0 \<le> n" "n < 10 ^ 6"
  shows "g_value (of_int n / 100) = of_int n / 100"
proof (cases "n = 0")
  case True
  then show ?thesis by (simp add: g_value_def)
next
  case False
  let ?x = "of_int n / 100 :: real"
  have pos: "0 < ?x" using assms(1) False by simp
  have "of_int n < (of_int (10 ^ 6) :: real)" using assms(2) by (simp only: of_int_less_iff)
  then have "?x < 10 ^ 4" by simp
  then have e: "dec_exp ?x \<le> 3" using dec_exp_upper [of ?x 4] pos by simp
  then have s: "pow10 (dec_exp ?x - 5) = 1 / 10 ^ nat (5 - dec_exp ?x)" by (simp add: pow10_def)
  define k where "k = nat (3 - dec_exp ?x)"
  have "nat (5 - dec_exp ?x) = k + 2" using e by (simp add: k_def nat_eq_iff)
  then have s': "pow10 (dec_exp ?x - 5) = 1 / (10 ^ k * 100)" using s by (simp add: power_add)
  have "?x / pow10 (dec_exp ?x - 5) = of_int (n * 10 ^ k)" by (simp add: s')
  then have "round_half_even (?x / pow10 (dec_exp ?x - 5)) = n * 10 ^ k"
    by (simp only: round_half_even_of_int)
  then show ?thesis using pos by (simp add: g_value_def Let_def s' sgn_1_pos)
qed

text \<open>
  An amount in whole cents below ten thousand dollars reaches the backend exactly; from there on the
  six significant digits of the text may change it, upwards too.
\<close>

theorem amount_transmitted:
  assumes "0 \<le> n" "n < 10 ^ 6"
  shows "sw_amount (swap_request b slip d (of_int n / 100) cid) = of_int n / 100 \<and>
    sw_amount (swap_request b slip d (1234567 / 100) cid) = 123457 / 10"
proof -
  have "dec_exp (1234567 / 100) = 4"
    by (simp add: dec_exp_def show_nat.simps floor_divide_eq_div_numeral)
  moreover have "round_half_even (1234567 / 10) = 123457" for x :: real
    by (simp add: round_half_even_def Let_def)
  ultimately have "g_value (1234567 / 100) = 123457 / 10"
    by (simp add: g_value_def Let_def pow10_def)
  with g_value_cents [OF assms] show ?thesis by (simp add: swap_request_def)
qed

theorem amount_transmitted_witness:
  "sw_amount (swap_request mock_backend 50 \<lparr>d_side = Buy, d_chain = ''bsc'', d_from_token = ''USDT'',
     d_to_token = ''WBNB'', d_amount_usd = 25, d_confidence = 1, d_rationale = []\<rparr> (of_int 2499 / 100) []) = 2499 / 100"
  using amount_transmitted [THEN conjunct1, of 2499 mock_backend 50] by simp

end
