(* ===== verification/Runtime.thy ===== *)
theory Runtime
  imports Guardrail Execution
begin

text \<open>
  The files that the older loop and the chat share: the supervision state (\<open>agent/runtime.py\<close>), the event
  ledger (\<open>agent/ledger.py\<close>) and the high-water mark of the portfolio (\<open>agent/portfolio.py\<close>).
\<close>

section \<open>Cells\<close>

text \<open>A file that one operation replaces and another reads back whole.\<close>

locale cell =
  fixes load :: "'w \<Rightarrow> 's"
    and save :: "'s \<Rightarrow> 'w \<Rightarrow> 'w"
    and update :: "('s \<Rightarrow> 's) \<Rightarrow> 'w \<Rightarrow> 'w"
  assumes load_save: "load (save s w) = s"
    and save_save: "save s (save s' w) = save s w"
    and update_eq: "update f w = save (f (load w)) w"
begin

lemma load_update: "load (update f w) = f (load w)"
  by (simp add: update_eq load_save)

lemma update_update: "update g (update f w) = update (g \<circ> f) w"
  by (simp add: update_eq load_save save_save)

end

section \<open>Supervision state\<close>

record runtime_state =
  rs_paused :: bool
  rs_portfolio_value_usd :: real
  rs_overrides :: "(string \<times> pynum) list"

record runtime_file =
  rf_paused :: "bool option"
  rf_portfolio_value_usd :: "real option"
  rf_overrides :: "(string \<times> pynum) list option"

text \<open>
  The process state: the file (\<open>None\<close>: absent, or not JSON) and the object \<open>_DEFAULT["overrides"]\<close> of the
  module, which a load without overrides in the file hands out by reference.
\<close>

record runtime =
  rt_file :: "runtime_file option"
  rt_default_overrides :: "(string \<times> pynum) list"

definition fresh_runtime :: runtime where
  "fresh_runtime = \<lparr>rt_file = None, rt_default_overrides = []\<rparr>"

definition runtime_load :: "runtime \<Rightarrow> runtime_state" where
  "runtime_load r =
     (case rt_file r of
        None \<Rightarrow> \<lparr>rs_paused = False, rs_portfolio_value_usd = 1000, rs_overrides = rt_default_overrides r\<rparr>
      | Some f \<Rightarrow> \<lparr>rs_paused = get_or (rf_paused f) False,
          rs_portfolio_value_usd = get_or (rf_portfolio_value_usd f) 1000,
          rs_overrides = get_or (rf_overrides f) (rt_default_overrides r)\<rparr>)"

definition runtime_save :: "runtime_state \<Rightarrow> runtime \<Rightarrow> runtime" where
  "runtime_save s r = r\<lparr>rt_file := Some \<lparr>rf_paused = Some (rs_paused s),
     rf_portfolio_value_usd = Some (rs_portfolio_value_usd s), rf_overrides = Some (rs_overrides s)\<rparr>\<rparr>"

definition runtime_update :: "(runtime_state \<Rightarrow> runtime_state) \<Rightarrow> runtime \<Rightarrow> runtime" where
  "runtime_update changes r = runtime_save (changes (runtime_load r)) r"

interpretation runtime_cell: cell runtime_load runtime_save runtime_update
  by unfold_locales (simp_all add: runtime_load_def runtime_save_def runtime_update_def)

text \<open>Whether the load hands out the module's own dictionary, so that a change to it changes the default.\<close>

definition shares_default :: "runtime \<Rightarrow> bool" where
  "shares_default r = (case rt_file r of None \<Rightarrow> True | Some f \<Rightarrow> rf_overrides f = None)"

text \<open>\<open>ov = runtime.load().get("overrides", {}); ov[field] = val; runtime.update(overrides=ov)\<close>.\<close>

definition set_override :: "string \<Rightarrow> pynum \<Rightarrow> runtime \<Rightarrow> runtime" where
  "set_override field val r =
     (let ov = AList.update field val (rs_overrides (runtime_load r));
          r' = (if shares_default r then r\<lparr>rt_default_overrides := ov\<rparr> else r)
      in runtime_update (\<lambda>s. s\<lparr>rs_overrides := ov\<rparr>) r')"

lemma load_set_override:
  "runtime_load (set_override field val r) =
     (runtime_load r)\<lparr>rs_overrides := AList.update field val (rs_overrides (runtime_load r))\<rparr>"
  by (simp add: set_override_def Let_def runtime_cell.load_update)
    (simp add: runtime_load_def shares_default_def split: option.splits)

section \<open>The event ledger\<close>

datatype ledger_event =
    DecisionMade decision
  | GuardrailSaid decision bool string
  | Executed real detail "string option"
  | ExecuteAttempt real detail "string option"
  | PausedTick
  | TickError py_error

text \<open>A line of the file: an event with its stamp in whole UTC seconds, or text that is not JSON.\<close>

datatype ledger_line = Garbled | Line int ledger_event

type_synonym ledger = "ledger_line list"

text \<open>\<open>clock n\<close> is the reading of the clock while the file has \<open>n\<close> lines.\<close>

type_synonym clock = "nat \<Rightarrow> real"

definition ledger_record :: "clock \<Rightarrow> ledger_event \<Rightarrow> ledger \<Rightarrow> ledger" where
  "ledger_record clock e l = l @ [Line \<lfloor>clock (length l)\<rfloor> e]"

definition is_executed :: "ledger_event \<Rightarrow> bool" where
  "is_executed e = (case e of Executed _ _ _ \<Rightarrow> True | _ \<Rightarrow> False)"

text \<open>
  \<open>time.mktime\<close> reads the broken-down UTC stamp as local time; \<open>utc_offset\<close> is how many seconds the
  host's zone is ahead of UTC.
\<close>

definition mktime :: "int \<Rightarrow> int \<Rightarrow> int" where
  "mktime utc_offset ts = ts - utc_offset"

definition counts_since :: "int \<Rightarrow> real \<Rightarrow> ledger_line \<Rightarrow> bool" where
  "counts_since utc_offset cutoff entry =
     (case entry of Garbled \<Rightarrow> False | Line ts e \<Rightarrow> is_executed e \<and> cutoff \<le> of_int (mktime utc_offset ts))"

definition trades_last_hour :: "int \<Rightarrow> clock \<Rightarrow> ledger \<Rightarrow> int" where
  "trades_last_hour utc_offset clock l =
     (let cutoff = clock (length l) - 3600 in int (length (filter (counts_since utc_offset cutoff) l)))"

section \<open>Portfolio value and high-water mark\<close>

record portfolio_file =
  pf_hwm :: "real option"
  pf_last_value :: "real option"

definition pf_load :: "portfolio_file option \<Rightarrow> portfolio_file" where
  "pf_load f = (case f of Some st \<Rightarrow> st | None \<Rightarrow> \<lparr>pf_hwm = Some 0, pf_last_value = None\<rparr>)"

definition update_and_drawdown :: "real \<Rightarrow> portfolio_file option \<Rightarrow> real \<times> portfolio_file option" where
  "update_and_drawdown value f =
     (let st = pf_load f; hwm = max (get_or (pf_hwm st) 0) value in
      (if hwm \<le> 0 then 0 else max 0 ((hwm - value) / hwm * 100),
       Some (st\<lparr>pf_hwm := Some hwm, pf_last_value := Some value\<rparr>)))"

record wallet_env =
  we_address :: string
  we_mantle_rpc :: string
  we_bsc_rpc :: string

text \<open>The balance read from the chain is an argument; a failure of it falls back to the runtime state.\<close>

definition current_value_usd :: "wallet_env \<Rightarrow> (string \<Rightarrow> string \<Rightarrow> py_error + real) \<Rightarrow>
    (string \<times> real option) list \<Rightarrow> runtime \<Rightarrow> real" where
  "current_value_usd env native_balance spot rt =
     (let rpc = (if we_mantle_rpc env \<noteq> [] then we_mantle_rpc env else we_bsc_rpc env);
          fallback = rs_portfolio_value_usd (runtime_load rt) in
      if we_address env \<noteq> [] \<and> rpc \<noteq> [] \<and> spot \<noteq> []
      then case native_balance rpc (we_address env) of
             Inl _ \<Rightarrow> fallback
           | Inr native \<Rightarrow>
               let native_sym = (if we_mantle_rpc env \<noteq> [] then ''MNT'' else ''BNB'');
                   price = get_or (get_or (map_of spot native_sym) None) 0
               in py_round (native * price) 2
      else fallback)"

record holdings_view =
  hv_value_usd :: real
  hv_drawdown_pct :: real
  hv_hwm :: real

definition portfolio_snapshot :: "real \<Rightarrow> portfolio_file option \<Rightarrow> holdings_view \<times> portfolio_file option" where
  "portfolio_snapshot value f =
     (let (dd, f') = update_and_drawdown value f in
      (\<lparr>hv_value_usd = value, hv_drawdown_pct = py_round dd 2, hv_hwm = get_or (pf_hwm (pf_load f')) value\<rparr>, f'))"

section \<open>Drawdown\<close>

definition stored_hwm :: "portfolio_file option \<Rightarrow> real" where
  "stored_hwm f = get_or (pf_hwm (pf_load f)) 0"

lemma hwm_update [simp]: "stored_hwm (snd (update_and_drawdown v f)) = max (stored_hwm f) v"
  by (simp add: update_and_drawdown_def stored_hwm_def pf_load_def Let_def split: option.splits)

lemma drawdown_range:
  assumes "0 \<le> v" shows "0 \<le> fst (update_and_drawdown v f)" "fst (update_and_drawdown v f) \<le> 100"
proof -
  let ?h = "max (get_or (pf_hwm (pf_load f)) 0) v"
  show "0 \<le> fst (update_and_drawdown v f)" by (simp add: update_and_drawdown_def Let_def)
  have "(?h - v) / ?h * 100 \<le> 100" if "0 < ?h" using that assms by (simp add: field_simps)
  then show "fst (update_and_drawdown v f) \<le> 100"
    by (cases "?h \<le> 0") (simp_all add: update_and_drawdown_def Let_def not_le del: max.bounded_iff)
qed

text \<open>The drawdown after a series of values is the drop from the best value of the series.\<close>

primrec mark_values :: "real list \<Rightarrow> portfolio_file option \<Rightarrow> portfolio_file option" where
  "mark_values [] f = f"
| "mark_values (v # vs) f = mark_values vs (snd (update_and_drawdown v f))"

lemma stored_hwm_marks: "stored_hwm (mark_values vs f) = foldl max (stored_hwm f) vs"
  by (induction vs arbitrary: f) simp_all

lemma foldl_max_bounds: "h \<le> foldl max h vs \<and> (\<forall>v \<in> set vs. v \<le> foldl max h vs) \<and> foldl max h vs \<in> insert h (set vs)"
  for h :: real
proof (induction vs arbitrary: h)
  case (Cons v vs)
  from Cons [of "max h v"] show ?case by (auto simp: max_def split: if_splits)
qed simp

text \<open>
  The circuit breaker's input is right: after any series of positive portfolio values, the reported drawdown
  is the relative drop of the last value from the best one seen, in percent, where the best includes the mark
  stored by an earlier run.
\<close>

theorem drawdown_from_peak:
  assumes "\<forall>v \<in> set (vs @ [v]). 0 < v" "0 \<le> stored_hwm f"
  defines "peak \<equiv> Max (insert (stored_hwm f) (set (vs @ [v])))"
  shows "fst (update_and_drawdown v (mark_values vs f)) = (peak - v) / peak * 100"
proof -
  have pk: "max (stored_hwm (mark_values vs f)) v = peak"
    unfolding peak_def stored_hwm_marks
    using foldl_max_bounds [of "stored_hwm f" vs]
    by (intro Max_eqI [symmetric]) (auto simp: max_def)
  have "v \<le> peak" unfolding peak_def by (rule Max_ge) simp_all
  moreover have "0 < v" using assms(1) by simp
  ultimately show ?thesis using pk
    by (simp add: update_and_drawdown_def Let_def stored_hwm_def)
qed

theorem drawdown_from_peak_witness:
  "fst (update_and_drawdown 90 (mark_values [80, 120] None)) = 25"
  using drawdown_from_peak [of "[80, 120]" 90 None] by (simp add: stored_hwm_def pf_load_def)

text \<open>An unreadable file is treated as a fresh start: the stored peak, and with it the drawdown, is gone.\<close>

lemma corrupt_file_clears_drawdown: "0 \<le> v \<Longrightarrow> fst (update_and_drawdown v None) = 0"
  by (simp add: update_and_drawdown_def pf_load_def Let_def)

section \<open>The trades of the last hour\<close>

lemma trades_last_hour_nonneg [simp]: "0 \<le> trades_last_hour z clock l"
  by (simp add: trades_last_hour_def Let_def)

text \<open>East of UTC by an hour or more, no past execution is ever counted.\<close>

lemma no_trades_counted_east:
  assumes "3600 < z" "\<And>ts e. Line ts e \<in> set l \<Longrightarrow> of_int ts \<le> clock (length l)"
  shows "trades_last_hour z clock l = 0"
proof -
  have "\<not> counts_since z (clock (length l) - 3600) entry" if "entry \<in> set l" for entry
    using that assms by (fastforce simp: counts_since_def mktime_def split: ledger_line.splits)
  then show ?thesis by (simp add: trades_last_hour_def Let_def filter_False)
qed

end
