(* ===== verification/Brain.thy ===== *)
theory Brain
  imports Guardrail Execution
begin

text \<open>
  What feeds the older loop: the snapshot of \<open>agent/data/price_feed.py\<close> and the two brains of
  \<open>agent/brain\<close>, the rule of \<open>mock_brain.py\<close> and the parser of the language model's answer in
  \<open>deepseek_strategy.py\<close>. The price service, the quote and the model's answer are arguments; what the
  code reads from their JSON is written out, with the exceptions of a value of another shape.
\<close>

section \<open>Reading JSON\<close>

text \<open>\<open>d.get(k, default)\<close>: only a dictionary has the method.\<close>

definition py_get :: "json \<Rightarrow> string \<Rightarrow> json \<Rightarrow> py_error + json" where
  "py_get j k dflt =
     (case j of JObj kvs \<Rightarrow> Inr (get_or (map_of kvs k) dflt) | _ \<Rightarrow> Inl (AttributeError ''get''))"

text \<open>The number of a JSON value in a comparison; a bool is an int, other values raise.\<close>

definition json_number :: "json \<Rightarrow> py_error + real" where
  "json_number j = (case j of JInt i \<Rightarrow> Inr (of_int i) | JFloat x \<Rightarrow> Inr x
     | JBool b \<Rightarrow> Inr (if b then 1 else 0) | _ \<Rightarrow> Inl (TypeError ''not a number''))"

section \<open>The snapshot\<close>

definition MOCK_SPOT :: "string \<rightharpoonup> json" where
  "MOCK_SPOT = map_of
     [(''MNT'', JObj [(''price'', JFloat (80 / 100)), (''pct_24h'', JFloat (- 42 / 10))]),
      (''BNB'', JObj [(''price'', JFloat 600), (''pct_24h'', JFloat (11 / 10))]),
      (''USDC'', JObj [(''price'', JFloat 1), (''pct_24h'', JFloat 0)]),
      (''USDT'', JObj [(''price'', JFloat 1), (''pct_24h'', JFloat 0)])]"

text \<open>One symbol of a live answer: \<open>(data.get(s, {}) or {}).get("quote", {}).get("USD", {})\<close>.\<close>

definition cmc_quote :: "json \<Rightarrow> string \<Rightarrow> py_error + json" where
  "cmc_quote data s =
     and_then (py_get data s (JObj [])) (\<lambda>d.
     and_then (py_get (json_or d (JObj [])) ''quote'' (JObj [])) (\<lambda>q. py_get q ''USD'' (JObj [])))"

definition spot_entry :: "json \<Rightarrow> string \<Rightarrow> py_error + json" where
  "spot_entry data s =
     and_then (cmc_quote data s) (\<lambda>q.
     and_then (py_get q ''price'' JNull) (\<lambda>p.
     and_then (py_get q ''percent_change_24h'' JNull) (\<lambda>c. Inr (JObj [(''price'', p), (''pct_24h'', c)]))))"

fun spot_entries :: "json \<Rightarrow> string list \<Rightarrow> py_error + (string \<times> json) list" where
  "spot_entries data [] = Inr []"
| "spot_entries data (s # ss) =
     and_then (spot_entry data s) (\<lambda>e. and_then (spot_entries data ss) (\<lambda>es. Inr ((s, e) # es)))"

text \<open>
  \<open>cmc_prices\<close>: without an API key the mock prices. \<open>fetch\<close> is the HTTP request: it raises or returns the
  \<open>"data"\<close> member of the answer.
\<close>

definition cmc_prices :: "(string list \<Rightarrow> py_error + json) option \<Rightarrow> string list \<Rightarrow> py_error + (string \<times> json) list" where
  "cmc_prices fetch symbols =
     (case fetch of
        None \<Rightarrow> Inr (map (\<lambda>s. (s, get_or (MOCK_SPOT s) (JObj [(''price'', JNull), (''pct_24h'', JNull)]))) symbols)
      | Some request \<Rightarrow> and_then (request symbols) (\<lambda>data. spot_entries data symbols))"

record snapshot =
  sn_chain :: string
  sn_from :: string
  sn_to :: string
  sn_spot :: "(string \<times> json) list"
  sn_live_quote :: json

definition probe :: "string \<Rightarrow> string \<Rightarrow> string \<Rightarrow> swap_args" where
  "probe chain from_token to_token = \<lparr>sw_chain = chain, sw_from = from_token, sw_to = to_token,
     sw_amount = 10, sw_slippage_bps = 50, sw_cid = []\<rparr>"

definition build_snapshot :: "(string list \<Rightarrow> py_error + json) option \<Rightarrow> backend \<Rightarrow>
    string \<times> string \<times> string \<Rightarrow> py_error + snapshot" where
  "build_snapshot fetch b = (\<lambda>(chain, from_token, to_token).
     and_then (cmc_prices fetch (sort (remdups [from_token, to_token]))) (\<lambda>spot.
       Inr \<lparr>sn_chain = chain, sn_from = from_token, sn_to = to_token, sn_spot = spot,
         sn_live_quote = (case b_quote b (probe chain from_token to_token) of
            Inr q \<Rightarrow> JObj q | Inl e \<Rightarrow> JObj [(''error'', JStr (error_text e))])\<rparr>))"

section \<open>The rule-based brain\<close>

definition brain_decision :: "side \<Rightarrow> string \<Rightarrow> string \<Rightarrow> string \<Rightarrow> real \<Rightarrow> real \<Rightarrow> string \<Rightarrow> decision" where
  "brain_decision s chain f t amount confidence rationale =
     \<lparr>d_side = s, d_chain = chain, d_from_token = f, d_to_token = t, d_amount_usd = amount,
      d_confidence = confidence, d_rationale = rationale\<rparr>"

definition mock_decide :: "real \<Rightarrow> snapshot \<Rightarrow> py_error + decision" where
  "mock_decide default_trade_usd sn =
     (let chain = sn_chain sn; frm = sn_from sn; to = sn_to sn in
      and_then (py_get (json_or (get_or (map_of (sn_spot sn) to) (JObj [])) (JObj [])) ''pct_24h'' JNull) (\<lambda>pct.
      if pct = JNull then Inr (brain_decision Hold chain frm to 0 (3 / 10) ''no price signal; holding'')
      else and_then (json_number pct) (\<lambda>x.
        if x \<le> - 3
        then Inr (brain_decision Buy chain frm to default_trade_usd (6 / 10)
               (to @ '' down '' @ fmt_f 1 x @ ''% in 24h, small mean-reversion buy''))
        else if 5 \<le> x
        then Inr (brain_decision Sell chain to frm default_trade_usd (6 / 10)
               (to @ '' up '' @ fmt_f 1 x @ ''% in 24h, take partial profit''))
        else Inr (brain_decision Hold chain frm to 0 (4 / 10) (to @ '' flat ('' @ fmt_f 1 x @ ''%); holding'')))))"

section \<open>The language model's answer\<close>

text \<open>
  \<open>str\<close> and \<open>float\<close> of a JSON value. The text of a list or a dictionary and the number in a string are
  Python's own: \<open>repr_of\<close> and \<open>float_of\<close>.
\<close>

definition py_str :: "(json \<Rightarrow> string) \<Rightarrow> json \<Rightarrow> string" where
  "py_str repr_of j = (case j of JNull \<Rightarrow> ''None'' | JBool b \<Rightarrow> if b then ''True'' else ''False''
     | JInt i \<Rightarrow> show_int i | JFloat x \<Rightarrow> repr_f x | JStr s \<Rightarrow> s | _ \<Rightarrow> repr_of j)"

definition py_float :: "(string \<Rightarrow> real option) \<Rightarrow> json \<Rightarrow> py_error + real" where
  "py_float float_of j = (case j of JStr s \<Rightarrow>
       (case float_of s of Some x \<Rightarrow> Inr x | None \<Rightarrow> Inl (ValueError ''could not convert string to float''))
     | JNull \<Rightarrow> Inl (TypeError ''float'') | JList _ \<Rightarrow> Inl (TypeError ''float'') | JObj _ \<Rightarrow> Inl (TypeError ''float'')
     | _ \<Rightarrow> json_number j)"

text \<open>\<open>float(data.get(k, 0) or 0)\<close>.\<close>

definition float_field :: "(string \<Rightarrow> real option) \<Rightarrow> json \<Rightarrow> string \<Rightarrow> py_error + real" where
  "float_field float_of data k =
     and_then (py_get data k (JInt 0)) (\<lambda>v. if truthy v then py_float float_of v else Inr 0)"

definition read_side :: "string \<Rightarrow> side" where
  "read_side s = (if s = ''buy'' then Buy else if s = ''sell'' then Sell else Hold)"

text \<open>\<open>_parse\<close> after \<open>json.loads\<close>, which returned \<open>data\<close>.\<close>

definition deepseek_parse :: "(json \<Rightarrow> string) \<Rightarrow> (string \<Rightarrow> real option) \<Rightarrow> json \<Rightarrow> py_error + decision" where
  "deepseek_parse repr_of float_of data =
     and_then (py_get data ''side'' (JStr ''hold'')) (\<lambda>s.
     and_then (py_get data ''chain'' (JStr [])) (\<lambda>chain.
     and_then (py_get data ''from_token'' (JStr [])) (\<lambda>f.
     and_then (py_get data ''to_token'' (JStr [])) (\<lambda>t.
     and_then (float_field float_of data ''amount_usd'') (\<lambda>amount.
     and_then (float_field float_of data ''confidence'') (\<lambda>confidence.
     and_then (py_get data ''rationale'' (JStr [])) (\<lambda>r.
       Inr (brain_decision (read_side (lower (py_str repr_of s))) (lower (py_str repr_of chain))
              (py_str repr_of f) (py_str repr_of t) amount confidence (py_str repr_of r)))))))))"

text \<open>
  One request: \<open>ask\<close> sends the prompt and returns the message content (or raises), \<open>loads\<close> parses it; an
  empty content is read as \<open>"{}"\<close>.
\<close>

definition deepseek_decide :: "(snapshot \<Rightarrow> py_error + string) \<Rightarrow> (string \<Rightarrow> py_error + json) \<Rightarrow>
    (json \<Rightarrow> string) \<Rightarrow> (string \<Rightarrow> real option) \<Rightarrow> snapshot \<Rightarrow> py_error + decision" where
  "deepseek_decide ask loads repr_of float_of sn =
     and_then (ask sn) (\<lambda>content.
     and_then (loads (if content = [] then ''{}'' else content)) (deepseek_parse repr_of float_of))"

text \<open>\<open>make_brain\<close>: the model when its key is set, else the rule with its default of 25 dollars.\<close>

definition make_brain :: "string \<Rightarrow> (snapshot \<Rightarrow> py_error + decision) \<Rightarrow> snapshot \<Rightarrow> py_error + decision" where
  "make_brain key deepseek = (if key \<noteq> [] then deepseek else mock_decide 25)"

section \<open>What the brains can propose\<close>

definition ex_answer :: json where
  "ex_answer = JObj [(''side'', JStr ''BUY''), (''chain'', JStr ''BSC''), (''from_token'', JStr ''USDT''),
     (''to_token'', JStr ''WBNB''), (''amount_usd'', JInt 25), (''confidence'', JFloat (1 / 2)),
     (''rationale'', JStr ''dip'')]"

lemma mock_decide_trade:
  assumes "mock_decide u sn = Inr d" "is_trade d"
  shows "d_amount_usd d = u \<and> d_chain d = sn_chain sn \<and>
    (d_side d = Buy \<and> d_from_token d = sn_from sn \<and> d_to_token d = sn_to sn \<or>
     d_side d = Sell \<and> d_from_token d = sn_to sn \<and> d_to_token d = sn_from sn)"
  using assms by (auto simp: mock_decide_def Let_def and_then_Inr brain_decision_def is_trade_def split: if_splits)

lemma deepseek_parse_empty:
  "deepseek_parse repr_of float_of (JObj []) = Inr (brain_decision Hold [] [] [] 0 0 [])"
  by (simp add: deepseek_parse_def py_get_def float_field_def truthy_def py_str_def read_side_def lower_def
      lower_char_def)

lemma deepseek_parse_not_object:
  "\<forall>kvs. data \<noteq> JObj kvs \<Longrightarrow> deepseek_parse repr_of float_of data = Inl (AttributeError ''get'')"
  by (cases data) (auto simp: deepseek_parse_def py_get_def)

text \<open>
  The answer of the language model is read safely: it can make the agent trade only when it is an object that
  names the side buy or sell (in any case) and an amount that Python reads as a positive number, and then the
  decision carries exactly that amount. Everything else is a hold or an exception.
\<close>

theorem deepseek_parse_safe:
  assumes "deepseek_parse repr_of float_of data = Inr d" "is_trade d"
  shows "\<exists>kvs v. data = JObj kvs \<and>
    lower (py_str repr_of (get_or (map_of kvs ''side'') (JStr ''hold''))) \<in> {''buy'', ''sell''} \<and>
    map_of kvs ''amount_usd'' = Some v \<and> py_float float_of v = Inr (d_amount_usd d) \<and> 0 < d_amount_usd d"
proof -
  obtain kvs where data: "data = JObj kvs"
    using assms(1) deepseek_parse_not_object [of data repr_of float_of] by fastforce
  have "d_side d = read_side (lower (py_str repr_of (get_or (map_of kvs ''side'') (JStr ''hold''))))"
      "float_field float_of (JObj kvs) ''amount_usd'' = Inr (d_amount_usd d)"
    using assms(1) unfolding data
    by (auto simp: deepseek_parse_def and_then_Inr py_get_def brain_decision_def)
  then show ?thesis
    using assms(2) data
    by (auto simp: is_trade_def read_side_def float_field_def py_get_def truthy_def get_or_def
        split: if_splits option.splits)
qed

theorem deepseek_parse_safe_witness:
  "\<exists>kvs v. ex_answer = JObj kvs \<and>
    lower (py_str (\<lambda>_. []) (get_or (map_of kvs ''side'') (JStr ''hold''))) \<in> {''buy'', ''sell''} \<and>
    map_of kvs ''amount_usd'' = Some v \<and> py_float (\<lambda>_. None) v = Inr 25 \<and> (0::real) < 25"
proof -
  let ?d = "brain_decision Buy ''bsc'' ''USDT'' ''WBNB'' 25 (1 / 2) ''dip''"
  have "deepseek_parse (\<lambda>_. []) (\<lambda>_. None) ex_answer = Inr ?d" by code_simp
  moreover have "is_trade ?d" by (simp add: is_trade_def brain_decision_def)
  ultimately show ?thesis
    using deepseek_parse_safe [of "\<lambda>_. []" "\<lambda>_. None" ex_answer ?d] by (simp add: brain_decision_def)
qed

end
