(* ===== verification/Loop.thy ===== *)
theory Loop
  imports Runtime Brain
begin

text \<open>
  \<open>agent/loop.py\<close>: the older autonomous loop. Every tick marks the portfolio, asks the brain once per enabled
  pair, records the decision and the guardrail's verdict, and executes what was allowed; the loop skips a
  paused tick and records a failed one.
\<close>

section \<open>The effective configuration\<close>

text \<open>A live override replaces a cap whose name the strategy file knows; unknown names are ignored.\<close>

definition set_cap :: "string \<Rightarrow> pynum \<Rightarrow> guard_risk \<Rightarrow> guard_risk" where
  "set_cap k v r =
     (if k = ''max_single_trade_usd'' then r\<lparr>gk_max_single_trade_usd := v\<rparr>
      else if k = ''max_position_pct'' then r\<lparr>gk_max_position_pct := v\<rparr>
      else if k = ''max_drawdown_pct'' then r\<lparr>gk_max_drawdown_pct := v\<rparr>
      else if k = ''max_trades_per_hour'' then r\<lparr>gk_max_trades_per_hour := v\<rparr>
      else r)"

definition effective_cfg :: "strategy_cfg \<Rightarrow> runtime \<Rightarrow> strategy_cfg" where
  "effective_cfg cfg rt = cfg\<lparr>sc_risk :=
     foldl (\<lambda>r (k, v). if k \<in> set (sc_risk_keys cfg) then set_cap k v r else r)
       (sc_risk cfg) (rs_overrides (runtime_load rt))\<rparr>"

record policy_summary =
  pm_allowed_pairs :: "(string \<times> string \<times> string) list"
  pm_allowed_tokens :: "string list"
  pm_max_single_trade_usd :: pynum
  pm_max_drawdown_pct :: pynum

definition policy_summary_of :: "strategy_cfg \<Rightarrow> policy_summary" where
  "policy_summary_of cfg = \<lparr>pm_allowed_pairs = sc_allowed_pairs cfg, pm_allowed_tokens = sc_allowed_tokens cfg,
     pm_max_single_trade_usd = gk_max_single_trade_usd (sc_risk cfg),
     pm_max_drawdown_pct = gk_max_drawdown_pct (sc_risk cfg)\<rparr>"

section \<open>One tick\<close>

text \<open>The surroundings of a tick: the clock and the zone of the host, prices, brain, backend and executor.\<close>

record loop_env =
  lv_clock :: clock
  lv_utc_offset :: int
  lv_fetch :: "(string list \<Rightarrow> py_error + json) option"
  lv_brain :: "snapshot \<Rightarrow> policy_summary \<Rightarrow> py_error + decision"
  lv_backend :: backend
  lv_mode :: exec_mode
  lv_slippage_bps :: int

record loop_step =
  lp_decision :: decision
  lp_verdict :: string
  lp_allowed :: bool
  lp_execution :: "detail option"

text \<open>\<open>verdict.clamped_amount_usd or decision.amount_usd\<close>.\<close>

definition loop_amount :: "decision \<Rightarrow> guardrail_verdict \<Rightarrow> real" where
  "loop_amount d v = (case gv_clamped_amount_usd v of None \<Rightarrow> d_amount_usd d
     | Some c \<Rightarrow> if c = 0 then d_amount_usd d else c)"

definition execution_event :: "real \<Rightarrow> execution_result \<Rightarrow> ledger_event" where
  "execution_event amount r = (if er_executed r then Executed amount (er_detail r) (er_error r)
     else ExecuteAttempt amount (er_detail r) (er_error r))"

text \<open>What happens once the brain has decided.\<close>

definition act_on :: "loop_env \<Rightarrow> strategy_cfg \<Rightarrow> real \<Rightarrow> real \<Rightarrow> decision \<Rightarrow> ledger \<Rightarrow>
    ledger \<times> broadcast list \<times> (py_error + loop_step)" where
  "act_on env cfg value drawdown d led =
     (let led1 = ledger_record (lv_clock env) (DecisionMade d) led;
          v = guard_check (init_guardrail cfg) d
                \<lparr>gw_portfolio_value_usd = value, gw_drawdown_pct = drawdown,
                 gw_trades_last_hour = trades_last_hour (lv_utc_offset env) (lv_clock env) led1\<rparr>;
          led2 = ledger_record (lv_clock env) (GuardrailSaid d (gv_allowed v) (gv_reason v)) led1;
          step = \<lparr>lp_decision = d, lp_verdict = gv_reason v, lp_allowed = gv_allowed v, lp_execution = None\<rparr>
      in if gv_allowed v \<and> is_trade d
         then let amount = loop_amount d v in
              (case execute (lv_backend env) (lv_mode env) (lv_slippage_bps env) d amount [] of
                 (sent, Inl e) \<Rightarrow> (led2, sent, Inl e)
               | (sent, Inr r) \<Rightarrow> (ledger_record (lv_clock env) (execution_event amount r) led2, sent,
                   Inr (step\<lparr>lp_execution := Some (er_detail r)\<rparr>)))
         else (led2, [], Inr step))"

definition loop_pair :: "loop_env \<Rightarrow> strategy_cfg \<Rightarrow> real \<Rightarrow> real \<Rightarrow> string \<times> string \<times> string \<Rightarrow> ledger \<Rightarrow>
    ledger \<times> broadcast list \<times> (py_error + loop_step)" where
  "loop_pair env cfg value drawdown pair led =
     (case and_then (build_snapshot (lv_fetch env) (lv_backend env) pair)
             (\<lambda>sn. lv_brain env sn (policy_summary_of cfg)) of
        Inl e \<Rightarrow> (led, [], Inl e)
      | Inr d \<Rightarrow> act_on env cfg value drawdown d led)"

fun loop_pairs :: "loop_env \<Rightarrow> strategy_cfg \<Rightarrow> real \<Rightarrow> real \<Rightarrow> (string \<times> string \<times> string) list \<Rightarrow> ledger \<Rightarrow>
    ledger \<times> broadcast list \<times> (py_error + loop_step list)" where
  "loop_pairs env cfg value drawdown [] led = (led, [], Inr [])"
| "loop_pairs env cfg value drawdown (p # ps) led =
     (case loop_pair env cfg value drawdown p led of
        (led1, sent1, Inl e) \<Rightarrow> (led1, sent1, Inl e)
      | (led1, sent1, Inr step) \<Rightarrow>
          (case loop_pairs env cfg value drawdown ps led1 of
             (led2, sent2, r) \<Rightarrow> (led2, sent1 @ sent2, map_sum id (Cons step) r)))"

definition enabled_pairs :: "strategy_cfg \<Rightarrow> (string \<times> string \<times> string) list" where
  "enabled_pairs cfg = filter (\<lambda>(c, _, _). (c, True) \<in> set (sc_chains cfg)) (sc_allowed_pairs cfg)"

record loop_world =
  lw_runtime :: runtime
  lw_portfolio :: "portfolio_file option"
  lw_ledger :: ledger
  lw_sent :: "broadcast list"

definition loop_tick :: "loop_env \<Rightarrow> strategy_cfg \<Rightarrow> real \<Rightarrow> loop_world \<Rightarrow> loop_world \<times> (py_error + loop_step list)" where
  "loop_tick env base value w =
     (let cfg = effective_cfg base (lw_runtime w);
          (drawdown, pf) = update_and_drawdown value (lw_portfolio w);
          (led, sent, r) = loop_pairs env cfg value drawdown (enabled_pairs cfg) (lw_ledger w)
      in (w\<lparr>lw_portfolio := pf, lw_ledger := led, lw_sent := lw_sent w @ sent\<rparr>, r))"

section \<open>The loop\<close>

text \<open>One round of \<open>run_forever\<close>; the sleep between rounds is the passing of time between their clocks.\<close>

definition loop_iteration :: "strategy_cfg \<Rightarrow> loop_env \<Rightarrow> loop_world \<Rightarrow> loop_world" where
  "loop_iteration base env w =
     (let st = runtime_load (lw_runtime w) in
      if rs_paused st then w\<lparr>lw_ledger := ledger_record (lv_clock env) PausedTick (lw_ledger w)\<rparr>
      else case loop_tick env base (rs_portfolio_value_usd st) w of
             (w', Inr _) \<Rightarrow> w'
           | (w', Inl e) \<Rightarrow> w'\<lparr>lw_ledger := ledger_record (lv_clock env) (TickError e) (lw_ledger w')\<rparr>)"

definition run_forever :: "strategy_cfg \<Rightarrow> loop_env list \<Rightarrow> loop_world \<Rightarrow> loop_world" where
  "run_forever base envs w = foldl (\<lambda>w env. loop_iteration base env w) w envs"

section \<open>The hourly rate\<close>

text \<open>
  The executions among \<open>l\<close> stamped less than an hour (3600 whole seconds) before \<open>ts\<close>, and the property that no
  execution of the ledger is the \<open>n + 1\<close>st of such a window.
\<close>

definition in_window :: "int \<Rightarrow> ledger_line \<Rightarrow> bool" where
  "in_window ts entry = (case entry of Garbled \<Rightarrow> False | Line t e \<Rightarrow> is_executed e \<and> ts - 3600 < t)"

definition rate_ok :: "real \<Rightarrow> ledger \<Rightarrow> bool" where
  "rate_ok n l = (\<forall>pre ts e. prefix (pre @ [Line ts e]) l \<longrightarrow> is_executed e \<longrightarrow>
     real (length (filter (in_window ts) (pre @ [Line ts e]))) < n + 1)"

lemma rate_ok_Nil [simp]: "rate_ok n []"
  by (simp add: rate_ok_def)

lemma rate_ok_snoc:
  "rate_ok n (l @ [x]) \<longleftrightarrow> rate_ok n l \<and>
     (\<forall>ts e. x = Line ts e \<longrightarrow> is_executed e \<longrightarrow> real (length (filter (in_window ts) (l @ [x]))) < n + 1)"
  unfolding rate_ok_def prefix_snoc by auto

lemma rate_ok_record [simp]:
  "\<not> is_executed e \<Longrightarrow> rate_ok n (ledger_record clock e l) \<longleftrightarrow> rate_ok n l"
  by (auto simp: ledger_record_def rate_ok_snoc)

lemma is_executed_simps [simp]:
  "\<not> is_executed (DecisionMade d)" "\<not> is_executed (GuardrailSaid d b s)" "\<not> is_executed (ExecuteAttempt a x y)"
  "\<not> is_executed PausedTick" "\<not> is_executed (TickError e)" "is_executed (Executed a x y)"
  by (simp_all add: is_executed_def)

lemma length_filter_mono: "(\<And>x. P x \<Longrightarrow> Q x) \<Longrightarrow> length (filter P xs) \<le> length (filter Q xs)"
  by (induction xs) auto

text \<open>What the ledger counts at a check covers the window of an execution recorded two lines later.\<close>

lemma window_counted:
  assumes "z \<le> 0" "c \<le> c'"
  shows "int (length (filter (in_window \<lfloor>c'\<rfloor>) l)) \<le> int (length (filter (counts_since z (c - 3600)) l))"
proof -
  have "counts_since z (c - 3600) entry" if w: "in_window \<lfloor>c'\<rfloor> entry" for entry
  proof -
    obtain t e where x: "entry = Line t e" "is_executed e" "\<lfloor>c'\<rfloor> - 3600 < t"
      using w by (auto simp: in_window_def split: ledger_line.splits)
    then have "\<lfloor>c'\<rfloor> + 1 - 3600 \<le> t" by simp
    then have "of_int (\<lfloor>c'\<rfloor> + 1) - 3600 \<le> (of_int t :: real)" by linarith
    moreover have "c' < of_int (\<lfloor>c'\<rfloor> + 1)" by linarith
    moreover have "of_int z \<le> (0::real)" using assms(1) by simp
    ultimately have "c - 3600 \<le> of_int (mktime z t)"
      using assms(2) unfolding mktime_def of_int_diff of_int_add of_int_1 by linarith
    then show ?thesis using x by (simp add: counts_since_def)
  qed
  then show ?thesis by (simp add: length_filter_mono)
qed

lemma rate_ok_act_on:
  assumes "rate_ok n led" "mono (lv_clock env)" "lv_utc_offset env \<le> 0"
    "num_value (gk_max_trades_per_hour (sc_risk cfg)) \<le> n"
  shows "rate_ok n (fst (act_on env cfg value drawdown d led))"
proof -
  define c where "c = lv_clock env"
  define led1 where "led1 = ledger_record c (DecisionMade d) led"
  define v where "v = guard_check (init_guardrail cfg) d
    \<lparr>gw_portfolio_value_usd = value, gw_drawdown_pct = drawdown, gw_trades_last_hour = trades_last_hour (lv_utc_offset env) c led1\<rparr>"
  define led2 where "led2 = ledger_record c (GuardrailSaid d (gv_allowed v) (gv_reason v)) led1"
  have ok1: "rate_ok n led1" and ok2: "rate_ok n led2" using assms(1) by (simp_all add: led1_def led2_def)
  show ?thesis
  proof (cases "gv_allowed v \<and> is_trade d")
    case True
    then have "of_int (trades_last_hour (lv_utc_offset env) c led1) < n"
      using assms(4) guard_allowed [of d "init_guardrail cfg"] by (simp add: v_def guard_permits_def init_guardrail_def)
    moreover have "c (length led1) \<le> c (length led2)"
      using assms(2) by (simp add: c_def led2_def ledger_record_def monoD)
    ultimately have lt: "real (length (filter (in_window \<lfloor>c (length led2)\<rfloor>) led1)) < n"
      using window_counted [OF assms(3), of "c (length led1)" "c (length led2)" led1]
      by (simp add: trades_last_hour_def Let_def)
    then have "real (length (filter (in_window \<lfloor>c (length led2)\<rfloor>) led2)) < n"
      by (simp add: led2_def ledger_record_def in_window_def)
    then have "rate_ok n (ledger_record c (execution_event a r) led2)" for a r
      using ok2 by (auto simp: ledger_record_def rate_ok_snoc in_window_def)
    then show ?thesis
      unfolding act_on_def Let_def c_def [symmetric] led1_def [symmetric] v_def [symmetric] led2_def [symmetric]
      using True ok2 by (auto split: prod.splits sum.splits)
  next
    case False
    then show ?thesis
      unfolding act_on_def Let_def c_def [symmetric] led1_def [symmetric] v_def [symmetric] led2_def [symmetric]
      using ok2 False by auto
  qed
qed

lemma rate_ok_pairs:
  assumes "mono (lv_clock env)" "lv_utc_offset env \<le> 0" "num_value (gk_max_trades_per_hour (sc_risk cfg)) \<le> n"
  shows "rate_ok n led \<Longrightarrow> rate_ok n (fst (loop_pairs env cfg value drawdown ps led))"
proof (induction ps arbitrary: led)
  case (Cons p ps)
  have "rate_ok n (fst (loop_pair env cfg value drawdown p led))"
    using rate_ok_act_on [OF Cons.prems assms] Cons.prems by (simp add: loop_pair_def split: sum.splits)
  with Cons.IH show ?case by (force split: prod.splits sum.splits)
qed simp

lemma rate_ok_iteration:
  assumes "mono (lv_clock env)" "lv_utc_offset env \<le> 0" "rate_ok n (lw_ledger w)"
    "num_value (gk_max_trades_per_hour (sc_risk (effective_cfg base (lw_runtime w)))) \<le> n"
  shows "rate_ok n (lw_ledger (loop_iteration base env w)) \<and> lw_runtime (loop_iteration base env w) = lw_runtime w"
proof -
  define cfg where "cfg = effective_cfg base (lw_runtime w)"
  define v where "v = rs_portfolio_value_usd (runtime_load (lw_runtime w))"
  obtain dd pf where d: "update_and_drawdown v (lw_portfolio w) = (dd, pf)" by fastforce
  obtain led sent r where p: "loop_pairs env cfg v dd (enabled_pairs cfg) (lw_ledger w) = (led, sent, r)"
    using prod_cases3 by blast
  have "rate_ok n led"
    using rate_ok_pairs [of env cfg n "lw_ledger w" v dd "enabled_pairs cfg"] assms p by (simp add: cfg_def)
  then show ?thesis using assms(3) d p
    by (cases r) (simp_all add: loop_iteration_def loop_tick_def Let_def cfg_def v_def)
qed

text \<open>
  The hourly limit holds over the whole history of the loop: on a host whose zone is not ahead of UTC, in
  every ledger that the loop writes under a limit of \<open>n\<close> trades per hour, no execution is the \<open>n + 1\<close>st within
  3600 seconds, whatever the brains, prices and backends of the rounds do.
\<close>

theorem hourly_rate_holds:
  assumes "rate_ok n (lw_ledger w)"
    and "num_value (gk_max_trades_per_hour (sc_risk (effective_cfg base (lw_runtime w)))) \<le> n"
    and "\<forall>env \<in> set envs. mono (lv_clock env) \<and> lv_utc_offset env \<le> 0"
  shows "rate_ok n (lw_ledger (run_forever base envs w))"
  using assms
proof (induction envs arbitrary: w)
  case (Cons env envs)
  from Cons.prems rate_ok_iteration [of env n w base] show ?case
    by (simp add: run_forever_def Cons.IH [unfolded run_forever_def])
qed (simp add: run_forever_def)

definition idle_env :: loop_env where
  "idle_env = \<lparr>lv_clock = real, lv_utc_offset = 0, lv_fetch = None,
     lv_brain = (\<lambda>sn _. Inr (brain_decision Buy (sn_chain sn) (sn_from sn) (sn_to sn) 25 1 ''always'')),
     lv_backend = \<lparr>b_quote = (\<lambda>_. Inr []), b_swap = (\<lambda>a. ([HostedSwap a], Inr \<lparr>er_executed = True,
       er_dry_run = False, er_detail = [], er_error = None\<rparr>)), b_accepts_cid = False\<rparr>,
     lv_mode = Live, lv_slippage_bps = 50\<rparr>"

definition fresh_world :: loop_world where
  "fresh_world = \<lparr>lw_runtime = fresh_runtime, lw_portfolio = None, lw_ledger = [], lw_sent = []\<rparr>"

theorem hourly_rate_holds_witness:
  "rate_ok 4 (lw_ledger (run_forever bnb_strategy (replicate 9 idle_env) fresh_world))"
proof (rule hourly_rate_holds)
  show "num_value (gk_max_trades_per_hour (sc_risk (effective_cfg bnb_strategy (lw_runtime fresh_world)))) \<le> 4"
    by (simp add: fresh_world_def effective_cfg_def bnb_strategy_def runtime_load_def fresh_runtime_def)
qed (simp_all add: fresh_world_def idle_env_def mono_def)

section \<open>What the loop executes\<close>

definition event_amount :: "ledger_event \<Rightarrow> real option" where
  "event_amount e = (case e of Executed a _ _ \<Rightarrow> Some a | ExecuteAttempt a _ _ \<Rightarrow> Some a | _ \<Rightarrow> None)"

definition line_amount :: "ledger_line \<Rightarrow> real option" where
  "line_amount l = (case l of Garbled \<Rightarrow> None | Line _ e \<Rightarrow> event_amount e)"

lemma event_amount_simps [simp]:
  "event_amount (DecisionMade d) = None" "event_amount (GuardrailSaid d b s) = None"
  "event_amount PausedTick = None" "event_amount (TickError x) = None"
  "event_amount (execution_event a r) = Some a"
  by (simp_all add: event_amount_def execution_event_def)

lemma line_amount_simps [simp]:
  "line_amount (Line t (DecisionMade d)) = None" "line_amount (Line t (GuardrailSaid d b s)) = None"
  "line_amount (Line t (execution_event a r)) = Some a"
  by (simp_all add: line_amount_def)

text \<open>
  The calls of the executor, as the trades and the amounts that it was given: what they broadcast, and those that
  returned (the others raised).
\<close>

definition calls_sent :: "loop_env \<Rightarrow> (decision \<times> real) list \<Rightarrow> broadcast list" where
  "calls_sent env calls =
     concat (map (\<lambda>(d, a). fst (execute (lv_backend env) (lv_mode env) (lv_slippage_bps env) d a [])) calls)"

definition calls_returned :: "loop_env \<Rightarrow> (decision \<times> real) list \<Rightarrow> (decision \<times> real) list" where
  "calls_returned env =
     filter (\<lambda>(d, a). \<not> isl (snd (execute (lv_backend env) (lv_mode env) (lv_slippage_bps env) d a [])))"

definition lawful_call :: "strategy_cfg \<Rightarrow> real \<Rightarrow> real \<Rightarrow> decision \<Rightarrow> real \<Rightarrow> bool" where
  "lawful_call cfg value drawdown d a =
     (is_trade d \<and> (d_chain d, upper (d_from_token d), upper (d_to_token d)) \<in> gr_allowed_pairs (init_guardrail cfg) \<and>
      upper (d_from_token d) \<in> set (sc_allowed_tokens cfg) \<and> upper (d_to_token d) \<in> set (sc_allowed_tokens cfg) \<and>
      drawdown < num_value (gk_max_drawdown_pct (sc_risk cfg)) \<and>
      (let cap = min (num_value (gk_max_single_trade_usd (sc_risk cfg))) (value * num_value (gk_max_position_pct (sc_risk cfg)))
       in a = (if cap = 0 then d_amount_usd d else min (d_amount_usd d) cap)))"

text \<open>The lines that an operation appends satisfy \<open>P\<close>; a line whose amount is that of a lawful call.\<close>

definition appends :: "(ledger_event \<Rightarrow> bool) \<Rightarrow> ledger \<Rightarrow> ledger \<Rightarrow> bool" where
  "appends P l l' = (\<exists>new. l' = l @ new \<and> (\<forall>x \<in> set new. \<exists>ts e. x = Line ts e \<and> P e))"

lemma appends_refl [simp]: "appends P l l"
  by (simp add: appends_def)

lemma appends_trans: "appends P a b \<Longrightarrow> appends P b c \<Longrightarrow> appends P a c"
  by (force simp: appends_def)

lemma appends_record: "appends P a b \<Longrightarrow> P e \<Longrightarrow> appends P a (ledger_record clock e b)"
  by (force simp: appends_def ledger_record_def)

definition amount_lawful :: "strategy_cfg \<Rightarrow> real \<Rightarrow> real \<Rightarrow> ledger_event \<Rightarrow> bool" where
  "amount_lawful cfg value drawdown e = (\<forall>a. event_amount e = Some a \<longrightarrow> (\<exists>d. lawful_call cfg value drawdown d a))"

text \<open>The brain was asked about one of these pairs and answered \<open>d\<close>.\<close>

definition brain_said :: "loop_env \<Rightarrow> strategy_cfg \<Rightarrow> (string \<times> string \<times> string) list \<Rightarrow> decision \<Rightarrow> bool" where
  "brain_said env cfg pairs d =
     (\<exists>pair \<in> set pairs. \<exists>sn. build_snapshot (lv_fetch env) (lv_backend env) pair = Inr sn \<and>
        lv_brain env sn (policy_summary_of cfg) = Inr d)"

lemma guard_amount_lawful:
  assumes "is_trade d" "gv_allowed v" "v = guard_check (init_guardrail cfg) d w"
  shows "lawful_call cfg (gw_portfolio_value_usd w) (gw_drawdown_pct w) d (loop_amount d v)"
proof -
  have p: "guard_permits (init_guardrail cfg) d w" using assms guard_allowed by blast
  have "loop_amount d v = (let cap = guard_cap (init_guardrail cfg) w in
      if cap = 0 then d_amount_usd d else min (d_amount_usd d) cap)"
    using p assms(1) by (simp add: assms(3) loop_amount_def guard_clamps Let_def min_def)
  with p assms(1) show ?thesis
    by (auto simp: lawful_call_def guard_permits_def init_guardrail_def guard_cap_def)
qed

lemma loop_amount_lawful:
  assumes "is_trade d" "gv_allowed v" "v = guard_check (init_guardrail cfg) d w"
  shows "amount_lawful cfg (gw_portfolio_value_usd w) (gw_drawdown_pct w) (execution_event (loop_amount d v) r)"
  using guard_amount_lawful [OF assms] by (auto simp: amount_lawful_def)

text \<open>An operation that makes these calls: what it adds to the ledger and what it broadcasts.\<close>

definition makes_calls :: "loop_env \<Rightarrow> (decision \<times> real) list \<Rightarrow> ledger \<Rightarrow> ledger \<Rightarrow> broadcast list \<Rightarrow> bool" where
  "makes_calls env calls led led' sent =
     (sent = calls_sent env calls \<and>
      (\<exists>new. led' = led @ new \<and> List.map_filter line_amount new = map snd (calls_returned env calls)))"

lemma map_filter_append: "List.map_filter f (xs @ ys) = List.map_filter f xs @ List.map_filter f ys"
  by (simp add: List.map_filter_def)

lemma makes_no_calls: "makes_calls env [] led led []"
  by (simp add: makes_calls_def calls_sent_def calls_returned_def)

lemma makes_more_calls:
  assumes "makes_calls env cs a b s" "makes_calls env ds b c t"
  shows "makes_calls env (cs @ ds) a c (s @ t)"
  using assms by (auto simp: makes_calls_def calls_sent_def calls_returned_def map_filter_append)

lemma act_on_calls:
  assumes "act_on env cfg value drawdown d led = (led', sent, r)"
  shows "\<exists>calls. makes_calls env calls led led' sent \<and> length calls \<le> 1 \<and>
    (\<forall>c \<in> set calls. fst c = d \<and> lawful_call cfg value drawdown d (snd c))"
proof -
  define w where "w led = \<lparr>gw_portfolio_value_usd = value, gw_drawdown_pct = drawdown,
    gw_trades_last_hour = trades_last_hour (lv_utc_offset env) (lv_clock env) led\<rparr>" for led
  define led1 where "led1 = ledger_record (lv_clock env) (DecisionMade d) led"
  define v where "v = guard_check (init_guardrail cfg) d (w led1)"
  define led2 where "led2 = ledger_record (lv_clock env) (GuardrailSaid d (gv_allowed v) (gv_reason v)) led1"
  note act = assms [unfolded act_on_def Let_def, folded led1_def w_def, folded v_def, folded led2_def]
  have led2: "\<exists>new. led2 = led @ new \<and> List.map_filter line_amount new = []"
    by (simp add: led2_def led1_def ledger_record_def map_filter_simps)
  show ?thesis
  proof (cases "gv_allowed v \<and> is_trade d")
    case True
    let ?a = "loop_amount d v"
    obtain s x where ex: "execute (lv_backend env) (lv_mode env) (lv_slippage_bps env) d ?a [] = (s, x)" by fastforce
    have "makes_calls env [(d, ?a)] led led' sent"
      using act True ex led2
      by (cases x) (auto simp: makes_calls_def calls_sent_def calls_returned_def ledger_record_def map_filter_append map_filter_simps)
    moreover have "lawful_call cfg value drawdown d ?a"
      using guard_amount_lawful [OF _ _ v_def] True by (simp add: w_def)
    ultimately show ?thesis by (intro exI [of _ "[(d, ?a)]"]) simp
  next
    case False
    with act led2 have "makes_calls env [] led led' sent" by (auto simp: makes_calls_def calls_sent_def calls_returned_def)
    then show ?thesis by (intro exI [of _ "[]"]) simp
  qed
qed

lemma loop_pair_calls:
  assumes "loop_pair env cfg value drawdown pair led = (led', sent, r)"
  shows "\<exists>calls. makes_calls env calls led led' sent \<and> length calls \<le> 1 \<and>
    (\<forall>(d, a) \<in> set calls. brain_said env cfg [pair] d \<and> lawful_call cfg value drawdown d a)"
proof (cases "and_then (build_snapshot (lv_fetch env) (lv_backend env) pair) (\<lambda>sn. lv_brain env sn (policy_summary_of cfg))")
  case (Inl e)
  with assms makes_no_calls show ?thesis by (intro exI [of _ "[]"]) (simp add: loop_pair_def)
next
  case (Inr d)
  then have said: "brain_said env cfg [pair] d" by (auto simp: brain_said_def and_then_Inr)
  have "act_on env cfg value drawdown d led = (led', sent, r)" using assms Inr by (simp add: loop_pair_def)
  from act_on_calls [OF this] obtain calls where "makes_calls env calls led led' sent" "length calls \<le> 1"
      "\<forall>c \<in> set calls. fst c = d \<and> lawful_call cfg value drawdown d (snd c)" by blast
  with said show ?thesis by (intro exI [of _ calls]) (auto simp: split_def)
qed

lemma brain_said_more: "brain_said env cfg ps d \<Longrightarrow> set ps \<subseteq> set qs \<Longrightarrow> brain_said env cfg qs d"
  by (auto simp: brain_said_def)

lemma loop_pairs_calls:
  "loop_pairs env cfg value drawdown ps led = (led', sent, r) \<Longrightarrow>
    \<exists>calls. makes_calls env calls led led' sent \<and> length calls \<le> length ps \<and>
      (\<forall>(d, a) \<in> set calls. brain_said env cfg ps d \<and> lawful_call cfg value drawdown d a)"
proof (induction ps arbitrary: led led' sent r)
  case Nil
  with makes_no_calls show ?case by (intro exI [of _ "[]"]) simp
next
  case (Cons p ps)
  obtain led1 sent1 r1 where p: "loop_pair env cfg value drawdown p led = (led1, sent1, r1)" by (metis prod_cases3)
  obtain cs where cs: "makes_calls env cs led led1 sent1" "length cs \<le> 1"
      "\<forall>(d, a) \<in> set cs. brain_said env cfg [p] d \<and> lawful_call cfg value drawdown d a"
    using loop_pair_calls [OF p] by blast
  have here: "\<forall>(d, a) \<in> set cs. brain_said env cfg (p # ps) d \<and> lawful_call cfg value drawdown d a"
    using cs(3) brain_said_more [of env cfg "[p]" _ "p # ps"] by auto
  show ?case
  proof (cases r1)
    case (Inl e)
    with Cons.prems p have "led' = led1" "sent = sent1" by simp_all
    with cs(1,2) here show ?thesis by (intro exI [of _ cs]) simp
  next
    case (Inr step)
    obtain led2 sent2 r2 where q: "loop_pairs env cfg value drawdown ps led1 = (led2, sent2, r2)" by (metis prod_cases3)
    obtain ds where ds: "makes_calls env ds led1 led2 sent2" "length ds \<le> length ps"
        "\<forall>(d, a) \<in> set ds. brain_said env cfg ps d \<and> lawful_call cfg value drawdown d a"
      using Cons.IH [OF q] by blast
    have later: "\<forall>(d, a) \<in> set ds. brain_said env cfg (p # ps) d \<and> lawful_call cfg value drawdown d a"
      using ds(3) brain_said_more [of env cfg ps _ "p # ps"] by auto
    have e: "led' = led2" "sent = sent1 @ sent2" using Cons.prems p q Inr by simp_all
    show ?thesis
    proof (intro exI conjI)
      show "makes_calls env (cs @ ds) led led' sent" unfolding e by (rule makes_more_calls [OF cs(1) ds(1)])
      show "\<forall>(d, a) \<in> set (cs @ ds). brain_said env cfg (p # ps) d \<and> lawful_call cfg value drawdown d a"
        using here later by (simp only: set_append ball_Un)
    qed (use cs(2) ds(2) in simp)
  qed
qed

text \<open>
  C28. What a tick executes: its calls of the executor are trades that the brain decided, at most one for each enabled
  pair, in committed tokens and pairs, below the drawdown breaker, and the amount that the executor is given is the
  decided one cut to the smaller of the two caps (except that a cap of exactly zero is no cap: then the whole requested
  amount goes out). What reaches the outside world is what these calls broadcast and nothing else, and the ledger
  only grows, by lines that record exactly the amounts of the calls that returned.
\<close>

theorem tick_amounts_lawful:
  fixes env base w usd
  defines "cfg \<equiv> effective_cfg base (lw_runtime w)" and "drawdown \<equiv> fst (update_and_drawdown usd (lw_portfolio w))"
  shows "\<exists>calls new. lw_sent (fst (loop_tick env base usd w)) = lw_sent w @ calls_sent env calls \<and>
     lw_ledger (fst (loop_tick env base usd w)) = lw_ledger w @ new \<and>
     List.map_filter line_amount new = map snd (calls_returned env calls) \<and>
     length calls \<le> length (enabled_pairs cfg) \<and>
     (\<forall>(d, a) \<in> set calls. brain_said env cfg (enabled_pairs cfg) d \<and> lawful_call cfg usd drawdown d a)"
proof -
  obtain led sent r where l: "loop_pairs env cfg usd drawdown (enabled_pairs cfg) (lw_ledger w) = (led, sent, r)"
    by (metis prod_cases3)
  then have "lw_sent (fst (loop_tick env base usd w)) = lw_sent w @ sent" "lw_ledger (fst (loop_tick env base usd w)) = led"
    by (simp_all add: loop_tick_def Let_def cfg_def drawdown_def split_def)
  with loop_pairs_calls [OF l] show ?thesis unfolding makes_calls_def by blast
qed

theorem tick_amounts_lawful_witness:
  "\<exists>d a b. lawful_call bnb_strategy 1000 0 d a \<and> brain_said idle_env bnb_strategy (enabled_pairs bnb_strategy) d \<and>
     fst (execute (lv_backend idle_env) Live 50 d a []) = [b] \<and>
     b \<in> set (lw_sent (fst (loop_tick idle_env bnb_strategy 1000 fresh_world)))"
proof -
  have eff: "effective_cfg bnb_strategy (lw_runtime fresh_world) = bnb_strategy"
    by (simp add: effective_cfg_def fresh_world_def runtime_load_def fresh_runtime_def)
  have dd: "fst (update_and_drawdown 1000 (lw_portfolio fresh_world)) = 0" by code_simp
  obtain calls where calls: "lw_sent (fst (loop_tick idle_env bnb_strategy 1000 fresh_world)) = lw_sent fresh_world @ calls_sent idle_env calls"
      "\<forall>(d, a) \<in> set calls. brain_said idle_env bnb_strategy (enabled_pairs bnb_strategy) d \<and> lawful_call bnb_strategy 1000 0 d a"
    using tick_amounts_lawful [of idle_env bnb_strategy 1000 fresh_world] unfolding eff dd by blast
  have "lw_sent (fst (loop_tick idle_env bnb_strategy 1000 fresh_world)) \<noteq> lw_sent fresh_world" by code_simp
  with calls(1) have "calls \<noteq> []" by (auto simp: calls_sent_def)
  then obtain d a where da: "(d, a) \<in> set calls" by (cases calls) auto
  obtain b where b: "fst (execute (lv_backend idle_env) Live 50 d a []) = [b]"
    by (simp add: execute_def idle_env_def Let_def)
  then have "b \<in> set (calls_sent idle_env calls)" using da by (force simp: calls_sent_def idle_env_def)
  then have "b \<in> set (lw_sent (fst (loop_tick idle_env bnb_strategy 1000 fresh_world)))" unfolding calls(1) by simp
  with calls(2) da b show ?thesis by blast
qed

end
