(* ===== verification/Chat.thy ===== *)
theory Chat
  imports Loop
begin

text \<open>
  \<open>agent/chat.py\<close>: the operator's commands. A message reads the shared files, pauses or resumes the loop, changes
  a risk cap, or runs one tick; free questions go to the language model, which is an argument. The last
  section is the terminal around it.
\<close>

section \<open>Reading a message\<close>

text \<open>Characters are 8-bit; letters and digits of \<open>\<^verbatim>\<open>\w\<close>\<close> are the ASCII ones.\<close>

definition is_word :: "char \<Rightarrow> bool" where
  "is_word c = (let n = (of_char c :: nat) in
     48 \<le> n \<and> n \<le> 57 \<or> 65 \<le> n \<and> n \<le> 90 \<or> 97 \<le> n \<and> n \<le> 122 \<or> n = 95)"

definition is_cap_char :: "char \<Rightarrow> bool" where
  "is_cap_char c = (is_digit c \<or> c = CHR ''.'')"

text \<open>\<open>re.match\<close> of the \<open>set cap\<close> pattern: the name and the number's text.\<close>

definition match_set_cap :: "string \<Rightarrow> (string \<times> string) option" where
  "match_set_cap msg =
     (if prefix ''set cap '' msg
      then let rest = drop 8 msg; field = takeWhile is_word rest; gap = dropWhile is_word rest;
               num = takeWhile is_cap_char (dropWhile is_space gap)
           in if field \<noteq> [] \<and> takeWhile is_space gap \<noteq> [] \<and> num \<noteq> [] then Some (field, num) else None
      else None)"

text \<open>\<open>float\<close> of a text of digits and points.\<close>

definition parse_decimal :: "string \<Rightarrow> real option" where
  "parse_decimal s =
     (let i = takeWhile is_digit s in
      case dropWhile is_digit s of
        [] \<Rightarrow> if i = [] then None else Some (real (digits_value i))
      | c # f \<Rightarrow> if c = CHR ''.'' \<and> (i \<noteq> [] \<or> f \<noteq> []) \<and> (\<forall>x \<in> set f. is_digit x)
                 then Some (real (digits_value i) + real (digits_value f) / 10 ^ length f) else None)"

section \<open>Answers\<close>

definition line_events :: "ledger \<Rightarrow> ledger_event list" where
  "line_events l = concat (map (\<lambda>x. case x of Garbled \<Rightarrow> [] | Line _ e \<Rightarrow> [e]) l)"

text \<open>\<open>out[-n:]\<close> of the events of one kind.\<close>

definition recent :: "(ledger_event \<Rightarrow> 'a option) \<Rightarrow> nat \<Rightarrow> ledger \<Rightarrow> 'a list" where
  "recent kind n l = (let out = List.map_filter kind (line_events l) in drop (length out - n) out)"

definition as_decision :: "ledger_event \<Rightarrow> decision option" where
  "as_decision e = (case e of DecisionMade d \<Rightarrow> Some d | _ \<Rightarrow> None)"

definition as_verdict :: "ledger_event \<Rightarrow> (decision \<times> string) option" where
  "as_verdict e = (case e of GuardrailSaid d _ r \<Rightarrow> Some (d, r) | _ \<Rightarrow> None)"

text \<open>\<open>_status\<close>: the drawdown comes from \<open>portfolio.snapshot()\<close>, which also advances the stored high-water mark.\<close>

definition chat_status :: "strategy_cfg \<Rightarrow> loop_world \<Rightarrow> string \<times> loop_world" where
  "chat_status cfg w =
     (let st = runtime_load (lw_runtime w);
          (pf, f) = portfolio_snapshot (rs_portfolio_value_usd st) (lw_portfolio w);
          last3 = recent as_decision 3 (lw_ledger w);
          first_line = ''Status: '' @ (if rs_paused st then ''PAUSED'' else ''RUNNING'') @ '' | portfolio $'' @
            fmt_f 2 (hv_value_usd pf) @ '' | drawdown '' @ fmt_f 2 (hv_drawdown_pct pf) @ ''% (cap '' @
            num_text (gk_max_drawdown_pct (sc_risk cfg)) @ ''%)'';
          line = (\<lambda>d. ''  - '' @ side_text (d_side d) @ '' $'' @ fmt_g (d_amount_usd d) @ '' '' @ d_from_token d @
            ''->'' @ d_to_token d @ '' ('' @ d_rationale d @ '')'')
      in (join newline (first_line # (if last3 = [] then [] else ''Recent decisions:'' # map line last3)),
          w\<lparr>lw_portfolio := f\<rparr>))"

definition chat_why :: "loop_world \<Rightarrow> string" where
  "chat_why w =
     (let last3 = recent as_verdict 3 (lw_ledger w) in
      if last3 = [] then ''No decisions yet.''
      else join newline (''Most recent decisions and what the guardrail did:'' #
             map (\<lambda>(d, r). ''  - '' @ side_text (d_side d) @ '' '' @ d_from_token d @ ''->'' @ d_to_token d @ '': '' @
               d_rationale d @ '' | guardrail: '' @ r) last3))"

text \<open>\<open>{**r, **ov}\<close>: here every override counts, also one of an unknown name (which no line prints).\<close>

definition chat_policy :: "strategy_cfg \<Rightarrow> loop_world \<Rightarrow> string" where
  "chat_policy cfg w =
     (let r = foldl (\<lambda>r (k, v). set_cap k v r) (sc_risk cfg) (rs_overrides (runtime_load (lw_runtime w)));
          pairs = join '', '' (map (\<lambda>(c, f, t). f @ ''->'' @ t @ ''@'' @ c) (sc_allowed_pairs cfg))
      in join newline [''Active policy:'', ''  pairs: '' @ pairs,
           ''  max single trade: $'' @ num_text (gk_max_single_trade_usd r),
           ''  max position: '' @ fmt_f 0 (num_value (gk_max_position_pct r) * 100) @ ''%  | drawdown cap: '' @
             num_text (gk_max_drawdown_pct r) @ ''%'',
           ''  max trades/hour: '' @ num_text (gk_max_trades_per_hour r)])"

text \<open>
  \<open>_freeform\<close>: without a key a fixed answer, else the model answers from the status and the policy, whose
  computation writes the portfolio file.
\<close>

definition chat_freeform :: "(string \<Rightarrow> string \<Rightarrow> py_error + string) option \<Rightarrow> strategy_cfg \<Rightarrow> string \<Rightarrow>
    loop_world \<Rightarrow> loop_world \<times> (py_error + string)" where
  "chat_freeform model cfg message w =
     (case model of
        None \<Rightarrow> (w, Inr (''I can answer: status, positions, why, policy, pause, resume, tick, '' @
                  ''or '' @ [CHR 0x27] @ ''set cap <field> <value>'' @ [CHR 0x27] @ ''.''))
      | Some ask \<Rightarrow> (case chat_status cfg w of (s, w') \<Rightarrow> (w', ask (s @ newline @ chat_policy cfg w') message)))"

section \<open>Commands\<close>

definition chat_tick :: "strategy_cfg \<Rightarrow> loop_env \<Rightarrow> loop_world \<Rightarrow> loop_world \<times> (py_error + string)" where
  "chat_tick base env w =
     (case loop_tick (env\<lparr>lv_slippage_bps := 50\<rparr>) base (rs_portfolio_value_usd (runtime_load (lw_runtime w))) w of
        (w', Inl e) \<Rightarrow> (w', Inl e)
      | (w', Inr steps) \<Rightarrow> (w', Inr (''Ran one cycle:'' @ newline @
          join newline (map (\<lambda>s. ''  - '' @ side_text (d_side (lp_decision s)) @ '' '' @ d_from_token (lp_decision s) @
            ''->'' @ d_to_token (lp_decision s) @ '': '' @ lp_verdict s) steps))))"

definition chat_set_cap :: "strategy_cfg \<Rightarrow> string \<Rightarrow> string \<Rightarrow> loop_world \<Rightarrow> loop_world \<times> (py_error + string)" where
  "chat_set_cap cfg field num w =
     (case parse_decimal num of
        None \<Rightarrow> (w, Inl (ValueError ''could not convert string to float''))
      | Some x \<Rightarrow>
          if field \<notin> set (sc_risk_keys cfg)
          then (w, Inr (''Unknown cap '' @ [CHR 0x27] @ field @ [CHR 0x27] @ ''. Known: '' @ join '', '' (sc_risk_keys cfg)))
          else (w\<lparr>lw_runtime := set_override field (PFloat x) (lw_runtime w)\<rparr>,
                Inr (''Set '' @ field @ '' = '' @ repr_f x @ '' (live).'')))"

text \<open>
  \<open>handle\<close>: \<open>cfg\<close> is the strategy file of the chat, \<open>base\<close> the one of the loop (\<open>STRATEGY_CONFIG\<close> can make them
  differ), \<open>env\<close> what a tick run from the chat meets.
\<close>

definition chat_handle :: "strategy_cfg \<Rightarrow> strategy_cfg \<Rightarrow> loop_env \<Rightarrow> (string \<Rightarrow> string \<Rightarrow> py_error + string) option \<Rightarrow>
    string \<Rightarrow> loop_world \<Rightarrow> loop_world \<times> (py_error + string)" where
  "chat_handle cfg base env model message w =
     (let msg = lower (py_strip message) in
      if msg \<in> {''status'', ''how are you'', ''how are you doing''}
      then (case chat_status cfg w of (s, w') \<Rightarrow> (w', Inr s))
      else if msg \<in> {''positions'', ''portfolio''}
      then (w, Inr (''Portfolio value: $'' @ fmt_f 2 (rs_portfolio_value_usd (runtime_load (lw_runtime w)))))
      else if prefix ''why'' msg \<or> prefix ''explain'' msg then (w, Inr (chat_why w))
      else if msg \<in> {''policy'', ''limits'', ''caps''} then (w, Inr (chat_policy cfg w))
      else if msg = ''pause''
      then (w\<lparr>lw_runtime := runtime_update (\<lambda>s. s\<lparr>rs_paused := True\<rparr>) (lw_runtime w)\<rparr>,
            Inr ''Paused. The agent will not open new trades until resumed.'')
      else if msg = ''resume''
      then (w\<lparr>lw_runtime := runtime_update (\<lambda>s. s\<lparr>rs_paused := False\<rparr>) (lw_runtime w)\<rparr>,
            Inr ''Resumed. Autonomous trading is active.'')
      else if msg = ''tick'' then chat_tick base env w
      else case match_set_cap msg of
             Some (field, num) \<Rightarrow> chat_set_cap cfg field num w
           | None \<Rightarrow> chat_freeform model cfg message w)"

section \<open>Pausing\<close>

lemma paused_iteration:
  assumes "rs_paused (runtime_load (lw_runtime w))"
  shows "loop_iteration base env w = w\<lparr>lw_ledger := ledger_record (lv_clock env) PausedTick (lw_ledger w)\<rparr>"
  using assms by (simp add: loop_iteration_def Let_def)

lemma paused_run:
  "rs_paused (runtime_load (lw_runtime w)) \<Longrightarrow>
    lw_sent (run_forever base envs w) = lw_sent w \<and> lw_portfolio (run_forever base envs w) = lw_portfolio w \<and>
    appends (\<lambda>e. e = PausedTick) (lw_ledger w) (lw_ledger (run_forever base envs w))"
proof (induction envs arbitrary: w)
  case (Cons env envs)
  have "appends (\<lambda>e. e = PausedTick) (lw_ledger w) (ledger_record (lv_clock env) PausedTick (lw_ledger w))"
    by (rule appends_record) simp_all
  with Cons.IH [of "w\<lparr>lw_ledger := ledger_record (lv_clock env) PausedTick (lw_ledger w)\<rparr>"] Cons.prems
  show ?case by (auto simp: run_forever_def paused_iteration dest: appends_trans)
qed (simp add: run_forever_def)

text \<open>
  Pausing stops the loop: after the message \<open>pause\<close>, in any case and with any white space around it, every
  further round of the loop sends nothing, leaves the high-water mark alone and appends only paused ticks.
\<close>

theorem pause_stops_the_loop:
  assumes "lower (py_strip message) = ''pause''" "chat_handle cfg base' env model message w = (w', reply)"
  shows "lw_sent (run_forever base envs w') = lw_sent w \<and> lw_portfolio (run_forever base envs w') = lw_portfolio w \<and>
    (\<exists>n. map (\<lambda>x. case x of Line _ e \<Rightarrow> Some e | Garbled \<Rightarrow> None) (lw_ledger (run_forever base envs w')) =
      map (\<lambda>x. case x of Line _ e \<Rightarrow> Some e | Garbled \<Rightarrow> None) (lw_ledger w) @ replicate n (Some PausedTick))"
proof -
  have w': "w' = w\<lparr>lw_runtime := runtime_update (\<lambda>s. s\<lparr>rs_paused := True\<rparr>) (lw_runtime w)\<rparr>"
    using assms by (simp add: chat_handle_def Let_def)
  have "rs_paused (runtime_load (lw_runtime w'))" by (simp add: w' runtime_cell.load_update)
  then have run: "lw_sent (run_forever base envs w') = lw_sent w'" "lw_portfolio (run_forever base envs w') = lw_portfolio w'"
      "appends (\<lambda>e. e = PausedTick) (lw_ledger w') (lw_ledger (run_forever base envs w'))"
    using paused_run [of w' base envs] by blast+
  obtain new where new: "lw_ledger (run_forever base envs w') = lw_ledger w' @ new"
      "\<forall>x \<in> set new. \<exists>ts e. x = Line ts e \<and> e = PausedTick"
    using run(3) unfolding appends_def by blast
  then have "map (\<lambda>x. case x of Line _ e \<Rightarrow> Some e | Garbled \<Rightarrow> None) new = replicate (length new) (Some PausedTick)"
    by (intro replicate_eqI) auto
  with run new(1) show ?thesis unfolding w' by (intro conjI exI [of _ "length new"]) simp_all
qed

theorem pause_stops_the_loop_witness:
  "lw_sent (run_forever bnb_strategy (replicate 3 idle_env)
     (fst (chat_handle bnb_strategy bnb_strategy idle_env None '' Pause '' fresh_world))) = []"
proof -
  let ?h = "chat_handle bnb_strategy bnb_strategy idle_env None '' Pause '' fresh_world"
  have "lower (py_strip '' Pause '') = ''pause''" by code_simp
  from pause_stops_the_loop [OF this, of bnb_strategy bnb_strategy idle_env None fresh_world "fst ?h" "snd ?h"
      bnb_strategy "replicate 3 idle_env"]
  have "lw_sent (run_forever bnb_strategy (replicate 3 idle_env) (fst ?h)) = lw_sent fresh_world" by simp
  then show ?thesis by (simp only: fresh_world_def loop_world.select_convs)
qed

text \<open>The command \<open>tick\<close> does not ask whether the loop is paused.\<close>

lemma tick_ignores_pause:
  "chat_handle cfg base env model ''tick'' w = chat_tick base env w"
proof -
  have "lower (py_strip ''tick'') = ''tick''" by code_simp
  then show ?thesis by (simp add: chat_handle_def)
qed

section \<open>Setting a cap\<close>

definition cap_name :: "string \<Rightarrow> bool" where
  "cap_name s = (s \<noteq> [] \<and> (\<forall>c \<in> set s. is_word c \<and> lower_char c = c))"

lemma space_word: "is_word c \<Longrightarrow> \<not> is_space c"
  by (auto simp: is_word_def is_space_def Let_def)

lemma space_cap_char: "is_cap_char c \<Longrightarrow> \<not> is_space c"
  by (auto simp: is_cap_char_def is_digit_def is_space_def Let_def)

lemma lower_cap_char: "is_cap_char c \<Longrightarrow> lower_char c = c"
  by (auto simp: is_cap_char_def is_digit_def lower_char_def Let_def)

lemma py_strip_id: "s \<noteq> [] \<Longrightarrow> \<not> is_space (hd s) \<Longrightarrow> \<not> is_space (last s) \<Longrightarrow> py_strip s = s"
proof -
  assume s: "s \<noteq> []" "\<not> is_space (hd s)" "\<not> is_space (last s)"
  then have "dropWhile is_space s = s" by (cases s) auto
  moreover have "dropWhile is_space (rev s) = rev s"
    using s by (cases "rev s") (auto simp: hd_rev [symmetric])
  ultimately show "py_strip s = s" by (simp add: py_strip_def)
qed

lemma cap_chars [simp]: "is_space CHR '' ''" "\<not> is_word CHR '' ''" "\<not> is_space CHR ''s''"
  by (simp_all add: is_space_def is_word_def)

lemma lower_id: "(\<And>c. c \<in> set s \<Longrightarrow> lower_char c = c) \<Longrightarrow> lower s = s"
  by (simp add: lower_def map_idI)

lemma match_set_cap_message:
  assumes "cap_name field" "num \<noteq> []" "\<forall>c \<in> set num. is_cap_char c"
  shows "match_set_cap (''set cap '' @ field @ '' '' @ num) = Some (field, num)"
proof -
  have f: "takeWhile is_word (field @ '' '' @ num) = field" "dropWhile is_word (field @ '' '' @ num) = '' '' @ num"
    using assms(1) by (simp_all add: cap_name_def is_word_def)
  obtain c ns where num: "num = c # ns" using assms(2) by (cases num) auto
  have d: "dropWhile is_space num = num" using assms(3) space_cap_char [of c] by (simp add: num)
  have t: "takeWhile is_cap_char num = num" using assms(3) by (simp add: takeWhile_eq_all_conv)
  show ?thesis using f assms(1,2) by (simp add: match_set_cap_def cap_name_def Let_def d t)
qed

lemma handle_set_cap:
  assumes "cap_name field" "num \<noteq> []" "\<forall>c \<in> set num. is_cap_char c"
  shows "chat_handle cfg base env model (''set cap '' @ field @ '' '' @ num) w = chat_set_cap cfg field num w"
proof -
  let ?m = "''set cap '' @ field @ '' '' @ num"
  have "\<not> is_space (last ?m)" using assms(2,3) space_cap_char [of "last num"] by simp
  then have "py_strip ?m = ?m" by (intro py_strip_id) simp_all
  moreover have "lower ?m = ?m"
  proof -
    have "lower field = field" "lower num = num"
      using assms(1,3) by (auto intro!: lower_id simp: cap_name_def lower_cap_char)
    moreover have "lower ''set cap '' = ''set cap ''" "lower '' '' = '' ''" by code_simp+
    moreover have "lower (a @ b) = lower a @ lower b" for a b by (simp add: lower_def)
    ultimately show ?thesis by (simp only: append_assoc)
  qed
  moreover note match_set_cap_message [OF assms]
  ultimately show ?thesis by (simp add: chat_handle_def Let_def)
qed

text \<open>The overrides are a dictionary: a cap's effective value is the override of its name, if the name is known.\<close>

definition effective_num :: "string list \<Rightarrow> (string \<times> pynum) list \<Rightarrow> string \<Rightarrow> pynum \<Rightarrow> pynum" where
  "effective_num keys ov k v = (if k \<in> set keys then get_or (map_of ov k) v else v)"

lemma fold_caps:
  assumes "distinct (map fst ov)"
  shows "foldl (\<lambda>r (k, v). if k \<in> set keys then set_cap k v r else r) r ov =
    \<lparr>gk_max_single_trade_usd = effective_num keys ov ''max_single_trade_usd'' (gk_max_single_trade_usd r),
     gk_max_position_pct = effective_num keys ov ''max_position_pct'' (gk_max_position_pct r),
     gk_max_drawdown_pct = effective_num keys ov ''max_drawdown_pct'' (gk_max_drawdown_pct r),
     gk_max_trades_per_hour = effective_num keys ov ''max_trades_per_hour'' (gk_max_trades_per_hour r)\<rparr>"
  using assms
proof (induction ov arbitrary: r)
  case (Cons kv ov)
  obtain k v where kv: "kv = (k, v)" by fastforce
  have "map_of ov k = None" using Cons.prems by (simp add: kv map_of_eq_None_iff)
  with Cons show ?case by (auto simp: kv set_cap_def effective_num_def)
qed (simp add: effective_num_def)

text \<open>
  A cap set from the chat is the cap of every later tick: for a name that both strategy files know and a
  readable number, the message \<open>set cap name number\<close> changes the effective value of exactly that cap to exactly
  that number, pausing and the portfolio value stay, and nothing else of the world changes. No bound is
  checked: any number is accepted, above the committed caps too.
\<close>

theorem set_cap_takes_effect:
  assumes "cap_name field" "parse_decimal num = Some x" "\<forall>c \<in> set num. is_cap_char c"
    and "field \<in> set (sc_risk_keys cfg)" "field \<in> set (sc_risk_keys base)"
    and "distinct (map fst (rs_overrides (runtime_load (lw_runtime w))))"
  shows "\<exists>w' reply. chat_handle cfg base env model (''set cap '' @ field @ '' '' @ num) w = (w', Inr reply) \<and>
    sc_risk (effective_cfg base (lw_runtime w')) = set_cap field (PFloat x) (sc_risk (effective_cfg base (lw_runtime w))) \<and>
    (runtime_load (lw_runtime w'))\<lparr>rs_overrides := []\<rparr> = (runtime_load (lw_runtime w))\<lparr>rs_overrides := []\<rparr> \<and>
    w'\<lparr>lw_runtime := lw_runtime w\<rparr> = w"
proof -
  have num: "num \<noteq> []" using assms(2) by (auto simp: parse_decimal_def)
  let ?w = "w\<lparr>lw_runtime := set_override field (PFloat x) (lw_runtime w)\<rparr>"
  let ?ov = "rs_overrides (runtime_load (lw_runtime w))"
  have h: "\<exists>reply. chat_handle cfg base env model (''set cap '' @ field @ '' '' @ num) w = (?w, Inr reply)"
    using handle_set_cap [OF assms(1) num assms(3)] assms(2,4) by (simp add: chat_set_cap_def)
  have d: "distinct (map fst (AList.update field (PFloat x) ?ov))" by (rule distinct_keys_update [OF assms(6)])
  have "sc_risk (effective_cfg base (lw_runtime ?w)) = set_cap field (PFloat x) (sc_risk (effective_cfg base (lw_runtime w)))"
    using assms(5)
    by (simp add: effective_cfg_def load_set_override fold_caps [OF d] fold_caps [OF assms(6)])
      (auto simp: effective_num_def set_cap_def map_of_update)
  moreover have "(runtime_load (lw_runtime ?w))\<lparr>rs_overrides := []\<rparr> = (runtime_load (lw_runtime w))\<lparr>rs_overrides := []\<rparr>"
    by (simp add: load_set_override)
  moreover obtain reply where "chat_handle cfg base env model (''set cap '' @ field @ '' '' @ num) w = (?w, Inr reply)"
    using h by blast
  ultimately show ?thesis by (intro exI [of _ ?w] exI [of _ reply] conjI) (assumption | simp)+
qed

theorem set_cap_takes_effect_witness:
  "\<exists>w' reply. chat_handle bnb_strategy bnb_strategy idle_env None (''set cap '' @ ''max_single_trade_usd'' @ '' '' @ ''250.5'') fresh_world
       = (w', Inr reply) \<and>
     gk_max_single_trade_usd (sc_risk (effective_cfg bnb_strategy (lw_runtime w'))) = PFloat (2505 / 10)"
proof -
  have "cap_name ''max_single_trade_usd''" by code_simp
  moreover have "parse_decimal ''250.5'' = Some (2505 / 10)" by code_simp
  moreover have "\<forall>c \<in> set ''250.5''. is_cap_char c" by code_simp
  moreover have "''max_single_trade_usd'' \<in> set (sc_risk_keys bnb_strategy)" by (simp add: bnb_strategy_def)
  moreover have "rs_overrides (runtime_load (lw_runtime fresh_world)) = []"
    by (simp add: fresh_world_def runtime_load_def fresh_runtime_def)
  ultimately obtain w' reply where
      "chat_handle bnb_strategy bnb_strategy idle_env None (''set cap '' @ ''max_single_trade_usd'' @ '' '' @ ''250.5'') fresh_world
         = (w', Inr reply)"
      "sc_risk (effective_cfg bnb_strategy (lw_runtime w')) =
         set_cap ''max_single_trade_usd'' (PFloat (2505 / 10)) (sc_risk (effective_cfg bnb_strategy (lw_runtime fresh_world)))"
    using set_cap_takes_effect [of "''max_single_trade_usd''" "''250.5''" "2505 / 10" bnb_strategy bnb_strategy fresh_world
        idle_env None] by auto
  then show ?thesis by (intro exI [of _ w'] exI [of _ reply]) (simp add: set_cap_def)
qed

section \<open>A cap of zero\<close>

lemma zero_cap_amount:
  assumes "is_trade d" "gv_allowed (guard_check g d v)" "guard_cap g v = 0"
  shows "loop_amount d (guard_check g d v) = d_amount_usd d"
proof -
  have "guard_permits g d v" using assms by (simp add: guard_allowed)
  then have "gv_clamped_amount_usd (guard_check g d v) = (if 0 < d_amount_usd d then Some 0 else None)"
    using assms(1,3) by (simp add: guard_check_def Let_def guard_permits_def)
  then show ?thesis by (simp add: loop_amount_def)
qed

text \<open>
  Setting the trade cap to zero does not stop trading but removes the cap: after
  \<open>set cap max_single_trade_usd 0\<close>, a trade that the guardrail allows goes to the executor with its whole
  requested amount, however large.
\<close>

theorem zero_cap_lifts_the_cap:
  assumes "sc_risk cfg = set_cap ''max_single_trade_usd'' (PFloat 0) r" "0 \<le> value * num_value (gk_max_position_pct r)"
    and "is_trade d" "guard_permits (init_guardrail cfg) d \<lparr>gw_portfolio_value_usd = value, gw_drawdown_pct = drawdown,
      gw_trades_last_hour = trades_last_hour (lv_utc_offset env) (lv_clock env) (ledger_record (lv_clock env) (DecisionMade d) led)\<rparr>"
  shows "fst (snd (act_on env cfg value drawdown d led)) =
    fst (execute (lv_backend env) (lv_mode env) (lv_slippage_bps env) d (d_amount_usd d) [])"
proof -
  define v where "v = guard_check (init_guardrail cfg) d \<lparr>gw_portfolio_value_usd = value, gw_drawdown_pct = drawdown,
      gw_trades_last_hour = trades_last_hour (lv_utc_offset env) (lv_clock env) (ledger_record (lv_clock env) (DecisionMade d) led)\<rparr>"
  have a: "gv_allowed v" using assms(3,4) by (simp add: v_def guard_allowed)
  have "loop_amount d v = d_amount_usd d"
    unfolding v_def by (rule zero_cap_amount)
      (use a assms(1-3) in \<open>simp_all add: v_def guard_cap_def init_guardrail_def set_cap_def min_def\<close>)
  then show ?thesis using a assms(3)
    by (simp add: act_on_def Let_def v_def [symmetric] split: prod.splits sum.splits)
qed

theorem zero_cap_lifts_the_cap_witness:
  "let w = fst (chat_handle bnb_strategy bnb_strategy idle_env None ''set cap max_single_trade_usd 0'' fresh_world);
       d = brain_decision Buy ''bsc'' ''USDT'' ''WBNB'' 900 1 ''all in''
   in fst (snd (act_on idle_env (effective_cfg bnb_strategy (lw_runtime w)) 1000 0 d [])) =
     [HostedSwap \<lparr>sw_chain = ''bsc'', sw_from = ''USDT'', sw_to = ''WBNB'', sw_amount = 900, sw_slippage_bps = 50, sw_cid = []\<rparr>]"
proof -
  let ?m = "''set cap max_single_trade_usd 0''"
  let ?w = "fst (chat_handle bnb_strategy bnb_strategy idle_env None ?m fresh_world)"
  let ?d = "brain_decision Buy ''bsc'' ''USDT'' ''WBNB'' 900 1 ''all in''"
  let ?r = "sc_risk (effective_cfg bnb_strategy (lw_runtime fresh_world))"
  let ?cfg = "effective_cfg bnb_strategy (lw_runtime ?w)"
  have "sc_risk ?cfg = set_cap ''max_single_trade_usd'' (PFloat 0) ?r" by code_simp
  moreover have "0 \<le> 1000 * num_value (gk_max_position_pct ?r)" by code_simp
  moreover have "is_trade ?d" by code_simp
  moreover have "guard_permits (init_guardrail ?cfg) ?d \<lparr>gw_portfolio_value_usd = 1000, gw_drawdown_pct = 0,
      gw_trades_last_hour = trades_last_hour (lv_utc_offset idle_env) (lv_clock idle_env)
        (ledger_record (lv_clock idle_env) (DecisionMade ?d) [])\<rparr>" by code_simp
  ultimately have "fst (snd (act_on idle_env ?cfg 1000 0 ?d [])) =
      fst (execute (lv_backend idle_env) (lv_mode idle_env) (lv_slippage_bps idle_env) ?d (d_amount_usd ?d) [])"
    by (rule zero_cap_lifts_the_cap)
  also have "\<dots> = [HostedSwap \<lparr>sw_chain = ''bsc'', sw_from = ''USDT'', sw_to = ''WBNB'', sw_amount = 900,
      sw_slippage_bps = 50, sw_cid = []\<rparr>]" by code_simp
  finally show ?thesis by (simp add: Let_def)
qed

section \<open>The terminal\<close>

text \<open>
  \<open>repl\<close>: every line that is not blank is handled, with what a tick run from it would meet; the end of the input ends the
  conversation, and so does an exception, which nothing catches. The result holds the replies that were printed.
\<close>

fun chat_repl :: "strategy_cfg \<Rightarrow> strategy_cfg \<Rightarrow> (string \<Rightarrow> string \<Rightarrow> py_error + string) option \<Rightarrow> (loop_env \<times> string) list \<Rightarrow>
    loop_world \<Rightarrow> loop_world \<times> string list \<times> py_error option" where
  "chat_repl cfg base model [] w = (w, [], None)"
| "chat_repl cfg base model ((env, line) # rest) w =
     (let msg = py_strip line in
      if msg = [] then chat_repl cfg base model rest w
      else case chat_handle cfg base env model msg w of
             (w', Inl e) \<Rightarrow> (w', [], Some e)
           | (w', Inr reply) \<Rightarrow>
               (case chat_repl cfg base model rest w' of (w'', replies, x) \<Rightarrow> (w'', reply # replies, x)))"

lemma chat_repl_append:
  "chat_repl cfg base model (xs @ ys) w =
     (case chat_repl cfg base model xs w of
        (w', replies, Some e) \<Rightarrow> (w', replies, Some e)
      | (w', replies, None) \<Rightarrow> (case chat_repl cfg base model ys w' of (w'', rs, x) \<Rightarrow> (w'', replies @ rs, x)))"
  by (induction cfg base model xs w rule: chat_repl.induct)
    (auto simp: Let_def split: prod.splits sum.splits option.splits)

text \<open>A number with two points is matched by the command and not by \<open>float\<close>: the terminal dies on it.\<close>

lemma malformed_cap_ends_terminal:
  "chat_repl cfg base model ((env, ''set cap max_single_trade_usd 1.2.3'') # rest) w =
    (w, [], Some (ValueError ''could not convert string to float''))"
proof -
  let ?m = "''set cap max_single_trade_usd 1.2.3''"
  have s: "py_strip ?m = ?m" "lower ?m = ?m" by code_simp+
  have m: "match_set_cap ?m = Some (''max_single_trade_usd'', ''1.2.3'')" by code_simp
  have p: "parse_decimal ''1.2.3'' = None" by code_simp
  have "chat_handle cfg base env model ?m w = (w, Inl (ValueError ''could not convert string to float''))"
    unfolding chat_handle_def s Let_def m by (simp add: chat_set_cap_def p)
  then show ?thesis by (simp only: chat_repl.simps s Let_def) simp
qed

end
