(* ===== verification/Json_Text.thy ===== *)
theory Json_Text
  imports Canonical
begin

text \<open>
  The texts of JSON values as the program's files hold them: \<open>json.loads\<close> as a parser, \<open>json.dumps\<close> with its default
  separators, and what holds between them. A parser takes a text and returns the value read and the rest of the
  text, or \<open>None\<close> where Python raises. Characters are 8-bit, so an escape beyond them is not read; the
  extensions \<open>NaN\<close> and \<open>Infinity\<close> of Python's reader are left out, as floats are reals.
\<close>

section \<open>Reading\<close>

definition json_ws :: "char \<Rightarrow> bool" where
  "json_ws c = (c = CHR '' '' \<or> c = CHR 0x09 \<or> c = CHR 0x0A \<or> c = CHR 0x0D)"

definition skip_ws :: "string \<Rightarrow> string" where
  "skip_ws s = dropWhile json_ws s"

definition escape_char :: "char \<Rightarrow> char option" where
  "escape_char e =
     (if e = CHR 0x22 \<or> e = CHR 0x5C \<or> e = CHR 0x2F then Some e
      else if e = CHR ''b'' then Some (char_of (8 :: nat)) else if e = CHR ''f'' then Some (char_of (12 :: nat))
      else if e = CHR ''n'' then Some (char_of (10 :: nat)) else if e = CHR ''r'' then Some (char_of (13 :: nat))
      else if e = CHR ''t'' then Some (char_of (9 :: nat)) else None)"

definition hex_code :: "string \<Rightarrow> char option" where
  "hex_code s = (case parse_base 16 0 s of Some n \<Rightarrow> if n < 256 then Some (char_of n) else None | None \<Rightarrow> None)"

text \<open>The first character of a string's body, after any escape, and the rest.\<close>

definition body_char :: "string \<Rightarrow> (char \<times> string) option" where
  "body_char s =
     (case s of
        [] \<Rightarrow> None
      | c # t \<Rightarrow>
          if c = CHR 0x5C then
            (case t of
               [] \<Rightarrow> None
             | e # u \<Rightarrow>
                 if e = CHR ''u'' then
                   (if length u < 4 then None else map_option (\<lambda>x. (x, drop 4 u)) (hex_code (take 4 u)))
                 else map_option (\<lambda>x. (x, u)) (escape_char e))
          else if (of_char c :: nat) < 32 then None else Some (c, t))"

lemma body_char_shorter: "body_char s = Some (x, r) \<Longrightarrow> length r < length s"
  by (auto simp: body_char_def split: list.splits if_splits)

text \<open>The body of a string up to its closing quote.\<close>

function string_body :: "string \<Rightarrow> (string \<times> string) option" where
  "string_body s =
     (if take 1 s = [CHR 0x22] then Some ([], drop 1 s)
      else case body_char s of
        None \<Rightarrow> None
      | Some (x, r) \<Rightarrow> map_option (\<lambda>(u, q). (x # u, q)) (string_body r))"
  by pat_completeness auto
termination by (relation "measure length") (auto dest: body_char_shorter)

declare string_body.simps [simp del]

text \<open>\<open>-?(0|[1-9]\d*)(\.\d+)?([eE][-+]?\d+)?\<close>\<close>

definition digit_run :: "string \<Rightarrow> string \<times> string" where
  "digit_run s = (takeWhile is_digit s, dropWhile is_digit s)"

definition int_part :: "string \<Rightarrow> string \<times> string" where
  "int_part s = (if take 1 s = ''0'' then (''0'', drop 1 s) else digit_run s)"

definition frac_part :: "string \<Rightarrow> string option \<times> string" where
  "frac_part s = (if take 1 s = ''.'' \<and> fst (digit_run (drop 1 s)) \<noteq> []
     then apfst Some (digit_run (drop 1 s)) else (None, s))"

definition exp_sign :: "string \<Rightarrow> bool \<times> string" where
  "exp_sign t = (case t of [] \<Rightarrow> (False, t) | c # u \<Rightarrow>
     if c = CHR ''-'' then (True, u) else if c = CHR ''+'' then (False, u) else (False, t))"

definition exp_part :: "string \<Rightarrow> int option \<times> string" where
  "exp_part s =
     (case s of
        [] \<Rightarrow> (None, s)
      | c # t \<Rightarrow>
          if c = CHR ''e'' \<or> c = CHR ''E'' then
            (case exp_sign t of
               (neg, u) \<Rightarrow> (case digit_run u of
                 (ds, r) \<Rightarrow> if ds = [] then (None, s)
                   else (Some (if neg then - int (digits_value ds) else int (digits_value ds)), r)))
          else (None, s))"

definition parse_number :: "string \<Rightarrow> (json \<times> string) option" where
  "parse_number s =
     (let neg = (take 1 s = ''-''); (ip, s1) = int_part (if neg then drop 1 s else s);
          (fr, s2) = frac_part s1; (ex, s3) = exp_part s2; sgn_i = (if neg then - 1 else 1 :: int)
      in if ip = [] then None
         else if fr = None \<and> ex = None then Some (JInt (sgn_i * int (digits_value ip)), s1)
         else let ds = (case fr of None \<Rightarrow> [] | Some ds \<Rightarrow> ds)
              in Some (JFloat (of_int sgn_i * (real (digits_value ip) + real (digits_value ds) / 10 ^ length ds)
                    * pow10 (case ex of None \<Rightarrow> 0 | Some e \<Rightarrow> e)), s3))"

text \<open>Every part is no longer than what it reads.\<close>

lemma length_skip_ws: "length (skip_ws s) \<le> length s"
  by (simp add: skip_ws_def length_dropWhile_le)

lemma skip_ws_less:
  "length s < n \<Longrightarrow> length (skip_ws s) < n"
  "length s < n \<Longrightarrow> 2 * length (skip_ws s) < Suc (2 * n)"
  using length_skip_ws [of s] by simp_all

lemma skip_ws_Cons: "skip_ws s = c # t \<Longrightarrow> length t < length s"
  using length_skip_ws [of s] by simp

lemma digit_run_rest: "length (snd (digit_run s)) \<le> length s"
  by (simp add: digit_run_def length_dropWhile_le)

lemma string_body_shorter: "string_body s = Some (u, r) \<Longrightarrow> length r < length s"
proof (induction s arbitrary: u rule: string_body.induct)
  case (1 s)
  show ?case
  proof (cases "take 1 s = [CHR 0x22]")
    case True
    with "1.prems" have "r = drop 1 s" "s \<noteq> []" by (auto simp: string_body.simps [of s])
    then show ?thesis by simp
  next
    case False
    with "1.prems" obtain x q v where b: "body_char s = Some (x, q)" "string_body q = Some (v, r)"
      by (auto simp: string_body.simps [of s] split: option.splits)
    with "1.IH" [OF False b(1)] body_char_shorter [OF b(1)] show ?thesis by fastforce
  qed
qed

text \<open>The values, the items of a list after its bracket, and the members of an object after its brace. The guards on
  the lengths always hold (\<open>parse_shorter\<close>); they make the recursion well-founded.\<close>

definition close_members :: "(string \<times> json) list \<Rightarrow> json" where
  "close_members kvs = JObj (fold (\<lambda>(k, v) d. AList.update k v d) kvs [])"

function parse_value :: "string \<Rightarrow> (json \<times> string) option"
  and parse_items :: "string \<Rightarrow> (json list \<times> string) option"
  and parse_members :: "string \<Rightarrow> ((string \<times> json) list \<times> string) option" where
  "parse_value s =
     (case s of
        [] \<Rightarrow> None
      | c # t \<Rightarrow>
          if c = CHR 0x22 then map_option (\<lambda>(u, r). (JStr u, r)) (string_body t)
          else if c = CHR ''{'' then
            (case skip_ws t of
               [] \<Rightarrow> None
             | d # u \<Rightarrow> if d = CHR ''}'' then Some (JObj [], u)
                 else map_option (\<lambda>(kvs, r). (close_members kvs, r)) (parse_members (skip_ws t)))
          else if c = CHR ''['' then
            (case skip_ws t of
               [] \<Rightarrow> None
             | d # u \<Rightarrow> if d = CHR '']'' then Some (JList [], u)
                 else map_option (\<lambda>(xs, r). (JList xs, r)) (parse_items (skip_ws t)))
          else if prefix ''null'' s then Some (JNull, drop 4 s)
          else if prefix ''true'' s then Some (JBool True, drop 4 s)
          else if prefix ''false'' s then Some (JBool False, drop 5 s)
          else parse_number s)"
| "parse_items s =
     (case parse_value s of
        None \<Rightarrow> None
      | Some (v, r) \<Rightarrow>
          (case skip_ws r of
             [] \<Rightarrow> None
           | c # u \<Rightarrow>
               if c = CHR '']'' then Some ([v], u)
               else if c = CHR '','' \<and> length u < length s
               then map_option (\<lambda>(vs, q). (v # vs, q)) (parse_items (skip_ws u))
               else None))"
| "parse_members s =
     (if take 1 s \<noteq> [CHR 0x22] then None
      else case string_body (drop 1 s) of
        None \<Rightarrow> None
      | Some (k, r) \<Rightarrow>
          (case skip_ws r of
             [] \<Rightarrow> None
           | c # u \<Rightarrow>
               if c = CHR '':'' \<and> length u < length s then
                 (case parse_value (skip_ws u) of
                    None \<Rightarrow> None
                  | Some (v, q) \<Rightarrow>
                      (case skip_ws q of
                         [] \<Rightarrow> None
                       | d # w \<Rightarrow>
                           if d = CHR ''}'' then Some ([(k, v)], w)
                           else if d = CHR '','' \<and> length w < length s
                           then map_option (\<lambda>(kvs, z). ((k, v) # kvs, z)) (parse_members (skip_ws w))
                           else None))
               else None))"
  by pat_completeness auto
termination
  by (relation "measure (case_sum (\<lambda>s. 2 * length s) (case_sum (\<lambda>s. 2 * length s + 1) (\<lambda>s. 2 * length s + 1)))")
    (auto simp: skip_ws_less dest: skip_ws_Cons)

declare parse_value.simps [simp del] parse_items.simps [simp del] parse_members.simps [simp del]

definition loads :: "string \<Rightarrow> json option" where
  "loads s = (case parse_value (skip_ws s) of
     Some (j, r) \<Rightarrow> if skip_ws r = [] then Some j else None | None \<Rightarrow> None)"

section \<open>Writing\<close>

text \<open>\<open>json.dumps\<close> with an item and a key separator; \<open>dumps_line\<close> has the default ones.\<close>

fun print_json :: "string \<Rightarrow> string \<Rightarrow> json \<Rightarrow> string" where
  "print_json sep col JNull = ''null''"
| "print_json sep col (JBool b) = (if b then ''true'' else ''false'')"
| "print_json sep col (JInt i) = show_int i"
| "print_json sep col (JFloat x) = repr_f x"
| "print_json sep col (JStr s) = json_quote s"
| "print_json sep col (JList xs) = CHR ''['' # join sep (map (print_json sep col) xs) @ '']''"
| "print_json sep col (JObj kvs) =
     CHR ''{'' # join sep (map (\<lambda>(k, v). json_quote k @ col @ print_json sep col v) kvs) @ ''}''"

definition dumps_line :: "json \<Rightarrow> string" where
  "dumps_line j = print_json '', '' '': '' j"

text \<open>\<open>json.dumps(..., indent=2)\<close> at a nesting depth.\<close>

definition break_at :: "nat \<Rightarrow> string" where
  "break_at d = newline @ replicate (2 * d) CHR '' ''"

fun print_indent :: "nat \<Rightarrow> json \<Rightarrow> string" where
  "print_indent d (JList xs) =
     (if xs = [] then ''[]''
      else CHR ''['' # break_at (Suc d) @ join (CHR '','' # break_at (Suc d)) (map (print_indent (Suc d)) xs) @
        break_at d @ '']'')"
| "print_indent d (JObj kvs) =
     (if kvs = [] then ''{}''
      else CHR ''{'' # break_at (Suc d) @
        join (CHR '','' # break_at (Suc d)) (map (\<lambda>(k, v). json_quote k @ '': '' @ print_indent (Suc d) v) kvs) @
        break_at d @ ''}'')"
| "print_indent d j = dumps j"

lemma dumps_print: "dumps j = print_json '','' '':'' j"
proof (induction j)
  case (JList xs)
  then have "map dumps xs = map (print_json '','' '':'') xs" by (intro map_cong refl)
  then show ?case by (simp only: dumps.simps print_json.simps)
next
  case (JObj kvs)
  have "map (\<lambda>(k, v). json_quote k @ '':'' @ dumps v) kvs =
      map (\<lambda>(k, v). json_quote k @ '':'' @ print_json '','' '':'' v) kvs"
  proof (intro map_cong refl)
    fix x assume x: "x \<in> set kvs"
    obtain k v where kv: "x = (k, v)" by (cases x)
    then have "v \<in> Basic_BNFs.snds x" by simp
    from JObj.IH [OF x this] have v: "dumps v = print_json '','' '':'' v" .
    show "(case x of (k, v) \<Rightarrow> json_quote k @ '':'' @ dumps v) =
        (case x of (k, v) \<Rightarrow> json_quote k @ '':'' @ print_json '','' '':'' v)"
      unfolding kv prod.case v ..
  qed
  then show ?case by (simp only: dumps.simps print_json.simps)
qed (simp_all only: dumps.simps print_json.simps)

section \<open>What is written is read back\<close>

subsection \<open>Strings\<close>

lemma hex_digit_hex_char [simp]:
  assumes "d < 16"
  shows "hex_digit (hex_char d) = Some d"
proof (cases "d < 10")
  case True
  then have "(of_char (hex_char d) :: nat) = 48 + d" by (simp add: hex_char_def)
  with True show ?thesis by (simp add: hex_digit_def)
next
  case False
  with assms have "(of_char (hex_char d) :: nat) = 87 + d" by (simp add: hex_char_def)
  with False assms show ?thesis by (simp add: hex_digit_def)
qed

lemma body_char_short: "escape_char e = Some c \<Longrightarrow> body_char (CHR 0x5C # e # r) = Some (c, r)"
  by (auto simp: body_char_def escape_char_def)

lemma esc_char_short:
  assumes "(of_char c :: nat) \<in> {34, 92, 10, 13, 9, 8, 12}"
  shows "\<exists>e. esc_char c = [CHR 0x5C, e] \<and> escape_char e = Some c"
proof -
  have "\<exists>e. esc_char (char_of n) = [CHR 0x5C, e] \<and> escape_char e = Some (char_of n)"
    if "n \<in> {34, 92, 10, 13, 9, 8, 12}" for n :: nat
  proof -
    have "char_of (34 :: nat) = CHR 0x22" "char_of (92 :: nat) = CHR 0x5C" by code_simp+
    then show ?thesis using that by (elim insertE emptyE) (simp_all add: esc_char_def escape_char_def)
  qed
  from this [OF assms] show ?thesis by simp
qed

lemma body_char_esc: "body_char (esc_char c @ r) = Some (c, r)"
proof -
  let ?n = "of_char c :: nat"
  have n: "?n < 256" by simp
  consider (short) "?n \<in> {34, 92, 10, 13, 9, 8, 12}"
    | (plain) "?n \<notin> {34, 92, 10, 13, 9, 8, 12}" "32 \<le> ?n" "?n \<le> 126"
    | (code) "?n \<notin> {34, 92, 10, 13, 9, 8, 12}" "\<not> (32 \<le> ?n \<and> ?n \<le> 126)" by blast
  then show ?thesis
  proof cases
    case short
    from esc_char_short [OF this] obtain e where "esc_char c = [CHR 0x5C, e]" "escape_char e = Some c" by blast
    then show ?thesis by (simp add: body_char_short)
  next
    case plain
    then have "c \<noteq> CHR 0x5C" by auto
    with plain show ?thesis by (simp add: esc_char_def body_char_def)
  next
    case code
    have "?n div 16 < 16" using n by (simp add: less_mult_imp_div_less)
    moreover have "hex_digit CHR ''0'' = Some 0" by code_simp
    ultimately have "parse_base 16 0 [CHR ''0'', CHR ''0'', hex_char (?n div 16), hex_char (?n mod 16)] = Some ?n"
      by simp
    then have h: "hex_code [CHR ''0'', CHR ''0'', hex_char (?n div 16), hex_char (?n mod 16)] = Some c"
      using n by (simp add: hex_code_def)
    have "esc_char c = [CHR 0x5C, CHR ''u'', CHR ''0'', CHR ''0'', hex_char (?n div 16), hex_char (?n mod 16)]"
      using code by (simp add: esc_char_def Let_def)
    with h show ?thesis by (simp add: body_char_def)
  qed
qed

lemma take_1_append: "s \<noteq> [] \<Longrightarrow> take 1 (s @ r) = take 1 s"
  by (cases s) simp_all

lemma esc_char_no_quote: "take 1 (esc_char c @ r) \<noteq> [CHR 0x22]"
proof
  assume "take 1 (esc_char c @ r) = [CHR 0x22]"
  then have "esc_char c @ r = CHR 0x22 # tl (esc_char c @ r)" by (cases "esc_char c @ r") auto
  then show False using esc_char_not_quote by metis
qed

lemma string_body_escaped: "string_body (concat (map esc_char s) @ CHR 0x22 # r) = Some (s, r)"
proof (induction s)
  case Nil
  then show ?case by (simp add: string_body.simps [of "CHR 0x22 # r"])
next
  case (Cons c s)
  let ?t = "concat (map esc_char s) @ CHR 0x22 # r"
  have "string_body (esc_char c @ ?t) = map_option (\<lambda>(u, q). (c # u, q)) (string_body ?t)"
    unfolding string_body.simps [of "esc_char c @ ?t"] body_char_esc if_not_P [OF esc_char_no_quote] by simp
  with Cons show ?case by simp
qed

subsection \<open>Numbers\<close>

text \<open>What may follow a value: the end, a delimiter or a blank.\<close>

definition ends_value :: "string \<Rightarrow> bool" where
  "ends_value r = (case r of [] \<Rightarrow> True | c # _ \<Rightarrow> c \<in> {CHR '','', CHR '']'', CHR ''}''} \<or> json_ws c)"

lemma ends_value_cases:
  "ends_value r \<Longrightarrow> r = [] \<or> (\<exists>c t. r = c # t \<and> c \<in> {CHR '','', CHR '']'', CHR ''}'', CHR '' '', CHR 0x09, CHR 0x0A, CHR 0x0D})"
  by (cases r) (auto simp: ends_value_def json_ws_def)

lemma ends_value_simps [simp]:
  "ends_value []" "ends_value (CHR '','' # r)" "ends_value (CHR '']'' # r)" "ends_value (CHR ''}'' # r)"
  by (simp_all add: ends_value_def)

lemma ends_value_blanks: "list_all json_ws w \<Longrightarrow> ends_value r \<Longrightarrow> ends_value (w @ r)"
  by (cases w) (simp_all add: ends_value_def)

lemma digit_run_append:
  assumes "list_all is_digit a" "r = [] \<or> \<not> is_digit (hd r)"
  shows "digit_run (a @ r) = (a, r)"
proof -
  have "takeWhile is_digit r = []" "dropWhile is_digit r = r" using assms(2) by (cases r; auto)+
  with assms(1) show ?thesis by (simp add: digit_run_def list_all_iff takeWhile_append dropWhile_append)
qed

lemma show_nat_leading: "take 1 (show_nat n) = ''0'' \<longleftrightarrow> n = 0"
proof (induction n rule: show_nat.induct)
  case (1 n)
  show ?case
  proof (cases "n < 10")
    case True
    have "digit_char n = CHR ''0'' \<Longrightarrow> n = 0" using of_char_digit [OF True] by simp
    moreover have "digit_char 0 = CHR ''0''" by code_simp
    ultimately have "digit_char n = CHR ''0'' \<longleftrightarrow> n = 0" by blast
    with True show ?thesis by (simp add: show_nat.simps [of n])
  next
    case False
    then have "take 1 (show_nat n) = take 1 (show_nat (n div 10))"
      by (simp add: show_nat.simps [of n] take_1_append del: One_nat_def take_append)
    with "1.IH" False show ?thesis by simp
  qed
qed

lemma int_part_show_nat:
  assumes "r = [] \<or> \<not> is_digit (hd r)"
  shows "int_part (show_nat n @ r) = (show_nat n, r)"
proof (cases "n = 0")
  case True
  have "show_nat 0 = ''0''" by code_simp
  with True show ?thesis by (simp add: int_part_def)
next
  case False
  then have "take 1 (show_nat n @ r) \<noteq> ''0''" using show_nat_leading [of n] by (simp add: take_1_append del: One_nat_def take_append)
  moreover have "list_all is_digit (show_nat n)" by (auto simp: list_all_iff dest: show_nat_digits)
  ultimately show ?thesis unfolding int_part_def by (simp only: if_False digit_run_append [OF _ assms])
qed

lemma end_parts:
  assumes "ends_value r"
  shows "r = [] \<or> \<not> is_digit (hd r)" "frac_part r = (None, r)" "exp_part r = (None, r)"
  using ends_value_cases [OF assms] by (auto simp: frac_part_def exp_part_def is_digit_def)

lemma no_sign: "take 1 (show_nat n @ r) \<noteq> ''-''"
  by (cases "show_nat n") (auto simp del: take_append)

lemma parse_show_int: "ends_value r \<Longrightarrow> parse_number (show_int i @ r) = Some (JInt i, r)"
  using no_sign [of _ r]
  by (simp add: parse_number_def show_int_def int_part_show_nat end_parts Let_def del: take_append)

lemma fmt_abs_parts:
  assumes "0 < n" "ends_value r"
  shows "int_part (fmt_abs n x @ r) = (show_nat (nat (round_half_even (\<bar>x\<bar> * 10 ^ n)) div 10 ^ n),
      CHR ''.'' # pad_zero n (show_nat (nat (round_half_even (\<bar>x\<bar> * 10 ^ n)) mod 10 ^ n)) @ r)"
    "take 1 (fmt_abs n x @ r) \<noteq> ''-''"
proof -
  let ?k = "nat (round_half_even (\<bar>x\<bar> * 10 ^ n))"
  have f: "fmt_abs n x @ r = show_nat (?k div 10 ^ n) @ CHR ''.'' # pad_zero n (show_nat (?k mod 10 ^ n)) @ r"
    using assms(1) by (simp add: fmt_abs_def Let_def)
  show "int_part (fmt_abs n x @ r) = (show_nat (?k div 10 ^ n), CHR ''.'' # pad_zero n (show_nat (?k mod 10 ^ n)) @ r)"
    unfolding f by (rule int_part_show_nat) simp
  show "take 1 (fmt_abs n x @ r) \<noteq> ''-''" unfolding f by (rule no_sign)
qed

lemma frac_part_pad:
  assumes "0 < n" "m < 10 ^ n" "ends_value r"
  shows "frac_part (CHR ''.'' # pad_zero n (show_nat m) @ r) = (Some (pad_zero n (show_nat m)), r)"
proof -
  have "list_all is_digit (pad_zero n (show_nat m))"
    unfolding list_all_iff by (blast intro: pad_zero_digits show_nat_digits)
  from digit_run_append [OF this end_parts(1) [OF assms(3)]]
  have run: "digit_run (pad_zero n (show_nat m) @ r) = (pad_zero n (show_nat m), r)" .
  have "pad_zero n (show_nat m) \<noteq> []" by (simp add: pad_zero_def)
  with run show ?thesis by (simp add: frac_part_def)
qed

lemma decimal_value: "real k = real (k div 10 ^ n) * 10 ^ n + real (k mod 10 ^ n)"
proof -
  have "real k = real (k div 10 ^ n * 10 ^ n + k mod 10 ^ n)" by (simp only: div_mult_mod_eq)
  then show ?thesis by (simp only: of_nat_add of_nat_mult of_nat_power of_nat_numeral)
qed

lemma parse_repr:
  assumes "repr_exact x" "ends_value r"
  shows "parse_number (repr_f x @ r) = Some (JFloat x, r)"
proof -
  obtain n where n: "0 < n" "py_round x n = x" "repr_f x = fmt_f n x" using repr_f_exact [OF assms(1)] by blast
  define k where "k = nat (round_half_even (\<bar>x\<bar> * 10 ^ n))"
  have x: "\<bar>x\<bar> = real k / 10 ^ n" using py_round_exact [OF n(2)] by (simp add: k_def)
  have len: "length (pad_zero n (show_nat (k mod 10 ^ n))) = n"
    using n(1) by (intro length_pad_zero length_show_nat) simp_all
  have v: "real (k div 10 ^ n) + real (k mod 10 ^ n) / 10 ^ n = \<bar>x\<bar>"
    using decimal_value [of k n] by (simp add: x field_simps)
  note parts = fmt_abs_parts [OF n(1) assms(2), of x, folded k_def] end_parts [OF assms(2)]
    frac_part_pad [OF n(1) _ assms(2), of "k mod 10 ^ n"]
  show ?thesis
  proof (cases "x < 0")
    case True
    then show ?thesis
      using v unfolding n(3) fmt_f_def parse_number_def Let_def by (simp add: parts len pow10_def)
  next
    case False
    then have "fmt_f n x = fmt_abs n x" by (simp add: fmt_f_def)
    with False show ?thesis
      using v unfolding n(3) parse_number_def Let_def by (simp add: parts parts(2) [unfolded One_nat_def] len pow10_def del: take_append)
  qed
qed

subsection \<open>Values\<close>

text \<open>Python's dictionaries have distinct keys.\<close>

fun unique_keys :: "json \<Rightarrow> bool" where
  "unique_keys (JObj kvs) = (distinct (map fst kvs) \<and> list_all (\<lambda>(k, v). unique_keys v) kvs)"
| "unique_keys (JList xs) = list_all unique_keys xs"
| "unique_keys j = True"

definition printable :: "json \<Rightarrow> bool" where
  "printable j = (json_exact j \<and> unique_keys j)"

lemma printable_simps [simp]:
  "printable (JObj kvs) \<longleftrightarrow> distinct (map fst kvs) \<and> (\<forall>(k, v) \<in> set kvs. printable v)"
  "printable (JList xs) \<longleftrightarrow> (\<forall>x \<in> set xs. printable x)"
  "printable JNull" "printable (JBool b)" "printable (JInt i)" "printable (JStr s)" "printable (JFloat x) = repr_exact x"
  by (auto simp: printable_def list_all_iff)

definition separators :: "string \<Rightarrow> string \<Rightarrow> bool" where
  "separators sep col = (take 1 sep = '','' \<and> take 1 col = '':'' \<and> list_all json_ws (drop 1 sep) \<and> list_all json_ws (drop 1 col))"

lemma separatorsE:
  assumes "separators sep col"
  obtains w w' where "sep = CHR '','' # w" "col = CHR '':'' # w'" "list_all json_ws w" "list_all json_ws w'"
  using assms by (cases sep; cases col) (auto simp: separators_def)

lemma separators_used [simp]: "separators '','' '':''" "separators '', '' '': ''"
  by (simp_all add: separators_def json_ws_def)

lemma skip_ws_simps [simp]:
  "skip_ws [] = []" "json_ws c \<Longrightarrow> skip_ws (c # s) = skip_ws s" "\<not> json_ws c \<Longrightarrow> skip_ws (c # s) = c # s"
  "list_all json_ws w \<Longrightarrow> skip_ws (w @ s) = skip_ws s"
  by (simp_all add: skip_ws_def list_all_iff dropWhile_append1)

lemma json_ws_not [simp]:
  "\<not> json_ws CHR '',''" "\<not> json_ws CHR '':''" "\<not> json_ws CHR '']''" "\<not> json_ws CHR ''}''" "\<not> json_ws CHR 0x22"
  "\<not> json_ws CHR ''[''" "\<not> json_ws CHR ''{''"
  by (simp_all add: json_ws_def)

definition value_start :: "char \<Rightarrow> bool" where
  "value_start c = (\<not> json_ws c \<and> c \<noteq> CHR '']'' \<and> c \<noteq> CHR ''}'')"

lemma num_char_start: "num_char c \<Longrightarrow> value_start c"
  by (auto simp: value_start_def num_char_def json_ws_def is_digit_def)

lemma print_starts: "\<exists>c t. print_json sep col j = c # t \<and> value_start c"
proof -
  have num: "\<exists>c t. a = c # t \<and> value_start c" if "list_all num_char a" "a \<noteq> []" for a
    using that by (cases a) (auto intro: num_char_start)
  show ?thesis
    using num [OF show_int_num show_int_nonempty] num [OF repr_f_num repr_f_nonempty]
    by (cases j) (auto simp: value_start_def json_ws_def json_quote_def)
qed

lemma skip_ws_print: "skip_ws (print_json sep col j @ r) = print_json sep col j @ r"
  using print_starts [of sep col j] by (auto simp: value_start_def)

lemma parse_value_number:
  assumes "list_all num_char a" "a \<noteq> []"
  shows "parse_value (a @ r) = parse_number (a @ r)"
proof -
  obtain c t where a: "a = c # t" "num_char c" using assms by (cases a) auto
  then have "c \<noteq> CHR 0x22" "c \<noteq> CHR ''{''" "c \<noteq> CHR ''[''" "c \<noteq> CHR ''n''" "c \<noteq> CHR ''t''" "c \<noteq> CHR ''f''"
    by (auto simp: num_char_def is_digit_def)
  then show ?thesis by (simp add: a(1) parse_value.simps [of "c # t @ r"])
qed

text \<open>A text that is read as a value before everything that may follow one.\<close>

definition reads_as :: "string \<Rightarrow> json \<Rightarrow> bool" where
  "reads_as s j = ((\<exists>c t. s = c # t \<and> value_start c) \<and> (\<forall>r. ends_value r \<longrightarrow> parse_value (s @ r) = Some (j, r)))"

lemma reads_as_skip: "reads_as s j \<Longrightarrow> list_all json_ws w \<Longrightarrow> skip_ws (w @ s @ r) = s @ r"
  by (auto simp: reads_as_def value_start_def)

lemma reads_as_parse: "reads_as s j \<Longrightarrow> ends_value r \<Longrightarrow> parse_value (s @ r) = Some (j, r)"
  by (simp add: reads_as_def)

text \<open>Items and members: joined by a comma and blanks, closed after blanks.\<close>

lemma parse_items_join:
  assumes "list_all json_ws w" "list_all json_ws e" "xs \<noteq> []" "\<forall>x \<in> set xs. reads_as (f x) x"
  shows "parse_items (join (CHR '','' # w) (map f xs) @ e @ CHR '']'' # r) = Some (xs, r)"
  using assms(3,4)
proof (induction xs rule: list_nonempty_induct)
  case (single x)
  then have "parse_value (f x @ e @ CHR '']'' # r) = Some (x, e @ CHR '']'' # r)"
    using assms(2) by (intro reads_as_parse ends_value_blanks) simp_all
  then show ?case using assms(2) by (simp add: parse_items.simps [of "f x @ e @ CHR '']'' # r"])
next
  case (cons x xs)
  obtain y ys where xs: "xs = y # ys" using cons.hyps by (cases xs) auto
  define t where "t = join (CHR '','' # w) (map f xs) @ e @ CHR '']'' # r"
  have t: "skip_ws (w @ t) = t"
  proof -
    have "\<exists>z. t = f y @ z" by (cases ys) (simp_all add: t_def xs)
    then show ?thesis using reads_as_skip [OF _ assms(1), of "f y" y] cons.prems by (auto simp: xs)
  qed
  have whole: "join (CHR '','' # w) (map f (x # xs)) @ e @ CHR '']'' # r = f x @ CHR '','' # w @ t"
    by (simp add: t_def xs)
  have "parse_items t = Some (xs, r)" using cons.IH cons.prems by (simp add: t_def)
  moreover have "parse_value (f x @ CHR '','' # w @ t) = Some (x, CHR '','' # w @ t)"
    using cons.prems by (intro reads_as_parse) simp_all
  ultimately show ?case
    unfolding whole by (simp add: parse_items.simps [of "f x @ CHR '','' # w @ t"] t)
qed

definition member_text :: "string \<Rightarrow> (json \<Rightarrow> string) \<Rightarrow> string \<times> json \<Rightarrow> string" where
  "member_text u f kv = (case kv of (k, v) \<Rightarrow> json_quote k @ CHR '':'' # u @ f v)"

lemma string_body_quoted: "string_body (drop 1 (json_quote k @ r)) = Some (k, r)"
  by (simp add: json_quote_def string_body_escaped)

lemma member_starts: "\<exists>t. join sep (map (member_text u f) (kv # kvs)) @ r = CHR 0x22 # t"
  by (cases kv; cases kvs) (simp_all add: member_text_def json_quote_def)

lemma parse_member:
  assumes "list_all json_ws u" "reads_as s v" "ends_value z" "skip_ws z = d # q"
  shows "parse_members (json_quote k @ CHR '':'' # u @ s @ z) =
    (if d = CHR ''}'' then Some ([(k, v)], q)
     else if d = CHR '','' \<and> length q < length (json_quote k @ CHR '':'' # u @ s @ z)
     then map_option (\<lambda>(kvs, z). ((k, v) # kvs, z)) (parse_members (skip_ws q)) else None)"
proof -
  let ?s = "json_quote k @ CHR '':'' # u @ s @ z"
  have "take 1 ?s = [CHR 0x22]" by (simp add: json_quote_def)
  moreover have "parse_value (skip_ws (u @ s @ z)) = Some (v, z)"
    using reads_as_skip [OF assms(2,1)] reads_as_parse [OF assms(2,3)] by simp
  moreover have "string_body (drop 1 ?s) = Some (k, CHR '':'' # u @ s @ z)" by (rule string_body_quoted)
  ultimately show ?thesis unfolding parse_members.simps [of ?s] by (simp add: assms(4))
qed

lemma parse_members_join:
  assumes "list_all json_ws w" "list_all json_ws u" "list_all json_ws e" "kvs \<noteq> []" "\<forall>(k, v) \<in> set kvs. reads_as (f v) v"
  shows "parse_members (join (CHR '','' # w) (map (member_text u f) kvs) @ e @ CHR ''}'' # r) = Some (kvs, r)"
  using assms(4,5)
proof (induction kvs rule: list_nonempty_induct)
  case (single kv)
  obtain k v where kv: "kv = (k, v)" by (cases kv)
  have "reads_as (f v) v" using single by (simp add: kv)
  then show ?case
    using parse_member [OF assms(2), of "f v" v "e @ CHR ''}'' # r" "CHR ''}''" r k] assms(3)
    by (simp add: kv member_text_def ends_value_blanks)
next
  case (cons kv kvs)
  obtain k v where kv: "kv = (k, v)" by (cases kv)
  obtain y ys where kvs: "kvs = y # ys" using cons.hyps by (cases kvs) auto
  define t where "t = join (CHR '','' # w) (map (member_text u f) kvs) @ e @ CHR ''}'' # r"
  obtain t' where "t = CHR 0x22 # t'" using member_starts unfolding t_def kvs by blast
  then have t: "skip_ws (w @ t) = t" using assms(1) by simp
  have whole: "join (CHR '','' # w) (map (member_text u f) (kv # kvs)) @ e @ CHR ''}'' # r =
      json_quote k @ CHR '':'' # u @ f v @ CHR '','' # w @ t"
    by (simp add: t_def kvs kv member_text_def)
  have "reads_as (f v) v" using cons.prems by (simp add: kv)
  moreover have "parse_members t = Some (kvs, r)" using cons.IH cons.prems by (simp add: t_def)
  ultimately show ?case
    unfolding whole using parse_member [OF assms(2), of "f v" v "CHR '','' # w @ t" "CHR '',''" "w @ t" k] by (simp add: t kv)
qed

lemma fold_update_fresh:
  "distinct (map fst (d @ kvs)) \<Longrightarrow> fold (\<lambda>(k, v) d. AList.update k v d) kvs d = d @ kvs"
proof (induction kvs arbitrary: d)
  case (Cons kv kvs)
  obtain k v where kv: "kv = (k, v)" by (cases kv)
  have "k \<notin> fst ` set d" using Cons.prems by (auto simp: kv)
  then have "AList.update k v d = d @ [kv]" by (induction d) (auto simp: kv)
  with Cons.IH [of "d @ [kv]"] Cons.prems show ?case by (simp add: kv)
qed simp

lemma close_members_distinct: "distinct (map fst kvs) \<Longrightarrow> close_members kvs = JObj kvs"
  using fold_update_fresh [of "[]" kvs] by (simp add: close_members_def)

text \<open>A list and an object around texts that are read as their parts.\<close>

lemma reads_as_list:
  assumes "list_all json_ws lead" "list_all json_ws w" "list_all json_ws e" "xs \<noteq> []" "\<forall>x \<in> set xs. reads_as (f x) x"
  shows "reads_as (CHR ''['' # lead @ join (CHR '','' # w) (map f xs) @ e @ '']'') (JList xs)"
proof -
  obtain y ys where xs: "xs = y # ys" using assms(4) by (cases xs) auto
  have "parse_value ((CHR ''['' # lead @ join (CHR '','' # w) (map f xs) @ e @ '']'') @ r) = Some (JList xs, r)" for r
  proof -
    define t where "t = join (CHR '','' # w) (map f xs) @ e @ CHR '']'' # r"
    obtain z where z: "t = f y @ z" by (cases ys) (simp_all add: t_def xs)
    have y: "reads_as (f y) y" using assms(5) by (simp add: xs)
    then obtain c q where c: "f y = c # q" "c \<noteq> CHR '']''" by (auto simp: reads_as_def value_start_def)
    have "skip_ws (lead @ t) = t" using reads_as_skip [OF y assms(1)] by (simp add: z)
    moreover have "parse_items t = Some (xs, r)" unfolding t_def by (rule parse_items_join [OF assms(2-5)])
    ultimately have "parse_value (CHR ''['' # lead @ t) = Some (JList xs, r)"
      using c unfolding parse_value.simps [of "CHR ''['' # lead @ t"] by (simp add: z)
    then show ?thesis by (simp add: t_def)
  qed
  then show ?thesis by (simp add: reads_as_def value_start_def)
qed

lemma reads_as_object:
  assumes "list_all json_ws lead" "list_all json_ws w" "list_all json_ws u" "list_all json_ws e" "kvs \<noteq> []"
    and "\<forall>(k, v) \<in> set kvs. reads_as (f v) v" "distinct (map fst kvs)"
  shows "reads_as (CHR ''{'' # lead @ join (CHR '','' # w) (map (member_text u f) kvs) @ e @ ''}'') (JObj kvs)"
proof -
  obtain y ys where kvs: "kvs = y # ys" using assms(5) by (cases kvs) auto
  have "parse_value ((CHR ''{'' # lead @ join (CHR '','' # w) (map (member_text u f) kvs) @ e @ ''}'') @ r) = Some (JObj kvs, r)" for r
  proof -
    define t where "t = join (CHR '','' # w) (map (member_text u f) kvs) @ e @ CHR ''}'' # r"
    obtain t' where t': "t = CHR 0x22 # t'" using member_starts unfolding t_def kvs by blast
    then have "skip_ws (lead @ t) = t" using assms(1) by simp
    moreover have "parse_members t = Some (kvs, r)" unfolding t_def by (rule parse_members_join [OF assms(2-6)])
    ultimately have "parse_value (CHR ''{'' # lead @ t) = Some (JObj kvs, r)"
      using t' close_members_distinct [OF assms(7)] unfolding parse_value.simps [of "CHR ''{'' # lead @ t"] by simp
    then show ?thesis by (simp add: t_def)
  qed
  then show ?thesis by (simp add: reads_as_def value_start_def)
qed

lemma reads_as_atoms:
  "reads_as ''null'' JNull" "reads_as ''true'' (JBool True)" "reads_as ''false'' (JBool False)"
  "reads_as ''[]'' (JList [])" "reads_as ''{}'' (JObj [])" "reads_as (show_int i) (JInt i)"
  "reads_as (json_quote s) (JStr s)" "repr_exact x \<Longrightarrow> reads_as (repr_f x) (JFloat x)"
proof -
  have num: "\<exists>c t. a = c # t \<and> value_start c" if "list_all num_char a" "a \<noteq> []" for a
    using that by (cases a) (auto intro: num_char_start)
  show "reads_as (show_int i) (JInt i)"
    using num [OF show_int_num show_int_nonempty] parse_value_number [OF show_int_num show_int_nonempty]
    by (simp add: reads_as_def parse_show_int)
  show "repr_exact x \<Longrightarrow> reads_as (repr_f x) (JFloat x)"
    using num [OF repr_f_num repr_f_nonempty] parse_value_number [OF repr_f_num repr_f_nonempty]
    by (simp add: reads_as_def parse_repr)
  have "parse_value (json_quote s @ r) = Some (JStr s, r)" for r
    using string_body_quoted [of s r] by (simp add: json_quote_def parse_value.simps [of "CHR 0x22 # _"])
  then show "reads_as (json_quote s) (JStr s)" by (simp add: reads_as_def json_quote_def value_start_def)
qed (simp_all add: reads_as_def value_start_def json_ws_def parse_value.simps)

lemma print_reads_back:
  assumes "separators sep col" "printable j"
  shows "reads_as (print_json sep col j) j"
proof -
  obtain w u where ws: "sep = CHR '','' # w" "col = CHR '':'' # u" "list_all json_ws w" "list_all json_ws u"
    using assms(1) by (rule separatorsE)
  from assms(2) show ?thesis
  proof (induction j)
    case (JList xs)
    show ?case
    proof (cases "xs = []")
      case False
      from reads_as_list [OF _ ws(3) _ False, of "[]" "[]" "print_json sep col"] JList show ?thesis by (simp add: ws(1))
    qed (simp add: reads_as_atoms)
  next
    case (JObj kvs)
    have m: "map (\<lambda>(k, v). json_quote k @ col @ print_json sep col v) kvs = map (member_text u (print_json sep col)) kvs"
      by (simp add: member_text_def ws(2))
    have "\<forall>(k, v) \<in> set kvs. reads_as (print_json sep col v) v"
    proof (clarify)
      fix k v assume kv: "(k, v) \<in> set kvs"
      then have "printable v" using JObj.prems by auto
      with JObj.IH [OF kv] show "reads_as (print_json sep col v) v" by simp
    qed
    then show ?case
      using reads_as_object [OF _ ws(3,4), of "[]" "[]" kvs "print_json sep col"] JObj.prems
      by (cases "kvs = []") (simp_all only: print_json.simps m printable_simps, simp_all add: reads_as_atoms ws(1))
  qed (simp_all add: reads_as_atoms)
qed

lemma break_at_ws [simp]: "list_all json_ws (break_at d)"
  by (simp add: break_at_def newline_def json_ws_def list_all_iff)

lemma indent_reads_back: "printable j \<Longrightarrow> reads_as (print_indent d j) j"
proof (induction j arbitrary: d)
  case (JList xs)
  then show ?case
    using reads_as_list [of "break_at (Suc d)" "break_at (Suc d)" "break_at d" xs "print_indent (Suc d)"]
    by (simp add: reads_as_atoms)
next
  case (JObj kvs)
  have m: "map (\<lambda>(k, v). json_quote k @ '': '' @ print_indent (Suc d) v) kvs = map (member_text '' '' (print_indent (Suc d))) kvs"
    by (simp add: member_text_def)
  have "\<forall>(k, v) \<in> set kvs. reads_as (print_indent (Suc d) v) v"
  proof (clarify)
    fix k v assume kv: "(k, v) \<in> set kvs"
    then have "printable v" using JObj.prems by auto
    with JObj.IH [OF kv] show "reads_as (print_indent (Suc d) v) v" by simp
  qed
  moreover have "list_all json_ws '' ''" by (simp add: json_ws_def)
  ultimately show ?case
    using reads_as_object [of "break_at (Suc d)" "break_at (Suc d)" "'' ''" "break_at d" kvs "print_indent (Suc d)"] JObj.prems
    unfolding print_indent.simps m by (simp add: reads_as_atoms)
qed (simp_all add: reads_as_atoms)

lemma loads_reads: "reads_as s j \<Longrightarrow> list_all json_ws w \<Longrightarrow> loads (s @ w) = Some j"
  using reads_as_parse [of s j w] reads_as_skip [of s j "[]" w] ends_value_blanks [of w "[]"]
    skip_ws_simps(4) [of w "[]"] by (simp add: loads_def)

lemma loads_print: "separators sep col \<Longrightarrow> printable j \<Longrightarrow> loads (print_json sep col j) = Some j"
  using loads_reads [OF print_reads_back, of sep col j "[]"] by simp

text \<open>An indented text, with a newline at its end or without.\<close>

lemma loads_indent: "printable j \<Longrightarrow> loads (print_indent 0 j @ newline) = Some j \<and> loads (print_indent 0 j) = Some j"
  using loads_reads [OF indent_reads_back, of j newline 0] loads_reads [OF indent_reads_back, of j "[]" 0]
  by (simp add: newline_def json_ws_def)

section \<open>Reading on\<close>

text \<open>A value that was read stays the same when the text goes on, unless it is a number that could go on too.\<close>

definition stops :: "string \<Rightarrow> bool" where
  "stops r = (r \<noteq> [] \<and> \<not> is_digit (hd r) \<and> hd r \<notin> {CHR ''.'', CHR ''e'', CHR ''E''})"

lemma digit_run_on: "digit_run s = (ds, r) \<Longrightarrow> r \<noteq> [] \<Longrightarrow> digit_run (s @ x) = (ds, r @ x)"
  by (auto simp: digit_run_def dropWhile_eq_Nil_conv takeWhile_append1 dropWhile_append1)

lemma int_part_on: "int_part s = (ds, r) \<Longrightarrow> r \<noteq> [] \<Longrightarrow> int_part (s @ x) = (ds, r @ x)"
proof (cases s)
  case (Cons c t)
  assume i: "int_part s = (ds, r)" "r \<noteq> []"
  show ?thesis
  proof (cases "c = CHR ''0''")
    case True
    with i Cons show ?thesis by (simp add: int_part_def)
  next
    case False
    with i Cons have "digit_run s = (ds, r)" by (simp add: int_part_def)
    from digit_run_on [OF this i(2)] False Cons show ?thesis by (simp add: int_part_def)
  qed
qed (simp add: int_part_def digit_run_def)

lemma frac_part_on:
  assumes "frac_part s = (fr, r)" "r \<noteq> []" "fr = None \<longrightarrow> take 1 s \<noteq> ''.''"
  shows "frac_part (s @ x) = (fr, r @ x)"
proof (cases "take 1 s = ''.'' \<and> fst (digit_run (drop 1 s)) \<noteq> []")
  case True
  then obtain t where s: "s = CHR ''.'' # t" by (cases s) auto
  obtain ds where d: "digit_run t = (ds, r)" "fr = Some ds" "ds \<noteq> []"
    using assms(1) True by (cases "digit_run t") (auto simp: frac_part_def s)
  from digit_run_on [OF d(1) assms(2)] d(2,3) show ?thesis by (simp add: frac_part_def s)
next
  case False
  then have "frac_part s = (None, s)" by (simp only: frac_part_def if_False)
  with assms have "fr = None" "r = s" "take 1 s \<noteq> ''.''" by auto
  with assms(2) show ?thesis by (cases s) (auto simp: frac_part_def)
qed

lemma exp_sign_on: "exp_sign t = (neg, u) \<Longrightarrow> u \<noteq> [] \<Longrightarrow> exp_sign (t @ x) = (neg, u @ x)"
  by (auto simp: exp_sign_def split: list.splits if_splits)

lemma exp_part_on:
  assumes "exp_part s = (ex, r)" "r \<noteq> []" "ex = None \<longrightarrow> take 1 s \<noteq> ''e'' \<and> take 1 s \<noteq> ''E''"
  shows "exp_part (s @ x) = (ex, r @ x)"
proof (cases s)
  case (Cons c t)
  show ?thesis
  proof (cases "c = CHR ''e'' \<or> c = CHR ''E''")
    case True
    with assms(3) Cons have "ex \<noteq> None" by auto
    then obtain neg u ds where u: "exp_sign t = (neg, u)" "digit_run u = (ds, r)" "ds \<noteq> []"
      "ex = Some (if neg then - int (digits_value ds) else int (digits_value ds))"
      using assms(1) True Cons by (auto simp: exp_part_def split: prod.splits if_splits)
    then have "u \<noteq> []" by (auto simp: digit_run_def)
    from exp_sign_on [OF u(1) this] digit_run_on [OF u(2) assms(2)] u(3,4) True Cons
    show ?thesis by (simp add: exp_part_def)
  next
    case False
    with assms Cons show ?thesis by (auto simp: exp_part_def)
  qed
qed (use assms in \<open>simp add: exp_part_def\<close>)

lemma stops_no: "stops r \<Longrightarrow> r \<noteq> [] \<and> take 1 r \<noteq> ''.'' \<and> take 1 r \<noteq> ''e'' \<and> take 1 r \<noteq> ''E''"
  by (cases r) (auto simp: stops_def)

text \<open>The parts that \<open>parse_number\<close> puts together, on a text that they read.\<close>

lemma parse_number_parts:
  assumes "int_part (if take 1 s = ''-'' then drop 1 s else s) = (ip, s1)" "frac_part s1 = (fr, s2)" "exp_part s2 = (ex, s3)"
  shows "parse_number s =
    (let sgn_i = (if take 1 s = ''-'' then - 1 else 1 :: int) in
     if ip = [] then None
     else if fr = None \<and> ex = None then Some (JInt (sgn_i * int (digits_value ip)), s1)
     else let ds = (case fr of None \<Rightarrow> [] | Some ds \<Rightarrow> ds)
       in Some (JFloat (of_int sgn_i * (real (digits_value ip) + real (digits_value ds) / 10 ^ length ds)
             * pow10 (case ex of None \<Rightarrow> 0 | Some e \<Rightarrow> e)), s3))"
  unfolding parse_number_def Let_def by (simp only: assms prod.case)

lemma parse_number_on:
  assumes "parse_number s = Some (j, r)" "stops r"
  shows "parse_number (s @ x) = Some (j, r @ x)"
proof -
  obtain ip s1 where ip: "int_part (if take 1 s = ''-'' then drop 1 s else s) = (ip, s1)" by fastforce
  obtain fr s2 where fr: "frac_part s1 = (fr, s2)" by fastforce
  obtain ex s3 where ex: "exp_part s2 = (ex, s3)" by fastforce
  note num = assms(1) [unfolded parse_number_parts [OF ip fr ex] Let_def]
  have ne: "ip \<noteq> []" using num by (auto split: if_splits)
  then have s: "s \<noteq> []" using ip by (cases s) (auto simp: int_part_def digit_run_def)
  have sign: "take 1 (s @ x) = take 1 s" "drop 1 (s @ x) = drop 1 s @ x" using s by (cases s; simp)+
  have same: "frac_part t = (None, t') \<Longrightarrow> t' = t" "exp_part t = (None, t') \<Longrightarrow> t' = t" for t t'
    by (auto simp: frac_part_def exp_part_def apfst_def map_prod_def split: if_splits list.splits prod.splits)
  have r: "r = (if fr = None \<and> ex = None then s1 else s3)" using num ne by (auto split: if_splits)
  have r3: "r = s3" using r same fr ex by metis
  then have s3: "s3 \<noteq> []" "take 1 s3 \<noteq> ''.''" "take 1 s3 \<noteq> ''e''" "take 1 s3 \<noteq> ''E''"
    using stops_no [OF assms(2)] by auto
  have s2: "ex = None \<longrightarrow> s2 = s3" using same(2) ex by metis
  have ex_on: "exp_part (s2 @ x) = (ex, s3 @ x)" using exp_part_on [OF ex s3(1)] s2 s3 by auto
  have "s2 \<noteq> []" using ex s3(1) by (auto simp: exp_part_def)
  moreover have "take 1 s2 \<noteq> ''.''" using s2 s3(2) ex
    by (cases ex; cases s2) (auto simp: exp_part_def split: if_splits)
  moreover have s1: "fr = None \<longrightarrow> s1 = s2" using same(1) fr by metis
  ultimately have fr_on: "frac_part (s1 @ x) = (fr, s2 @ x)" using frac_part_on [OF fr] by auto
  have "s1 \<noteq> []" using fr \<open>s2 \<noteq> []\<close> by (auto simp: frac_part_def digit_run_def split: if_splits)
  then have "int_part ((if take 1 s = ''-'' then drop 1 s else s) @ x) = (ip, s1 @ x)" by (rule int_part_on [OF ip])
  then have ip_on: "int_part (if take 1 (s @ x) = ''-'' then drop 1 (s @ x) else s @ x) = (ip, s1 @ x)"
    unfolding sign by (simp split: if_splits)
  show ?thesis
    unfolding parse_number_parts [OF ip_on fr_on ex_on] sign Let_def using num ne r r3 by (auto split: if_splits)
qed

lemma body_char_on: "body_char s = Some (c, r) \<Longrightarrow> body_char (s @ x) = Some (c, r @ x)"
  by (cases s; cases "tl s") (auto simp: body_char_def split: if_splits)

lemma string_body_on: "string_body s = Some (u, r) \<Longrightarrow> string_body (s @ x) = Some (u, r @ x)"
proof (induction s arbitrary: u rule: string_body.induct)
  case (1 s)
  show ?case
  proof (cases "take 1 s = [CHR 0x22]")
    case True
    then obtain t where s: "s = CHR 0x22 # t" by (cases s) auto
    with "1.prems" show ?thesis by (simp add: string_body.simps [of "CHR 0x22 # _"])
  next
    case False
    with "1.prems" obtain c q v where b: "body_char s = Some (c, q)" "string_body q = Some (v, r)" "u = c # v"
      by (auto simp: string_body.simps [of s] split: option.splits)
    then have "s \<noteq> []" by (auto simp: body_char_def)
    with False have "take 1 (s @ x) \<noteq> [CHR 0x22]" by (cases s) auto
    with "1.IH" [OF False b(1) refl b(2)] body_char_on [OF b(1)] b(3) show ?thesis
      by (simp add: string_body.simps [of "s @ x"])
  qed
qed

definition is_num :: "json \<Rightarrow> bool" where
  "is_num j = (case j of JInt _ \<Rightarrow> True | JFloat _ \<Rightarrow> True | _ \<Rightarrow> False)"

lemma is_num_simps [simp]:
  "is_num (JInt i)" "is_num (JFloat y)" "\<not> is_num JNull" "\<not> is_num (JBool b)" "\<not> is_num (JStr u)"
  "\<not> is_num (JList xs)" "\<not> is_num (JObj kvs)" "\<not> is_num (close_members kvs)"
  by (simp_all add: is_num_def close_members_def)

lemma skip_ws_on: "skip_ws s = c # u \<Longrightarrow> skip_ws (s @ x) = c # u @ x"
  unfolding skip_ws_def by (induction s) (auto split: if_splits)

lemma stops_Cons:
  "c \<in> {CHR '' '', CHR 0x09, CHR 0x0A, CHR 0x0D, CHR '','', CHR '']'', CHR ''}''} \<Longrightarrow> stops (c # t)"
proof -
  have "list_all (\<lambda>c. \<not> is_digit c \<and> c \<notin> {CHR ''.'', CHR ''e'', CHR ''E''})
    [CHR '' '', CHR 0x09, CHR 0x0A, CHR 0x0D, CHR '','', CHR '']'', CHR ''}'']" by code_simp
  then show "c \<in> {CHR '' '', CHR 0x09, CHR 0x0A, CHR 0x0D, CHR '','', CHR '']'', CHR ''}''} \<Longrightarrow> stops (c # t)"
    unfolding stops_def list_all_iff list.set list.sel by blast
qed

lemma stops_at:
  assumes "skip_ws r = c # u" "c \<in> {CHR '','', CHR '']'', CHR ''}''}"
  shows "stops r"
proof (cases r)
  case (Cons d t)
  show ?thesis
  proof (cases "json_ws d")
    case False
    with Cons assms(1) have "d = c" by simp
    with Cons assms(2) show ?thesis using stops_Cons by blast
  next
    case True
    with Cons show ?thesis using stops_Cons unfolding json_ws_def by blast
  qed
qed (use assms(1) in simp)

lemma parse_number_head:
  assumes "parse_number (c # t) = Some y"
  shows "num_char c"
proof (rule ccontr)
  assume "\<not> num_char c"
  then have "c \<noteq> CHR ''-''" "\<not> is_digit c" by (simp_all add: num_char_def)
  moreover have "c \<noteq> CHR ''0''" using \<open>\<not> is_digit c\<close> by (auto simp: is_digit_def)
  ultimately have "int_part (if take 1 (c # t) = ''-'' then drop 1 (c # t) else c # t) = ([], c # t)"
    by (simp add: int_part_def digit_run_def)
  moreover obtain fr s2 where "frac_part (c # t) = (fr, s2)" by fastforce
  moreover obtain ex s3 where "exp_part s2 = (ex, s3)" by fastforce
  ultimately have "parse_number (c # t) = None" by (simp add: parse_number_parts Let_def)
  with assms show False by simp
qed

lemma parse_number_is_num:
  assumes "parse_number s = Some (j, r)"
  shows "is_num j"
proof -
  obtain ip s1 where ip: "int_part (if take 1 s = ''-'' then drop 1 s else s) = (ip, s1)" by fastforce
  obtain fr s2 where fr: "frac_part s1 = (fr, s2)" by fastforce
  obtain ex s3 where ex: "exp_part s2 = (ex, s3)" by fastforce
  show ?thesis
    using assms unfolding parse_number_parts [OF ip fr ex] Let_def by (auto split: if_splits)
qed

text \<open>One lemma per kind of value; what it holds inside is assumed to be read on.\<close>

lemma skip_ws_on': "skip_ws w \<noteq> [] \<Longrightarrow> skip_ws (w @ x) = skip_ws w @ x"
  using skip_ws_on [of w _ _ x] by (cases "skip_ws w") auto

lemma parse_not_empty [simp]: "parse_value [] = None" "parse_items [] = None" "parse_members [] = None"
  by (simp_all add: parse_value.simps [of "[]"] parse_items.simps [of "[]"] parse_members.simps [of "[]"])

lemma parse_word_on:
  assumes now: "parse_value (c # t) = Some (j, r)" and stop: "stops r \<or> \<not> is_num j"
    and other: "c \<noteq> CHR 0x22" "c \<noteq> CHR ''{''" "c \<noteq> CHR ''[''"
  shows "parse_value (c # t @ x) = Some (j, r @ x)"
proof -
  note now = now [unfolded parse_value.simps [of "c # t"] list.case]
  consider (null) "prefix ''null'' (c # t)" | (tr) "prefix ''true'' (c # t)" "c \<noteq> CHR ''n''"
    | (fl) "prefix ''false'' (c # t)" "c \<noteq> CHR ''n''" "c \<noteq> CHR ''t''"
    | (num) "parse_number (c # t) = Some (j, r)"
  proof (cases "prefix ''null'' (c # t) \<or> prefix ''true'' (c # t) \<or> prefix ''false'' (c # t)")
    case True
    then show ?thesis using null tr fl by (auto simp: prefix_Cons)
  next
    case False
    with now other have "parse_number (c # t) = Some (j, r)" by (simp only: if_False de_Morgan_disj)
    then show ?thesis by (rule num)
  qed
  then show ?thesis
  proof cases
    case null
    then obtain w where "c = CHR ''n''" "t = ''ull'' @ w" by (auto simp: prefix_def)
    with now show ?thesis unfolding parse_value.simps [of "c # t @ x"] by simp
  next
    case tr
    then obtain w where "c = CHR ''t''" "t = ''rue'' @ w" by (auto simp: prefix_def)
    with now show ?thesis unfolding parse_value.simps [of "c # t @ x"] by simp
  next
    case fl
    then obtain w where "c = CHR ''f''" "t = ''alse'' @ w" by (auto simp: prefix_def)
    with now show ?thesis unfolding parse_value.simps [of "c # t @ x"] by simp
  next
    case num
    from parse_number_head [OF num] have "c \<noteq> CHR ''n''" "c \<noteq> CHR ''t''" "c \<noteq> CHR ''f''"
      by (auto simp: num_char_def is_digit_def)
    moreover have "stops r" using stop parse_number_is_num [OF num] by blast
    ultimately show ?thesis
      using parse_number_on [OF num, of x] other unfolding parse_value.simps [of "c # t @ x"] by simp
  qed
qed

lemma parse_object_on:
  assumes now: "parse_value (CHR ''{'' # t) = Some (j, r)"
    and members: "\<And>d u kvs. skip_ws t = d # u \<Longrightarrow> d \<noteq> CHR ''}'' \<Longrightarrow> parse_members (skip_ws t) = Some (kvs, r) \<Longrightarrow>
      parse_members (skip_ws t @ x) = Some (kvs, r @ x)"
  shows "parse_value (CHR ''{'' # t @ x) = Some (j, r @ x)"
proof -
  note now = now [unfolded parse_value.simps [of "CHR ''{'' # t"] list.case]
  obtain d u where d: "skip_ws t = d # u" using now by (cases "skip_ws t") auto
  show ?thesis
  proof (cases "d = CHR ''}''")
    case True
    with now d skip_ws_on [OF d] show ?thesis unfolding parse_value.simps [of "CHR ''{'' # t @ x"] by simp
  next
    case False
    with now d obtain kvs where m: "parse_members (skip_ws t) = Some (kvs, r)" "j = close_members kvs" by auto
    with members [OF d False m(1)] False d skip_ws_on [OF d, of x] show ?thesis
      unfolding parse_value.simps [of "CHR ''{'' # t @ x"] by simp
  qed
qed

lemma parse_list_on:
  assumes now: "parse_value (CHR ''['' # t) = Some (j, r)"
    and items: "\<And>d u xs. skip_ws t = d # u \<Longrightarrow> d \<noteq> CHR '']'' \<Longrightarrow> parse_items (skip_ws t) = Some (xs, r) \<Longrightarrow>
      parse_items (skip_ws t @ x) = Some (xs, r @ x)"
  shows "parse_value (CHR ''['' # t @ x) = Some (j, r @ x)"
proof -
  note now = now [unfolded parse_value.simps [of "CHR ''['' # t"] list.case]
  obtain d u where d: "skip_ws t = d # u" using now by (cases "skip_ws t") auto
  show ?thesis
  proof (cases "d = CHR '']''")
    case True
    with now d skip_ws_on [OF d] show ?thesis unfolding parse_value.simps [of "CHR ''['' # t @ x"] by simp
  next
    case False
    with now d obtain ys where m: "parse_items (skip_ws t) = Some (ys, r)" "j = JList ys" by auto
    with items [OF d False m(1)] False d skip_ws_on [OF d, of x] show ?thesis
      unfolding parse_value.simps [of "CHR ''['' # t @ x"] by simp
  qed
qed

lemma parse_items_on:
  assumes now: "parse_items s = Some (xs, r)"
    and val: "\<And>v q. parse_value s = Some (v, q) \<Longrightarrow> stops q \<Longrightarrow> parse_value (s @ x) = Some (v, q @ x)"
    and rest: "\<And>v q c u vs. parse_value s = Some (v, q) \<Longrightarrow> skip_ws q = c # u \<Longrightarrow> c = CHR '','' \<Longrightarrow> length u < length s \<Longrightarrow>
      parse_items (skip_ws u) = Some (vs, r) \<Longrightarrow> parse_items (skip_ws u @ x) = Some (vs, r @ x)"
  shows "parse_items (s @ x) = Some (xs, r @ x)"
proof -
  obtain v q c u where v: "parse_value s = Some (v, q)" "skip_ws q = c # u"
    using now by (auto simp: parse_items.simps [of s] split: option.splits list.splits)
  note now = now [unfolded parse_items.simps [of s] v, simplified]
  have c: "c \<in> {CHR '','', CHR '']'', CHR ''}''}" using now v by (auto split: if_splits)
  have on: "parse_value (s @ x) = Some (v, q @ x)" by (rule val [OF v(1) stops_at [OF v(2) c]])
  note skip = skip_ws_on [OF v(2), of x]
  show ?thesis
  proof (cases "c = CHR '']''")
    case True
    with now v have "xs = [v]" "r = u" by auto
    with on skip True show ?thesis by (simp add: parse_items.simps [of "s @ x"])
  next
    case False
    with now v obtain vs where vs: "c = CHR '',''" "length u < length s" "parse_items (skip_ws u) = Some (vs, r)" "xs = v # vs"
      by (auto split: if_splits)
    have "parse_items (skip_ws u @ x) = Some (vs, r @ x)" by (rule rest [OF v vs(1-3)])
    moreover have "skip_ws u \<noteq> []" using vs(3) by auto
    ultimately show ?thesis using on skip vs False by (simp add: parse_items.simps [of "s @ x"] skip_ws_on')
  qed
qed

lemma parse_members_on:
  assumes now: "parse_members s = Some (kvs, r)"
    and val: "\<And>k r1 c u v p. take 1 s = [CHR 0x22] \<Longrightarrow> string_body (drop 1 s) = Some (k, r1) \<Longrightarrow> skip_ws r1 = c # u \<Longrightarrow>
      c = CHR '':'' \<Longrightarrow> length u < length s \<Longrightarrow> parse_value (skip_ws u) = Some (v, p) \<Longrightarrow> stops p \<Longrightarrow>
      parse_value (skip_ws u @ x) = Some (v, p @ x)"
    and rest: "\<And>k r1 c u v p d w m. take 1 s = [CHR 0x22] \<Longrightarrow> string_body (drop 1 s) = Some (k, r1) \<Longrightarrow> skip_ws r1 = c # u \<Longrightarrow>
      c = CHR '':'' \<Longrightarrow> length u < length s \<Longrightarrow> parse_value (skip_ws u) = Some (v, p) \<Longrightarrow> skip_ws p = d # w \<Longrightarrow>
      d = CHR '','' \<Longrightarrow> length w < length s \<Longrightarrow> parse_members (skip_ws w) = Some (m, r) \<Longrightarrow>
      parse_members (skip_ws w @ x) = Some (m, r @ x)"
  shows "parse_members (s @ x) = Some (kvs, r @ x)"
proof -
  have q: "take 1 s = [CHR 0x22]" using now by (auto simp: parse_members.simps [of s] split: if_splits)
  with now obtain k r1 c u where k: "string_body (drop 1 s) = Some (k, r1)" "skip_ws r1 = c # u" "c = CHR '':''" "length u < length s"
    by (auto simp: parse_members.simps [of s] split: option.splits list.splits if_splits)
  obtain v p d w where v: "parse_value (skip_ws u) = Some (v, p)" "skip_ws p = d # w"
    using now unfolding parse_members.simps [of s] using q k by (auto split: option.splits list.splits)
  have res: "if d = CHR ''}'' then kvs = [(k, v)] \<and> r = w
    else d = CHR '','' \<and> length w < length s \<and> (\<exists>m. parse_members (skip_ws w) = Some (m, r) \<and> kvs = (k, v) # m)"
    using now unfolding parse_members.simps [of s] using q k v by (auto split: if_splits)
  then have d: "d \<in> {CHR '','', CHR '']'', CHR ''}''}" by (auto split: if_splits)
  have start: "take 1 (s @ x) = [CHR 0x22]" "drop 1 (s @ x) = drop 1 s @ x" using q by (cases s; simp)+
  have "skip_ws u \<noteq> []" using v(1) by auto
  with val [OF q k v(1) stops_at [OF v(2) d]] have on: "parse_value (skip_ws (u @ x)) = Some (v, p @ x)"
    by (simp add: skip_ws_on')
  note steps = start string_body_on [OF k(1), of x] skip_ws_on [OF k(2), of x] skip_ws_on [OF v(2), of x] on k(3,4)
  show ?thesis
  proof (cases "d = CHR ''}''")
    case True
    with res show ?thesis unfolding parse_members.simps [of "s @ x"] using steps by simp
  next
    case False
    with res obtain m where m: "d = CHR '',''" "length w < length s" "parse_members (skip_ws w) = Some (m, r)" "kvs = (k, v) # m"
      by auto
    moreover have "parse_members (skip_ws w @ x) = Some (m, r @ x)" by (rule rest [OF q k v m(1-3)])
    moreover have "skip_ws w \<noteq> []" using m(3) by auto
    ultimately show ?thesis
      unfolding parse_members.simps [of "s @ x"] using steps False by (simp add: skip_ws_on')
  qed
qed

lemma parse_on:
  "parse_value s = Some (j, r) \<Longrightarrow> stops r \<or> \<not> is_num j \<Longrightarrow> parse_value (s @ x) = Some (j, r @ x)"
  "parse_items s = Some (xs, r) \<Longrightarrow> parse_items (s @ x) = Some (xs, r @ x)"
  "parse_members s = Some (kvs, r) \<Longrightarrow> parse_members (s @ x) = Some (kvs, r @ x)"
proof (induction s and s and s arbitrary: j r and xs r and kvs r rule: parse_value_parse_items_parse_members.induct)
  case (1 s)
  obtain c t where s: "s = c # t" using "1.prems"(1) by (cases s) auto
  consider (str) "c = CHR 0x22" | (obj) "c = CHR ''{''" | (lst) "c = CHR ''[''"
    | (other) "c \<noteq> CHR 0x22" "c \<noteq> CHR ''{''" "c \<noteq> CHR ''[''" by blast
  then show ?case
  proof cases
    case str
    with "1.prems"(1) [unfolded parse_value.simps [of s], unfolded s list.case]
    obtain u where "string_body t = Some (u, r)" "j = JStr u" by auto
    with string_body_on [OF this(1)] str show ?thesis unfolding s append_Cons parse_value.simps [of "c # t @ x"] by simp
  next
    case obj
    show ?thesis
      unfolding s obj append_Cons by (rule parse_object_on) (use "1.prems"(1) "1.IH"(1) [OF s] obj s in auto)
  next
    case lst
    show ?thesis
      unfolding s lst append_Cons by (rule parse_list_on) (use "1.prems"(1) "1.IH"(2) [OF s] lst s in auto)
  next
    case other
    with "1.prems" show ?thesis unfolding s append_Cons by (intro parse_word_on) auto
  qed
next
  case (2 s)
  show ?case
    by (rule parse_items_on [OF "2.prems"]) (use "2.IH" in auto)
next
  case (3 s)
  show ?case
    by (rule parse_members_on [OF "3.prems"]) (use "3.IH" in auto)
qed

section \<open>Torn and glued lines\<close>

lemma parse_brace_not_num: "parse_value (CHR ''{'' # t) = Some (j, r) \<Longrightarrow> \<not> is_num j"
  by (auto simp: parse_value.simps [of "CHR ''{'' # t"] split: list.splits if_splits)

lemma parse_printed:
  assumes "separators sep col" "printable j" "\<not> is_num j"
  shows "parse_value (print_json sep col j @ x) = Some (j, x)"
proof -
  have "parse_value (print_json sep col j @ []) = Some (j, [])"
    using reads_as_parse [OF print_reads_back [OF assms(1,2)]] ends_value_simps(1) by blast
  from parse_on(1) [OF this, of x] assms(3) show ?thesis by simp
qed

text \<open>No proper beginning of an object's text is a document, and nothing but blanks may follow it.\<close>

lemma loads_torn:
  assumes "separators sep col" "printable (JObj kvs)" "print_json sep col (JObj kvs) = p @ x" "x \<noteq> []"
  shows "loads p = None"
proof (cases p)
  case Nil
  then show ?thesis by (simp add: loads_def parse_value.simps [of "[]"])
next
  case (Cons c t)
  with assms(3) have p: "p = CHR ''{'' # t" by simp
  have "\<not> (\<exists>j r. parse_value p = Some (j, r))"
  proof
    assume "\<exists>j r. parse_value p = Some (j, r)"
    then obtain j r where j: "parse_value p = Some (j, r)" by blast
    then have "parse_value (p @ x) = Some (j, r @ x)" using parse_on(1) [OF j] parse_brace_not_num p by blast
    moreover have "parse_value (p @ x) = Some (JObj kvs, [])"
      using parse_printed [OF assms(1,2), of "[]"] assms(3) by simp
    ultimately show False using assms(4) by simp
  qed
  moreover have "skip_ws p = p" by (simp add: p)
  ultimately show ?thesis by (auto simp: loads_def split: option.splits)
qed

lemma loads_glued:
  assumes "separators sep col" "printable j" "\<not> is_num j" "skip_ws x \<noteq> []"
  shows "loads (print_json sep col j @ x) = None"
  unfolding loads_def skip_ws_print parse_printed [OF assms(1-3)] using assms(4) by simp

end
