(* ===== verification/Audit_Log.thy ===== *)
theory Audit_Log
  imports Prelude
begin

text \<open>
  The contract of an append-only log kept in a JSONL file, which the receipt chain and the abstention
  ledger both provide: appending keeps the log valid, adds one record at the end, and leaves every
  earlier record as it was.
\<close>

locale append_log =
  fixes add :: "'e \<Rightarrow> 'r list \<Rightarrow> 'r list"
    and entry :: "'e \<Rightarrow> 'r list \<Rightarrow> 'r"
    and valid :: "'r list \<Rightarrow> bool"
  assumes valid_empty: "valid []"
    and valid_add: "valid l \<Longrightarrow> valid (add e l)"
    and add_entry: "add e l = l @ [entry e l]"
begin

definition log_run :: "'e list \<Rightarrow> 'r list \<Rightarrow> 'r list" where
  "log_run es l = fold add es l"

lemma log_run_simps [simp]:
  "log_run [] l = l" "log_run (e # es) l = log_run es (add e l)"
  by (simp_all add: log_run_def)

lemma log_run_valid: "valid l \<Longrightarrow> valid (log_run es l)"
  by (induction es arbitrary: l) (simp_all add: valid_add)

lemma log_run_from_empty: "valid (log_run es [])"
  by (rule log_run_valid) (rule valid_empty)

lemma log_run_length [simp]: "length (log_run es l) = length l + length es"
  by (induction es arbitrary: l) (simp_all add: add_entry)

lemma log_run_keeps: "prefix l (log_run es l)"
proof (induction es arbitrary: l)
  case Nil
  then show ?case by simp
next
  case (Cons e es)
  have "prefix l (add e l)" by (simp add: add_entry)
  also have "prefix (add e l) (log_run es (add e l))" by (rule Cons.IH)
  finally show ?case by simp
qed

lemma log_run_append: "log_run (es @ fs) l = log_run fs (log_run es l)"
  by (simp add: log_run_def)

lemma log_run_nth:
  assumes "i < length l" shows "log_run es l ! i = l ! i"
  using log_run_keeps [of l es] assms by (metis nth_append prefixE)

end

end
