(* ===== verification/Receipts.thy ===== *)
theory Receipts
  imports Agent_Types Audit_Log
begin

text \<open>
  \<open>agent/policy/receipt.py\<close>: the hash-chained receipts. The file \<open>receipts.jsonl\<close> is the list of its
  records (a record is written by \<open>json.dumps\<close> and read back by \<open>json.loads\<close>); the digest \<open>H\<close> is a
  parameter, as in \<open>Canonical\<close>. \<open>hex64\<close> is what SHA-256's hex digest gives: 64 characters.
\<close>

definition zero_hex :: string where
  "zero_hex = replicate 64 CHR ''0''"

definition GENESIS :: string where
  "GENESIS = ''sha256:'' @ zero_hex"

definition CID_HEX_LEN :: nat where
  "CID_HEX_LEN = 32"

definition receipt_cid :: "string \<Rightarrow> string" where
  "receipt_cid receipt_hash = take CID_HEX_LEN (after_colon receipt_hash)"

record receipt =
  rc_seq :: int
  rc_ts :: string
  rc_policy_hash :: string
  rc_kind :: string
  rc_decision :: json
  rc_verdict :: string
  rc_reason :: string
  rc_inputs_digest :: string
  rc_prev_hash :: string
  rc_hash :: string

definition receipt_body :: "receipt \<Rightarrow> json" where
  "receipt_body r = JObj
     [(''seq'', JInt (rc_seq r)), (''ts'', JStr (rc_ts r)), (''policy_hash'', JStr (rc_policy_hash r)),
      (''kind'', JStr (rc_kind r)), (''decision'', rc_decision r), (''verdict'', JStr (rc_verdict r)),
      (''reason'', JStr (rc_reason r)), (''inputs_digest'', JStr (rc_inputs_digest r))]"

text \<open>The bytes that are hashed: the previous hash, then the canonical body.\<close>

definition hash_input :: "receipt \<Rightarrow> string" where
  "hash_input r = rc_prev_hash r @ canonical_bytes (receipt_body r)"

definition compute_hash :: "digest_fun \<Rightarrow> receipt \<Rightarrow> string" where
  "compute_hash H r = ''sha256:'' @ H (hash_input r)"

definition head_of :: "receipt list \<Rightarrow> int \<times> string" where
  "head_of rs = (if rs = [] then (0, GENESIS) else (rc_seq (last rs) + 1, rc_hash (last rs)))"

record receipt_args =
  ra_policy_hash :: string
  ra_kind :: string
  ra_decision :: json
  ra_verdict :: string
  ra_reason :: string
  ra_inputs_digest :: string
  ra_ts :: string

definition new_receipt :: "digest_fun \<Rightarrow> receipt_args \<Rightarrow> receipt list \<Rightarrow> receipt" where
  "new_receipt H a rs =
     (let (seq, prev) = head_of rs;
          r = \<lparr>rc_seq = seq, rc_ts = ra_ts a, rc_policy_hash = ra_policy_hash a, rc_kind = ra_kind a,
                rc_decision = ra_decision a, rc_verdict = ra_verdict a, rc_reason = ra_reason a,
                rc_inputs_digest = ra_inputs_digest a, rc_prev_hash = prev, rc_hash = []\<rparr>
      in r\<lparr>rc_hash := compute_hash H r\<rparr>)"

definition append_receipt :: "digest_fun \<Rightarrow> receipt_args \<Rightarrow> receipt list \<Rightarrow> receipt list" where
  "append_receipt H a rs = rs @ [new_receipt H a rs]"

section \<open>Verification\<close>

record chain_result =
  cr_ok :: bool
  cr_count :: nat
  cr_broken_at :: "nat option"
  cr_why :: "string option"
  cr_policy_ok :: "bool option"

fun verify_from :: "digest_fun \<Rightarrow> string option \<Rightarrow> nat \<Rightarrow> nat \<Rightarrow> string \<Rightarrow> bool \<Rightarrow> receipt list \<Rightarrow> chain_result" where
  "verify_from H expected n i prev policy_ok [] =
     \<lparr>cr_ok = True, cr_count = n, cr_broken_at = None, cr_why = None, cr_policy_ok = Some policy_ok\<rparr>"
| "verify_from H expected n i prev policy_ok (rec # rs) =
     (if rc_prev_hash rec \<noteq> prev
      then \<lparr>cr_ok = False, cr_count = n, cr_broken_at = Some i, cr_why = Some ''prev_hash mismatch'',
             cr_policy_ok = None\<rparr>
      else if compute_hash H rec \<noteq> rc_hash rec
      then \<lparr>cr_ok = False, cr_count = n, cr_broken_at = Some i, cr_why = Some ''hash mismatch'',
             cr_policy_ok = None\<rparr>
      else verify_from H expected n (Suc i) (rc_hash rec)
             (policy_ok \<and> \<not> (expected \<noteq> None \<and> expected \<noteq> Some (rc_policy_hash rec))) rs)"

definition verify_chain :: "digest_fun \<Rightarrow> string option \<Rightarrow> receipt list \<Rightarrow> chain_result" where
  "verify_chain H expected rs = verify_from H expected (length rs) 0 GENESIS True rs"

section \<open>What verification means\<close>

text \<open>The declarative reading: each record links to the one before it and carries its own hash.\<close>

fun linked :: "digest_fun \<Rightarrow> string \<Rightarrow> receipt list \<Rightarrow> bool" where
  "linked H prev [] = True"
| "linked H prev (r # rs) =
     (rc_prev_hash r = prev \<and> rc_hash r = compute_hash H r \<and> linked H (rc_hash r) rs)"

definition head_hash :: "string \<Rightarrow> receipt list \<Rightarrow> string" where
  "head_hash prev rs = (if rs = [] then prev else rc_hash (last rs))"

lemma head_hash_simps [simp]:
  "head_hash p [] = p" "head_hash p (r # rs) = head_hash (rc_hash r) rs" "head_hash p (rs @ [r]) = rc_hash r"
  by (simp_all add: head_hash_def)

lemma verify_from_linked:
  assumes "linked H prev rs"
  shows "verify_from H expected n i prev pol rs =
    \<lparr>cr_ok = True, cr_count = n, cr_broken_at = None, cr_why = None,
      cr_policy_ok = Some (pol \<and> (\<forall>r \<in> set rs. expected \<noteq> None \<longrightarrow> expected = Some (rc_policy_hash r)))\<rparr>"
  using assms by (induction rs arbitrary: i prev pol) auto

lemma verify_from_ok: "cr_ok (verify_from H expected n i prev pol rs) \<longleftrightarrow> linked H prev rs"
  by (induction rs arbitrary: i prev pol) auto

lemma verify_ok: "cr_ok (verify_chain H expected rs) \<longleftrightarrow> linked H GENESIS rs"
  by (simp add: verify_chain_def verify_from_ok)

lemma verify_policy:
  "linked H GENESIS rs \<Longrightarrow> cr_policy_ok (verify_chain H expected rs) =
     Some (\<forall>r \<in> set rs. expected \<noteq> None \<longrightarrow> expected = Some (rc_policy_hash r))"
  by (simp add: verify_chain_def verify_from_linked)

text \<open>A failed verification points at the first record that does not link up.\<close>

lemma verify_from_broken:
  "cr_broken_at (verify_from H expected n i prev pol rs) = Some j \<Longrightarrow>
    \<exists>k. j = i + k \<and> k < length rs \<and> linked H prev (take k rs) \<and> \<not> linked H prev (take (Suc k) rs)"
proof (induction rs arbitrary: i prev pol)
  case Nil
  then show ?case by simp
next
  case (Cons r rs)
  show ?case
  proof (cases "rc_prev_hash r = prev \<and> compute_hash H r = rc_hash r")
    case True
    then have "cr_broken_at (verify_from H expected n (Suc i) (rc_hash r)
        (pol \<and> \<not> (expected \<noteq> None \<and> expected \<noteq> Some (rc_policy_hash r))) rs) = Some j"
      using Cons.prems by simp
    from Cons.IH [OF this] obtain k where "j = Suc i + k" "k < length rs" "linked H (rc_hash r) (take k rs)"
      "\<not> linked H (rc_hash r) (take (Suc k) rs)" by blast
    with True show ?thesis by (intro exI [of _ "Suc k"]) simp
  next
    case False
    with Cons.prems show ?thesis by (intro exI [of _ 0]) (auto split: if_splits)
  qed
qed

lemma linked_append:
  "linked H prev (rs @ ss) \<longleftrightarrow> linked H prev rs \<and> linked H (head_hash prev rs) ss"
  by (induction rs arbitrary: prev) auto

lemma compute_hash_update [simp]: "compute_hash H (r\<lparr>rc_hash := h\<rparr>) = compute_hash H r"
  by (simp add: compute_hash_def hash_input_def receipt_body_def)

lemma new_receipt_links:
  "rc_prev_hash (new_receipt H a rs) = head_hash GENESIS rs"
  "rc_seq (new_receipt H a rs) = (if rs = [] then 0 else rc_seq (last rs) + 1)"
  by (simp_all add: new_receipt_def head_of_def head_hash_def Let_def)

lemma new_receipt_hash: "rc_hash (new_receipt H a rs) = compute_hash H (new_receipt H a rs)"
  by (simp add: new_receipt_def Let_def compute_hash_def hash_input_def receipt_body_def split: prod.split)

lemma new_receipt_fields [simp]:
  "rc_policy_hash (new_receipt H a rs) = ra_policy_hash a" "rc_kind (new_receipt H a rs) = ra_kind a"
  "rc_decision (new_receipt H a rs) = ra_decision a" "rc_verdict (new_receipt H a rs) = ra_verdict a"
  "rc_reason (new_receipt H a rs) = ra_reason a" "rc_ts (new_receipt H a rs) = ra_ts a"
  "rc_inputs_digest (new_receipt H a rs) = ra_inputs_digest a"
  by (simp_all add: new_receipt_def Let_def split: prod.split)

lemma linked_append_receipt:
  "linked H GENESIS rs \<Longrightarrow> linked H GENESIS (append_receipt H a rs)"
  by (simp add: append_receipt_def linked_append new_receipt_links new_receipt_hash)

definition numbered :: "receipt list \<Rightarrow> bool" where
  "numbered rs = (map rc_seq rs = map int [0..<length rs])"

lemma numbered_append_receipt: "numbered rs \<Longrightarrow> numbered (append_receipt H a rs)"
proof -
  assume n: "numbered rs"
  have "rc_seq (new_receipt H a rs) = int (length rs)"
  proof (cases rs rule: rev_cases)
    case (snoc ys y)
    with n have "rc_seq y = int (length ys)" by (simp add: numbered_def)
    with snoc show ?thesis by (simp add: new_receipt_links)
  qed (simp add: new_receipt_links)
  with n show ?thesis by (simp add: numbered_def append_receipt_def)
qed

definition valid_chain :: "digest_fun \<Rightarrow> receipt list \<Rightarrow> bool" where
  "valid_chain H rs = (linked H GENESIS rs \<and> numbered rs)"

interpretation receipt_log: append_log "append_receipt H" "new_receipt H" "valid_chain H" for H
proof unfold_locales
  show "valid_chain H []" by (simp add: valid_chain_def numbered_def)
  show "valid_chain H (append_receipt H e l)" if "valid_chain H l" for e l
    using that by (simp add: valid_chain_def numbered_append_receipt linked_append_receipt)
  show "append_receipt H e l = l @ [new_receipt H e l]" for e l
    by (rule append_receipt_def)
qed

section \<open>Tamper evidence\<close>

text \<open>
  A body determines the receipt's fields: canonicalisation loses nothing but annotations and key order
  inside the decision.
\<close>

definition json_field :: "string \<Rightarrow> json \<Rightarrow> json option" where
  "json_field k j = (case j of JObj kvs \<Rightarrow> map_of kvs k | _ \<Rightarrow> None)"

lemma json_field_canonical:
  assumes "distinct (map fst kvs)" "list_all (\<lambda>(k, v). \<not> annotation_key k) kvs"
  shows "json_field k (sort_keys (strip_comments (JObj kvs))) =
    map_option (\<lambda>v. sort_keys (strip_comments v)) (map_of kvs k)"
proof -
  have "filter (\<lambda>(k, v). \<not> annotation_key k) kvs = kvs"
    using assms(2) by (simp add: list_all_iff)
  moreover have "distinct (map fst (map (\<lambda>(k, v). (k, strip_comments v)) kvs))"
    using assms(1) by (simp add: case_prod_beta comp_def)
  ultimately show ?thesis
    by (simp add: json_field_def map_of_sort_key map_of_map option.map_comp comp_def)
qed

definition norm_decision :: "receipt \<Rightarrow> receipt" where
  "norm_decision r = r\<lparr>rc_decision := sort_keys (strip_comments (rc_decision r))\<rparr>"

lemma body_fields:
  "json_field k (sort_keys (strip_comments (receipt_body r))) = map_of
     [(''seq'', JInt (rc_seq r)), (''ts'', JStr (rc_ts r)), (''policy_hash'', JStr (rc_policy_hash r)),
      (''kind'', JStr (rc_kind r)), (''decision'', sort_keys (strip_comments (rc_decision r))),
      (''verdict'', JStr (rc_verdict r)), (''reason'', JStr (rc_reason r)),
      (''inputs_digest'', JStr (rc_inputs_digest r))] k"
  unfolding receipt_body_def by (subst json_field_canonical) (simp_all add: annotation_key_def)

lemma body_inj:
  assumes "sort_keys (strip_comments (receipt_body r)) = sort_keys (strip_comments (receipt_body r'))"
    and "rc_prev_hash r = rc_prev_hash r'" "rc_hash r = rc_hash r'"
  shows "norm_decision r = norm_decision r'"
proof -
  have f: "json_field k (sort_keys (strip_comments (receipt_body r))) =
    json_field k (sort_keys (strip_comments (receipt_body r')))" for k
    using assms(1) by simp
  have "rc_seq r = rc_seq r'" "rc_ts r = rc_ts r'" "rc_policy_hash r = rc_policy_hash r'"
    "rc_kind r = rc_kind r'" "rc_verdict r = rc_verdict r'" "rc_reason r = rc_reason r'"
    "rc_inputs_digest r = rc_inputs_digest r'"
    "sort_keys (strip_comments (rc_decision r)) = sort_keys (strip_comments (rc_decision r'))"
    using f [of "''seq''"] f [of "''ts''"] f [of "''policy_hash''"] f [of "''kind''"] f [of "''verdict''"]
      f [of "''reason''"] f [of "''inputs_digest''"] f [of "''decision''"]
    by (simp_all add: body_fields)
  with assms(2,3) show ?thesis by (simp add: norm_decision_def)
qed

definition exact_receipts :: "receipt list \<Rightarrow> bool" where
  "exact_receipts rs = list_all (\<lambda>r. json_exact (rc_decision r)) rs"

text \<open>What an attacker needs: a collision among the hashed texts, or a preimage of the genesis hash.\<close>

definition digest_broken :: "digest_fun \<Rightarrow> receipt list \<Rightarrow> receipt list \<Rightarrow> bool" where
  "digest_broken H rs rs' =
     ((\<exists>r \<in> set rs. \<exists>r' \<in> set rs'. hash_input r \<noteq> hash_input r' \<and> H (hash_input r) = H (hash_input r')) \<or>
      (\<exists>r \<in> set rs \<union> set rs'. H (hash_input r) = zero_hex))"

lemma compute_hash_genesis: "compute_hash H r = GENESIS \<longleftrightarrow> H (hash_input r) = zero_hex"
  by (simp add: compute_hash_def GENESIS_def)

lemma compute_hash_eq: "compute_hash H r = compute_hash H r' \<longleftrightarrow> H (hash_input r) = H (hash_input r')"
  by (simp add: compute_hash_def)

lemma linked_snoc:
  "linked H GENESIS (rs @ [r]) \<longleftrightarrow>
    linked H GENESIS rs \<and> rc_prev_hash r = head_hash GENESIS rs \<and> rc_hash r = compute_hash H r"
  by (simp add: linked_append)

lemma digest_broken_snoc:
  "digest_broken H rs rs' \<Longrightarrow> digest_broken H (rs @ [r]) (rs' @ [r'])"
  unfolding digest_broken_def by auto

lemma head_hash_length:
  assumes "\<And>x. length (H x) = 64" "linked H GENESIS rs"
  shows "length (head_hash GENESIS rs) = 71"
proof (cases rs rule: rev_cases)
  case Nil
  then show ?thesis by (simp add: GENESIS_def zero_hex_def)
next
  case (snoc ys y)
  with assms(2) have "rc_hash y = compute_hash H y" by (simp add: linked_snoc)
  with snoc assms(1) show ?thesis by (simp add: compute_hash_def)
qed

lemma receipt_hash_inj:
  assumes H: "\<And>x. length (H x) = 64"
    and l: "linked H GENESIS (rs @ [r])" "linked H GENESIS (rs' @ [r'])"
    and e: "json_exact (rc_decision r)" "json_exact (rc_decision r')"
    and eq: "hash_input r = hash_input r'"
  shows "rc_prev_hash r = rc_prev_hash r' \<and> norm_decision r = norm_decision r'"
proof -
  have "length (rc_prev_hash r) = 71" "length (rc_prev_hash r') = 71"
    using l head_hash_length [OF H] by (auto simp: linked_append)
  with eq have prev: "rc_prev_hash r = rc_prev_hash r'"
    and bytes: "canonical_bytes (receipt_body r) = canonical_bytes (receipt_body r')"
    by (auto simp: hash_input_def append_eq_append_conv)
  have "json_exact (receipt_body r)" "json_exact (receipt_body r')"
    using e by (simp_all add: receipt_body_def)
  from canonical_bytes_inj [OF this bytes]
  have "sort_keys (strip_comments (receipt_body r)) = sort_keys (strip_comments (receipt_body r'))" .
  moreover have "rc_hash r = rc_hash r'"
    using l eq by (simp add: linked_append compute_hash_def)
  ultimately show ?thesis using prev body_inj by blast
qed

lemma digest_broken_genesis:
  assumes "linked H GENESIS (rs @ [r])" "rc_hash r = GENESIS"
  shows "digest_broken H (rs @ [r]) rs'" and "digest_broken H rs' (rs @ [r])"
proof -
  have "compute_hash H r = GENESIS" using assms by (simp add: linked_snoc)
  then have "H (hash_input r) = zero_hex" by (simp only: compute_hash_genesis)
  then show "digest_broken H (rs @ [r]) rs'" "digest_broken H rs' (rs @ [r])"
    unfolding digest_broken_def by auto
qed

lemma linked_same_head:
  assumes H: "\<And>x. length (H x) = 64"
    and "linked H GENESIS rs" "linked H GENESIS rs'" "exact_receipts rs" "exact_receipts rs'"
    and "head_hash GENESIS rs = head_hash GENESIS rs'"
  shows "map norm_decision rs = map norm_decision rs' \<or> digest_broken H rs rs'"
  using assms(2-)
proof (induction rs arbitrary: rs' rule: rev_induct)
  case Nil
  show ?case
  proof (cases rs' rule: rev_cases)
    case (snoc ys y)
    with Nil.prems digest_broken_genesis(2) [of H ys y "[]"] show ?thesis by simp
  qed simp
next
  case (snoc r rs)
  show ?case
  proof (cases rs' rule: rev_cases)
    case Nil
    with snoc.prems digest_broken_genesis(1) [of H rs r "[]"] show ?thesis by simp
  next
    case rs': (snoc ys r')
    note l = snoc.prems(1) snoc.prems(2) [unfolded rs']
    have e: "json_exact (rc_decision r)" "json_exact (rc_decision r')" "exact_receipts rs" "exact_receipts ys"
      using snoc.prems(3,4) rs' by (simp_all add: exact_receipts_def)
    have "compute_hash H r = compute_hash H r'" using snoc.prems(5) l rs' by (simp add: linked_snoc)
    then have same: "H (hash_input r) = H (hash_input r')" by (simp only: compute_hash_eq)
    show ?thesis
    proof (cases "hash_input r = hash_input r'")
      case True
      from receipt_hash_inj [OF H l e(1,2) True]
      have eq: "rc_prev_hash r = rc_prev_hash r'" "norm_decision r = norm_decision r'" by blast+
      then have "map norm_decision rs = map norm_decision ys \<or> digest_broken H rs ys"
        using l e by (intro snoc.IH) (simp_all add: linked_snoc)
      with eq(2) show ?thesis unfolding rs' by (auto intro: digest_broken_snoc)
    next
      case False
      with same have "digest_broken H (rs @ [r]) rs'" unfolding digest_broken_def rs' by auto
      then show ?thesis ..
    qed
  qed
qed

section \<open>Claims\<close>

text \<open>
  Recording never damages the chain: whatever decisions are recorded, in whatever order, starting
  from an empty file, the public verifier accepts the result, the receipts are numbered 0, 1, 2, ...,
  and the receipts recorded earlier are still there unchanged.
\<close>

theorem receipts_always_verify:
  "cr_ok (verify_chain H expected (receipt_log.log_run H (as @ bs) [])) \<and>
   map rc_seq (receipt_log.log_run H (as @ bs) []) = map int [0..<length as + length bs] \<and>
   prefix (receipt_log.log_run H as []) (receipt_log.log_run H (as @ bs) [])"
proof -
  have "valid_chain H (receipt_log.log_run H (as @ bs) [])"
    by (rule receipt_log.log_run_from_empty)
  then show ?thesis
    by (simp add: valid_chain_def verify_ok numbered_def receipt_log.log_run_append
        receipt_log.log_run_keeps)
qed

text \<open>
  C34. Tamper evidence: two receipt files that both verify and end in the same hash hold the same
  receipts (up to annotations and key order inside the recorded decision), or they exhibit a collision
  of the digest or a preimage of the genesis hash. The digest is any function with 64 hex characters.
\<close>

theorem receipts_tamper_evident:
  assumes "\<And>x. length (H x) = 64"
    and "cr_ok (verify_chain H p rs)" "cr_ok (verify_chain H p' rs')"
    and "exact_receipts rs" "exact_receipts rs'"
    and "head_hash GENESIS rs = head_hash GENESIS rs'"
  shows "map norm_decision rs = map norm_decision rs' \<or> digest_broken H rs rs'"
  using linked_same_head [OF assms(1)] assms(2-) by (simp add: verify_ok)

definition ex_digest :: digest_fun where
  "ex_digest x = take 64 (x @ replicate 64 CHR ''f'')"

definition ex_args :: receipt_args where
  "ex_args = \<lparr>ra_policy_hash = ''sha256:p'', ra_kind = ''hold'', ra_decision = JObj [(''side'', JStr ''hold'')],
     ra_verdict = ''hold'', ra_reason = ''r'', ra_inputs_digest = ''d'', ra_ts = ''t''\<rparr>"

theorem receipts_tamper_evident_witness:
  "map norm_decision (append_receipt ex_digest ex_args []) = map norm_decision (append_receipt ex_digest ex_args [])
   \<or> digest_broken ex_digest (append_receipt ex_digest ex_args []) (append_receipt ex_digest ex_args [])"
proof (rule receipts_tamper_evident)
  show "length (ex_digest x) = 64" for x by (simp add: ex_digest_def)
  show "cr_ok (verify_chain ex_digest None (append_receipt ex_digest ex_args []))"
    by (simp add: verify_ok linked_append_receipt)
  then show "cr_ok (verify_chain ex_digest None (append_receipt ex_digest ex_args []))" .
  show "exact_receipts (append_receipt ex_digest ex_args [])"
    by (simp add: exact_receipts_def append_receipt_def ex_args_def)
  then show "exact_receipts (append_receipt ex_digest ex_args [])" .
qed (rule refl)

lemma verify_from_unbroken:
  "cr_broken_at (verify_from H expected n i prev pol rs) = None \<longleftrightarrow> linked H prev rs"
  by (induction rs arbitrary: i prev pol) auto

text \<open>
  The verifier is right about where a file breaks: it accepts exactly the files whose records link
  up, and for every other file the position it reports is the first record that does not.
\<close>

theorem verify_chain_reports:
  "case cr_broken_at (verify_chain H p rs) of
     None \<Rightarrow> cr_ok (verify_chain H p rs) \<and> linked H GENESIS rs
   | Some k \<Rightarrow> \<not> cr_ok (verify_chain H p rs) \<and> k < length rs \<and>
       linked H GENESIS (take k rs) \<and> \<not> linked H GENESIS (take (Suc k) rs)"
proof (cases "cr_broken_at (verify_chain H p rs)")
  case None
  then have "linked H GENESIS rs" by (simp add: verify_chain_def verify_from_unbroken)
  with None show ?thesis by (simp add: verify_ok)
next
  case (Some k)
  then have "\<not> linked H GENESIS rs"
    using verify_from_unbroken [of H p "length rs" 0 GENESIS True rs] by (simp add: verify_chain_def)
  then have "\<not> cr_ok (verify_chain H p rs)" by (simp add: verify_ok)
  with Some verify_from_broken [of H p "length rs" 0 GENESIS True rs k] show ?thesis
    by (simp add: verify_chain_def)
qed

lemma after_colon_sha: "after_colon (''sha256:'' @ h) = h"
  by (simp add: after_colon_def)

text \<open>
  The order id of a recorded receipt is the first 32 hex characters of its hash: it is never
  truncated short, and it depends on nothing but the hashed body and the previous hash.
\<close>

theorem cid_binds_receipt:
  assumes "\<And>x. length (H x) = 64"
  shows "receipt_cid (rc_hash (new_receipt H a rs)) = take 32 (H (hash_input (new_receipt H a rs))) \<and>
    length (receipt_cid (rc_hash (new_receipt H a rs))) = 32"
  using assms after_colon_sha [of "H (hash_input (new_receipt H a rs))"]
  by (simp add: new_receipt_hash compute_hash_def receipt_cid_def CID_HEX_LEN_def)

theorem cid_binds_receipt_witness:
  "length (receipt_cid (rc_hash (new_receipt ex_digest ex_args []))) = 32"
proof -
  have "length (ex_digest x) = 64" for x by (simp add: ex_digest_def)
  from cid_binds_receipt [of ex_digest, OF this] show ?thesis by blast
qed

end
