(* ===== verification/Abstention.thy ===== *)
theory Abstention
  imports Agent_Types Audit_Log
begin

text \<open>
  \<open>agent/abstention/ledger.py\<close>: the avoided-loss ledger. An abstention is recorded with the price at
  the moment of restraint, later marked to market once, and summed into losses avoided and gains missed.
\<close>

definition VALID_REASONS :: "string list" where
  "VALID_REASONS =
     [''stale_data'', ''vol_spike'', ''thin_liquidity'', ''drawdown_proximity'',
      ''slippage_mismatch'', ''regime_conflict'', ''exposure_full'', ''rate_or_interval'']"

record abstention =
  ab_seq :: int
  ab_ts :: real
  ab_symbol :: string
  ab_reason :: string
  ab_side :: string
  ab_ref_price :: real
  ab_size_usd :: real
  ab_marked :: bool
  ab_mark_ts :: "real option"
  ab_mark_price :: "real option"
  ab_hypothetical_pnl_usd :: "real option"

record abstention_args =
  aa_ts :: real
  aa_symbol :: string
  aa_reason :: string
  aa_side :: string
  aa_ref_price :: real
  aa_size_usd :: real

definition new_abstention :: "abstention_args \<Rightarrow> abstention list \<Rightarrow> abstention" where
  "new_abstention a records =
     \<lparr>ab_seq = (if records \<noteq> [] then ab_seq (last records) + 1 else 0), ab_ts = aa_ts a,
      ab_symbol = upper (aa_symbol a),
      ab_reason = (if aa_reason a \<in> set VALID_REASONS then aa_reason a else ''regime_conflict''),
      ab_side = aa_side a, ab_ref_price = aa_ref_price a, ab_size_usd = aa_size_usd a,
      ab_marked = False, ab_mark_ts = None, ab_mark_price = None, ab_hypothetical_pnl_usd = None\<rparr>"

definition record_abstention :: "abstention_args \<Rightarrow> abstention list \<Rightarrow> abstention list" where
  "record_abstention a records = records @ [new_abstention a records]"

section \<open>Marking to market\<close>

definition due :: "(string \<rightharpoonup> real) \<Rightarrow> real \<Rightarrow> real \<Rightarrow> abstention \<Rightarrow> bool" where
  "due prices now_ts min_age_s r =
     (\<not> ab_marked r \<and> \<not> now_ts - ab_ts r < min_age_s \<and>
      prices (upper (ab_symbol r)) \<noteq> None \<and> ab_ref_price r \<noteq> 0)"

definition mark_record :: "(string \<rightharpoonup> real) \<Rightarrow> real \<Rightarrow> abstention \<Rightarrow> abstention" where
  "mark_record prices now_ts r =
     (let px = the (prices (upper (ab_symbol r)));
          move = (px - ab_ref_price r) / ab_ref_price r;
          s = (if ab_side r = ''buy'' then 1 else - 1)
      in r\<lparr>ab_hypothetical_pnl_usd := Some (py_round (s * move * ab_size_usd r) 4),
           ab_mark_price := Some px, ab_mark_ts := Some now_ts, ab_marked := True\<rparr>)"

definition mark_to_market :: "(string \<rightharpoonup> real) \<Rightarrow> real \<Rightarrow> real \<Rightarrow> abstention list \<Rightarrow>
    nat \<times> abstention list" where
  "mark_to_market prices now_ts min_age_s records =
     (length (filter (due prices now_ts min_age_s) records),
      map (\<lambda>r. if due prices now_ts min_age_s r then mark_record prices now_ts r else r) records)"

section \<open>Summary\<close>

record abstention_summary =
  as_abstentions :: nat
  as_marked :: nat
  as_avoided_loss_usd :: real
  as_missed_gain_usd :: real
  as_net_restraint_usd :: real
  as_by_reason :: "(string \<times> nat) list"

definition marked_pnls :: "abstention list \<Rightarrow> real list" where
  "marked_pnls records =
     List.map_filter (\<lambda>r. if ab_marked r then ab_hypothetical_pnl_usd r else None) records"

definition avoided_loss :: "abstention list \<Rightarrow> real" where
  "avoided_loss records = sum_list (map (\<lambda>p. - p) (filter (\<lambda>p. p < 0) (marked_pnls records)))"

definition missed_gain :: "abstention list \<Rightarrow> real" where
  "missed_gain records = sum_list (filter (\<lambda>p. 0 < p) (marked_pnls records))"

definition count_reason :: "(string \<times> nat) list \<Rightarrow> string \<Rightarrow> (string \<times> nat) list" where
  "count_reason by_reason r = AList.update r (get_or (map_of by_reason r) 0 + 1) by_reason"

definition ledger_summary :: "abstention list \<Rightarrow> abstention_summary" where
  "ledger_summary records =
     \<lparr>as_abstentions = length records, as_marked = length (marked_pnls records),
      as_avoided_loss_usd = py_round (avoided_loss records) 2,
      as_missed_gain_usd = py_round (missed_gain records) 2,
      as_net_restraint_usd = py_round (avoided_loss records - missed_gain records) 2,
      as_by_reason = foldl count_reason [] (map ab_reason records)\<rparr>"

section \<open>The ledger's invariant\<close>

definition well_formed :: "abstention \<Rightarrow> bool" where
  "well_formed r =
     (ab_reason r \<in> set VALID_REASONS \<and> ab_symbol r = upper (ab_symbol r) \<and>
      (if ab_marked r
       then (\<exists>px now. ab_mark_price r = Some px \<and> ab_mark_ts r = Some now \<and> ab_ref_price r \<noteq> 0 \<and>
          ab_hypothetical_pnl_usd r = Some (py_round
            ((if ab_side r = ''buy'' then 1 else - 1) * ((px - ab_ref_price r) / ab_ref_price r) * ab_size_usd r) 4))
       else ab_mark_price r = None \<and> ab_mark_ts r = None \<and> ab_hypothetical_pnl_usd r = None))"

definition valid_ledger :: "abstention list \<Rightarrow> bool" where
  "valid_ledger l = (map ab_seq l = map int [0..<length l] \<and> list_all well_formed l)"

lemma new_abstention_seq:
  assumes "map ab_seq l = map int [0..<length l]"
  shows "ab_seq (new_abstention a l) = int (length l)"
proof (cases l rule: rev_cases)
  case (snoc ys y)
  with assms have "ab_seq y = int (length ys)" by simp
  with snoc show ?thesis by (simp add: new_abstention_def)
qed (simp add: new_abstention_def)

lemma well_formed_new [simp]: "well_formed (new_abstention a l)"
  by (simp add: well_formed_def new_abstention_def VALID_REASONS_def)

lemma valid_record: "valid_ledger l \<Longrightarrow> valid_ledger (record_abstention a l)"
  by (simp add: valid_ledger_def record_abstention_def new_abstention_seq)

lemma mark_keeps [simp]:
  "ab_seq (mark_record prices now r) = ab_seq r" "ab_ts (mark_record prices now r) = ab_ts r"
  "ab_symbol (mark_record prices now r) = ab_symbol r" "ab_reason (mark_record prices now r) = ab_reason r"
  "ab_side (mark_record prices now r) = ab_side r" "ab_ref_price (mark_record prices now r) = ab_ref_price r"
  "ab_size_usd (mark_record prices now r) = ab_size_usd r" "ab_marked (mark_record prices now r)"
  by (simp_all add: mark_record_def Let_def)

lemma well_formed_mark:
  assumes "well_formed r" "due prices now age r"
  shows "well_formed (mark_record prices now r)"
proof -
  obtain px where "prices (upper (ab_symbol r)) = Some px" "ab_ref_price r \<noteq> 0"
    using assms(2) by (auto simp: due_def)
  then show ?thesis using assms(1) by (simp add: well_formed_def mark_record_def Let_def)
qed

lemma valid_mark: "valid_ledger l \<Longrightarrow> valid_ledger (snd (mark_to_market prices now age l))"
proof -
  assume v: "valid_ledger l"
  have "map ab_seq (snd (mark_to_market prices now age l)) = map ab_seq l"
    by (simp add: mark_to_market_def)
  with v show ?thesis
    by (auto simp: valid_ledger_def mark_to_market_def list_all_iff well_formed_mark)
qed

lemma mark_record_not_due [simp]: "\<not> due prices' now' age' (mark_record prices now r)"
  by (simp add: due_def)

lemma mark_to_market_again:
  "mark_to_market prices now age (snd (mark_to_market prices now age l)) =
    (0, snd (mark_to_market prices now age l))"
  by (simp add: mark_to_market_def filter_empty_conv)

interpretation abstention_log: append_log record_abstention new_abstention valid_ledger
proof unfold_locales
  show "valid_ledger []" by (simp add: valid_ledger_def)
  show "valid_ledger (record_abstention e l)" if "valid_ledger l" for e l
    using that by (rule valid_record)
  show "record_abstention e l = l @ [new_abstention e l]" for e l
    by (rule record_abstention_def)
qed

section \<open>The totals\<close>

lemma split_signs:
  fixes xs :: "real list"
  shows "sum_list xs = sum_list (filter (\<lambda>p. 0 < p) xs) - sum_list (map (\<lambda>p. - p) (filter (\<lambda>p. p < 0) xs))"
  by (induction xs) auto

lemma net_restraint: "avoided_loss l - missed_gain l = - sum_list (marked_pnls l)"
  using split_signs [of "marked_pnls l"] by (simp add: avoided_loss_def missed_gain_def)

lemma avoided_loss_nonneg: "0 \<le> avoided_loss l"
  by (auto simp: avoided_loss_def intro!: sum_list_nonneg)

lemma missed_gain_nonneg: "0 \<le> missed_gain l"
  by (auto simp: missed_gain_def intro!: sum_list_nonneg)

lemma count_reason_fold:
  "map_of (foldl count_reason d rs) k =
    (if count_list rs k = 0 then map_of d k else Some (get_or (map_of d k) 0 + count_list rs k))"
  by (induction rs arbitrary: d) (auto simp: count_reason_def update_conv' count_list_0_iff)

section \<open>Claims\<close>

text \<open>
  Any interleaving of recording and marking keeps the ledger well formed: abstentions are numbered
  0, 1, 2, ..., carry a valid reason, and a marked one holds the price move that its own figures give;
  marking a second time at the same prices changes nothing.
\<close>

theorem ledger_invariant:
  assumes "valid_ledger l"
  shows "valid_ledger (abstention_log.log_run es (snd (mark_to_market prices now age l)))
    \<and> mark_to_market prices now age (snd (mark_to_market prices now age l)) =
      (0, snd (mark_to_market prices now age l))"
  using abstention_log.log_run_valid [OF valid_mark [OF assms]] mark_to_market_again by blast

theorem ledger_invariant_witness:
  "valid_ledger (abstention_log.log_run [\<lparr>aa_ts = 0, aa_symbol = ''eth'', aa_reason = ''whim'',
     aa_side = ''buy'', aa_ref_price = 2000, aa_size_usd = 30\<rparr>] (snd (mark_to_market Map.empty 0 0 [])))"
  by (rule ledger_invariant [THEN conjunct1]) (simp add: valid_ledger_def)

text \<open>
  The summary is honest: losses avoided and gains missed are both non-negative, and the net figure is
  exactly what the declined trades would have lost in total, rounded to cents; the reasons are counted
  exactly.
\<close>

theorem summary_honest:
  "0 \<le> as_avoided_loss_usd (ledger_summary l) \<and> 0 \<le> as_missed_gain_usd (ledger_summary l) \<and>
   as_net_restraint_usd (ledger_summary l) = py_round (- sum_list (marked_pnls l)) 2 \<and>
   get_or (map_of (as_by_reason (ledger_summary l)) k) 0 = count_list (map ab_reason l) k"
  by (simp add: ledger_summary_def py_round_nonneg avoided_loss_nonneg missed_gain_nonneg
      net_restraint count_reason_fold)

end
