(* ===== verification/Execlog.thy ===== *)
theory Execlog
  imports Receipts Execution
begin

text \<open>
  \<open>agent/policy/execlog.py\<close> and the public verifier of \<open>agent/policy/commit.py\<close>: the execution log that
  binds an on-chain order back to the receipt of the decision. The values copied out of a backend's
  detail dictionary are JSON values; a missing key gives \<open>JNull\<close> (\<open>dict.get\<close>).
\<close>

record execution_record =
  xr_receipt_seq :: int
  xr_receipt_hash :: string
  xr_cid :: string
  xr_ts :: string
  xr_executed :: bool
  xr_source :: json
  xr_market :: json
  xr_order_type :: json
  xr_tx :: json
  xr_order_hash :: json
  xr_ref_price :: json
  xr_quantity_base :: json
  xr_amount_usd :: json
  xr_error :: "string option"

definition new_execution :: "int \<Rightarrow> string \<Rightarrow> string \<Rightarrow> string \<Rightarrow> bool \<Rightarrow> (string \<times> json) list \<Rightarrow>
    string option \<Rightarrow> execution_record" where
  "new_execution seq rh cid ts executed detail error =
     \<lparr>xr_receipt_seq = seq, xr_receipt_hash = rh, xr_cid = cid, xr_ts = ts, xr_executed = executed,
      xr_source = dget ''source'' detail, xr_market = dget ''market'' detail,
      xr_order_type = dget ''order_type'' detail, xr_tx = dget ''tx'' detail,
      xr_order_hash = dget ''order_hash'' detail, xr_ref_price = dget ''ref_price'' detail,
      xr_quantity_base = dget ''quantity_base'' detail, xr_amount_usd = dget ''amount_usd'' detail,
      xr_error = error\<rparr>"

definition record_execution :: "int \<Rightarrow> string \<Rightarrow> string \<Rightarrow> string \<Rightarrow> bool \<Rightarrow> (string \<times> json) list \<Rightarrow>
    string option \<Rightarrow> execution_record list \<Rightarrow> execution_record list" where
  "record_execution seq rh cid ts executed detail error records =
     records @ [new_execution seq rh cid ts executed detail error]"

section \<open>Verification against the receipts\<close>

record bad_entry =
  be_receipt_hash :: string
  be_why :: string

record exec_check =
  ec_ok :: bool
  ec_count :: nat
  ec_cid_ok :: bool
  ec_receipt_ok :: bool
  ec_bad :: "bad_entry list"

definition by_hash :: "receipt list \<Rightarrow> (string \<rightharpoonup> receipt)" where
  "by_hash receipts = map_of (rev (map (\<lambda>r. (rc_hash r, r)) receipts))"

text \<open>One record's outcome: the flags it clears and the entries it adds to \<open>bad\<close>.\<close>

definition check_record :: "(string \<rightharpoonup> receipt) \<Rightarrow> execution_record \<Rightarrow>
    bool \<times> bool \<times> bad_entry list \<Rightarrow> bool \<times> bool \<times> bad_entry list" where
  "check_record index rec acc =
     (let (cid_ok, receipt_ok, bad) = acc; rh = xr_receipt_hash rec in
      if xr_cid rec \<noteq> receipt_cid rh
      then (False, receipt_ok,
            bad @ [\<lparr>be_receipt_hash = rh, be_why = ''cid != receipt_cid(receipt_hash)''\<rparr>])
      else case index rh of
        None \<Rightarrow> (cid_ok, False, bad @ [\<lparr>be_receipt_hash = rh, be_why = ''receipt not found in chain''\<rparr>])
      | Some src \<Rightarrow>
          if rc_verdict src \<in> {''allow'', ''clamp''} then (cid_ok, receipt_ok, bad)
          else (cid_ok, False, bad @ [\<lparr>be_receipt_hash = rh,
                 be_why = ''receipt verdict is '' @ rc_verdict src @ '', not a trade''\<rparr>]))"

definition verify_executions :: "execution_record list \<Rightarrow> receipt list \<Rightarrow> exec_check" where
  "verify_executions records receipts =
     (let (cid_ok, receipt_ok, bad) = fold (check_record (by_hash receipts)) records (True, True, [])
      in \<lparr>ec_ok = (cid_ok \<and> receipt_ok), ec_count = length records, ec_cid_ok = cid_ok,
          ec_receipt_ok = receipt_ok, ec_bad = bad\<rparr>)"

record live_check =
  lc_committed_policy_hash :: string
  lc_receipts :: nat
  lc_chain_intact :: bool
  lc_all_reference_committed_hash :: bool
  lc_broken_at :: "nat option"
  lc_executions :: nat
  lc_executions_bound :: bool
  lc_executions_bad :: "bad_entry list"

definition verify_live :: "digest_fun \<Rightarrow> json \<Rightarrow> receipt list \<Rightarrow> execution_record list \<Rightarrow> live_check" where
  "verify_live H cfg_json records execs =
     (let expected = policy_hash H cfg_json;
          result = verify_chain H (Some expected) records;
          exec_result = verify_executions execs records
      in \<lparr>lc_committed_policy_hash = expected, lc_receipts = cr_count result,
          lc_chain_intact = cr_ok result,
          lc_all_reference_committed_hash = get_or (cr_policy_ok result) False,
          lc_broken_at = cr_broken_at result, lc_executions = ec_count exec_result,
          lc_executions_bound = ec_ok exec_result, lc_executions_bad = ec_bad exec_result\<rparr>)"

section \<open>What a bound execution is\<close>

definition bound_to :: "receipt list \<Rightarrow> execution_record \<Rightarrow> bool" where
  "bound_to receipts rec =
     (xr_cid rec = receipt_cid (xr_receipt_hash rec) \<and>
      (\<exists>src. by_hash receipts (xr_receipt_hash rec) = Some src \<and> rc_verdict src \<in> {''allow'', ''clamp''}))"

lemma check_record_flags:
  "(case check_record (by_hash receipts) rec (a, b, bad) of (a', b', bad') \<Rightarrow> a' \<and> b') \<longleftrightarrow>
    a \<and> b \<and> bound_to receipts rec"
  by (auto simp: check_record_def bound_to_def Let_def split: option.splits)

lemma fold_check_record:
  "(case fold (check_record (by_hash receipts)) records (a, b, bad) of (a', b', bad') \<Rightarrow> a' \<and> b') \<longleftrightarrow>
    a \<and> b \<and> (\<forall>rec \<in> set records. bound_to receipts rec)"
proof (induction records arbitrary: a b bad)
  case Nil
  then show ?case by simp
next
  case (Cons rec records)
  obtain a' b' bad' where step: "check_record (by_hash receipts) rec (a, b, bad) = (a', b', bad')"
    using prod_cases3 by blast
  then have "a' \<and> b' \<longleftrightarrow> a \<and> b \<and> bound_to receipts rec"
    using check_record_flags [of receipts rec a b bad] by simp
  with Cons.IH [of a' b' bad'] step show ?case by auto
qed

lemma verify_executions_ok:
  "ec_ok (verify_executions records receipts) \<longleftrightarrow> (\<forall>rec \<in> set records. bound_to receipts rec)"
  using fold_check_record [of receipts records True True "[]"]
  by (simp add: verify_executions_def Let_def split: prod.splits)

lemma by_hash_in: "by_hash receipts h = Some r \<Longrightarrow> r \<in> set receipts \<and> rc_hash r = h"
  by (auto simp: by_hash_def dest: map_of_SomeD)

lemma by_hash_distinct:
  assumes "distinct (map rc_hash receipts)" "r \<in> set receipts"
  shows "by_hash receipts (rc_hash r) = Some r"
proof -
  have "distinct (map fst (rev (map (\<lambda>r. (rc_hash r, r)) receipts)))"
    using assms(1) by (simp add: comp_def flip: rev_map)
  then show ?thesis unfolding by_hash_def
    by (rule map_of_is_SomeI) (use assms(2) in auto)
qed

lemma by_hash_snoc [simp]:
  "by_hash (receipts @ [r]) = (by_hash receipts)(rc_hash r \<mapsto> r)"
  by (simp add: by_hash_def)

text \<open>A record written for the newest receipt, when the policy let it through, is bound to it.\<close>

lemma bound_to_new:
  "rc_verdict r \<in> {''allow'', ''clamp''} \<Longrightarrow>
    bound_to (receipts @ [r])
      (new_execution (rc_seq r) (rc_hash r) (receipt_cid (rc_hash r)) ts ex detail err)"
  by (simp add: bound_to_def new_execution_def)

section \<open>Claims\<close>

text \<open>
  C38. The public verifier accepts a set of logs exactly when the receipts form an unbroken chain, every
  receipt carries the committed policy hash, and every logged order carries the order id of a receipt
  that is on the chain and was allowed or clamped.
\<close>

theorem verify_live_sound:
  "lc_chain_intact (verify_live H cfg rs xs) \<and> lc_all_reference_committed_hash (verify_live H cfg rs xs) \<and>
     lc_executions_bound (verify_live H cfg rs xs) \<longleftrightarrow>
   linked H GENESIS rs \<and> (\<forall>r \<in> set rs. rc_policy_hash r = policy_hash H cfg) \<and>
     (\<forall>x \<in> set xs. xr_cid x = receipt_cid (xr_receipt_hash x) \<and>
        (\<exists>r \<in> set rs. rc_hash r = xr_receipt_hash x \<and> by_hash rs (xr_receipt_hash x) = Some r \<and>
          rc_verdict r \<in> {''allow'', ''clamp''}))"
proof (cases "linked H GENESIS rs")
  case True
  have "bound_to rs x \<longleftrightarrow> xr_cid x = receipt_cid (xr_receipt_hash x) \<and>
      (\<exists>r \<in> set rs. rc_hash r = xr_receipt_hash x \<and> by_hash rs (xr_receipt_hash x) = Some r \<and>
        rc_verdict r \<in> {''allow'', ''clamp''})" for x
    using by_hash_in [of rs "xr_receipt_hash x"] by (auto simp: bound_to_def)
  moreover have "get_or (cr_policy_ok (verify_chain H (Some (policy_hash H cfg)) rs)) False
      \<longleftrightarrow> (\<forall>r \<in> set rs. rc_policy_hash r = policy_hash H cfg)"
    using verify_policy [OF True, of "Some (policy_hash H cfg)"] by auto
  ultimately show ?thesis
    using True by (simp add: verify_live_def Let_def verify_ok verify_executions_ok)
next
  case False
  then show ?thesis by (simp add: verify_live_def Let_def verify_ok)
qed

definition ex_receipts :: "receipt list" where
  "ex_receipts = append_receipt ex_digest
     (ex_args\<lparr>ra_policy_hash := policy_hash ex_digest JNull, ra_verdict := ''allow''\<rparr>) []"

definition ex_execution :: execution_record where
  "ex_execution = new_execution 0 (rc_hash (hd ex_receipts)) (receipt_cid (rc_hash (hd ex_receipts)))
     ''t'' True [(''source'', JStr ''injective'')] None"

theorem verify_live_sound_witness:
  "lc_executions_bound (verify_live ex_digest JNull ex_receipts [ex_execution])"
proof -
  have "linked ex_digest GENESIS ex_receipts" by (simp add: ex_receipts_def linked_append_receipt)
  moreover have "\<forall>r \<in> set ex_receipts. rc_policy_hash r = policy_hash ex_digest JNull"
    by (simp add: ex_receipts_def append_receipt_def)
  moreover have "xr_cid ex_execution = receipt_cid (xr_receipt_hash ex_execution)"
    "xr_receipt_hash ex_execution = rc_hash (hd ex_receipts)"
    by (simp_all add: ex_execution_def new_execution_def)
  moreover have "by_hash ex_receipts (rc_hash (hd ex_receipts)) = Some (hd ex_receipts)"
    "hd ex_receipts \<in> set ex_receipts" "rc_verdict (hd ex_receipts) \<in> {''allow'', ''clamp''}"
    by (simp_all add: ex_receipts_def append_receipt_def by_hash_def)
  ultimately show ?thesis
    using verify_live_sound [of ex_digest JNull ex_receipts "[ex_execution]"] by auto
qed

end
