(* ===== verification/Jsonl.thy ===== *)
theory Jsonl
  imports Json_Text Receipts Abstention Execlog
begin

text \<open>
  The logs as files: \<open>receipts.jsonl\<close>, \<open>abstentions.jsonl\<close> and \<open>executions.jsonl\<close> hold one JSON object per line, written
  by \<open>json.dumps\<close> and a newline, read by \<open>str.splitlines\<close>, \<open>str.strip\<close> and \<open>json.loads\<close>. A file is an optional
  text, \<open>None\<close> when it does not exist. The theories of the logs work on lists of records; here the operations on
  the files are shown to implement them, and what a write that is cut short leaves behind is worked out.
\<close>

section \<open>Lines\<close>

text \<open>The line boundaries of \<open>str.splitlines\<close> among 8-bit characters; \<open>\r\n\<close> is one boundary.\<close>

definition is_eol :: "char \<Rightarrow> bool" where
  "is_eol c = (let n = (of_char c :: nat) in 10 \<le> n \<and> n \<le> 13 \<or> 28 \<le> n \<and> n \<le> 30 \<or> n = 133)"

definition drop_eol :: "string \<Rightarrow> string" where
  "drop_eol s = (case s of [] \<Rightarrow> [] | c # t \<Rightarrow>
     if c = CHR 0x0D \<and> take 1 t = [CHR 0x0A] then drop 1 t else t)"

lemma drop_eol_shorter: "s \<noteq> [] \<Longrightarrow> length (drop_eol s) < length s"
  by (cases s) (auto simp: drop_eol_def)

function splitlines :: "string \<Rightarrow> string list" where
  "splitlines s =
     (if s = [] then []
      else takeWhile (\<lambda>c. \<not> is_eol c) s # splitlines (drop_eol (dropWhile (\<lambda>c. \<not> is_eol c) s)))"
  by pat_completeness auto
termination
proof (relation "measure length")
  fix s :: string
  assume s: "s \<noteq> []"
  show "(drop_eol (dropWhile (\<lambda>c. \<not> is_eol c) s), s) \<in> measure length"
  proof (cases "dropWhile (\<lambda>c. \<not> is_eol c) s = []")
    case True
    from s show ?thesis unfolding True by (simp add: drop_eol_def)
  next
    case False
    from drop_eol_shorter [OF this] length_dropWhile_le [of "\<lambda>c. \<not> is_eol c" s] show ?thesis by simp
  qed
qed simp

declare splitlines.simps [simp del]

definition file_text :: "string option \<Rightarrow> string" where
  "file_text f = (case f of None \<Rightarrow> [] | Some t \<Rightarrow> t)"

text \<open>\<open>json.loads\<close>, which raises a \<open>ValueError\<close>.\<close>

definition py_loads :: "string \<Rightarrow> py_error + json" where
  "py_loads s = (case loads s of None \<Rightarrow> Inl (ValueError ''JSON'') | Some j \<Rightarrow> Inr j)"

fun loads_all :: "string list \<Rightarrow> py_error + json list" where
  "loads_all [] = Inr []"
| "loads_all (l # ls) = and_then (py_loads l) (\<lambda>j. and_then (loads_all ls) (\<lambda>js. Inr (j # js)))"

text \<open>\<open>read_all\<close> and \<open>_all\<close>: every line that is not blank.\<close>

definition read_jsonl :: "string option \<Rightarrow> py_error + json list" where
  "read_jsonl f = loads_all (filter (\<lambda>l. py_strip l \<noteq> []) (splitlines (file_text f)))"

text \<open>\<open>open("a")\<close> and \<open>write\<close>.\<close>

definition append_text :: "string option \<Rightarrow> string \<Rightarrow> string option" where
  "append_text f s = Some (file_text f @ s)"

definition jsonl_line :: "json \<Rightarrow> string" where
  "jsonl_line j = dumps_line j @ newline"

definition jsonl_text :: "json list \<Rightarrow> string" where
  "jsonl_text js = concat (map jsonl_line js)"

text \<open>\<open>j[k]\<close>, and the values that the chain computes with. A sequence number that is a float is not modelled: no
  receipt has one.\<close>

definition py_index :: "json \<Rightarrow> string \<Rightarrow> py_error + json" where
  "py_index j k = (case j of JObj kvs \<Rightarrow> (case map_of kvs k of None \<Rightarrow> Inl (KeyError k) | Some v \<Rightarrow> Inr v)
     | _ \<Rightarrow> Inl (TypeError k))"

definition as_int :: "json \<Rightarrow> py_error + int" where
  "as_int j = (case j of JInt i \<Rightarrow> Inr i | JBool b \<Rightarrow> Inr (if b then 1 else 0) | _ \<Rightarrow> Inl (TypeError ''seq''))"

definition as_str :: "json \<Rightarrow> py_error + string" where
  "as_str j = (case j of JStr s \<Rightarrow> Inr s | _ \<Rightarrow> Inl (AttributeError ''encode''))"

section \<open>The receipt file\<close>

definition receipt_dict :: "receipt \<Rightarrow> json" where
  "receipt_dict r = JObj
     [(''seq'', JInt (rc_seq r)), (''ts'', JStr (rc_ts r)), (''policy_hash'', JStr (rc_policy_hash r)),
      (''kind'', JStr (rc_kind r)), (''decision'', rc_decision r), (''verdict'', JStr (rc_verdict r)),
      (''reason'', JStr (rc_reason r)), (''inputs_digest'', JStr (rc_inputs_digest r)),
      (''prev_hash'', JStr (rc_prev_hash r)), (''hash'', JStr (rc_hash r))]"

text \<open>\<open>_last\<close>: the last value read, \<open>None\<close> at first (and for a line \<open>null\<close>).\<close>

fun last_loaded :: "json \<Rightarrow> string list \<Rightarrow> py_error + json" where
  "last_loaded acc [] = Inr acc"
| "last_loaded acc (l # ls) =
     (if py_strip l = [] then last_loaded acc ls
      else and_then (py_loads (py_strip l)) (\<lambda>j. last_loaded j ls))"

definition chain_last :: "string option \<Rightarrow> py_error + json" where
  "chain_last f = (case f of None \<Rightarrow> Inr JNull | Some t \<Rightarrow> last_loaded JNull (splitlines t))"

definition chain_head :: "string option \<Rightarrow> py_error + int \<times> string" where
  "chain_head f =
     and_then (chain_last f) (\<lambda>last_rec.
       if last_rec = JNull then Inr (0, GENESIS)
       else and_then (py_index last_rec ''seq'') (\<lambda>s.
         and_then (as_int s) (\<lambda>n.
         and_then (py_index last_rec ''hash'') (\<lambda>h.
         and_then (as_str h) (\<lambda>prev. Inr (n + 1, prev))))))"

definition receipt_at :: "digest_fun \<Rightarrow> receipt_args \<Rightarrow> int \<times> string \<Rightarrow> receipt" where
  "receipt_at H a = (\<lambda>(seq, prev).
     let r = \<lparr>rc_seq = seq, rc_ts = ra_ts a, rc_policy_hash = ra_policy_hash a, rc_kind = ra_kind a,
              rc_decision = ra_decision a, rc_verdict = ra_verdict a, rc_reason = ra_reason a,
              rc_inputs_digest = ra_inputs_digest a, rc_prev_hash = prev, rc_hash = []\<rparr>
     in r\<lparr>rc_hash := compute_hash H r\<rparr>)"

definition chain_append :: "digest_fun \<Rightarrow> receipt_args \<Rightarrow> string option \<Rightarrow>
    py_error + receipt \<times> string option" where
  "chain_append H a f =
     and_then (chain_head f) (\<lambda>h.
       let r = receipt_at H a h in Inr (r, append_text f (jsonl_line (receipt_dict r))))"

section \<open>The other files\<close>

definition abstention_dict :: "abstention \<Rightarrow> json" where
  "abstention_dict r = JObj
     [(''seq'', JInt (ab_seq r)), (''ts'', JFloat (ab_ts r)), (''symbol'', JStr (ab_symbol r)),
      (''reason'', JStr (ab_reason r)), (''side'', JStr (ab_side r)), (''ref_price'', JFloat (ab_ref_price r)),
      (''size_usd'', JFloat (ab_size_usd r)), (''marked'', JBool (ab_marked r)),
      (''mark_ts'', opt_float (ab_mark_ts r)), (''mark_price'', opt_float (ab_mark_price r)),
      (''hypothetical_pnl_usd'', opt_float (ab_hypothetical_pnl_usd r))]"

text \<open>\<open>record\<close> reads the whole file for the sequence number and appends a line; \<open>_write\<close> replaces the text.\<close>

definition abstention_append :: "abstention_args \<Rightarrow> string option \<Rightarrow> py_error + abstention \<times> string option" where
  "abstention_append a f =
     and_then (read_jsonl f) (\<lambda>records.
     and_then (if records = [] then Inr 0
               else and_then (py_index (last records) ''seq'') (\<lambda>s. and_then (as_int s) (\<lambda>n. Inr (n + 1)))) (\<lambda>seq.
       let r = (new_abstention a [])\<lparr>ab_seq := seq\<rparr>
       in Inr (r, append_text f (jsonl_line (abstention_dict r)))))"

definition abstention_write :: "json list \<Rightarrow> string option" where
  "abstention_write records = Some (jsonl_text records)"

definition opt_text :: "string option \<Rightarrow> json" where
  "opt_text x = (case x of None \<Rightarrow> JNull | Some v \<Rightarrow> JStr v)"

definition execution_dict :: "execution_record \<Rightarrow> json" where
  "execution_dict r = JObj
     [(''receipt_seq'', JInt (xr_receipt_seq r)), (''receipt_hash'', JStr (xr_receipt_hash r)),
      (''cid'', JStr (xr_cid r)), (''ts'', JStr (xr_ts r)), (''executed'', JBool (xr_executed r)),
      (''source'', xr_source r), (''market'', xr_market r), (''order_type'', xr_order_type r),
      (''tx'', xr_tx r), (''order_hash'', xr_order_hash r), (''ref_price'', xr_ref_price r),
      (''quantity_base'', xr_quantity_base r), (''amount_usd'', xr_amount_usd r),
      (''error'', opt_text (xr_error r))]"

definition execution_append :: "execution_record \<Rightarrow> string option \<Rightarrow> string option" where
  "execution_append rec f = append_text f (jsonl_line (execution_dict rec))"

section \<open>The committed configuration\<close>

definition load_config :: "string \<Rightarrow> py_error + json" where
  "load_config t = py_loads t"

definition committed_policy_hash :: "digest_fun \<Rightarrow> string \<Rightarrow> py_error + string" where
  "committed_policy_hash H t = and_then (load_config t) (\<lambda>cfg. Inr (policy_hash H cfg))"

section \<open>Printed lines\<close>

text \<open>A printed value has only printable ASCII characters.\<close>

definition plain :: "char \<Rightarrow> bool" where
  "plain c = (32 \<le> (of_char c :: nat) \<and> (of_char c :: nat) \<le> 126)"

lemma plain_no_eol: "plain c \<Longrightarrow> \<not> is_eol c"
  by (auto simp: plain_def is_eol_def Let_def)

lemma num_char_plain: "num_char c \<Longrightarrow> plain c"
  by (auto simp: num_char_def plain_def is_digit_def)

lemma hex_char_plain: "d < 16 \<Longrightarrow> plain (hex_char d)"
  by (simp add: plain_def hex_char_def)

lemma esc_char_plain: "list_all plain (esc_char c)"
proof -
  have "(of_char c :: nat) < 256" by simp
  then have "(of_char c :: nat) div 16 < 16" by (simp add: less_mult_imp_div_less)
  moreover have "list_all plain [CHR 0x5C, CHR 0x22, CHR ''n'', CHR ''r'', CHR ''t'', CHR ''b'', CHR ''f'', CHR ''u'', CHR ''0'']"
    by code_simp
  ultimately show ?thesis by (simp add: esc_char_def Let_def hex_char_plain) (simp add: plain_def)
qed

lemma quote_plain: "list_all plain (json_quote s)"
proof -
  have "plain CHR 0x22" by code_simp
  with esc_char_plain show ?thesis by (auto simp: json_quote_def list_all_iff)
qed

lemma join_plain: "list_all plain sep \<Longrightarrow> list_all (list_all plain) xs \<Longrightarrow> list_all plain (join sep xs)"
  by (induction sep xs rule: join.induct) simp_all

lemma plain_brackets [simp]: "plain CHR ''['' " "plain CHR '']''" "plain CHR ''{''" "plain CHR ''}''" "plain CHR '':''" "plain CHR '' ''" "plain CHR '',''"
  by code_simp+

lemma print_plain: "list_all plain (print_json '', '' '': '' j)"
proof (induction j)
  case JNull
  show ?case by code_simp
next
  case (JBool b)
  have "list_all plain ''true''" "list_all plain ''false''" by code_simp+
  then show ?case by simp
next
  case (JInt i)
  then show ?case using show_int_num [of i] num_char_plain by (auto simp: list_all_iff)
next
  case (JFloat x)
  then show ?case using repr_f_num [of x] num_char_plain by (auto simp: list_all_iff)
next
  case (JStr s)
  then show ?case using quote_plain [of s] by (simp only: print_json.simps)
next
  case (JList xs)
  then have "list_all (list_all plain) (map (print_json '', '' '': '') xs)" by (simp add: list_all_iff)
  from join_plain [OF _ this, of "'', ''"] show ?case by simp
next
  case (JObj kvs)
  have "list_all (list_all plain) (map (\<lambda>(k, v). json_quote k @ '': '' @ print_json '', '' '': '' v) kvs)"
    using JObj quote_plain by (auto simp: list_all_iff)
  from join_plain [OF _ this, of "'', ''"] show ?case by simp
qed

text \<open>The objects that the logs write.\<close>

definition log_object :: "json \<Rightarrow> bool" where
  "log_object j = (printable j \<and> (\<exists>kvs. j = JObj kvs))"

lemma log_object_JObj [simp]: "log_object (JObj kvs) \<longleftrightarrow> printable (JObj kvs)"
  by (simp add: log_object_def)

lemma log_object_print: "log_object j \<Longrightarrow> \<exists>m. dumps_line j = CHR ''{'' # m @ ''}''"
  by (auto simp: log_object_def dumps_line_def)

lemma dumps_line_plain: "list_all plain (dumps_line j)"
  by (simp only: dumps_line_def print_plain)

lemma eol_newline [simp]: "is_eol CHR 0x0A"
  by code_simp

lemma takeWhile_plain:
  assumes "list_all plain l"
  shows "takeWhile (\<lambda>c. \<not> is_eol c) (l @ r) = l @ takeWhile (\<lambda>c. \<not> is_eol c) r"
    "dropWhile (\<lambda>c. \<not> is_eol c) (l @ r) = dropWhile (\<lambda>c. \<not> is_eol c) r"
  using assms plain_no_eol by (auto simp: list_all_iff takeWhile_append dropWhile_append)

lemma splitlines_line: "list_all plain l \<Longrightarrow> splitlines (l @ newline @ t) = l # splitlines t"
  unfolding splitlines.simps [of "l @ newline @ t"] takeWhile_plain
  by (simp add: newline_def drop_eol_def)

lemma splitlines_last:
  assumes "list_all plain l"
  shows "splitlines l = (if l = [] then [] else [l])"
proof -
  have l: "takeWhile (\<lambda>c. \<not> is_eol c) l = l" "dropWhile (\<lambda>c. \<not> is_eol c) l = []"
    using takeWhile_plain [OF assms, of "[]"] by simp_all
  have "splitlines (drop_eol []) = []" by (simp add: drop_eol_def splitlines.simps [of "[]"])
  then show ?thesis unfolding splitlines.simps [of l] l by (simp only:)
qed

lemma splitlines_jsonl: "splitlines (jsonl_text js @ q) = map dumps_line js @ splitlines q"
proof (induction js)
  case (Cons j js)
  then show ?case using splitlines_line [OF dumps_line_plain] by (simp add: jsonl_text_def jsonl_line_def)
qed (simp add: jsonl_text_def)

lemma strip_start:
  assumes "\<not> is_space c"
  shows "\<exists>t'. py_strip (c # t) = c # t' \<and> prefix (c # t') (c # t)"
proof -
  let ?w = "dropWhile is_space (rev (c # t))"
  have u: "takeWhile is_space (rev (c # t)) @ ?w = rev (c # t)" by (rule takeWhile_dropWhile_id)
  have "c \<in> set (rev (c # t))" by simp
  with assms have w: "?w \<noteq> []" unfolding dropWhile_eq_Nil_conv by blast
  from u have "rev (takeWhile is_space (rev (c # t)) @ ?w) = rev (rev (c # t))" by (rule arg_cong)
  then have ct: "rev ?w @ rev (takeWhile is_space (rev (c # t))) = c # t" unfolding rev_append rev_rev_ident .
  with w obtain t' where t': "rev ?w = c # t'" by (cases "rev ?w") auto
  have "dropWhile is_space (c # t) = c # t" using assms by simp
  then have "py_strip (c # t) = c # t'" unfolding py_strip_def by (simp only: t')
  moreover have "prefix (c # t') (c # t)" using ct unfolding t' by (metis prefixI)
  ultimately show ?thesis by blast
qed

lemma brace_no_space [simp]: "\<not> is_space CHR ''{''" "\<not> is_space CHR ''}''"
  by code_simp+

lemma strip_object: "log_object j \<Longrightarrow> py_strip (dumps_line j) = dumps_line j"
proof -
  assume "log_object j"
  then obtain m where "dumps_line j = CHR ''{'' # m @ ''}''" using log_object_print by blast
  then show ?thesis by (simp add: py_strip_def)
qed

lemma py_loads_object: "log_object j \<Longrightarrow> py_loads (dumps_line j) = Inr j"
  by (auto simp: log_object_def py_loads_def dumps_line_def loads_print)

lemma object_line_nonempty: "log_object j \<Longrightarrow> dumps_line j \<noteq> []"
  using log_object_print by fastforce

section \<open>Reading what was written\<close>

lemma loads_all_append:
  "loads_all (xs @ ys) = and_then (loads_all xs) (\<lambda>a. and_then (loads_all ys) (\<lambda>b. Inr (a @ b)))"
proof (induction xs)
  case Nil
  show ?case by (cases "loads_all ys") simp_all
next
  case (Cons x xs)
  show ?case
    by (cases "py_loads x"; cases "loads_all xs"; cases "loads_all ys") (simp_all add: Cons)
qed

lemma loads_all_objects: "list_all log_object js \<Longrightarrow> loads_all (map dumps_line js) = Inr js"
  by (induction js) (simp_all add: py_loads_object)

lemma filter_objects:
  "list_all log_object js \<Longrightarrow> filter (\<lambda>l. py_strip l \<noteq> []) (map dumps_line js) = map dumps_line js"
  by (auto simp: list_all_iff strip_object object_line_nonempty)

lemma read_after:
  "list_all log_object js \<Longrightarrow> read_jsonl (Some (jsonl_text js @ q)) =
    and_then (read_jsonl (Some q)) (\<lambda>b. Inr (js @ b))"
  by (simp add: read_jsonl_def file_text_def splitlines_jsonl filter_objects loads_all_append loads_all_objects)

lemma read_empty [simp]: "read_jsonl (Some []) = Inr []" "read_jsonl None = Inr []"
  by (simp_all add: read_jsonl_def file_text_def splitlines.simps [of "[]"])

lemma read_back: "list_all log_object js \<Longrightarrow> read_jsonl (Some (jsonl_text js)) = Inr js"
  using read_after [of js "[]"] by simp

lemma read_one: "list_all plain l \<Longrightarrow> l \<noteq> [] \<Longrightarrow> py_strip l \<noteq> [] \<Longrightarrow>
    read_jsonl (Some l) = and_then (py_loads l) (\<lambda>j. Inr [j])"
  by (cases "py_loads l") (simp_all add: read_jsonl_def file_text_def splitlines_last)

text \<open>The last value of a file of objects, and what comes after it.\<close>

lemma last_after:
  "list_all log_object js \<Longrightarrow>
    last_loaded acc (map dumps_line js @ ls) = last_loaded (if js = [] then acc else last js) ls"
  by (induction js arbitrary: acc) (simp_all add: strip_object object_line_nonempty py_loads_object)

lemma chain_last_after:
  "list_all log_object js \<Longrightarrow> chain_last (Some (jsonl_text js @ q)) =
    last_loaded (if js = [] then JNull else last js) (splitlines q)"
  by (simp add: chain_last_def splitlines_jsonl last_after)

section \<open>Torn and glued lines\<close>

definition proper_start :: "string \<Rightarrow> string \<Rightarrow> bool" where
  "proper_start p l = (p \<noteq> [] \<and> strict_prefix p l)"

lemma torn_line:
  assumes "log_object j" "proper_start p (dumps_line j)"
  shows "py_strip p \<noteq> []" "py_loads p = Inl (ValueError ''JSON'')" "py_loads (py_strip p) = Inl (ValueError ''JSON'')"
    "list_all plain p"
proof -
  obtain kvs where j: "j = JObj kvs" "printable (JObj kvs)" using assms(1) by (auto simp: log_object_def)
  have torn: "py_loads q = Inl (ValueError ''JSON'')" if "prefix q p" for q
  proof -
    have "strict_prefix q (dumps_line j)" using that assms(2) by (auto simp: proper_start_def)
    then obtain x where "dumps_line j = q @ x" "x \<noteq> []" by (auto simp: strict_prefix_def prefix_def)
    then have "loads q = None"
      using loads_torn [OF separators_used(2) j(2), of q x] by (simp add: dumps_line_def j(1))
    then show ?thesis by (simp add: py_loads_def)
  qed
  obtain m where "dumps_line j = CHR ''{'' # m @ ''}''" using log_object_print [OF assms(1)] by blast
  with assms(2) obtain t where p: "p = CHR ''{'' # t"
    by (cases p) (auto simp: proper_start_def strict_prefix_def)
  then obtain t' where "py_strip p = CHR ''{'' # t'" "prefix (CHR ''{'' # t') p"
    using strip_start [OF brace_no_space(1)] by metis
  then show "py_strip p \<noteq> []" "py_loads (py_strip p) = Inl (ValueError ''JSON'')" using torn by simp_all
  show "py_loads p = Inl (ValueError ''JSON'')" using torn by simp
  show "list_all plain p"
    using assms(2) dumps_line_plain [of j] by (auto simp: proper_start_def strict_prefix_def prefix_def)
qed

lemma read_torn:
  assumes "list_all log_object js" "log_object j" "proper_start p (dumps_line j)"
  shows "read_jsonl (Some (jsonl_text js @ p)) = Inl (ValueError ''JSON'')"
    "chain_last (Some (jsonl_text js @ p)) = Inl (ValueError ''JSON'')"
proof -
  have p: "p \<noteq> []" using assms(3) by (simp add: proper_start_def)
  note t = torn_line [OF assms(2,3)]
  show "read_jsonl (Some (jsonl_text js @ p)) = Inl (ValueError ''JSON'')"
    using read_one [OF t(4) p t(1)] t(2) by (simp add: read_after [OF assms(1)])
  show "chain_last (Some (jsonl_text js @ p)) = Inl (ValueError ''JSON'')"
    using p t by (simp add: chain_last_after [OF assms(1)] splitlines_last)
qed

lemma loads_glued_objects:
  assumes "log_object i" "log_object j"
  shows "py_loads (dumps_line i @ dumps_line j) = Inl (ValueError ''JSON'')"
proof -
  obtain m where m: "dumps_line j = CHR ''{'' # m @ ''}''" using log_object_print [OF assms(2)] by blast
  have "\<not> json_ws CHR ''{''" by code_simp
  then have "skip_ws (dumps_line j) \<noteq> []" by (simp add: m)
  moreover have "\<not> is_num i" using assms(1) by (auto simp: log_object_def is_num_def)
  ultimately have "loads (dumps_line i @ dumps_line j) = None"
    using loads_glued [OF separators_used(2), of i] assms(1) by (simp add: log_object_def dumps_line_def)
  then show ?thesis by (simp add: py_loads_def)
qed

lemma read_glued:
  assumes "list_all log_object js" "log_object i" "log_object j"
  shows "read_jsonl (Some (jsonl_text js @ dumps_line i @ jsonl_line j)) = Inl (ValueError ''JSON'')"
    "chain_last (Some (jsonl_text js @ dumps_line i @ jsonl_line j)) = Inl (ValueError ''JSON'')"
proof -
  let ?l = "dumps_line i @ dumps_line j"
  have l: "list_all plain ?l" using dumps_line_plain by simp
  have s: "splitlines (dumps_line i @ jsonl_line j) = [?l]"
    using splitlines_line [OF l, of "[]"] splitlines.simps [of "[]"] by (simp add: jsonl_line_def)
  obtain m n where "dumps_line i = CHR ''{'' # m @ ''}''" "dumps_line j = CHR ''{'' # n @ ''}''"
    using log_object_print assms(2,3) by metis
  then have strip: "py_strip ?l = ?l" "?l \<noteq> []" by (simp_all add: py_strip_def)
  note g = loads_glued_objects [OF assms(2,3)]
  show "read_jsonl (Some (jsonl_text js @ dumps_line i @ jsonl_line j)) = Inl (ValueError ''JSON'')"
    unfolding read_after [OF assms(1)] by (simp add: read_jsonl_def file_text_def s strip g object_line_nonempty [OF assms(2)])
  show "chain_last (Some (jsonl_text js @ dumps_line i @ jsonl_line j)) = Inl (ValueError ''JSON'')"
    unfolding chain_last_after [OF assms(1)] s by (simp add: strip g object_line_nonempty [OF assms(2)])
qed

text \<open>A write that is cut short keeps some of the lines, or leaves a text that no longer reads.\<close>

lemma strict_prefix_line:
  assumes "prefix p (l @ newline @ rest)"
  shows "p = [] \<or> proper_start p l \<or> p = l \<or> (\<exists>q. p = l @ newline @ q \<and> prefix q rest)"
proof (cases "prefix p l")
  case True
  then show ?thesis by (auto simp: proper_start_def strict_prefix_def)
next
  case False
  with assms obtain w where w: "p = l @ w" "prefix w (newline @ rest)" by (auto simp: prefix_append)
  then show ?thesis by (cases w) (auto simp: newline_def)
qed

lemma cut_file:
  assumes "list_all log_object js" "prefix p (jsonl_text js)"
  shows "read_jsonl (Some p) = Inl (ValueError ''JSON'') \<or>
    (\<exists>k \<le> length js. read_jsonl (Some p) = Inr (take k js) \<and> length (jsonl_text (take k js)) \<le> length p + 1)"
  using assms
proof (induction js arbitrary: p)
  case Nil
  then show ?case by (simp add: jsonl_text_def)
next
  case (Cons j js)
  then have j: "log_object j" and js: "list_all log_object js" by simp_all
  have "prefix p (dumps_line j @ newline @ jsonl_text js)"
    using Cons.prems(2) by (simp add: jsonl_text_def jsonl_line_def)
  from strict_prefix_line [OF this] consider (empty) "p = []" | (torn) "proper_start p (dumps_line j)"
    | (line) "p = dumps_line j" | (more) q where "p = dumps_line j @ newline @ q" "prefix q (jsonl_text js)" by blast
  then show ?case
  proof cases
    case empty
    then show ?thesis by (intro disjI2 exI [of _ 0]) (simp add: jsonl_text_def)
  next
    case torn
    from read_torn(1) [of "[]", OF _ j this] show ?thesis by (simp add: jsonl_text_def)
  next
    case line
    have "read_jsonl (Some p) = Inr (take 1 (j # js))"
      using read_one [OF dumps_line_plain object_line_nonempty [OF j]] j
      by (simp add: line strip_object object_line_nonempty py_loads_object)
    then show ?thesis
      by (intro disjI2 exI [of _ 1]) (simp add: line jsonl_text_def jsonl_line_def newline_def)
  next
    case more
    have p: "p = jsonl_text [j] @ q" using more(1) by (simp add: jsonl_text_def jsonl_line_def)
    have r: "read_jsonl (Some p) = and_then (read_jsonl (Some q)) (\<lambda>b. Inr (j # b))"
      using read_after [of "[j]" q] j by (simp add: p)
    from Cons.IH [OF js more(2)] show ?thesis
    proof
      assume "read_jsonl (Some q) = Inl (ValueError ''JSON'')"
      with r show ?thesis by simp
    next
      assume "\<exists>k \<le> length js. read_jsonl (Some q) = Inr (take k js) \<and> length (jsonl_text (take k js)) \<le> length q + 1"
      then obtain k where "k \<le> length js" "read_jsonl (Some q) = Inr (take k js)"
        "length (jsonl_text (take k js)) \<le> length q + 1" by blast
      with r show ?thesis by (intro disjI2 exI [of _ "Suc k"]) (simp add: p jsonl_text_def)
    qed
  qed
qed

section \<open>A log of records\<close>

text \<open>The contract between a log and its file: a record that may be written is an object, which determines it.\<close>

locale jsonl_log =
  fixes enc :: "'a \<Rightarrow> json" and ok :: "'a \<Rightarrow> bool"
  assumes enc_object: "ok r \<Longrightarrow> log_object (enc r)" and enc_inj: "enc r = enc s \<Longrightarrow> r = s"
begin

lemma objects: "list_all ok rs \<Longrightarrow> list_all log_object (map enc rs)"
  by (auto simp: list_all_iff enc_object)

lemma read_records: "list_all ok rs \<Longrightarrow> read_jsonl (Some (jsonl_text (map enc rs))) = Inr (map enc rs)"
  by (rule read_back [OF objects])

lemma file_inj:
  assumes "list_all ok rs" "list_all ok ss" "jsonl_text (map enc rs) = jsonl_text (map enc ss)"
  shows "rs = ss"
proof -
  have "Inr (map enc rs) = read_jsonl (Some (jsonl_text (map enc ss)))"
    unfolding assms(3) [symmetric] by (rule read_records [OF assms(1), symmetric])
  also have "\<dots> = Inr (map enc ss)" by (rule read_records [OF assms(2)])
  finally have "map enc rs = map enc ss" by (rule sum.inject(2) [THEN iffD1])
  then show ?thesis by (rule map_injective) (blast intro: injI enc_inj)
qed

lemma append_record: "append_text (Some (jsonl_text (map enc rs))) (jsonl_line (enc r)) = Some (jsonl_text (map enc (rs @ [r])))"
  by (simp add: append_text_def file_text_def jsonl_text_def)

lemma cut_records:
  assumes "list_all ok rs" "prefix p (jsonl_text (map enc rs))" "read_jsonl (Some p) = Inr js"
  shows "\<exists>k \<le> length rs. js = map enc (take k rs) \<and> length (jsonl_text (map enc (take k rs))) \<le> length p + 1"
  using cut_file [OF objects [OF assms(1)] assms(2)] assms(3) by (auto simp: take_map)

end

lemma log_object_simps [simp]:
  "log_object (receipt_dict r) = printable (rc_decision r)"
  by (simp add: receipt_dict_def)

lemma opt_inj [simp]: "opt_float x = opt_float y \<longleftrightarrow> x = y" "opt_text s = opt_text t \<longleftrightarrow> s = t"
  by (simp_all add: opt_float_def opt_text_def split: option.splits)

lemma printable_opt_text [simp]: "printable (opt_text s)"
  by (simp add: opt_text_def split: option.split)

definition exact_abstention :: "abstention \<Rightarrow> bool" where
  "exact_abstention r =
     (repr_exact (ab_ts r) \<and> repr_exact (ab_ref_price r) \<and> repr_exact (ab_size_usd r) \<and>
      printable (opt_float (ab_mark_ts r)) \<and> printable (opt_float (ab_mark_price r)) \<and>
      printable (opt_float (ab_hypothetical_pnl_usd r)))"

definition printable_execution :: "execution_record \<Rightarrow> bool" where
  "printable_execution r =
     list_all printable [xr_source r, xr_market r, xr_order_type r, xr_tx r, xr_order_hash r, xr_ref_price r,
       xr_quantity_base r, xr_amount_usd r]"

interpretation receipt_file: jsonl_log receipt_dict "\<lambda>r. printable (rc_decision r)"
proof unfold_locales
  show "r = s" if "receipt_dict r = receipt_dict s" for r s
    using that unfolding receipt_dict_def by (cases r; cases s) (simp only: receipt.simps json.inject list.inject prod.inject simp_thms)
qed simp

interpretation abstention_file: jsonl_log abstention_dict exact_abstention
proof unfold_locales
  show "r = s" if "abstention_dict r = abstention_dict s" for r s
    using that unfolding abstention_dict_def by (cases r; cases s) (simp only: abstention.simps json.inject list.inject prod.inject opt_inj simp_thms)
  show "log_object (abstention_dict r)" if "exact_abstention r" for r
    using that by (simp add: abstention_dict_def exact_abstention_def)
qed

interpretation execution_file: jsonl_log execution_dict printable_execution
proof unfold_locales
  show "r = s" if "execution_dict r = execution_dict s" for r s
    using that unfolding execution_dict_def by (cases r; cases s) (simp only: execution_record.simps json.inject list.inject prod.inject opt_inj simp_thms)
  show "log_object (execution_dict r)" if "printable_execution r" for r
    using that by (simp add: execution_dict_def printable_execution_def)
qed

section \<open>The chain on its file\<close>

abbreviation receipt_text :: "receipt list \<Rightarrow> string" where
  "receipt_text rs \<equiv> jsonl_text (map receipt_dict rs)"

lemma new_receipt_at: "new_receipt H a rs = receipt_at H a (head_of rs)"
  by (simp add: new_receipt_def receipt_at_def)

lemma chain_head_file:
  assumes "list_all (\<lambda>r. printable (rc_decision r)) rs"
  shows "chain_head (Some (receipt_text rs)) = Inr (head_of rs)"
proof (cases rs rule: rev_cases)
  case Nil
  then show ?thesis by (simp add: chain_head_def chain_last_def jsonl_text_def head_of_def splitlines.simps [of "[]"])
next
  case (snoc ss r)
  have "chain_last (Some (receipt_text rs @ [])) = last_loaded (receipt_dict r) []"
    unfolding chain_last_after [OF receipt_file.objects [OF assms]] by (simp add: snoc splitlines.simps [of "[]"])
  then show ?thesis by (simp add: chain_head_def snoc head_of_def receipt_dict_def py_index_def as_int_def as_str_def)
qed

lemma chain_append_file:
  assumes "list_all (\<lambda>r. printable (rc_decision r)) rs"
  shows "chain_append H a (Some (receipt_text rs)) =
    Inr (new_receipt H a rs, Some (receipt_text (append_receipt H a rs)))"
  by (simp add: chain_append_def chain_head_file [OF assms] receipt_file.append_record append_receipt_def
      new_receipt_at Let_def)

lemma chain_append_torn: "chain_last f = Inl e \<Longrightarrow> chain_append H a f = Inl e"
  by (simp add: chain_append_def chain_head_def)

lemma abstention_append_file:
  assumes "list_all exact_abstention l"
  shows "abstention_append a (Some (jsonl_text (map abstention_dict l))) =
    Inr (new_abstention a l, Some (jsonl_text (map abstention_dict (record_abstention a l))))"
proof -
  have seq: "(if map abstention_dict l = [] then Inr 0
      else and_then (py_index (last (map abstention_dict l)) ''seq'') (\<lambda>s. and_then (as_int s) (\<lambda>n. Inr (n + 1)))) =
    Inr (ab_seq (new_abstention a l))"
    by (simp add: last_map new_abstention_def abstention_dict_def py_index_def as_int_def)
  have "(new_abstention a [])\<lparr>ab_seq := ab_seq (new_abstention a l)\<rparr> = new_abstention a l"
    by (simp add: new_abstention_def)
  then show ?thesis
    unfolding abstention_append_def abstention_file.read_records [OF assms] and_then_simps seq
    by (simp add: Let_def abstention_file.append_record record_abstention_def)
qed

lemma execution_append_file:
  "execution_append (new_execution seq rh cid ts ex detail err) (Some (jsonl_text (map execution_dict xs))) =
    Some (jsonl_text (map execution_dict (record_execution seq rh cid ts ex detail err xs)))"
  by (simp add: execution_append_def execution_file.append_record record_execution_def)

section \<open>Canonical texts\<close>

lemma unique_keys_strip: "unique_keys j \<Longrightarrow> unique_keys (strip_comments j)"
proof (induction j rule: strip_comments.induct)
  case (1 kvs)
  have "distinct (map fst (filter (\<lambda>(k, v). \<not> annotation_key k) kvs))"
    using "1.prems" by (intro distinct_map_filter) simp
  with 1 show ?case by (auto simp: list_all_iff comp_def case_prod_beta)
qed (auto simp: list_all_iff)

lemma unique_keys_sort: "unique_keys j \<Longrightarrow> unique_keys (sort_keys j)"
proof (induction j rule: sort_keys.induct)
  case (1 kvs)
  then have "distinct (map fst (sort_key fst kvs))" by (simp add: distinct_map)
  with 1 show ?case by (auto simp: list_all_iff comp_def case_prod_beta)
qed (auto simp: list_all_iff)

lemma annotation_free_sort: "annotation_free j \<Longrightarrow> annotation_free (sort_keys j)"
  by (induction j rule: sort_keys.induct) (auto simp: list_all_iff)

lemma sort_keys_idem: "sort_keys (sort_keys j) = sort_keys j"
proof (induction j rule: sort_keys.induct)
  case (1 kvs)
  have "sort_key fst (map (\<lambda>(k, v). (k, sort_keys v)) (sort_key fst kvs)) =
      map (\<lambda>(k, v). (k, sort_keys v)) (sort_key fst kvs)"
    by (rule sort_key_id_if_sorted) (simp add: comp_def case_prod_beta)
  with 1 show ?case by auto
qed auto

lemma canonical_fixed: "sort_keys (strip_comments (sort_keys (strip_comments j))) = sort_keys (strip_comments j)"
  by (simp add: strip_comments_id [OF annotation_free_sort [OF strip_comments_annotation_free]] sort_keys_idem)

lemma loads_canonical: "printable j \<Longrightarrow> loads (canonical_bytes j) = Some (sort_keys (strip_comments j))"
  unfolding canonical_bytes_def dumps_print
  by (rule loads_print) (simp_all add: printable_def json_exact_strip json_exact_sort unique_keys_strip unique_keys_sort)

section \<open>Claims\<close>

text \<open>
  C36. The receipt chain's file operations implement the chain of records that the other theories reason about: on
  the file of a chain, or on a missing file, appending returns the receipt that the record-level operation
  makes, and leaves the file of the extended chain; reading it back gives exactly the chain's dictionaries, and
  two chains have the same file only if they are the same chain.
\<close>

theorem receipt_file_refines:
  assumes "list_all (\<lambda>r. printable (rc_decision r)) rs" "printable (ra_decision a)"
  shows "chain_append H a (Some (receipt_text rs)) = Inr (new_receipt H a rs, Some (receipt_text (append_receipt H a rs))) \<and>
    chain_append H a None = Inr (new_receipt H a [], Some (receipt_text (append_receipt H a []))) \<and>
    read_jsonl (Some (receipt_text (append_receipt H a rs))) = Inr (map receipt_dict (append_receipt H a rs)) \<and>
    (\<forall>ss. list_all (\<lambda>r. printable (rc_decision r)) ss \<longrightarrow>
       receipt_text ss = receipt_text (append_receipt H a rs) \<longrightarrow> ss = append_receipt H a rs)"
proof -
  let ?ok = "\<lambda>r. printable (rc_decision r)"
  have new: "list_all ?ok (append_receipt H a rs)" using assms by (simp add: append_receipt_def)
  have "chain_append H a None = chain_append H a (Some (receipt_text []))"
    by (simp add: chain_append_def chain_head_def chain_last_def jsonl_text_def append_text_def file_text_def
        splitlines.simps [of "[]"])
  with chain_append_file [OF assms(1), of H a] chain_append_file [of "[]" H a] receipt_file.read_records [OF new]
    receipt_file.file_inj [OF _ new]
  show ?thesis by auto
qed

theorem receipt_file_refines_witness:
  "chain_append ex_digest ex_args None =
     Inr (new_receipt ex_digest ex_args [], Some (receipt_text (append_receipt ex_digest ex_args [])))"
  using receipt_file_refines [of "[]" ex_args ex_digest] by (simp add: ex_args_def)

text \<open>
  C37. An append that is cut short stops the agent: when only a part of a receipt's line reached the file, every
  later read of the chain and every later append raises, so no further decision can be recorded. When only the
  newline is missing, the file still reads, but the next append joins two objects on one line and from then on
  every read and every append raises.
\<close>

theorem torn_receipt_halts:
  assumes "list_all (\<lambda>r. printable (rc_decision r)) rs" "printable (rc_decision r)" "printable (ra_decision a)"
    and "0 < n" "n < length (jsonl_line (receipt_dict r))"
  defines "f \<equiv> Some (receipt_text rs @ take n (jsonl_line (receipt_dict r)))"
  shows "if n + 1 < length (jsonl_line (receipt_dict r))
    then read_jsonl f = Inl (ValueError ''JSON'') \<and> chain_append H a f = Inl (ValueError ''JSON'')
    else read_jsonl f = Inr (map receipt_dict (rs @ [r])) \<and>
      (\<exists>x f'. chain_append H a f = Inr (x, f') \<and> read_jsonl f' = Inl (ValueError ''JSON'') \<and>
        (\<forall>b. chain_append H b f' = Inl (ValueError ''JSON'')))"
proof -
  let ?l = "dumps_line (receipt_dict r)"
  have rs: "list_all log_object (map receipt_dict rs)" by (rule receipt_file.objects [OF assms(1)])
  have r: "log_object (receipt_dict r)" using assms(2) by simp
  have len: "length (jsonl_line (receipt_dict r)) = Suc (length ?l)" by (simp add: jsonl_line_def newline_def)
  show ?thesis
  proof (cases "n + 1 < length (jsonl_line (receipt_dict r))")
    case True
    then have n: "n < length ?l" by (simp add: len)
    then have "take n (jsonl_line (receipt_dict r)) = take n ?l" by (simp add: jsonl_line_def)
    moreover have "proper_start (take n ?l) ?l"
      using n assms(4) by (auto simp: proper_start_def strict_prefix_def take_is_prefix dest: arg_cong [where f = length])
    ultimately show ?thesis
      using read_torn [OF rs r] chain_append_torn True unfolding f_def by simp
  next
    case False
    then have "n = length ?l" using assms(5) by (simp add: len)
    then have f: "f = Some (receipt_text rs @ ?l)" by (simp add: f_def jsonl_line_def)
    have "read_jsonl (Some ?l) = Inr [receipt_dict r]"
      using read_one [OF dumps_line_plain object_line_nonempty [OF r]] strip_object [OF r] object_line_nonempty [OF r]
      by (simp add: py_loads_object [OF r])
    then have reread: "read_jsonl f = Inr (map receipt_dict (rs @ [r]))" unfolding f by (simp add: read_after [OF rs])
    have "chain_last f = Inr (receipt_dict r)"
      using strip_object [OF r] object_line_nonempty [OF r]
      unfolding f chain_last_after [OF rs] splitlines_last [OF dumps_line_plain] by (simp add: py_loads_object [OF r])
    then have "chain_head f = Inr (rc_seq r + 1, rc_hash r)"
      by (simp add: chain_head_def receipt_dict_def py_index_def as_int_def as_str_def)
    then obtain x where x: "x = receipt_at H a (rc_seq r + 1, rc_hash r)"
      "chain_append H a f = Inr (x, Some (receipt_text rs @ ?l @ jsonl_line (receipt_dict x)))"
      by (simp add: chain_append_def Let_def f append_text_def file_text_def)
    have "log_object (receipt_dict x)" using assms(3) by (simp add: x(1) receipt_at_def Let_def)
    from read_glued [OF rs r this] chain_append_torn reread x(2) False show ?thesis by simp
  qed
qed

theorem torn_receipt_halts_witness:
  "chain_append ex_digest ex_args (Some (take 1 (jsonl_line (receipt_dict (new_receipt ex_digest ex_args []))))) =
    Inl (ValueError ''JSON'')"
proof -
  let ?l = "jsonl_line (receipt_dict (new_receipt ex_digest ex_args []))"
  have "2 < length ?l" by (simp add: jsonl_line_def newline_def dumps_line_def receipt_dict_def json_quote_def)
  with torn_receipt_halts [of "[]" "new_receipt ex_digest ex_args []" ex_args 1 ex_digest] show ?thesis
    by (simp add: jsonl_text_def ex_args_def)
qed

text \<open>
  Marking the abstention ledger to market rewrites the whole file in place, so a crash during the write can
  lose records that were safely on disk: whatever beginning of the new text reached the file (short of its last
  two characters), reading it either raises or returns fewer records than the ledger had, the first ones.
\<close>

theorem ledger_rewrite_loses:
  fixes prices now age l
  defines "l' \<equiv> snd (mark_to_market prices now age l)"
  assumes "list_all exact_abstention l'" "n + 1 < length (jsonl_text (map abstention_dict l'))"
  shows "read_jsonl (abstention_write (map abstention_dict l')) = Inr (map abstention_dict l') \<and>
    (let cut = read_jsonl (map_option (take n) (abstention_write (map abstention_dict l')))
     in cut = Inl (ValueError ''JSON'') \<or> (\<exists>k < length l. cut = Inr (map abstention_dict (take k l'))))"
proof -
  let ?t = "jsonl_text (map abstention_dict l')"
  have len: "length l' = length l" by (simp add: l'_def mark_to_market_def)
  have p: "prefix (take n ?t) ?t" "length (take n ?t) = n" using assms(3) by (simp_all add: take_is_prefix)
  from cut_file [OF abstention_file.objects [OF assms(2)] p(1)]
  have "read_jsonl (Some (take n ?t)) = Inl (ValueError ''JSON'') \<or>
      (\<exists>k < length l. read_jsonl (Some (take n ?t)) = Inr (map abstention_dict (take k l')))"
  proof
    assume "\<exists>k \<le> length (map abstention_dict l'). read_jsonl (Some (take n ?t)) = Inr (take k (map abstention_dict l')) \<and>
      length (jsonl_text (take k (map abstention_dict l'))) \<le> length (take n ?t) + 1"
    then obtain k where k: "k \<le> length l'" "read_jsonl (Some (take n ?t)) = Inr (map abstention_dict (take k l'))"
      "length (jsonl_text (take k (map abstention_dict l'))) \<le> n + 1" unfolding p(2) by (auto simp: take_map)
    with assms(3) have "k \<noteq> length l'" by auto
    with k(1) len have "k < length l" by simp
    with k(2) show ?thesis by blast
  qed blast
  with abstention_file.read_records [OF assms(2)] show ?thesis by (simp add: abstention_write_def Let_def)
qed

definition ex_ledger :: "abstention list" where
  "ex_ledger = [new_abstention \<lparr>aa_ts = 0, aa_symbol = ''ETH'', aa_reason = ''stale_data'', aa_side = ''buy'',
     aa_ref_price = 1, aa_size_usd = 1\<rparr> []]"

theorem ledger_rewrite_loses_witness:
  "read_jsonl (map_option (take 0) (abstention_write (map abstention_dict ex_ledger))) = Inl (ValueError ''JSON'') \<or>
   read_jsonl (map_option (take 0) (abstention_write (map abstention_dict ex_ledger))) = Inr []"
proof -
  have same: "snd (mark_to_market (\<lambda>s. None) 0 0 ex_ledger) = ex_ledger"
    by (simp add: mark_to_market_def due_def ex_ledger_def)
  have e: "repr_exact 0" "repr_exact 1" by code_simp+
  then have "list_all exact_abstention ex_ledger"
    by (simp add: ex_ledger_def new_abstention_def exact_abstention_def opt_float_def)
  moreover have "0 + 1 < length (jsonl_text (map abstention_dict ex_ledger))"
    by (simp add: ex_ledger_def jsonl_text_def jsonl_line_def newline_def dumps_line_def abstention_dict_def json_quote_def)
  ultimately show ?thesis
    using ledger_rewrite_loses [of "\<lambda>s. None" 0 0 ex_ledger 0] unfolding same
    by (auto simp: Let_def ex_ledger_def)
qed

end
