(* ===== verification/Signals.thy ===== *)
theory Signals
  imports Agent_Types
begin

text \<open>
  \<open>agent/strategy/signals.py\<close>: the regime of one token and the ranking of the tokens that may be
  entered. A token is risk-on only when its 1h and 4h momentum are both positive and its volatility
  is below the ceiling.
\<close>

datatype regime_state = RiskOn | Neutral | RiskOff

record regime =
  r_symbol :: string
  r_state :: regime_state
  r_momentum_agree :: bool
  r_direction :: int
  r_vol_pct :: "real option"
  r_reason :: string

definition psign :: "real \<Rightarrow> int" where
  "psign x = (if 0 < x then 1 else 0) - (if x < 0 then 1 else 0)"

definition momentum_text :: "real \<Rightarrow> real \<Rightarrow> string" where
  "momentum_text p1 p4 = ''(1h '' @ fmt_plus 1 p1 @ ''%, 4h '' @ fmt_plus 1 p4 @ ''%)''"

definition classify :: "token_view \<Rightarrow> config \<Rightarrow> regime" where
  "classify view cfg =
     (let vol = tv_vol_24h_pct view; vmax = get_or (vol_enter_max_pct cfg) 4; symb = tv_symbol view in
      case (tv_pct_1h view, tv_pct_4h view) of
        (Some p1, Some p4) \<Rightarrow>
          (let s1 = psign p1; s4 = psign p4; agree = (s1 = s4 \<and> s1 \<noteq> 0) in
           if (case vol of Some v \<Rightarrow> vmax \<le> v | None \<Rightarrow> False)
           then \<lparr>r_symbol = symb, r_state = RiskOff, r_momentum_agree = agree,
                 r_direction = (if agree then s1 else 0), r_vol_pct = vol,
                 r_reason = ''volatility '' @ fmt_f 1 (the vol) @ ''% >= '' @ fmt_f 1 vmax @ ''% ceiling''\<rparr>
           else if \<not> agree
           then \<lparr>r_symbol = symb, r_state = Neutral, r_momentum_agree = False, r_direction = 0,
                 r_vol_pct = vol, r_reason = ''momentum disagree '' @ momentum_text p1 p4\<rparr>
           else if 0 < s1
           then \<lparr>r_symbol = symb, r_state = RiskOn, r_momentum_agree = True, r_direction = 1,
                 r_vol_pct = vol, r_reason = ''uptrend agrees '' @ momentum_text p1 p4 @ '', vol ok''\<rparr>
           else \<lparr>r_symbol = symb, r_state = RiskOff, r_momentum_agree = True, r_direction = - 1,
                 r_vol_pct = vol, r_reason = ''downtrend agrees '' @ momentum_text p1 p4\<rparr>)
      | _ \<Rightarrow> \<lparr>r_symbol = symb, r_state = Neutral, r_momentum_agree = False, r_direction = 0,
             r_vol_pct = vol, r_reason = ''missing momentum data''\<rparr>)"

definition entry_score :: "token_view \<Rightarrow> real" where
  "entry_score v =
     \<bar>get_or (tv_pct_4h v) 0\<bar> + \<bar>get_or (tv_pct_1h v) 0\<bar> - get_or (tv_vol_24h_pct v) 0"

text \<open>
  \<open>scored.sort(key=..., reverse=True)\<close> is stable, as \<open>sort_key\<close> on the negated score is.
\<close>

definition rank_entries :: "token_view list \<Rightarrow> config \<Rightarrow> (token_view \<times> regime) list" where
  "rank_entries views cfg =
     map snd (sort_key (\<lambda>(score, _). - score)
       (map (\<lambda>v. (entry_score v, v, classify v cfg))
         (filter (\<lambda>v. r_state (classify v cfg) = RiskOn) views)))"

section \<open>What the regime means\<close>

text \<open>The momentum and volatility condition, as the module's documentation states it.\<close>

definition risk_on_spec :: "token_view \<Rightarrow> real \<Rightarrow> bool" where
  "risk_on_spec v vmax =
     ((\<exists>p1 p4. tv_pct_1h v = Some p1 \<and> tv_pct_4h v = Some p4 \<and> 0 < p1 \<and> 0 < p4) \<and>
      (\<forall>x. tv_vol_24h_pct v = Some x \<longrightarrow> x < vmax))"

lemma psign_simps [simp]:
  "0 < x \<Longrightarrow> psign x = 1" "x < 0 \<Longrightarrow> psign x = - 1" "psign 0 = 0"
  by (simp_all add: psign_def)

lemma psign_pos_iff: "psign x = 1 \<longleftrightarrow> 0 < x"
  by (auto simp: psign_def)

lemma classify_risk_on:
  "r_state (classify v cfg) = RiskOn \<longleftrightarrow> risk_on_spec v (get_or (vol_enter_max_pct cfg) 4)"
proof (cases "tv_pct_1h v")
  case None
  then show ?thesis by (simp add: classify_def risk_on_spec_def Let_def)
next
  case p1: (Some p1)
  show ?thesis
  proof (cases "tv_pct_4h v")
    case None
    then show ?thesis by (simp add: classify_def risk_on_spec_def Let_def split: option.splits)
  next
    case (Some p4)
    with p1 show ?thesis
      by (cases "tv_vol_24h_pct v")
        (auto simp: classify_def risk_on_spec_def Let_def psign_def split: if_splits)
  qed
qed

lemma classify_symbol [simp]: "r_symbol (classify v cfg) = tv_symbol v"
  by (auto simp: classify_def Let_def split: option.splits)

text \<open>
  A classified token's direction is its momentum sign exactly when both momenta agree, and 0 otherwise.
\<close>

lemma classify_direction:
  "r_direction (classify v cfg) =
     (if r_momentum_agree (classify v cfg) then psign (the (tv_pct_1h v)) else 0)"
  by (auto simp: classify_def Let_def psign_def split: option.splits)

section \<open>The ranking\<close>

lemma mset_rank_entries:
  "mset (map fst (rank_entries views cfg)) =
   mset (filter (\<lambda>v. r_state (classify v cfg) = RiskOn) views)"
  by (simp add: rank_entries_def image_mset.compositionality comp_def)

lemma rank_entries_in:
  assumes "(v, r) \<in> set (rank_entries views cfg)"
  shows "v \<in> set views \<and> r = classify v cfg \<and> r_state r = RiskOn"
  using assms by (auto simp: rank_entries_def)

lemma rank_entries_Nil_iff:
  "rank_entries views cfg = [] \<longleftrightarrow> (\<forall>v \<in> set views. r_state (classify v cfg) \<noteq> RiskOn)"
proof -
  have "rank_entries views cfg = [] \<longleftrightarrow> filter (\<lambda>v. r_state (classify v cfg) = RiskOn) views = []"
    using mset_rank_entries [of views cfg] by (metis list.map_disc_iff mset_zero_iff)
  then show ?thesis by (simp add: filter_empty_conv)
qed

lemma rank_entries_sorted: "sorted_wrt (\<lambda>a b. entry_score (fst a) \<ge> entry_score (fst b)) (rank_entries views cfg)"
proof -
  let ?xs = "map (\<lambda>v. (entry_score v, v, classify v cfg)) (filter (\<lambda>v. r_state (classify v cfg) = RiskOn) views)"
  let ?ys = "sort_key (\<lambda>(score, _). - score) ?xs"
  have "sorted (map (\<lambda>(score, _). - score) ?ys)" by simp
  then have *: "sorted_wrt (\<lambda>a b. fst b \<le> fst a) ?ys"
    by (simp add: sorted_map case_prod_beta)
  have "sorted_wrt (\<lambda>a b. entry_score (fst (snd a)) \<ge> entry_score (fst (snd b))) ?ys"
    by (rule sorted_wrt_mono_rel [OF _ *]) auto
  then show ?thesis by (simp add: rank_entries_def sorted_wrt_map)
qed

end
