(* ===== verification/Survival.thy ===== *)
theory Survival
  imports Signals
begin

text \<open>
  \<open>agent/strategy/survival.py\<close>: one intent per tick. Exits come first, then an entry when the
  drawdown ladder and the exposure room allow it, then a small rebalance, then a hold with the reason
  for the abstention. \<open>decide\<close> returns an error where the Python raises: the volatility scaling
  divides by the configured ceiling.
\<close>

datatype intent_action = Enter | Exit | Rebalance | HoldIntent

definition intent_action_text :: "intent_action \<Rightarrow> string" where
  "intent_action_text a = (case a of Enter \<Rightarrow> ''enter'' | Exit \<Rightarrow> ''exit''
     | Rebalance \<Rightarrow> ''rebalance'' | HoldIntent \<Rightarrow> ''hold'')"

record intent =
  i_action :: intent_action
  i_chain :: string
  i_from_token :: string
  i_to_token :: string
  i_amount_usd :: real
  i_confidence :: real
  i_rationale :: string
  i_abstain_reason :: string

section \<open>The drawdown ladder\<close>

definition ladder_rung :: "config \<Rightarrow> real \<Rightarrow> rung" where
  "ladder_rung cfg drawdown_pct =
     foldl (\<lambda>rung r. if at_pct r \<le> drawdown_pct then le_action r else rung) RNone
       (sort_key at_pct (drawdown_ladder cfg))"

text \<open>
  A ladder is graded when the rungs get more severe with the drawdown that triggers them; both
  committed ladders are.
\<close>

definition graded_ladder :: "config \<Rightarrow> bool" where
  "graded_ladder cfg = sorted (map le_action (sort_key at_pct (drawdown_ladder cfg)))"

section \<open>Exits\<close>

definition exit_reason :: "config \<Rightarrow> rung \<Rightarrow> real \<Rightarrow> real \<Rightarrow> string \<Rightarrow> real \<Rightarrow> position \<Rightarrow> string option" where
  "exit_reason cfg rung drawdown_pct now_ts symb px pos =
     (let pnl_pct = (if pos_entry_price pos \<noteq> 0
                     then (px - pos_entry_price pos) / pos_entry_price pos * 100 else 0);
          held_h = (now_ts - pos_entry_ts pos) / 3600 in
      if rung = StablecoinMode
      then Some (''stablecoin mode (drawdown '' @ fmt_f 2 drawdown_pct @ ''%), flatten '' @ symb)
      else if pnl_pct \<le> - stop_loss_pct (risk cfg)
      then Some (''stop-loss '' @ symb @ '' '' @ fmt_plus 1 pnl_pct @ ''%'')
      else if take_profit_pct (risk cfg) \<le> pnl_pct
      then Some (''take-profit '' @ symb @ '' '' @ fmt_plus 1 pnl_pct @ ''%'')
      else if max_hold_hours (risk cfg) \<le> held_h
      then Some (''time-stop '' @ symb @ '' held '' @ fmt_f 0 held_h @ ''h'')
      else None)"

text \<open>The loop over the positions: the first one that is priced, open and due to exit.\<close>

fun find_exit :: "config \<Rightarrow> rung \<Rightarrow> real \<Rightarrow> real \<Rightarrow> (string \<rightharpoonup> real) \<Rightarrow> (string \<times> position) list \<Rightarrow>
    (string \<times> real \<times> string) option" where
  "find_exit cfg rung dd now_ts price [] = None"
| "find_exit cfg rung dd now_ts price ((symb, pos) # ps) =
     (case price (upper symb) of
        None \<Rightarrow> find_exit cfg rung dd now_ts price ps
      | Some px \<Rightarrow>
          if pos_qty pos \<le> 0 then find_exit cfg rung dd now_ts price ps
          else (case exit_reason cfg rung dd now_ts (upper symb) px pos of
                  None \<Rightarrow> find_exit cfg rung dd now_ts price ps
                | Some reason \<Rightarrow> Some (upper symb, pos_qty pos * px, reason)))"

section \<open>Entries\<close>

definition vol_scaled_size :: "real \<Rightarrow> real option \<Rightarrow> config \<Rightarrow> bool \<Rightarrow> py_error + real" where
  "vol_scaled_size nav vol_pct cfg halve =
     (let lo = get_or (min_single_trade_pct (risk cfg)) (1 / 100);
          hi = get_or (max_single_trade_pct (risk cfg)) (3 / 100);
          vmax = get_or (vol_enter_max_pct cfg) 4;
          sized = (\<lambda>frac. min ((if halve then frac / 2 else frac) * nav)
                            (max_single_trade_usd (risk cfg)))
      in case vol_pct of
           None \<Rightarrow> Inr (sized lo)
         | Some v \<Rightarrow>
             if vmax = 0 then Inl ZeroDivisionError
             else Inr (sized (lo + (hi - lo) * max 0 (min 1 ((vmax - v) / vmax)))))"

definition exposure_room :: "portfolio_state \<Rightarrow> config \<Rightarrow> real" where
  "exposure_room portfolio cfg =
     get_or (max_risky_exposure_pct (risk cfg)) (20 / 100) - ps_risky_exposure_pct portfolio"

definition entry_views :: "token_view list \<Rightarrow> config \<Rightarrow> token_view list" where
  "entry_views views cfg =
     filter (\<lambda>v. upper (tv_symbol v) \<in> set (map upper (universe cfg))) views"

definition can_take_risk :: "rung \<Rightarrow> real \<Rightarrow> bool" where
  "can_take_risk rung room = (rung \<in> {RNone, HalveSize} \<and> 1 / 100 < room)"

fun find_entry :: "config \<Rightarrow> rung \<Rightarrow> portfolio_state \<Rightarrow> real \<Rightarrow> string \<Rightarrow> string \<Rightarrow>
    (token_view \<times> regime) list \<Rightarrow> py_error + intent option" where
  "find_entry cfg rung portfolio room quote chain [] = Inr None"
| "find_entry cfg rung portfolio room quote chain ((v, r) # ranked) =
     (if upper (tv_symbol v) \<in> fst ` set (ps_positions portfolio)
      then find_entry cfg rung portfolio room quote chain ranked
      else case vol_scaled_size (ps_nav_usd portfolio) (tv_vol_24h_pct v) cfg (rung = HalveSize) of
             Inl e \<Rightarrow> Inl e
           | Inr size0 \<Rightarrow>
               (let size = min size0 (room * ps_nav_usd portfolio) in
                if 1 \<le> size
                then Inr (Some \<lparr>i_action = Enter, i_chain = chain, i_from_token = quote,
                       i_to_token = upper (tv_symbol v), i_amount_usd = py_round size 2,
                       i_confidence = 7 / 10,
                       i_rationale = ''enter '' @ upper (tv_symbol v) @ '': '' @ r_reason r,
                       i_abstain_reason = []\<rparr>)
                else find_entry cfg rung portfolio room quote chain ranked))"

section \<open>Micro-rebalance\<close>

text \<open>
  The token of a rebalance up: the best ranked one (held or not), else the calmest universe token that
  is not held; an unknown volatility counts as 1e9.
\<close>

definition calmest_unheld :: "portfolio_state \<Rightarrow> token_view list \<Rightarrow> string option" where
  "calmest_unheld portfolio evs =
     (case sort_key (\<lambda>v. get_or (tv_vol_24h_pct v) (10 ^ 9))
        (filter (\<lambda>v. upper (tv_symbol v) \<notin> fst ` set (ps_positions portfolio)) evs) of
      v # _ \<Rightarrow> Some (upper (tv_symbol v)) | [] \<Rightarrow> None)"

definition rebalance_token :: "config \<Rightarrow> portfolio_state \<Rightarrow> token_view list \<Rightarrow> string option" where
  "rebalance_token cfg portfolio evs =
     (let tok = (case rank_entries evs cfg of (v, r) # _ \<Rightarrow> Some (upper (tv_symbol v)) | [] \<Rightarrow> None)
      in if tok = None \<or> tok = Some [] then calmest_unheld portfolio evs else tok)"

definition largest_position :: "portfolio_state \<Rightarrow> (string \<rightharpoonup> real) \<Rightarrow> string option" where
  "largest_position portfolio price =
     map_option (\<lambda>(s, p). upper s)
       (max_by (\<lambda>(s, p). pos_qty p * get_or (price (upper s)) 0) (ps_positions portfolio))"

definition find_rebalance :: "config \<Rightarrow> rung \<Rightarrow> portfolio_state \<Rightarrow> (string \<rightharpoonup> real) \<Rightarrow>
    token_view list \<Rightarrow> string \<Rightarrow> string \<Rightarrow> intent option" where
  "find_rebalance cfg rung portfolio price evs quote chain =
     (let target = get_or (target_risky_ratio cfg) (15 / 100);
          band = get_or (rebalance_band cfg) (5 / 100);
          micro = get_or (micro_rebalance_usd cfg) 12;
          room = exposure_room portfolio cfg;
          mk = (\<lambda>from to dir symb. \<lparr>i_action = Rebalance, i_chain = chain, i_from_token = from,
                 i_to_token = to, i_amount_usd = py_round micro 2, i_confidence = 4 / 10,
                 i_rationale = ''micro-rebalance '' @ dir @ '' toward '' @ fmt_f 0 (target * 100) @
                   ''% risky ('' @ symb @ '')'',
                 i_abstain_reason = []\<rparr>)
      in if of_int (min_trade_interval_seconds (risk cfg)) \<le> ps_seconds_since_last_trade portfolio
            \<and> rung \<noteq> StablecoinMode
         then if ps_risky_exposure_pct portfolio < target - band \<and> can_take_risk rung room
              then (case rebalance_token cfg portfolio evs of
                      None \<Rightarrow> None
                    | Some tok \<Rightarrow> if tok = [] then None else Some (mk quote tok ''up'' tok))
              else if target + band < ps_risky_exposure_pct portfolio \<and> ps_positions portfolio \<noteq> []
              then map_option (\<lambda>symb. mk symb quote ''down'' symb) (largest_position portfolio price)
              else None
         else None)"

section \<open>The decision\<close>

definition hold_reason :: "config \<Rightarrow> rung \<Rightarrow> real \<Rightarrow> token_view list \<Rightarrow> string" where
  "hold_reason cfg rung room evs =
     (if rung \<in> {StablecoinMode, NoNewRisk} then ''drawdown_proximity''
      else if room \<le> 1 / 100 then ''exposure_full''
      else if rank_entries evs cfg = [] then ''regime_conflict''
      else ''rate_or_interval'')"

definition decide :: "token_view list \<Rightarrow> portfolio_state \<Rightarrow> config \<Rightarrow> real \<Rightarrow> string \<Rightarrow> string \<Rightarrow>
    py_error + intent" where
  "decide views portfolio cfg now_ts quote chain =
     (let rung = ladder_rung cfg (ps_drawdown_pct portfolio);
          price = price_table views;
          evs = entry_views views cfg;
          room = exposure_room portfolio cfg in
      case find_exit cfg rung (ps_drawdown_pct portfolio) now_ts price (ps_positions portfolio) of
        Some (symb, usd, reason) \<Rightarrow>
          Inr \<lparr>i_action = Exit, i_chain = chain, i_from_token = symb, i_to_token = quote,
               i_amount_usd = py_round usd 2, i_confidence = 9 / 10, i_rationale = reason,
               i_abstain_reason = []\<rparr>
      | None \<Rightarrow>
          (case (if can_take_risk rung room
                 then find_entry cfg rung portfolio room quote chain (rank_entries evs cfg)
                 else Inr None) of
             Inl e \<Rightarrow> Inl e
           | Inr (Some i) \<Rightarrow> Inr i
           | Inr None \<Rightarrow>
               (case find_rebalance cfg rung portfolio price evs quote chain of
                  Some i \<Rightarrow> Inr i
                | None \<Rightarrow>
                    Inr \<lparr>i_action = HoldIntent, i_chain = chain, i_from_token = quote,
                         i_to_token = quote, i_amount_usd = 0, i_confidence = 3 / 10,
                         i_rationale = ''no qualifying action'',
                         i_abstain_reason = hold_reason cfg rung room evs\<rparr>)))"

section \<open>The ladder\<close>

lemma foldl_ladder:
  "foldl (\<lambda>rung r. if at_pct r \<le> dd then le_action r else rung) r0 xs =
     (if filter (\<lambda>r. at_pct r \<le> dd) xs = [] then r0
      else le_action (last (filter (\<lambda>r. at_pct r \<le> dd) xs)))"
  by (induction xs arbitrary: r0) auto

text \<open>On a graded ladder a deeper drawdown never selects a milder rung.\<close>

lemma foldl_ladder_mono:
  assumes "sorted (map le_action xs)" "dd \<le> dd'" "r0 \<le> r0'" "list_all (\<lambda>r. r0 \<le> le_action r) xs"
  shows "foldl (\<lambda>rung r. if at_pct r \<le> dd then le_action r else rung) r0 xs \<le>
    foldl (\<lambda>rung r. if at_pct r \<le> dd' then le_action r else rung) r0' xs"
  using assms
proof (induction xs arbitrary: r0 r0')
  case Nil
  then show ?case by simp
next
  case (Cons r xs)
  let ?q = "if at_pct r \<le> dd then le_action r else r0"
  let ?q' = "if at_pct r \<le> dd' then le_action r else r0'"
  have "?q \<le> ?q'" using Cons.prems by auto
  moreover have "list_all (\<lambda>s. ?q \<le> le_action s) xs"
    using Cons.prems by (auto simp: list_all_iff)
  ultimately show ?case using Cons.IH [of ?q ?q'] Cons.prems by simp
qed

lemma RNone_least [simp]: "RNone \<le> r"
  by (simp add: less_eq_rung_def rung_level_def)

lemma ladder_rung_mono:
  assumes "graded_ladder cfg" "dd \<le> dd'"
  shows "ladder_rung cfg dd \<le> ladder_rung cfg dd'"
  using assms unfolding ladder_rung_def graded_ladder_def
  by (intro foldl_ladder_mono) (simp_all add: list_all_iff)

lemma graded_committed [simp]: "graded_ladder bnb_config" "graded_ladder injective_config"
  by (simp_all add: graded_ladder_def bnb_config_def injective_config_def less_eq_rung_def rung_level_def)

lemma ladder_rung_bnb:
  "ladder_rung bnb_config dd =
     (if dd < 1 then RNone else if dd < 2 then HalveSize else if dd < 3 then NoNewRisk else StablecoinMode)"
  by (simp add: ladder_rung_def bnb_config_def)

section \<open>Sizes\<close>

lemma vol_scaled_size_ok:
  "get_or (vol_enter_max_pct cfg) 4 \<noteq> 0 \<Longrightarrow> \<exists>x. vol_scaled_size nav vol cfg halve = Inr x"
  by (auto simp: vol_scaled_size_def Let_def split: option.splits)

lemma vol_scaled_size_upper:
  assumes "vol_scaled_size nav vol cfg halve = Inr x"
    and lohi: "0 \<le> get_or (min_single_trade_pct (risk cfg)) (1 / 100)"
      "get_or (min_single_trade_pct (risk cfg)) (1 / 100) \<le> get_or (max_single_trade_pct (risk cfg)) (3 / 100)"
    and "0 \<le> nav"
  shows "x \<le> max_single_trade_usd (risk cfg)"
    and "x \<le> get_or (max_single_trade_pct (risk cfg)) (3 / 100) * nav"
    and "halve \<Longrightarrow> x \<le> get_or (max_single_trade_pct (risk cfg)) (3 / 100) * nav / 2"
proof -
  let ?lo = "get_or (min_single_trade_pct (risk cfg)) (1 / 100)"
  let ?hi = "get_or (max_single_trade_pct (risk cfg)) (3 / 100)"
  obtain f where f: "?lo \<le> f" "f \<le> ?hi"
    "x = min ((if halve then f / 2 else f) * nav) (max_single_trade_usd (risk cfg))"
  proof (cases vol)
    case None
    with assms(1) lohi that show ?thesis by (auto simp: vol_scaled_size_def Let_def)
  next
    case (Some v)
    let ?s = "max 0 (min 1 ((get_or (vol_enter_max_pct cfg) 4 - v) / get_or (vol_enter_max_pct cfg) 4))"
    have s: "0 \<le> ?s" "?s \<le> 1" by auto
    have "(?hi - ?lo) * ?s \<le> ?hi - ?lo" "0 \<le> (?hi - ?lo) * ?s"
      using lohi s by (intro mult_left_le mult_nonneg_nonneg; simp)+
    with assms(1) Some show ?thesis
      by (intro that [of "?lo + (?hi - ?lo) * ?s"]) (auto simp: vol_scaled_size_def Let_def split: if_splits)
  qed
  from f show "x \<le> max_single_trade_usd (risk cfg)" by simp
  have fn: "f * nav \<le> ?hi * nav" "0 \<le> f * nav" using f lohi assms(4) by (auto intro: mult_right_mono)
  with f show "x \<le> ?hi * nav" by (auto simp: min_le_iff_disj)
  from f fn show "x \<le> ?hi * nav / 2" if halve using that by (auto simp: min_le_iff_disj)
qed

section \<open>Exits\<close>

text \<open>A position is due to exit when it is priced, open, and one of the exit conditions holds.\<close>

definition exit_due :: "config \<Rightarrow> rung \<Rightarrow> real \<Rightarrow> real \<Rightarrow> (string \<rightharpoonup> real) \<Rightarrow> string \<times> position \<Rightarrow> bool" where
  "exit_due cfg rung dd now_ts price sp =
     (case price (upper (fst sp)) of None \<Rightarrow> False
      | Some px \<Rightarrow> 0 < pos_qty (snd sp) \<and>
          exit_reason cfg rung dd now_ts (upper (fst sp)) px (snd sp) \<noteq> None)"

lemma find_exit_find:
  "find_exit cfg rung dd now_ts price ps =
     map_option (\<lambda>(symb, pos). (upper symb, pos_qty pos * the (price (upper symb)),
         the (exit_reason cfg rung dd now_ts (upper symb) (the (price (upper symb))) pos)))
       (find (exit_due cfg rung dd now_ts price) ps)"
proof (induction ps)
  case Nil
  then show ?case by simp
next
  case (Cons p ps)
  obtain symb pos where p: "p = (symb, pos)" by fastforce
  show ?case
  proof (cases "price (upper symb)")
    case None
    with Cons p show ?thesis by (simp add: exit_due_def)
  next
    case (Some px)
    with Cons p show ?thesis
      by (cases "exit_reason cfg rung dd now_ts (upper symb) px pos") (auto simp: exit_due_def)
  qed
qed

lemma find_exit_None_iff:
  "find_exit cfg rung dd now_ts price ps = None \<longleftrightarrow>
    (\<forall>sp \<in> set ps. \<not> exit_due cfg rung dd now_ts price sp)"
  by (auto simp: find_exit_find find_None_iff)

lemma exit_due_stablecoin:
  "exit_due cfg StablecoinMode dd now_ts price sp \<longleftrightarrow>
    price (upper (fst sp)) \<noteq> None \<and> 0 < pos_qty (snd sp)"
  by (auto simp: exit_due_def exit_reason_def Let_def split: option.splits)

lemma exit_due_stop_loss:
  assumes "price (upper (fst sp)) = Some px" "0 < pos_qty (snd sp)" "0 < pos_entry_price (snd sp)"
    and "px \<le> pos_entry_price (snd sp) * (1 - stop_loss_pct (risk cfg) / 100)"
  shows "exit_due cfg rung dd now_ts price sp"
proof -
  let ?e = "pos_entry_price (snd sp)"
  have "px - ?e \<le> ?e * (- stop_loss_pct (risk cfg) / 100)" using assms(4) by (simp add: algebra_simps)
  then have "(px - ?e) / ?e \<le> - stop_loss_pct (risk cfg) / 100"
    using assms(3) by (simp add: pos_divide_le_eq mult.commute)
  moreover have "t * 100 \<le> - c" if "t \<le> - c / 100" for t c :: real using that by simp
  ultimately have "(px - ?e) / ?e * 100 \<le> - stop_loss_pct (risk cfg)" by blast
  with assms show ?thesis by (simp add: exit_due_def exit_reason_def Let_def)
qed

section \<open>Entries\<close>

text \<open>A candidate that may be entered, and the usd it gets.\<close>

definition entry_size :: "config \<Rightarrow> rung \<Rightarrow> portfolio_state \<Rightarrow> real \<Rightarrow> token_view \<Rightarrow> py_error + real" where
  "entry_size cfg rung portfolio room v =
     map_sum id (\<lambda>s. min s (room * ps_nav_usd portfolio))
       (vol_scaled_size (ps_nav_usd portfolio) (tv_vol_24h_pct v) cfg (rung = HalveSize))"

definition entry_intent :: "string \<Rightarrow> string \<Rightarrow> real \<Rightarrow> token_view \<times> regime \<Rightarrow> intent" where
  "entry_intent quote chain usd vr =
     \<lparr>i_action = Enter, i_chain = chain, i_from_token = quote, i_to_token = upper (tv_symbol (fst vr)),
      i_amount_usd = py_round usd 2, i_confidence = 7 / 10,
      i_rationale = ''enter '' @ upper (tv_symbol (fst vr)) @ '': '' @ r_reason (snd vr),
      i_abstain_reason = []\<rparr>"

lemma find_entry_Cons:
  "find_entry cfg rung portfolio room quote chain (vr # ranked) =
     (if upper (tv_symbol (fst vr)) \<in> fst ` set (ps_positions portfolio)
      then find_entry cfg rung portfolio room quote chain ranked
      else case entry_size cfg rung portfolio room (fst vr) of
             Inl e \<Rightarrow> Inl e
           | Inr usd \<Rightarrow> if 1 \<le> usd then Inr (Some (entry_intent quote chain usd vr))
               else find_entry cfg rung portfolio room quote chain ranked)"
  by (cases vr) (auto simp: entry_size_def entry_intent_def Let_def split: sum.splits)

lemma find_entry_Some:
  "find_entry cfg rung portfolio room quote chain ranked = Inr (Some i) \<Longrightarrow>
    \<exists>vr \<in> set ranked. \<exists>usd. upper (tv_symbol (fst vr)) \<notin> fst ` set (ps_positions portfolio) \<and>
      entry_size cfg rung portfolio room (fst vr) = Inr usd \<and> 1 \<le> usd \<and>
      i = entry_intent quote chain usd vr"
proof (induction ranked)
  case Nil
  then show ?case by simp
next
  case (Cons vr ranked)
  then show ?case
    by (auto simp: find_entry_Cons simp del: find_entry.simps split: if_splits sum.splits)
qed

lemma find_entry_total:
  assumes "get_or (vol_enter_max_pct cfg) 4 \<noteq> 0"
  shows "\<exists>x. find_entry cfg rung portfolio room quote chain ranked = Inr x"
proof (induction ranked)
  case Nil
  then show ?case by simp
next
  case (Cons vr ranked)
  obtain usd where "entry_size cfg rung portfolio room (fst vr) = Inr usd"
    using vol_scaled_size_ok [OF assms, of "ps_nav_usd portfolio" "tv_vol_24h_pct (fst vr)" "rung = HalveSize"]
    by (auto simp: entry_size_def)
  with Cons show ?case by (auto simp: find_entry_Cons simp del: find_entry.simps)
qed

section \<open>The shape of a decision\<close>

abbreviation exit_now :: "token_view list \<Rightarrow> portfolio_state \<Rightarrow> config \<Rightarrow> real \<Rightarrow> string \<times> position \<Rightarrow> bool" where
  "exit_now views portfolio cfg now_ts \<equiv>
     exit_due cfg (ladder_rung cfg (ps_drawdown_pct portfolio)) (ps_drawdown_pct portfolio) now_ts
       (price_table views)"

lemma find_rebalance_action:
  "find_rebalance cfg rung portfolio price evs quote chain = Some i \<Longrightarrow>
    i_action i = Rebalance \<and> rung \<noteq> StablecoinMode \<and>
    (i_to_token i = quote \<or> can_take_risk rung (exposure_room portfolio cfg))"
  by (auto simp: find_rebalance_def Let_def split: if_splits option.splits)

text \<open>The four ways \<open>decide\<close> returns.\<close>

lemma decide_cases:
  assumes "decide views portfolio cfg now_ts quote chain = Inr i"
  obtains (Exit) sp where "find (exit_now views portfolio cfg now_ts) (ps_positions portfolio) = Some sp"
      "i_action i = Exit" "i_from_token i = upper (fst sp)" "i_to_token i = quote"
      "i_amount_usd i = py_round (pos_qty (snd sp) * the (price_table views (upper (fst sp)))) 2"
  | (Enter) "find (exit_now views portfolio cfg now_ts) (ps_positions portfolio) = None"
      "can_take_risk (ladder_rung cfg (ps_drawdown_pct portfolio)) (exposure_room portfolio cfg)"
      "find_entry cfg (ladder_rung cfg (ps_drawdown_pct portfolio)) portfolio (exposure_room portfolio cfg)
        quote chain (rank_entries (entry_views views cfg) cfg) = Inr (Some i)" "i_action i = Enter"
  | (Rebalance) "find (exit_now views portfolio cfg now_ts) (ps_positions portfolio) = None"
      "find_rebalance cfg (ladder_rung cfg (ps_drawdown_pct portfolio)) portfolio (price_table views)
        (entry_views views cfg) quote chain = Some i" "i_action i = Rebalance"
  | (Hold) "find (exit_now views portfolio cfg now_ts) (ps_positions portfolio) = None"
      "i_action i = HoldIntent" "i_amount_usd i = 0" "i_from_token i = quote" "i_to_token i = quote"
proof (cases "find (exit_now views portfolio cfg now_ts) (ps_positions portfolio)")
  case (Some sp)
  then show thesis using assms
    by (intro Exit [of sp]) (auto simp: decide_def Let_def find_exit_find split: prod.splits)
next
  case none: None
  let ?rung = "ladder_rung cfg (ps_drawdown_pct portfolio)" and ?room = "exposure_room portfolio cfg"
  let ?entry = "if can_take_risk ?rung ?room then find_entry cfg ?rung portfolio ?room quote chain
     (rank_entries (entry_views views cfg) cfg) else Inr None"
  let ?reb = "find_rebalance cfg ?rung portfolio (price_table views) (entry_views views cfg) quote chain"
  consider e where "?entry = Inl e" | j where "?entry = Inr (Some j)" | "?entry = Inr None"
    by (metis sum.exhaust option.exhaust)
  then show thesis
  proof cases
    case 1
    with none assms show thesis by (simp add: decide_def Let_def find_exit_find)
  next
    case (2 j)
    then have "j = i" using none assms by (simp add: decide_def Let_def find_exit_find)
    with 2 none show thesis
      by (intro Enter) (auto split: if_splits dest!: find_entry_Some simp: entry_intent_def)
  next
    case 3
    show thesis
    proof (cases ?reb)
      case (Some j)
      then have "j = i" using 3 none assms by (simp add: decide_def Let_def find_exit_find)
      with Some none show thesis by (intro Rebalance) (auto dest: find_rebalance_action)
    next
      case None
      with 3 none assms show thesis by (intro Hold) (auto simp: decide_def Let_def find_exit_find)
    qed
  qed
qed

text \<open>A hold names one of four reasons; every other intent names none.\<close>

definition hold_reasons :: "string list" where
  "hold_reasons = [''drawdown_proximity'', ''exposure_full'', ''regime_conflict'', ''rate_or_interval'']"

lemma decide_abstain_reason:
  assumes "decide views portfolio cfg now_ts quote chain = Inr i"
  shows "i_abstain_reason i = [] \<or> i_abstain_reason i \<in> set hold_reasons"
proof -
  have entry: "i_abstain_reason j = []" if "find_entry cfg r portfolio room quote chain ranked = Inr (Some j)" for r room ranked j
    using find_entry_Some [OF that] by (auto simp: entry_intent_def)
  have rebalance: "i_abstain_reason j = []" if "find_rebalance cfg r portfolio price evs quote chain = Some j" for r price evs j
    using that by (auto simp: find_rebalance_def Let_def split: if_splits option.splits)
  have hold: "hold_reason cfg r room evs \<in> set hold_reasons" for r room evs
    by (simp add: hold_reason_def hold_reasons_def)
  show ?thesis
    using assms entry rebalance hold
    by (auto simp: decide_def Let_def simp del: find_entry.simps split: option.splits sum.splits prod.splits if_splits)
qed

section \<open>Claims\<close>


definition ex_view_token :: "string \<Rightarrow> real \<Rightarrow> real \<Rightarrow> real \<Rightarrow> real \<Rightarrow> token_view" where
  "ex_view_token s px p1 p4 vol = \<lparr>tv_symbol = s, tv_price = px, tv_pct_1h = Some p1, tv_pct_4h = Some p4,
     tv_vol_24h_pct = Some vol, tv_liquidity_usd = 0, tv_spread_bps = 0, tv_ts = 0, tv_extra = []\<rparr>"

definition ex_portfolio :: "(string \<times> position) list \<Rightarrow> real \<Rightarrow> portfolio_state" where
  "ex_portfolio ps dd = \<lparr>ps_nav_usd = 1000, ps_stable_usd = 1000, ps_positions = ps,
     ps_drawdown_pct = dd, ps_risky_exposure_pct = (if ps = [] then 0 else 2 / 100),
     ps_trades_this_week = 0, ps_seconds_since_last_trade = 10 ^ 9\<rparr>"

definition ex_eth :: position where
  "ex_eth = \<lparr>pos_symbol = ''ETH'', pos_qty = 1 / 100, pos_entry_price = 2000, pos_entry_ts = 0\<rparr>"


text \<open>
  C17. An entry is justified: the ladder is at most at half size and there is exposure room, the token is
  in the universe, not yet held and risk-on (both momenta up, volatility below the ceiling), nothing was
  due to exit, and the size is at least a dollar and at most the single-trade cap and the exposure room,
  up to half a cent of rounding.
\<close>

theorem entry_justified:
  assumes "decide views portfolio cfg now_ts quote chain = Inr i" "i_action i = Enter"
    and "0 \<le> get_or (min_single_trade_pct (risk cfg)) (1 / 100)"
      "get_or (min_single_trade_pct (risk cfg)) (1 / 100) \<le> get_or (max_single_trade_pct (risk cfg)) (3 / 100)"
    and "0 \<le> ps_nav_usd portfolio"
  shows "ladder_rung cfg (ps_drawdown_pct portfolio) \<in> {RNone, HalveSize} \<and>
    1 / 100 < exposure_room portfolio cfg \<and>
    (\<forall>sp \<in> set (ps_positions portfolio). \<not> exit_now views portfolio cfg now_ts sp) \<and>
    (\<exists>v \<in> set views. i_to_token i = upper (tv_symbol v) \<and> upper (tv_symbol v) \<in> upper ` set (universe cfg) \<and>
      upper (tv_symbol v) \<notin> fst ` set (ps_positions portfolio) \<and>
      risk_on_spec v (get_or (vol_enter_max_pct cfg) 4)) \<and>
    1 \<le> i_amount_usd i \<and> i_amount_usd i \<le> max_single_trade_usd (risk cfg) + 1 / 200 \<and>
    i_amount_usd i \<le> exposure_room portfolio cfg * ps_nav_usd portfolio + 1 / 200"
  using assms(1)
proof (cases rule: decide_cases)
  case Enter
  obtain vr usd where vr: "vr \<in> set (rank_entries (entry_views views cfg) cfg)"
      "upper (tv_symbol (fst vr)) \<notin> fst ` set (ps_positions portfolio)"
      "entry_size cfg (ladder_rung cfg (ps_drawdown_pct portfolio)) portfolio (exposure_room portfolio cfg) (fst vr) = Inr usd"
      "1 \<le> usd" "i = entry_intent quote chain usd vr"
    using find_entry_Some [OF Enter(3)] by blast
  have "(fst vr, snd vr) \<in> set (rank_entries (entry_views views cfg) cfg)" using vr(1) by simp
  from rank_entries_in [OF this]
  have v: "fst vr \<in> set views" "upper (tv_symbol (fst vr)) \<in> upper ` set (universe cfg)"
    "risk_on_spec (fst vr) (get_or (vol_enter_max_pct cfg) 4)"
    by (auto simp: entry_views_def classify_risk_on)
  obtain usd0 where usd0: "vol_scaled_size (ps_nav_usd portfolio) (tv_vol_24h_pct (fst vr)) cfg
      (ladder_rung cfg (ps_drawdown_pct portfolio) = HalveSize) = Inr usd0"
      "usd = min usd0 (exposure_room portfolio cfg * ps_nav_usd portfolio)"
    using vr(3) by (auto simp: entry_size_def map_sum_def split: sum.splits)
  have amount: "i_amount_usd i = py_round usd 2" "i_to_token i = upper (tv_symbol (fst vr))"
    using vr(5) by (simp_all add: entry_intent_def)
  have "py_round 1 2 \<le> py_round usd 2" using vr(4) by (rule py_round_mono)
  moreover have "py_round 1 2 = 1" by (simp add: py_round_def round_half_even_def)
  moreover have "usd \<le> max_single_trade_usd (risk cfg)" "usd \<le> exposure_room portfolio cfg * ps_nav_usd portfolio"
    using vol_scaled_size_upper(1) [OF usd0(1) assms(3-5)] usd0(2) by simp_all
  moreover have "\<forall>sp \<in> set (ps_positions portfolio). \<not> exit_now views portfolio cfg now_ts sp"
    using Enter(1) by (auto simp: find_None_iff)
  ultimately show ?thesis
    using Enter(2) v vr(2) amount py_round2_upper [of usd] unfolding can_take_risk_def by auto
qed (use assms(2) in auto)

theorem entry_justified_witness:
  "\<exists>i. decide [ex_view_token ''ETH'' 2000 1 1 2] (ex_portfolio [] 0) bnb_config 60 ''USDT'' ''bsc'' = Inr i \<and>
     1 \<le> i_amount_usd i \<and> i_amount_usd i \<le> 100 + 1 / 200"
proof -
  let ?d = "decide [ex_view_token ''ETH'' 2000 1 1 2] (ex_portfolio [] 0) bnb_config 60 ''USDT'' ''bsc''"
  have "(case ?d of Inr i \<Rightarrow> i_action i = Enter | Inl _ \<Rightarrow> False)" by code_simp
  then obtain i where i: "?d = Inr i" "i_action i = Enter" by (cases ?d) auto
  have "0 \<le> get_or (min_single_trade_pct (risk bnb_config)) (1 / 100)"
    "get_or (min_single_trade_pct (risk bnb_config)) (1 / 100)
      \<le> get_or (max_single_trade_pct (risk bnb_config)) (3 / 100)"
    "0 \<le> ps_nav_usd (ex_portfolio [] 0)" "max_single_trade_usd (risk bnb_config) = 100"
    by (simp_all add: bnb_config_def ex_portfolio_def)
  with entry_justified [OF i] i(1) show ?thesis by auto
qed

text \<open>
  At the no-new-risk rung and above the strategy takes no risk: it never enters, and a rebalance only
  sells into the quote token; in stablecoin mode it exits or holds.
\<close>

theorem no_new_risk_intents:
  assumes "decide views portfolio cfg now_ts quote chain = Inr i"
    and "NoNewRisk \<le> ladder_rung cfg (ps_drawdown_pct portfolio)"
  shows "i_action i \<noteq> Enter \<and> i_to_token i = quote \<and>
    (ladder_rung cfg (ps_drawdown_pct portfolio) = StablecoinMode \<longrightarrow> i_action i \<in> {Exit, HoldIntent})"
proof -
  have no: "\<not> can_take_risk (ladder_rung cfg (ps_drawdown_pct portfolio)) room" for room
    using assms(2) by (auto simp: can_take_risk_def less_eq_rung_def rung_level_def)
  from assms(1) show ?thesis
    by (cases rule: decide_cases) (use no find_rebalance_action in \<open>auto dest: find_rebalance_action\<close>)
qed

theorem no_new_risk_intents_witness:
  "\<exists>i. decide [ex_view_token ''ETH'' 2000 1 1 2] (ex_portfolio [] (5 / 2)) bnb_config 60 ''USDT'' ''bsc'' = Inr i
     \<and> i_to_token i = ''USDT''"
proof -
  let ?pf = "ex_portfolio [] (5 / 2)"
  let ?d = "decide [ex_view_token ''ETH'' 2000 1 1 2] ?pf bnb_config 60 ''USDT'' ''bsc''"
  have "\<not> isl ?d" by code_simp
  then obtain i where i: "?d = Inr i" by (cases ?d) auto
  moreover have "NoNewRisk \<le> ladder_rung bnb_config (ps_drawdown_pct ?pf)" by code_simp
  ultimately show ?thesis using no_new_risk_intents by blast
qed

text \<open>
  The strategy always answers: with a non-zero volatility ceiling \<open>decide\<close> raises nothing, whatever
  the market views and the portfolio.
\<close>

theorem decide_total:
  assumes "get_or (vol_enter_max_pct cfg) 4 \<noteq> 0"
  shows "\<exists>i. decide views portfolio cfg now_ts quote chain = Inr i"
proof -
  obtain e where "find_entry cfg (ladder_rung cfg (ps_drawdown_pct portfolio)) portfolio
      (exposure_room portfolio cfg) quote chain (rank_entries (entry_views views cfg) cfg) = Inr e"
    using find_entry_total [OF assms] by blast
  then show ?thesis by (auto simp: decide_def Let_def split: option.splits)
qed

theorem decide_total_witness:
  "\<exists>i. decide [] (ex_portfolio [] 0) bnb_config 0 ''USDT'' ''bsc'' = Inr i"
  by (rule decide_total) (simp add: bnb_config_def)

end
