(* ===== verification/Engine.thy ===== *)
theory Engine
  imports Survival Gate
begin

text \<open>
  \<open>agent/policy/engine.py\<close>: the policy engine. It allows, clamps or rejects a decision: stale data,
  committed tokens and pairs, the drawdown ladder, the exposure cap, the rate limit, the size caps. The
  state is the set-up engine (\<open>PolicyEngine.__init__\<close>), and \<open>check\<close> is a pure function. The reasons are
  kept as texts because \<open>core.tick\<close> classifies a rejection by the words in it; the dash of the hold
  reason is written as a hyphen.
\<close>

record portfolio_view =
  pv_nav_usd :: real
  pv_drawdown_pct :: real
  pv_risky_exposure_pct :: real
  pv_trades_last_hour :: int
  pv_seconds_since_last_trade :: real

record market_view =
  mv_data_age_s :: real
  mv_regime :: string

datatype verdict_action = Allow | Clamp | Reject

definition verdict_action_text :: "verdict_action \<Rightarrow> string" where
  "verdict_action_text a = (case a of Allow \<Rightarrow> ''allow'' | Clamp \<Rightarrow> ''clamp'' | Reject \<Rightarrow> ''reject'')"

record policy_verdict =
  v_action :: verdict_action
  v_kind :: string
  v_final_amount_usd :: real
  v_reason :: string
  v_ladder_rung :: rung

definition allowed :: "policy_verdict \<Rightarrow> bool" where
  "allowed v = (v_action v \<in> {Allow, Clamp})"

record policy_engine =
  pe_risk :: risk_cfg
  pe_quote :: "string set"
  pe_allowed_tokens :: "string set"
  pe_allowed_pairs :: "(string \<times> string \<times> string) set"
  pe_ladder :: "ladder_entry list"
  pe_max_data_age :: int

definition init_engine :: "config \<Rightarrow> policy_engine" where
  "init_engine cfg = \<lparr>
     pe_risk = risk cfg,
     pe_quote = upper ` set (get_or (quote_tokens cfg) [''USDT'', ''USDC'']),
     pe_allowed_tokens = upper ` set (allowed_tokens cfg),
     pe_allowed_pairs = (\<lambda>(c, f, t). (c, upper f, upper t)) ` set (allowed_pairs cfg),
     pe_ladder = sort_key at_pct (drawdown_ladder cfg),
     pe_max_data_age = get_or (max_data_age_seconds cfg) 600\<rparr>"

section \<open>Helpers\<close>

definition is_stable :: "policy_engine \<Rightarrow> string \<Rightarrow> bool" where
  "is_stable e token = (upper token \<in> pe_quote e)"

definition risk_increasing :: "policy_engine \<Rightarrow> decision \<Rightarrow> bool" where
  "risk_increasing e d =
     (d_side d = Buy \<and> is_stable e (d_from_token d) \<and> \<not> is_stable e (d_to_token d))"

definition risk_reducing :: "policy_engine \<Rightarrow> decision \<Rightarrow> bool" where
  "risk_reducing e d =
     (d_side d = Sell \<and> \<not> is_stable e (d_from_token d) \<and> is_stable e (d_to_token d))"

definition engine_rung :: "policy_engine \<Rightarrow> real \<Rightarrow> rung" where
  "engine_rung e drawdown_pct =
     foldl (\<lambda>rung r. if at_pct r \<le> drawdown_pct then le_action r else rung) RNone (pe_ladder e)"

section \<open>The check\<close>

definition reject :: "rung \<Rightarrow> string \<Rightarrow> policy_verdict" where
  "reject rung reason = \<lparr>v_action = Reject, v_kind = ''reject'', v_final_amount_usd = 0,
     v_reason = reason, v_ladder_rung = rung\<rparr>"

definition finalise :: "policy_engine \<Rightarrow> portfolio_view \<Rightarrow> real \<Rightarrow> rung \<Rightarrow> string \<Rightarrow> policy_verdict" where
  "finalise e pf amount rung base_reason =
     (let max_single = max_single_trade_usd (pe_risk e);
          max_by_pct = pv_nav_usd pf * get_or (max_single_trade_pct (pe_risk e)) (3 / 100);
          cap0 = (if 0 < pv_nav_usd pf then min max_single max_by_pct else max_single);
          cap = (if rung = HalveSize then cap0 / 2 else cap0);
          final = (if cap < amount then cap else amount);
          is_clamped = cap < amount;
          base_clamped = sublist ''clamped'' base_reason in
      if is_clamped \<or> base_clamped
      then \<lparr>v_action = Clamp, v_kind = ''clamp'', v_final_amount_usd = py_round final 2,
             v_reason = (if base_clamped then base_reason
                 else ''clamped '' @ fmt_f 2 amount @ ''->'' @ fmt_f 2 final @ '' to respect caps'') @
               (if rung = HalveSize then '' (drawdown ladder: size halved)'' else []),
             v_ladder_rung = rung\<rparr>
      else \<lparr>v_action = Allow, v_kind = ''trade'', v_final_amount_usd = py_round final 2,
             v_reason = base_reason, v_ladder_rung = rung\<rparr>)"

definition max_risky :: "policy_engine \<Rightarrow> real" where
  "max_risky e = get_or (max_risky_exposure_pct (pe_risk e)) (20 / 100)"

definition check :: "policy_engine \<Rightarrow> decision \<Rightarrow> portfolio_view \<Rightarrow> market_view \<Rightarrow> policy_verdict" where
  "check e d pf mkt =
     (if \<not> is_trade d
      then \<lparr>v_action = Allow, v_kind = ''hold'', v_final_amount_usd = 0,
             v_reason = ''hold - no action'', v_ladder_rung = RNone\<rparr>
      else
      let ft = upper (d_from_token d); tt = upper (d_to_token d);
          rung = engine_rung e (pv_drawdown_pct pf);
          room_pct = max 0 (max_risky e - pv_risky_exposure_pct pf);
          exposure_applies = (risk_increasing e d \<and> 0 < pv_nav_usd pf) in
      if of_int (pe_max_data_age e) < mv_data_age_s mkt
      then reject rung (''stale data: '' @ fmt_f 0 (mv_data_age_s mkt) @ ''s > '' @
             show_int (pe_max_data_age e) @ ''s cap'')
      else if ft \<notin> pe_allowed_tokens e \<or> tt \<notin> pe_allowed_tokens e
      then reject rung (''rule adherence: token '' @ (if ft \<notin> pe_allowed_tokens e then ft else tt) @
             '' not in committed whitelist'')
      else if (d_chain d, ft, tt) \<notin> pe_allowed_pairs e
      then reject rung (''rule adherence: pair '' @ ft @ ''->'' @ tt @ '' on '' @ d_chain d @
             '' not committed'')
      else if rung = StablecoinMode \<and> \<not> risk_reducing e d
      then reject rung (''stablecoin mode (drawdown '' @ fmt_f 2 (pv_drawdown_pct pf) @
             ''%): only de-risking sells allowed'')
      else if rung = NoNewRisk \<and> risk_increasing e d
      then reject rung (''no-new-risk rung (drawdown '' @ fmt_f 2 (pv_drawdown_pct pf) @
             ''%): risk-increasing trade blocked'')
      else if exposure_applies \<and> room_pct \<le> 0
      then reject rung (''risky exposure '' @ fmt_f 0 (pv_risky_exposure_pct pf * 100) @
             ''% at cap '' @ fmt_f 0 (max_risky e * 100) @ ''%'')
      else if exposure_applies \<and> room_pct < d_amount_usd d / pv_nav_usd pf
      then finalise e pf (room_pct * pv_nav_usd pf) rung
             (''clamped to exposure room ('' @ fmt_f 1 (room_pct * 100) @ ''% of NAV)'')
      else if max_trades_per_hour (pe_risk e) \<le> pv_trades_last_hour pf
      then reject rung (''rate limit: '' @ show_int (pv_trades_last_hour pf) @
             '' trades this hour >= '' @ show_int (max_trades_per_hour (pe_risk e)))
      else if pv_seconds_since_last_trade pf < of_int (min_trade_interval_seconds (pe_risk e))
      then reject rung (''rate limit: '' @ fmt_f 0 (pv_seconds_since_last_trade pf) @
             ''s since last < '' @ show_int (min_trade_interval_seconds (pe_risk e)) @ ''s'')
      else finalise e pf (d_amount_usd d) rung ''within policy'')"

section \<open>What the checks mean\<close>

text \<open>
  The engine's promise, without the order of the checks: which decisions it may let through, and the
  amount it approves.
\<close>

definition fresh :: "policy_engine \<Rightarrow> market_view \<Rightarrow> bool" where
  "fresh e mkt = (mv_data_age_s mkt \<le> of_int (pe_max_data_age e))"

definition committed_trade :: "policy_engine \<Rightarrow> decision \<Rightarrow> bool" where
  "committed_trade e d =
     (upper (d_from_token d) \<in> pe_allowed_tokens e \<and> upper (d_to_token d) \<in> pe_allowed_tokens e \<and>
      (d_chain d, upper (d_from_token d), upper (d_to_token d)) \<in> pe_allowed_pairs e)"

definition ladder_permits :: "policy_engine \<Rightarrow> decision \<Rightarrow> real \<Rightarrow> bool" where
  "ladder_permits e d drawdown =
     (case engine_rung e drawdown of
        StablecoinMode \<Rightarrow> risk_reducing e d
      | NoNewRisk \<Rightarrow> \<not> risk_increasing e d
      | _ \<Rightarrow> True)"

definition within_rate :: "policy_engine \<Rightarrow> portfolio_view \<Rightarrow> bool" where
  "within_rate e pf =
     (pv_trades_last_hour pf < max_trades_per_hour (pe_risk e) \<and>
      of_int (min_trade_interval_seconds (pe_risk e)) \<le> pv_seconds_since_last_trade pf)"

text \<open>The exposure room in USD, for the trades that the exposure cap constrains.\<close>

definition exposure_capped :: "policy_engine \<Rightarrow> decision \<Rightarrow> portfolio_view \<Rightarrow> bool" where
  "exposure_capped e d pf = (risk_increasing e d \<and> 0 < pv_nav_usd pf)"

definition room_usd :: "policy_engine \<Rightarrow> portfolio_view \<Rightarrow> real" where
  "room_usd e pf = (max_risky e - pv_risky_exposure_pct pf) * pv_nav_usd pf"

definition trade_cap :: "policy_engine \<Rightarrow> portfolio_view \<Rightarrow> real" where
  "trade_cap e pf =
     (let usd = max_single_trade_usd (pe_risk e);
          pct = get_or (max_single_trade_pct (pe_risk e)) (3 / 100);
          cap = (if 0 < pv_nav_usd pf then min usd (pct * pv_nav_usd pf) else usd)
      in if engine_rung e (pv_drawdown_pct pf) = HalveSize then cap / 2 else cap)"

definition policy_permits :: "policy_engine \<Rightarrow> decision \<Rightarrow> portfolio_view \<Rightarrow> market_view \<Rightarrow> bool" where
  "policy_permits e d pf mkt =
     (fresh e mkt \<and> committed_trade e d \<and> ladder_permits e d (pv_drawdown_pct pf) \<and>
      (if exposure_capped e d pf \<and> room_usd e pf < d_amount_usd d then 0 < room_usd e pf
       else (exposure_capped e d pf \<longrightarrow> 0 < room_usd e pf) \<and> within_rate e pf))"

definition approved_amount :: "policy_engine \<Rightarrow> decision \<Rightarrow> portfolio_view \<Rightarrow> real" where
  "approved_amount e d pf =
     min (if exposure_capped e d pf then min (d_amount_usd d) (room_usd e pf) else d_amount_usd d)
       (trade_cap e pf)"

lemma engine_rung_init [simp]: "engine_rung (init_engine cfg) dd = ladder_rung cfg dd"
  by (simp add: engine_rung_def init_engine_def ladder_rung_def)

lemma allowed_reject [simp]: "\<not> allowed (reject rung reason)"
  by (simp add: allowed_def reject_def)

lemma allowed_finalise [simp]: "allowed (finalise e pf amount rung reason)"
  by (simp add: allowed_def finalise_def Let_def)

lemma finalise_amount:
  "v_final_amount_usd (finalise e pf amount (engine_rung e (pv_drawdown_pct pf)) reason) =
     py_round (min amount (trade_cap e pf)) 2"
  by (simp add: finalise_def trade_cap_def Let_def min_def mult.commute)

lemma room_pct_pos:
  "0 < pv_nav_usd pf \<Longrightarrow> max 0 (max_risky e - pv_risky_exposure_pct pf) \<le> 0 \<longleftrightarrow> room_usd e pf \<le> 0"
  by (auto simp: room_usd_def mult_le_0_iff)

lemma room_pct_less:
  assumes "0 < pv_nav_usd pf" "0 < max_risky e - pv_risky_exposure_pct pf"
  shows "max 0 (max_risky e - pv_risky_exposure_pct pf) < a / pv_nav_usd pf \<longleftrightarrow> room_usd e pf < a"
  using assms by (simp add: room_usd_def pos_less_divide_eq)

lemma max_room_usd:
  "0 < max_risky e - pv_risky_exposure_pct pf \<Longrightarrow>
    max 0 (max_risky e - pv_risky_exposure_pct pf) * pv_nav_usd pf = room_usd e pf"
  by (simp add: room_usd_def)

text \<open>
  The check, as a table over the promise: one branch that finalises at the exposure room, one at the
  requested amount, and otherwise a rejection.
\<close>

definition static_pass :: "policy_engine \<Rightarrow> decision \<Rightarrow> portfolio_view \<Rightarrow> market_view \<Rightarrow> bool" where
  "static_pass e d pf mkt =
     (fresh e mkt \<and> committed_trade e d \<and> ladder_permits e d (pv_drawdown_pct pf))"

lemmas check_defs = check_def Let_def static_pass_def fresh_def committed_trade_def ladder_permits_def
  within_rate_def

lemma check_blocked:
  assumes "is_trade d" "\<not> static_pass e d pf mkt"
  shows "\<exists>reason. check e d pf mkt = reject (engine_rung e (pv_drawdown_pct pf)) reason"
proof -
  let ?ft = "upper (d_from_token d)" and ?tt = "upper (d_to_token d)"
  let ?tokens = "?ft \<in> pe_allowed_tokens e \<and> ?tt \<in> pe_allowed_tokens e"
  consider "\<not> fresh e mkt" | "fresh e mkt" "\<not> ?tokens"
    | "fresh e mkt" "?tokens" "(d_chain d, ?ft, ?tt) \<notin> pe_allowed_pairs e"
    | "fresh e mkt" "committed_trade e d" "engine_rung e (pv_drawdown_pct pf) = StablecoinMode" "\<not> risk_reducing e d"
    | "fresh e mkt" "committed_trade e d" "engine_rung e (pv_drawdown_pct pf) = NoNewRisk" "risk_increasing e d"
    using assms(2) unfolding static_pass_def committed_trade_def ladder_permits_def
    by (cases "engine_rung e (pv_drawdown_pct pf)") auto
  then show ?thesis
    by cases (insert assms(1), auto simp: check_def Let_def fresh_def committed_trade_def)
qed

lemma check_no_room:
  assumes "is_trade d" "static_pass e d pf mkt" "exposure_capped e d pf" "room_usd e pf \<le> 0"
  shows "\<exists>reason. check e d pf mkt = reject (engine_rung e (pv_drawdown_pct pf)) reason"
proof -
  have ex: "risk_increasing e d" "0 < pv_nav_usd pf" using assms(3) by (auto simp: exposure_capped_def)
  with assms(4) have "max 0 (max_risky e - pv_risky_exposure_pct pf) \<le> 0" by (simp only: room_pct_pos)
  with assms(1,2) ex show ?thesis by (auto simp: check_defs split: rung.splits)
qed

lemma check_room:
  assumes "is_trade d" "static_pass e d pf mkt" "exposure_capped e d pf" "0 < room_usd e pf"
    "room_usd e pf < d_amount_usd d"
  shows "\<exists>reason. check e d pf mkt =
    finalise e pf (room_usd e pf) (engine_rung e (pv_drawdown_pct pf)) (''clamped'' @ reason)"
proof -
  have ex: "risk_increasing e d" "0 < pv_nav_usd pf" using assms(3) by (auto simp: exposure_capped_def)
  with assms(4) have pos: "0 < max_risky e - pv_risky_exposure_pct pf"
    by (auto simp: room_usd_def zero_less_mult_iff)
  let ?m = "max 0 (max_risky e - pv_risky_exposure_pct pf)"
  have less: "?m < d_amount_usd d / pv_nav_usd pf"
    using assms(5) ex pos by (simp only: room_pct_less)
  have "\<not> ?m \<le> 0" using pos by simp
  then have "\<exists>reason. check e d pf mkt =
      finalise e pf (?m * pv_nav_usd pf) (engine_rung e (pv_drawdown_pct pf)) (''clamped'' @ reason)"
    using assms(1,2) ex less unfolding check_defs by (auto split: rung.splits)
  then show ?thesis by (simp only: max_room_usd [OF pos])
qed

lemma check_full:
  assumes "is_trade d" "static_pass e d pf mkt"
    "exposure_capped e d pf \<Longrightarrow> 0 < room_usd e pf \<and> d_amount_usd d \<le> room_usd e pf"
  shows "if within_rate e pf
    then check e d pf mkt =
      finalise e pf (d_amount_usd d) (engine_rung e (pv_drawdown_pct pf)) ''within policy''
    else \<exists>reason. check e d pf mkt = reject (engine_rung e (pv_drawdown_pct pf)) reason"
proof -
  let ?m = "max 0 (max_risky e - pv_risky_exposure_pct pf)"
  have "0 < max_risky e - pv_risky_exposure_pct pf" "d_amount_usd d \<le> room_usd e pf"
    if "risk_increasing e d" "0 < pv_nav_usd pf"
    using assms(3) that by (auto simp: exposure_capped_def room_usd_def zero_less_mult_iff)
  then have "\<not> ?m \<le> 0" "\<not> ?m < d_amount_usd d / pv_nav_usd pf"
    if "risk_increasing e d" "0 < pv_nav_usd pf"
    using that room_pct_less [of pf e "d_amount_usd d"] by auto
  then have "\<not> (risk_increasing e d \<and> 0 < pv_nav_usd pf \<and> ?m \<le> 0)"
    "\<not> (risk_increasing e d \<and> 0 < pv_nav_usd pf \<and> ?m < d_amount_usd d / pv_nav_usd pf)"
    by blast+
  then show ?thesis using assms(1,2) unfolding check_defs by (auto split: rung.splits)
qed

lemma check_cases:
  assumes "is_trade d"
  obtains (Room) reason where "policy_permits e d pf mkt" "exposure_capped e d pf"
      "room_usd e pf < d_amount_usd d"
      "check e d pf mkt =
        finalise e pf (room_usd e pf) (engine_rung e (pv_drawdown_pct pf)) (''clamped'' @ reason)"
  | (Full) "policy_permits e d pf mkt" "\<not> (exposure_capped e d pf \<and> room_usd e pf < d_amount_usd d)"
      "check e d pf mkt =
        finalise e pf (d_amount_usd d) (engine_rung e (pv_drawdown_pct pf)) ''within policy''"
  | (Rejected) reason where "\<not> policy_permits e d pf mkt"
      "check e d pf mkt = reject (engine_rung e (pv_drawdown_pct pf)) reason"
proof -
  have permits: "policy_permits e d pf mkt \<longleftrightarrow> static_pass e d pf mkt \<and>
      (if exposure_capped e d pf \<and> room_usd e pf < d_amount_usd d then 0 < room_usd e pf
       else (exposure_capped e d pf \<longrightarrow> 0 < room_usd e pf) \<and> within_rate e pf)"
    by (simp add: policy_permits_def static_pass_def)
  consider "\<not> static_pass e d pf mkt"
    | "static_pass e d pf mkt" "exposure_capped e d pf" "room_usd e pf \<le> 0"
    | "static_pass e d pf mkt" "exposure_capped e d pf" "0 < room_usd e pf" "room_usd e pf < d_amount_usd d"
    | "static_pass e d pf mkt"
      "exposure_capped e d pf \<Longrightarrow> 0 < room_usd e pf \<and> d_amount_usd d \<le> room_usd e pf"
    by force
  then show thesis
  proof cases
    case 1
    with check_blocked [OF assms 1] permits show thesis using Rejected by blast
  next
    case 2
    then have "\<not> policy_permits e d pf mkt" using permits by auto
    with check_no_room [OF assms 2] show thesis using Rejected by blast
  next
    case 3
    then have "policy_permits e d pf mkt" using permits by auto
    with check_room [OF assms 3] 3 show thesis using Room by blast
  next
    case 4
    have "\<not> (exposure_capped e d pf \<and> room_usd e pf < d_amount_usd d)"
      "policy_permits e d pf mkt \<longleftrightarrow> within_rate e pf"
      using 4 permits by auto
    with check_full [OF assms 4] show thesis using Full Rejected by (auto split: if_splits)
  qed
qed

section \<open>The properties of the engine\<close>

lemma allowed_check:
  "is_trade d \<Longrightarrow> allowed (check e d pf mkt) \<longleftrightarrow> policy_permits e d pf mkt"
  by (rule check_cases [of d e pf mkt]) simp_all

lemma check_amount:
  assumes "is_trade d" "allowed (check e d pf mkt)"
  shows "v_final_amount_usd (check e d pf mkt) = py_round (approved_amount e d pf) 2"
  using assms(1)
proof (rule check_cases [of d e pf mkt])
  fix reason
  assume "exposure_capped e d pf" "room_usd e pf < d_amount_usd d"
    "check e d pf mkt =
        finalise e pf (room_usd e pf) (engine_rung e (pv_drawdown_pct pf)) (''clamped'' @ reason)"
  then show ?thesis by (simp add: finalise_amount approved_amount_def)
next
  assume "\<not> (exposure_capped e d pf \<and> room_usd e pf < d_amount_usd d)"
    "check e d pf mkt =
      finalise e pf (d_amount_usd d) (engine_rung e (pv_drawdown_pct pf)) ''within policy''"
  then show ?thesis by (auto simp: finalise_amount approved_amount_def)
next
  fix reason
  assume "check e d pf mkt = reject (engine_rung e (pv_drawdown_pct pf)) reason"
  with assms(2) show ?thesis by simp
qed

lemma check_capped:
  assumes "is_trade d" "allowed (check e d pf mkt)"
  shows "v_final_amount_usd (check e d pf mkt) \<le> trade_cap e pf + 1 / 200"
    and "v_final_amount_usd (check e d pf mkt) \<le> d_amount_usd d + 1 / 200"
    and "exposure_capped e d pf \<Longrightarrow> v_final_amount_usd (check e d pf mkt) \<le> room_usd e pf + 1 / 200"
  using py_round2_upper [of "approved_amount e d pf"]
  by (auto simp: check_amount [OF assms] approved_amount_def)

lemma check_hold: "\<not> is_trade d \<Longrightarrow> v_kind (check e d pf mkt) = ''hold'' \<and> allowed (check e d pf mkt)"
  by (simp add: check_def allowed_def)

lemma finalise_kind:
  "v_kind (finalise e pf amount rung reason) =
     (case v_action (finalise e pf amount rung reason) of
        Allow \<Rightarrow> ''trade'' | Clamp \<Rightarrow> ''clamp'' | Reject \<Rightarrow> ''reject'')"
  unfolding finalise_def Let_def by (simp split: if_split)

lemma reject_kind: "v_kind (reject rung reason) = ''reject''" "v_action (reject rung reason) = Reject"
  by (simp_all add: reject_def)

lemma check_kinds:
  "v_kind (check e d pf mkt) =
     (if \<not> is_trade d then ''hold'' else
      case v_action (check e d pf mkt) of Allow \<Rightarrow> ''trade'' | Clamp \<Rightarrow> ''clamp'' | Reject \<Rightarrow> ''reject'')"
proof (cases "is_trade d")
  case True
  then show ?thesis
    by (rule check_cases [of d e pf mkt]) (simp_all add: True finalise_kind reject_kind)
qed (simp add: check_def)

lemma trade_cap_le_usd:
  assumes "0 \<le> max_single_trade_usd (pe_risk e)"
  shows "trade_cap e pf \<le> max_single_trade_usd (pe_risk e)"
proof -
  have "min (max_single_trade_usd (pe_risk e)) x \<le> max_single_trade_usd (pe_risk e)" for x by simp
  then show ?thesis using assms by (auto simp: trade_cap_def Let_def min_le_iff_disj)
qed

text \<open>The engine is a risk gate: its view is the pair of portfolio and market, its slack half a cent.\<close>

interpretation engine_gate: risk_gate "\<lambda>d (pf, mkt). check e d pf mkt" allowed
    "\<lambda>d v. v_final_amount_usd v" "committed_trade e" "\<lambda>(pf, mkt). trade_cap e pf" "1 / 200" for e
proof unfold_locales
  fix d and p :: "portfolio_view \<times> market_view"
  obtain pf mkt where p: "p = (pf, mkt)" by fastforce
  show "committed_trade e d"
    if "is_trade d" "allowed ((\<lambda>(pf, mkt). check e d pf mkt) p)"
    using that by (simp add: p allowed_check policy_permits_def)
  show "v_final_amount_usd ((\<lambda>(pf, mkt). check e d pf mkt) p) \<le> (\<lambda>(pf, mkt). trade_cap e pf) p + 1 / 200"
    if "is_trade d" "allowed ((\<lambda>(pf, mkt). check e d pf mkt) p)"
    using that check_capped(1) by (simp add: p)
  show "allowed ((\<lambda>(pf, mkt). check e d pf mkt) p)" if "\<not> is_trade d"
    using that check_hold by (simp add: p)
qed

lemma finalise_action:
  "v_action (finalise e pf amount (engine_rung e (pv_drawdown_pct pf)) reason) =
     (if trade_cap e pf < amount \<or> sublist ''clamped'' reason then Clamp else Allow)"
  by (simp add: finalise_def trade_cap_def Let_def mult.commute)

lemma check_action:
  assumes "is_trade d" "allowed (check e d pf mkt)"
  shows "v_action (check e d pf mkt) = (if approved_amount e d pf < d_amount_usd d then Clamp else Allow)"
  using assms(1)
proof (rule check_cases [of d e pf mkt])
  fix reason
  assume "exposure_capped e d pf" "room_usd e pf < d_amount_usd d" "check e d pf mkt =
    finalise e pf (room_usd e pf) (engine_rung e (pv_drawdown_pct pf)) (''clamped'' @ reason)"
  moreover have "sublist ''clamped'' (''clamped'' @ reason)"
    by (rule prefix_imp_sublist) (rule prefixI, rule refl)
  ultimately show ?thesis by (auto simp: finalise_action approved_amount_def)
next
  assume *: "\<not> (exposure_capped e d pf \<and> room_usd e pf < d_amount_usd d)" "check e d pf mkt =
    finalise e pf (d_amount_usd d) (engine_rung e (pv_drawdown_pct pf)) ''within policy''"
  have "\<not> sublist ''clamped'' ''within policy''" by code_simp
  with * show ?thesis by (auto simp: finalise_action approved_amount_def)
next
  fix reason
  assume "check e d pf mkt = reject (engine_rung e (pv_drawdown_pct pf)) reason"
  with assms(2) show ?thesis by simp
qed

section \<open>Claims\<close>

text \<open>A concrete decision and views on the committed configuration, for the examples.\<close>

definition ex_buy :: "real \<Rightarrow> decision" where
  "ex_buy usd = \<lparr>d_side = Buy, d_chain = ''bsc'', d_from_token = ''USDT'', d_to_token = ''WBNB'',
     d_amount_usd = usd, d_confidence = 7 / 10, d_rationale = ''enter''\<rparr>"

definition ex_view :: "real \<Rightarrow> int \<Rightarrow> portfolio_view" where
  "ex_view exposure trades = \<lparr>pv_nav_usd = 1000, pv_drawdown_pct = 0, pv_risky_exposure_pct = exposure,
     pv_trades_last_hour = trades, pv_seconds_since_last_trade = 3600\<rparr>"

definition ex_market :: "real \<Rightarrow> market_view" where
  "ex_market age = \<lparr>mv_data_age_s = age, mv_regime = ''risk_on''\<rparr>"

text \<open>
  C14. The engine lets a trade through exactly when the policy permits it: fresh data, committed tokens
  and pair, a rung of the drawdown ladder that admits it, exposure room, and (unless the trade is cut
  to the exposure room) the rate limit.
\<close>

theorem engine_allows_iff:
  assumes "is_trade d"
  shows "allowed (check e d pf mkt) \<longleftrightarrow> policy_permits e d pf mkt"
  using assms by (rule allowed_check)

theorem engine_allows_iff_witness:
  "allowed (check (init_engine bnb_config) (ex_buy 20) (ex_view 0 0) (ex_market 10)) \<and>
   \<not> allowed (check (init_engine bnb_config) (ex_buy 20) (ex_view 0 0) (ex_market 601)) \<and>
   \<not> allowed (check (init_engine bnb_config) (ex_buy 20) (ex_view 0 4) (ex_market 10))"
proof -
  have "is_trade (ex_buy 20)" by code_simp
  note * = engine_allows_iff [OF this, of "init_engine bnb_config"]
  have "policy_permits (init_engine bnb_config) (ex_buy 20) (ex_view 0 0) (ex_market 10)"
    "\<not> policy_permits (init_engine bnb_config) (ex_buy 20) (ex_view 0 0) (ex_market 601)"
    "\<not> policy_permits (init_engine bnb_config) (ex_buy 20) (ex_view 0 4) (ex_market 10)"
    by code_simp+
  then show ?thesis by (simp add: *)
qed

text \<open>
  What an allowed trade is approved for: the requested amount, cut to the exposure room when it buys
  risk and to the size cap of the rung, rounded to cents; the verdict is a clamp exactly when something
  was cut.
\<close>

theorem engine_approves:
  assumes "is_trade d" "allowed (check e d pf mkt)"
  shows "v_final_amount_usd (check e d pf mkt) = py_round (approved_amount e d pf) 2 \<and>
    v_action (check e d pf mkt) = (if approved_amount e d pf < d_amount_usd d then Clamp else Allow) \<and>
    v_final_amount_usd (check e d pf mkt) \<le> trade_cap e pf + 1 / 200"
  using check_amount [OF assms] check_action [OF assms] check_capped(1) [OF assms] by simp

theorem engine_approves_witness:
  "v_final_amount_usd (check (init_engine bnb_config) (ex_buy 80) (ex_view 0 0) (ex_market 10)) = 25 \<and>
   v_action (check (init_engine bnb_config) (ex_buy 80) (ex_view 0 0) (ex_market 10)) = Clamp"
proof -
  have "is_trade (ex_buy 80)"
    "allowed (check (init_engine bnb_config) (ex_buy 80) (ex_view 0 0) (ex_market 10))"
    by code_simp+
  note * = engine_approves [OF this]
  have "py_round (approved_amount (init_engine bnb_config) (ex_buy 80) (ex_view 0 0)) 2 = 25"
    "approved_amount (init_engine bnb_config) (ex_buy 80) (ex_view 0 0) < d_amount_usd (ex_buy 80)"
    by code_simp+
  with * show ?thesis by simp
qed

text \<open>
  C15. Exposure: an allowed purchase of risk leaves the risky share of the NAV at or below the committed
  maximum, up to the half cent that the final rounding may add.
\<close>

theorem engine_exposure_bound:
  assumes "is_trade d" "allowed (check e d pf mkt)" "risk_increasing e d" "0 < pv_nav_usd pf"
  shows "pv_risky_exposure_pct pf + v_final_amount_usd (check e d pf mkt) / pv_nav_usd pf
    \<le> max_risky e + 1 / (200 * pv_nav_usd pf)"
proof -
  have "v_final_amount_usd (check e d pf mkt) \<le> room_usd e pf + 1 / 200"
    using assms by (intro check_capped(3)) (simp_all add: exposure_capped_def)
  then have "v_final_amount_usd (check e d pf mkt) / pv_nav_usd pf \<le> (room_usd e pf + 1 / 200) / pv_nav_usd pf"
    using assms(4) by (intro divide_right_mono) simp_all
  also have "\<dots> = max_risky e - pv_risky_exposure_pct pf + 1 / (200 * pv_nav_usd pf)"
    using assms(4) by (simp add: room_usd_def add_divide_distrib)
  finally show ?thesis by simp
qed

theorem engine_exposure_bound_witness:
  "115 / 1000 + v_final_amount_usd (check (init_engine bnb_config) (ex_buy 20) (ex_view (115 / 1000) 0)
     (ex_market 10)) / 1000 \<le> 12 / 100 + 1 / 200000"
proof -
  have "is_trade (ex_buy 20)" "risk_increasing (init_engine bnb_config) (ex_buy 20)"
    "allowed (check (init_engine bnb_config) (ex_buy 20) (ex_view (115 / 1000) 0) (ex_market 10))"
    "max_risky (init_engine bnb_config) = 12 / 100"
    by code_simp+
  with engine_exposure_bound [of "ex_buy 20" "init_engine bnb_config" "ex_view (115 / 1000) 0" "ex_market 10"]
  show ?thesis by (simp add: ex_view_def)
qed

text \<open>
  C16. The drawdown ladder is a ratchet: on a graded ladder, once a drawdown has reached a rung at or above
  no-new-risk, the engine allows no purchase of risk at that or any deeper drawdown; and in stablecoin
  mode it allows de-risking sales only.
\<close>

theorem engine_ladder_ratchet:
  assumes "graded_ladder cfg" "NoNewRisk \<le> ladder_rung cfg dd" "dd \<le> pv_drawdown_pct pf"
    and "is_trade d" "allowed (check (init_engine cfg) d pf mkt)"
  shows "\<not> risk_increasing (init_engine cfg) d \<and>
    (ladder_rung cfg (pv_drawdown_pct pf) = StablecoinMode \<longrightarrow> risk_reducing (init_engine cfg) d)"
proof -
  have "NoNewRisk \<le> ladder_rung cfg (pv_drawdown_pct pf)"
    using assms(2) ladder_rung_mono [OF assms(1,3)] by (rule order_trans)
  moreover have "ladder_permits (init_engine cfg) d (pv_drawdown_pct pf)"
    using assms(4,5) by (simp add: allowed_check policy_permits_def)
  moreover have "risk_reducing (init_engine cfg) d \<Longrightarrow> \<not> risk_increasing (init_engine cfg) d"
    by (simp add: risk_reducing_def risk_increasing_def)
  ultimately show ?thesis
    by (cases "ladder_rung cfg (pv_drawdown_pct pf)")
      (simp_all add: ladder_permits_def less_eq_rung_def rung_level_def)
qed

definition ex_sell :: decision where
  "ex_sell = \<lparr>d_side = Sell, d_chain = ''bsc'', d_from_token = ''WBNB'', d_to_token = ''USDT'',
     d_amount_usd = 20, d_confidence = 9 / 10, d_rationale = ''exit''\<rparr>"

definition ex_deep_view :: portfolio_view where
  "ex_deep_view = \<lparr>pv_nav_usd = 965, pv_drawdown_pct = 35 / 10, pv_risky_exposure_pct = 10 / 100,
     pv_trades_last_hour = 0, pv_seconds_since_last_trade = 3600\<rparr>"

theorem engine_ladder_ratchet_witness:
  "\<not> risk_increasing (init_engine bnb_config) ex_sell \<and> risk_reducing (init_engine bnb_config) ex_sell"
proof -
  have "NoNewRisk \<le> ladder_rung bnb_config 2" "2 \<le> pv_drawdown_pct ex_deep_view" "is_trade ex_sell"
    "allowed (check (init_engine bnb_config) ex_sell ex_deep_view (ex_market 10))"
    "ladder_rung bnb_config (pv_drawdown_pct ex_deep_view) = StablecoinMode"
    by code_simp+
  with engine_ladder_ratchet [OF graded_committed(1), of 2 ex_deep_view ex_sell "ex_market 10"]
  show ?thesis by simp
qed

text \<open>
  A purchase that is cut to the exposure room skips the rate limit: it is allowed however many trades
  the last hour had and however recent the last one is.
\<close>

theorem engine_clamp_skips_rate_limit:
  assumes "is_trade d" "static_pass e d pf mkt" "exposure_capped e d pf" "0 < room_usd e pf"
    "room_usd e pf < d_amount_usd d"
  shows "v_action (check e d (pf\<lparr>pv_trades_last_hour := n, pv_seconds_since_last_trade := s\<rparr>) mkt) = Clamp"
proof -
  let ?pf = "pf\<lparr>pv_trades_last_hour := n, pv_seconds_since_last_trade := s\<rparr>"
  have same: "static_pass e d ?pf mkt" "exposure_capped e d ?pf" "0 < room_usd e ?pf"
    "room_usd e ?pf < d_amount_usd d"
    using assms by (simp_all add: static_pass_def exposure_capped_def room_usd_def)
  obtain reason where "check e d ?pf mkt =
      finalise e ?pf (room_usd e ?pf) (engine_rung e (pv_drawdown_pct ?pf)) (''clamped'' @ reason)"
    using check_room [OF assms(1) same] by blast
  then have "allowed (check e d ?pf mkt)" by simp
  from check_action [OF assms(1) this] same show ?thesis by (simp add: approved_amount_def)
qed

theorem engine_clamp_skips_rate_limit_witness:
  "v_action (check (init_engine bnb_config) (ex_buy 20)
     ((ex_view (115 / 1000) 0)\<lparr>pv_trades_last_hour := 1000, pv_seconds_since_last_trade := 0\<rparr>)
     (ex_market 10)) = Clamp"
  by (rule engine_clamp_skips_rate_limit) code_simp+

text \<open>
  Over any run of decisions, each checked against its own portfolio and market, what the engine
  approves is at most the number of allowed trades times the committed single-trade cap plus half a cent.
\<close>

theorem engine_run_total:
  assumes "0 \<le> max_single_trade_usd (pe_risk e)"
  shows "sum_list (map (\<lambda>(d, p, a). a) (engine_gate.fills e run))
    \<le> real (length (engine_gate.fills e run)) * (max_single_trade_usd (pe_risk e) + 1 / 200)"
  by (rule engine_gate.fills_total) (simp add: trade_cap_le_usd [OF assms] split: prod.split)

theorem engine_run_total_witness:
  "sum_list (map (\<lambda>(d, p, a). a) (engine_gate.fills (init_engine bnb_config)
     (replicate 3 (ex_buy 80, ex_view 0 0, ex_market 10))))
    \<le> real (length (engine_gate.fills (init_engine bnb_config)
        (replicate 3 (ex_buy 80, ex_view 0 0, ex_market 10)))) * (100 + 1 / 200)"
  using engine_run_total [of "init_engine bnb_config" "replicate 3 (ex_buy 80, ex_view 0 0, ex_market 10)"]
  by (simp add: init_engine_def bnb_config_def)

end
