(* ===== verification/Core.thy ===== *)
theory Core
  imports Survival Engine Execlog Abstention
begin

text \<open>
  \<open>agent/core.py\<close>: the decision tick. One intent of the strategy, one verdict of the policy engine, one
  receipt; an abstention when the agent holds or is rejected; an execution when the verdict allows a
  trade; the booking of the fill. The files the tick appends to are the record \<open>world\<close>, with a trace of
  what happened in which order (a receipt written, a state persisted, something broadcast). A Python
  exception is \<open>Inl\<close>, with the world as it was when it was raised.
\<close>

section \<open>The agent's state\<close>

record book_pos =
  bp_qty :: real
  bp_entry_price :: real
  bp_entry_ts :: real

record pending =
  pi_seq :: int
  pi_side :: side
  pi_from_token :: string
  pi_to_token :: string
  pi_amount_usd :: real
  pi_ts :: string

text \<open>The state dictionary; a key that may be absent is an option, and \<open>positions\<close> is \<open>[]\<close> when absent.\<close>

record agent_state =
  st_positions :: "(string \<times> book_pos) list"
  st_nav :: "real option"
  st_portfolio_value_usd :: "real option"
  st_stable_usd :: "real option"
  st_high_water_mark :: "real option"
  st_last_trade_ts :: "real option"
  st_trades_this_week :: "int option"
  st_trades_last_hour :: "int option"
  st_intent_seq :: "int option"
  st_pending_intent :: "pending option"

section \<open>From state and intent to the engine's inputs\<close>

definition STABLES :: "string list" where
  "STABLES = [''USDT'', ''USDC'']"

definition intent_to_decision :: "intent \<Rightarrow> decision" where
  "intent_to_decision i =
     (let s = (case i_action i of
                 Enter \<Rightarrow> Buy
               | Exit \<Rightarrow> Sell
               | Rebalance \<Rightarrow> (if i_to_token i \<in> set STABLES then Sell else Buy)
               | HoldIntent \<Rightarrow> Hold)
      in \<lparr>d_side = s, d_chain = i_chain i, d_from_token = i_from_token i, d_to_token = i_to_token i,
          d_amount_usd = i_amount_usd i, d_confidence = i_confidence i, d_rationale = i_rationale i\<rparr>)"

definition to_position :: "string \<Rightarrow> book_pos \<Rightarrow> position" where
  "to_position symb p = \<lparr>pos_symbol = upper symb, pos_qty = bp_qty p, pos_entry_price = bp_entry_price p,
     pos_entry_ts = bp_entry_ts p\<rparr>"

definition risky_value :: "(string \<rightharpoonup> real) \<Rightarrow> (string \<times> book_pos) list \<Rightarrow> real" where
  "risky_value price ps = dict_sum (\<lambda>symb p. bp_qty p * get_or (price (upper symb)) (bp_entry_price p)) ps"

definition state_nav :: "agent_state \<Rightarrow> real" where
  "state_nav s = get_or (st_nav s) (get_or (st_portfolio_value_usd s) 1000)"

definition drawdown_of :: "real \<Rightarrow> real \<Rightarrow> real" where
  "drawdown_of hwm nav = (if 0 < hwm then max 0 ((hwm - nav) / hwm * 100) else 0)"

text \<open>\<open>wall\<close> is \<open>time.time()\<close>.\<close>

definition seconds_since_trade :: "real \<Rightarrow> agent_state \<Rightarrow> real" where
  "seconds_since_trade wall s =
     (case st_last_trade_ts s of Some t \<Rightarrow> if t \<noteq> 0 then wall - t else 10 ^ 9 | None \<Rightarrow> 10 ^ 9)"

definition build_portfolio_state :: "real \<Rightarrow> agent_state \<Rightarrow> token_view list \<Rightarrow> portfolio_state" where
  "build_portfolio_state wall s views =
     (let price = price_table views;
          positions = foldl (\<lambda>d (symb, p). AList.update (upper symb) (to_position symb p) d) [] (st_positions s);
          risky_usd = risky_value price (st_positions s);
          nav = state_nav s
      in \<lparr>ps_nav_usd = nav, ps_stable_usd = max 0 (nav - risky_usd), ps_positions = positions,
          ps_drawdown_pct = drawdown_of (get_or (st_high_water_mark s) nav) nav,
          ps_risky_exposure_pct = (if 0 < nav then risky_usd / nav else 0),
          ps_trades_this_week = get_or (st_trades_this_week s) 0,
          ps_seconds_since_last_trade = seconds_since_trade wall s\<rparr>)"

section \<open>Booking a fill and marking the NAV\<close>

definition state_stable :: "agent_state \<Rightarrow> real" where
  "state_stable s = get_or (st_stable_usd s) (get_or (st_nav s) 0)"

definition book_buy :: "real \<Rightarrow> real \<Rightarrow> real \<Rightarrow> string \<Rightarrow> (string \<times> book_pos) list \<Rightarrow> (string \<times> book_pos) list" where
  "book_buy px qty now_ts symb ps =
     (case map_of ps symb of
        Some old \<Rightarrow>
          let tot = bp_qty old + qty in
          AList.update symb (old\<lparr>bp_entry_price :=
              (if tot \<noteq> 0 then (bp_entry_price old * bp_qty old + px * qty) / tot else px), bp_qty := tot\<rparr>) ps
      | None \<Rightarrow> AList.update symb \<lparr>bp_qty = qty, bp_entry_price = px, bp_entry_ts = now_ts\<rparr> ps)"

definition book_sell :: "real \<Rightarrow> string \<Rightarrow> book_pos \<Rightarrow> (string \<times> book_pos) list \<Rightarrow> (string \<times> book_pos) list" where
  "book_sell qty symb p ps =
     (let left = bp_qty p - qty in
      if left \<le> 1 / 10 ^ 9 then AList.delete symb ps
      else AList.update symb (p\<lparr>bp_qty := left\<rparr>) ps)"

definition apply_fill :: "agent_state \<Rightarrow> decision \<Rightarrow> real \<Rightarrow> (string \<rightharpoonup> real) \<Rightarrow> real \<Rightarrow> agent_state" where
  "apply_fill s d amount_usd price now_ts =
     (let ps = st_positions s; stable = state_stable s in
      case d_side d of
        Buy \<Rightarrow>
          let symb = upper (d_to_token d); px = get_or (price symb) 0 in
          if 0 < px \<and> amount_usd \<le> stable + 1 / 10 ^ 9
          then s\<lparr>st_positions := book_buy px (amount_usd / px) now_ts symb ps,
                 st_stable_usd := Some (stable - amount_usd)\<rparr>
          else s\<lparr>st_positions := ps, st_stable_usd := Some stable\<rparr>
      | Sell \<Rightarrow>
          let symb = upper (d_from_token d); px = get_or (price symb) 0 in
          (case map_of ps symb of
             Some p \<Rightarrow>
               if 0 < px
               then let qty = min (bp_qty p) (amount_usd / px) in
                    s\<lparr>st_positions := book_sell qty symb p ps, st_stable_usd := Some (stable + qty * px)\<rparr>
               else s\<lparr>st_positions := ps, st_stable_usd := Some stable\<rparr>
           | None \<Rightarrow> s\<lparr>st_positions := ps, st_stable_usd := Some stable\<rparr>)
      | Hold \<Rightarrow> s\<lparr>st_positions := ps, st_stable_usd := Some stable\<rparr>)"

text \<open>\<open>price.get(s.upper()) or p["entry_price"]\<close>: a missing or zero price falls back to the entry price.\<close>

definition mark_price :: "(string \<rightharpoonup> real) \<Rightarrow> string \<Rightarrow> book_pos \<Rightarrow> real" where
  "mark_price price symb p =
     (case price (upper symb) of Some px \<Rightarrow> if px \<noteq> 0 then px else bp_entry_price p | None \<Rightarrow> bp_entry_price p)"

definition marked_nav :: "(string \<rightharpoonup> real) \<Rightarrow> agent_state \<Rightarrow> real" where
  "marked_nav price s = state_stable s + dict_sum (\<lambda>symb p. bp_qty p * mark_price price symb p) (st_positions s)"

definition mark_nav :: "agent_state \<Rightarrow> (string \<rightharpoonup> real) \<Rightarrow> real \<times> agent_state" where
  "mark_nav s price =
     (let nav = marked_nav price s in
      (nav, s\<lparr>st_nav := Some nav, st_high_water_mark := Some (max (get_or (st_high_water_mark s) nav) nav)\<rparr>))"

section \<open>The tick\<close>

datatype event = Receipted string | Persisted agent_state | Sent broadcast

record world =
  w_receipts :: "receipt list"
  w_abstentions :: "abstention list"
  w_executions :: "execution_record list"
  w_trace :: "event list"

record tick_result =
  tr_intent_action :: intent_action
  tr_decision :: decision
  tr_verdict :: verdict_action
  tr_reason :: string
  tr_ladder_rung :: rung
  tr_receipt_hash :: string
  tr_executed :: bool
  tr_abstained :: bool

record executor =
  x_backend :: backend
  x_mode :: exec_mode
  x_slippage_bps :: int

text \<open>
  What a tick is run with: the digest, the committed policy hash, the wall clock, whether a persist
  callback is given, and the executor if there is one.
\<close>

record tick_env =
  te_digest :: digest_fun
  te_policy_hash :: string
  te_wall :: real
  te_persist :: bool
  te_executor :: "executor option"

definition view_json :: "token_view \<Rightarrow> json" where
  "view_json v = JObj
     [(''symbol'', JStr (tv_symbol v)), (''price'', JFloat (tv_price v)), (''pct_1h'', opt_float (tv_pct_1h v)),
      (''pct_4h'', opt_float (tv_pct_4h v)), (''vol_24h_pct'', opt_float (tv_vol_24h_pct v)),
      (''liquidity_usd'', JFloat (tv_liquidity_usd v)), (''spread_bps'', JFloat (tv_spread_bps v)),
      (''ts'', JFloat (tv_ts v)), (''extra'', JObj (tv_extra v))]"

definition inputs_digest :: "digest_fun \<Rightarrow> token_view list \<Rightarrow> real \<Rightarrow> string" where
  "inputs_digest H views drawdown =
     digest H (JObj [(''views'', JList (map view_json views)), (''drawdown'', JFloat drawdown)])"

definition trade_chain :: "config \<Rightarrow> string" where
  "trade_chain cfg = (case find snd (chains cfg) of Some (c, _) \<Rightarrow> c | None \<Rightarrow> ''bsc'')"

text \<open>What the engine is shown.\<close>

definition engine_view :: "agent_state \<Rightarrow> portfolio_state \<Rightarrow> portfolio_view" where
  "engine_view s pstate = \<lparr>pv_nav_usd = ps_nav_usd pstate, pv_drawdown_pct = ps_drawdown_pct pstate,
     pv_risky_exposure_pct = ps_risky_exposure_pct pstate,
     pv_trades_last_hour = get_or (st_trades_last_hour s) 0,
     pv_seconds_since_last_trade = ps_seconds_since_last_trade pstate\<rparr>"

definition engine_market :: "config \<Rightarrow> token_view list \<Rightarrow> real \<Rightarrow> real \<Rightarrow> market_view" where
  "engine_market cfg views data_ts now_ts = \<lparr>mv_data_age_s = max 0 (now_ts - data_ts),
     mv_regime = (if rank_entries views cfg \<noteq> [] then ''risk_on'' else ''risk_off'')\<rparr>"

text \<open>The strategy's intent, the decision it becomes, and the engine's verdict.\<close>

definition tick_decide :: "tick_env \<Rightarrow> config \<Rightarrow> agent_state \<Rightarrow> token_view list \<Rightarrow> real \<Rightarrow> real \<Rightarrow>
    py_error + intent \<times> decision \<times> policy_verdict" where
  "tick_decide env cfg s views data_ts now_ts =
     (case get_or (quote_tokens cfg) [''USDT''] of
        [] \<Rightarrow> Inl IndexError
      | quote # _ \<Rightarrow>
          let pstate = build_portfolio_state (te_wall env) s views in
          (case decide views pstate cfg now_ts quote (trade_chain cfg) of
             Inl e \<Rightarrow> Inl e
           | Inr i \<Rightarrow>
               let d = intent_to_decision i in
               Inr (i, d, check (init_engine cfg) d (engine_view s pstate)
                 (engine_market cfg views data_ts now_ts))))"

definition tick_receipt_args :: "tick_env \<Rightarrow> token_view list \<Rightarrow> real \<Rightarrow> real \<Rightarrow> decision \<Rightarrow> policy_verdict \<Rightarrow>
    receipt_args" where
  "tick_receipt_args env views drawdown now_ts d v =
     \<lparr>ra_policy_hash = te_policy_hash env, ra_kind = v_kind v, ra_decision = decision_json d,
      ra_verdict = (if v_kind v = ''hold'' then ''hold'' else verdict_action_text (v_action v)),
      ra_reason = v_reason v, ra_inputs_digest = inputs_digest (te_digest env) views drawdown,
      ra_ts = iso_utc now_ts\<rparr>"

subsection \<open>Abstentions\<close>

text \<open>The token that the abstention is about: the risky leg of a rejected trade, else the best candidate,
  else the biggest mover.\<close>

definition rejected_leg :: "string list \<Rightarrow> decision \<Rightarrow> policy_verdict \<Rightarrow> string option" where
  "rejected_leg stables d v =
     (if v_action v = Reject \<and> is_trade d
      then (case filter (\<lambda>t. t \<notin> set stables) (map upper [d_from_token d, d_to_token d]) of
              t # _ \<Rightarrow> Some t | [] \<Rightarrow> None)
      else None)"

definition biggest_mover :: "string list \<Rightarrow> token_view list \<Rightarrow> string option" where
  "biggest_mover stables views =
     map_option (\<lambda>v. upper (tv_symbol v)) (max_by (\<lambda>v. \<bar>the (tv_pct_4h v)\<bar>)
       (filter (\<lambda>v. upper (tv_symbol v) \<notin> set stables \<and> tv_pct_4h v \<noteq> None) views))"

definition abstention_symbol :: "config \<Rightarrow> token_view list \<Rightarrow> decision \<Rightarrow> policy_verdict \<Rightarrow> string option" where
  "abstention_symbol cfg views d v =
     (let stables = get_or (quote_tokens cfg) [''USDT'', ''USDC''] in
      case rejected_leg stables d v of
        Some t \<Rightarrow> Some t
      | None \<Rightarrow> (case rank_entries views cfg of
          (c, _) # _ \<Rightarrow> Some (upper (tv_symbol c))
        | [] \<Rightarrow> biggest_mover stables views))"

definition reject_reason_code :: "string \<Rightarrow> string" where
  "reject_reason_code reason =
     (if sublist ''drawdown'' reason \<or> sublist ''stablecoin'' reason then ''drawdown_proximity''
      else if sublist ''stale'' reason then ''stale_data''
      else if sublist ''rate'' reason then ''rate_or_interval''
      else if sublist ''exposure'' reason then ''exposure_full''
      else ''regime_conflict'')"

definition tick_abstention :: "config \<Rightarrow> token_view list \<Rightarrow> real \<Rightarrow> intent \<Rightarrow> decision \<Rightarrow> policy_verdict \<Rightarrow>
    abstention_args option" where
  "tick_abstention cfg views now_ts i d v =
     (if i_action i = HoldIntent \<or> v_action v = Reject
      then (case abstention_symbol cfg views d v of
              None \<Rightarrow> None
            | Some symb \<Rightarrow>
                (case price_table views symb of
                   None \<Rightarrow> None
                 | Some px \<Rightarrow>
                     if symb \<noteq> [] \<and> symb \<notin> set (get_or (quote_tokens cfg) [''USDT'', ''USDC'']) \<and> px \<noteq> 0
                     then Some \<lparr>aa_ts = now_ts, aa_symbol = symb,
                       aa_reason = (if v_action v = Reject then reject_reason_code (v_reason v)
                         else if i_abstain_reason i = [] then ''regime_conflict'' else i_abstain_reason i),
                       aa_side = ''buy'', aa_ref_price = px,
                       aa_size_usd = max_single_trade_usd (risk cfg) * (3 / 10)\<rparr>
                     else None))
      else None)"

subsection \<open>Execution\<close>

definition pending_of :: "int \<Rightarrow> decision \<Rightarrow> real \<Rightarrow> real \<Rightarrow> pending" where
  "pending_of seq d amount now_ts =
     \<lparr>pi_seq = seq, pi_side = d_side d, pi_from_token = d_from_token d, pi_to_token = d_to_token d,
      pi_amount_usd = amount, pi_ts = iso_utc now_ts\<rparr>"

text \<open>
  What a live executor does first: the state it stages (persisted when there is a callback) and the
  sequence number it keeps.
\<close>

definition stage_intent :: "tick_env \<Rightarrow> agent_state \<Rightarrow> decision \<Rightarrow> real \<Rightarrow> real \<Rightarrow> event list \<times> agent_state" where
  "stage_intent env s d amount now_ts =
     (let seq = get_or (st_intent_seq s) 0 + 1 in
      (if te_persist env
       then [Persisted (s\<lparr>st_intent_seq := Some seq, st_pending_intent := Some (pending_of seq d amount now_ts)\<rparr>)]
       else [],
       s\<lparr>st_intent_seq := Some seq\<rparr>))"

record exec_outcome =
  xo_trace :: "event list"
  xo_state :: agent_state
  xo_executed :: bool
  xo_result :: "execution_result option"

definition run_executor :: "tick_env \<Rightarrow> agent_state \<Rightarrow> decision \<Rightarrow> real \<Rightarrow> string \<Rightarrow> real \<Rightarrow>
    event list \<times> (py_error + exec_outcome)" where
  "run_executor env s d amount cid now_ts =
     (case te_executor env of
        None \<Rightarrow> ([], Inr \<lparr>xo_trace = [], xo_state = s, xo_executed = True, xo_result = None\<rparr>)
      | Some x \<Rightarrow>
          let (staged, s') = (if x_mode x = Live then stage_intent env s d amount now_ts else ([], s));
              (sent, answer) = execute (x_backend x) (x_mode x) (x_slippage_bps x) d amount cid;
              trace = staged @ map Sent sent
          in (trace, case answer of
                Inl e \<Rightarrow> Inl e
              | Inr r \<Rightarrow> Inr \<lparr>xo_trace = trace, xo_state = s',
                  xo_executed = (er_executed r \<or> x_mode x \<noteq> Live), xo_result = Some r\<rparr>))"

text \<open>An Injective result is logged against the receipt.\<close>

definition log_execution :: "receipt \<Rightarrow> string \<Rightarrow> real \<Rightarrow> execution_result option \<Rightarrow> execution_record list \<Rightarrow>
    execution_record list" where
  "log_execution r cid now_ts res records =
     (case res of
        None \<Rightarrow> records
      | Some e \<Rightarrow>
          if dget ''source'' (er_detail e) = JStr ''injective''
          then record_execution (rc_seq r) (rc_hash r) cid (iso_utc now_ts) (er_executed e) (er_detail e)
                 (er_error e) records
          else records)"

definition book_trade :: "agent_state \<Rightarrow> agent_state \<Rightarrow> decision \<Rightarrow> real \<Rightarrow> (string \<rightharpoonup> real) \<Rightarrow> real \<Rightarrow> agent_state" where
  "book_trade s0 s d amount price now_ts =
     (apply_fill s d amount price now_ts)
       \<lparr>st_last_trade_ts := Some now_ts, st_trades_this_week := Some (get_or (st_trades_this_week s0) 0 + 1)\<rparr>"

text \<open>The execution part of the tick, on the world after the receipt and the abstention.\<close>

definition tick_execute :: "tick_env \<Rightarrow> agent_state \<Rightarrow> decision \<Rightarrow> policy_verdict \<Rightarrow> receipt \<Rightarrow> (string \<rightharpoonup> real) \<Rightarrow>
    real \<Rightarrow> world \<Rightarrow> world \<times> (py_error + bool \<times> agent_state)" where
  "tick_execute env s d v r price now_ts w =
     (let s1 = s\<lparr>st_pending_intent := None\<rparr>; cid = receipt_cid (rc_hash r); amount = v_final_amount_usd v in
      if \<not> (allowed v \<and> is_trade d) then (w, Inr (False, s1))
      else case run_executor env s1 d amount cid now_ts of
        (trace, Inl e) \<Rightarrow> (w\<lparr>w_trace := w_trace w @ trace\<rparr>, Inl e)
      | (trace, Inr out) \<Rightarrow>
          let w' = w\<lparr>w_trace := w_trace w @ trace,
                     w_executions := log_execution r cid now_ts (xo_result out) (w_executions w)\<rparr>;
              s2 = (if xo_executed out then book_trade s (xo_state out) d amount price now_ts else xo_state out)
          in (w', Inr (xo_executed out, s2\<lparr>st_pending_intent := None\<rparr>)))"

definition tick :: "tick_env \<Rightarrow> config \<Rightarrow> agent_state \<Rightarrow> token_view list \<Rightarrow> real \<Rightarrow> real option \<Rightarrow> world \<Rightarrow>
    world \<times> (py_error + tick_result \<times> agent_state)" where
  "tick env cfg s views data_ts now_opt w =
     (let now_ts = (case now_opt of Some t \<Rightarrow> if t \<noteq> 0 then t else te_wall env | None \<Rightarrow> te_wall env);
          price = price_table views in
      case tick_decide env cfg s views data_ts now_ts of
        Inl e \<Rightarrow> (w, Inl e)
      | Inr (i, d, v) \<Rightarrow>
          let args = tick_receipt_args env views
                (ps_drawdown_pct (build_portfolio_state (te_wall env) s views)) now_ts d v;
              r = new_receipt (te_digest env) args (w_receipts w);
              ab = tick_abstention cfg views now_ts i d v;
              w1 = w\<lparr>w_receipts := append_receipt (te_digest env) args (w_receipts w),
                     w_trace := w_trace w @ [Receipted (rc_hash r)],
                     w_abstentions := (case ab of None \<Rightarrow> w_abstentions w
                        | Some a \<Rightarrow> record_abstention a (w_abstentions w))\<rparr>
          in case tick_execute env s d v r price now_ts w1 of
               (w2, Inl e) \<Rightarrow> (w2, Inl e)
             | (w2, Inr (executed, s')) \<Rightarrow>
                 (w2\<lparr>w_abstentions := snd (mark_to_market price now_ts (24 * 3600) (w_abstentions w2))\<rparr>,
                  Inr (\<lparr>tr_intent_action = i_action i, tr_decision = d, tr_verdict = v_action v,
                        tr_reason = v_reason v, tr_ladder_rung = v_ladder_rung v,
                        tr_receipt_hash = rc_hash r, tr_executed = executed, tr_abstained = (ab \<noteq> None)\<rparr>, s')))"

section \<open>How a tick ends\<close>

definition tick_time :: "tick_env \<Rightarrow> real option \<Rightarrow> real" where
  "tick_time env now_opt =
     (case now_opt of Some t \<Rightarrow> if t \<noteq> 0 then t else te_wall env | None \<Rightarrow> te_wall env)"

lemma tick_decide_Inr:
  assumes "tick_decide env cfg s views data_ts now_ts = Inr (i, d, v)"
  obtains quote where "get_or (quote_tokens cfg) [''USDT''] \<noteq> []"
    "quote = hd (get_or (quote_tokens cfg) [''USDT''])"
    "decide views (build_portfolio_state (te_wall env) s views) cfg now_ts quote (trade_chain cfg) = Inr i"
    "d = intent_to_decision i"
    "v = check (init_engine cfg) d (engine_view s (build_portfolio_state (te_wall env) s views))
      (engine_market cfg views data_ts now_ts)"
  using assms
  by (cases "get_or (quote_tokens cfg) [''USDT'']")
    (auto simp: tick_decide_def Let_def split: sum.splits)

definition tick_args :: "tick_env \<Rightarrow> agent_state \<Rightarrow> token_view list \<Rightarrow> real option \<Rightarrow> decision \<Rightarrow> policy_verdict \<Rightarrow> receipt_args" where
  "tick_args env s views now_opt d v = tick_receipt_args env views
     (ps_drawdown_pct (build_portfolio_state (te_wall env) s views)) (tick_time env now_opt) d v"

lemma tick_receipt_args_simps [simp]:
  "ra_policy_hash (tick_receipt_args env views dd now d v) = te_policy_hash env"
  "ra_decision (tick_receipt_args env views dd now d v) = decision_json d"
  "ra_kind (tick_receipt_args env views dd now d v) = v_kind v"
  "ra_reason (tick_receipt_args env views dd now d v) = v_reason v"
  "ra_verdict (tick_receipt_args env views dd now d v) =
     (if v_kind v = ''hold'' then ''hold'' else verdict_action_text (v_action v))"
  by (simp_all add: tick_receipt_args_def)

text \<open>
  A tick either raises before anything is written, or writes one receipt for the decision and goes on to
  the execution part.
\<close>

definition after_receipt :: "tick_env \<Rightarrow> config \<Rightarrow> agent_state \<Rightarrow> token_view list \<Rightarrow> real option \<Rightarrow> world \<Rightarrow>
    intent \<Rightarrow> decision \<Rightarrow> policy_verdict \<Rightarrow> world" where
  "after_receipt env cfg s views now_opt w i d v =
     (let args = tick_args env s views now_opt d v in
      w\<lparr>w_receipts := append_receipt (te_digest env) args (w_receipts w),
        w_trace := w_trace w @ [Receipted (rc_hash (new_receipt (te_digest env) args (w_receipts w)))],
        w_abstentions := (case tick_abstention cfg views (tick_time env now_opt) i d v of
           None \<Rightarrow> w_abstentions w | Some a \<Rightarrow> record_abstention a (w_abstentions w))\<rparr>)"

lemma tick_cases:
  assumes "tick env cfg s views data_ts now_opt w = (w', x)"
  obtains (Undecided) e where "tick_decide env cfg s views data_ts (tick_time env now_opt) = Inl e"
      "w' = w" "x = Inl e"
  | (Decided) i d v w2 y where "tick_decide env cfg s views data_ts (tick_time env now_opt) = Inr (i, d, v)"
      "tick_execute env s d v (new_receipt (te_digest env) (tick_args env s views now_opt d v) (w_receipts w))
        (price_table views) (tick_time env now_opt) (after_receipt env cfg s views now_opt w i d v) = (w2, y)"
      "w_receipts w' = w_receipts w2" "w_executions w' = w_executions w2" "w_trace w' = w_trace w2"
      "case y of Inl e \<Rightarrow> x = Inl e \<and> w_abstentions w' = w_abstentions w2
        | Inr (executed, s') \<Rightarrow> x = Inr (\<lparr>tr_intent_action = i_action i, tr_decision = d, tr_verdict = v_action v,
            tr_reason = v_reason v, tr_ladder_rung = v_ladder_rung v,
            tr_receipt_hash = rc_hash (new_receipt (te_digest env) (tick_args env s views now_opt d v) (w_receipts w)),
            tr_executed = executed,
            tr_abstained = (tick_abstention cfg views (tick_time env now_opt) i d v \<noteq> None)\<rparr>, s') \<and>
          w_abstentions w' = snd (mark_to_market (price_table views) (tick_time env now_opt) (24 * 3600) (w_abstentions w2))"
proof (cases "tick_decide env cfg s views data_ts (tick_time env now_opt)")
  case (Inl e)
  with assms show thesis by (intro Undecided [of e]) (auto simp: tick_def Let_def tick_time_def)
next
  case (Inr p)
  obtain i d v where p: "p = (i, d, v)" by (cases p) auto
  obtain w2 y where y: "tick_execute env s d v (new_receipt (te_digest env) (tick_args env s views now_opt d v) (w_receipts w))
        (price_table views) (tick_time env now_opt) (after_receipt env cfg s views now_opt w i d v) = (w2, y)"
    by fastforce
  note defs = tick_def Let_def tick_time_def [symmetric] tick_args_def [symmetric]
  have "(w', x) = (case y of Inl e \<Rightarrow> (w2, Inl e)
      | Inr (executed, s') \<Rightarrow> (w2\<lparr>w_abstentions := snd (mark_to_market (price_table views) (tick_time env now_opt) (24 * 3600) (w_abstentions w2))\<rparr>,
          Inr (\<lparr>tr_intent_action = i_action i, tr_decision = d, tr_verdict = v_action v,
            tr_reason = v_reason v, tr_ladder_rung = v_ladder_rung v,
            tr_receipt_hash = rc_hash (new_receipt (te_digest env) (tick_args env s views now_opt d v) (w_receipts w)),
            tr_executed = executed,
            tr_abstained = (tick_abstention cfg views (tick_time env now_opt) i d v \<noteq> None)\<rparr>, s')))"
    using assms Inr p y unfolding defs after_receipt_def by (auto split: sum.splits prod.splits)
  then show thesis using Inr p y by (intro Decided [of i d v w2 y]) (auto split: sum.splits prod.splits)
qed

lemma tick_execute_cases:
  assumes "tick_execute env s d v r price now_ts w = (w2, y)"
  obtains (Nothing) "\<not> (allowed v \<and> is_trade d)" "w2 = w" "y = Inr (False, s\<lparr>st_pending_intent := None\<rparr>)"
  | (Failed) trace e where "allowed v" "is_trade d"
      "run_executor env (s\<lparr>st_pending_intent := None\<rparr>) d (v_final_amount_usd v) (receipt_cid (rc_hash r)) now_ts
        = (trace, Inl e)"
      "w2 = w\<lparr>w_trace := w_trace w @ trace\<rparr>" "y = Inl e"
  | (Ran) trace out where "allowed v" "is_trade d"
      "run_executor env (s\<lparr>st_pending_intent := None\<rparr>) d (v_final_amount_usd v) (receipt_cid (rc_hash r)) now_ts
        = (trace, Inr out)"
      "w2 = w\<lparr>w_trace := w_trace w @ trace,
         w_executions := log_execution r (receipt_cid (rc_hash r)) now_ts (xo_result out) (w_executions w)\<rparr>"
      "y = Inr (xo_executed out, (if xo_executed out
         then book_trade s (xo_state out) d (v_final_amount_usd v) price now_ts else xo_state out)
           \<lparr>st_pending_intent := None\<rparr>)"
proof (cases "allowed v \<and> is_trade d")
  case False
  with assms show thesis by (intro Nothing) (auto simp: tick_execute_def Let_def)
next
  case True
  obtain trace res where run: "run_executor env (s\<lparr>st_pending_intent := None\<rparr>) d (v_final_amount_usd v)
      (receipt_cid (rc_hash r)) now_ts = (trace, res)" by fastforce
  show thesis
  proof (cases res)
    case (Inl e)
    with True run assms show thesis by (intro Failed) (auto simp: tick_execute_def Let_def)
  next
    case (Inr out)
    with True run assms show thesis by (intro Ran) (auto simp: tick_execute_def Let_def)
  qed
qed

lemma tick_execute_frame:
  assumes "tick_execute env s d v r price now_ts w = (w2, y)"
  shows "w_receipts w2 = w_receipts w" "w_abstentions w2 = w_abstentions w"
  using assms by (cases rule: tick_execute_cases; simp)+

lemma after_receipt_simps [simp]:
  "w_receipts (after_receipt env cfg s views now_opt w i d v) =
     append_receipt (te_digest env) (tick_args env s views now_opt d v) (w_receipts w)"
  "w_executions (after_receipt env cfg s views now_opt w i d v) = w_executions w"
  "w_trace (after_receipt env cfg s views now_opt w i d v) = w_trace w @
     [Receipted (rc_hash (new_receipt (te_digest env) (tick_args env s views now_opt d v) (w_receipts w)))]"
  by (simp_all add: after_receipt_def Let_def)

text \<open>What the executor leaves behind: the staged state first, then at most what the backend sent.\<close>

lemma run_executor_trace:
  assumes "run_executor env s d amount cid now_ts = (trace, res)"
  shows "\<exists>staged sent. trace = staged @ map Sent sent \<and>
    (staged = [] \<or> staged = [Persisted (s\<lparr>st_intent_seq := Some (get_or (st_intent_seq s) 0 + 1),
       st_pending_intent := Some (pending_of (get_or (st_intent_seq s) 0 + 1) d amount now_ts)\<rparr>)]) \<and>
    (\<forall>x. te_executor env = Some x \<and> x_mode x = Live \<and> te_persist env \<longrightarrow> staged \<noteq> []) \<and>
    (case te_executor env of None \<Rightarrow> sent = [] | Some x \<Rightarrow>
       \<exists>ans. execute (x_backend x) (x_mode x) (x_slippage_bps x) d amount cid = (sent, ans))"
proof (cases "te_executor env")
  case None
  with assms show ?thesis by (auto simp: run_executor_def)
next
  case (Some x)
  obtain sent ans where ex: "execute (x_backend x) (x_mode x) (x_slippage_bps x) d amount cid = (sent, ans)"
    by fastforce
  show ?thesis
  proof (cases "x_mode x = Live")
    case True
    with assms Some ex show ?thesis
      by (intro exI [of _ "fst (stage_intent env s d amount now_ts)"] exI [of _ sent])
        (auto simp: run_executor_def stage_intent_def Let_def)
  next
    case False
    with assms Some ex show ?thesis
      by (intro exI [of _ "[]"] exI [of _ sent]) (auto simp: run_executor_def Let_def)
  qed
qed

lemma run_executor_state:
  assumes "run_executor env s d amount cid now_ts = (trace, Inr out)"
  shows "xo_state out = s\<lparr>st_intent_seq := st_intent_seq (xo_state out)\<rparr>"
  using assms
  by (auto simp: run_executor_def stage_intent_def Let_def split: option.splits prod.splits sum.splits if_splits)

section \<open>Receipts and the execution log\<close>

lemma tick_receipts:
  assumes "tick env cfg s views data_ts now_opt w = (w', x)"
  shows "(w_receipts w' = w_receipts w \<and> w' = w \<and> isl x) \<or>
    (\<exists>i d v. tick_decide env cfg s views data_ts (tick_time env now_opt) = Inr (i, d, v) \<and>
      w_receipts w' = w_receipts w @
        [new_receipt (te_digest env) (tick_args env s views now_opt d v) (w_receipts w)])"
  using assms
proof (cases rule: tick_cases)
  case (Undecided e)
  then show ?thesis by simp
next
  case (Decided i d v w2 y)
  with tick_execute_frame(1) [OF Decided(2)] show ?thesis by (auto simp: append_receipt_def)
qed

lemma tick_valid_chain:
  assumes "tick env cfg s views data_ts now_opt w = (w', x)" "valid_chain (te_digest env) (w_receipts w)"
  shows "valid_chain (te_digest env) (w_receipts w')"
  using tick_receipts [OF assms(1)] assms(2)
  by (auto simp: receipt_log.valid_add simp flip: append_receipt_def)

lemma tick_valid_ledger:
  assumes "tick env cfg s views data_ts now_opt w = (w', x)" "valid_ledger (w_abstentions w)"
  shows "valid_ledger (w_abstentions w')"
  using assms(1)
proof (cases rule: tick_cases)
  case (Decided i d v w2 y)
  have "valid_ledger (w_abstentions (after_receipt env cfg s views now_opt w i d v))"
    using assms(2) by (auto simp: after_receipt_def Let_def valid_record split: option.splits)
  then have "valid_ledger (w_abstentions w2)" using tick_execute_frame(2) [OF Decided(2)] by simp
  with Decided(6) valid_mark show ?thesis by (auto split: sum.splits)
qed (use assms(2) in simp)

lemma verdict_text_trade:
  assumes "is_trade d" "allowed (check e d pf mkt)"
  shows "v_kind (check e d pf mkt) \<noteq> ''hold'' \<and>
    verdict_action_text (v_action (check e d pf mkt)) \<in> {''allow'', ''clamp''}"
  using assms check_kinds [of e d pf mkt]
  by (auto simp: allowed_def verdict_action_text_def)

lemma bound_to_keep:
  assumes "bound_to rs x" "rc_hash r \<notin> rc_hash ` set rs"
  shows "bound_to (rs @ [r]) x"
proof -
  obtain src where src: "by_hash rs (xr_receipt_hash x) = Some src" "rc_verdict src \<in> {''allow'', ''clamp''}"
    "xr_cid x = receipt_cid (xr_receipt_hash x)"
    using assms(1) by (auto simp: bound_to_def)
  have "xr_receipt_hash x \<noteq> rc_hash r" using by_hash_in [OF src(1)] assms(2) by (metis image_eqI)
  with src show ?thesis by (simp add: bound_to_def)
qed

lemma log_execution_bound:
  assumes "\<forall>x \<in> set xs. bound_to rs x" "rc_hash r \<notin> rc_hash ` set rs" "rc_verdict r \<in> {''allow'', ''clamp''}"
  shows "\<forall>x \<in> set (log_execution r (receipt_cid (rc_hash r)) now_ts res xs). bound_to (rs @ [r]) x"
  using assms bound_to_new [OF assms(3)] bound_to_keep [OF _ assms(2)]
  by (auto simp: log_execution_def record_execution_def split: option.splits)

lemma tick_executions:
  assumes tick: "tick env cfg s views data_ts now_opt w = (w', x)"
    and bound: "\<forall>x \<in> set (w_executions w). bound_to (w_receipts w) x"
    and dist: "distinct (map rc_hash (w_receipts w'))"
  shows "\<forall>x \<in> set (w_executions w'). bound_to (w_receipts w') x"
  using tick
proof (cases rule: tick_cases)
  case (Undecided e)
  with bound show ?thesis by simp
next
  case (Decided i d v w2 y)
  let ?r = "new_receipt (te_digest env) (tick_args env s views now_opt d v) (w_receipts w)"
  have rs: "w_receipts w' = w_receipts w @ [?r]"
    using Decided(3) tick_execute_frame(1) [OF Decided(2)] by (simp add: append_receipt_def)
  with dist have new: "rc_hash ?r \<notin> rc_hash ` set (w_receipts w)" by simp
  have keep: "\<forall>x \<in> set (w_executions w). bound_to (w_receipts w @ [?r]) x"
    using bound bound_to_keep new by blast
  obtain e pf mkt where v: "v = check e d pf mkt"
    using Decided(1) by (elim tick_decide_Inr) blast
  from Decided(2) show ?thesis
  proof (cases rule: tick_execute_cases)
    case (Ran trace out)
    then have "rc_verdict ?r \<in> {''allow'', ''clamp''}"
      using verdict_text_trade v by (auto simp: tick_args_def)
    from log_execution_bound [OF bound new this] show ?thesis
      using Decided(4) Ran(4) rs by simp
  qed (use Decided(4) rs keep in simp_all)
qed

section \<open>Everything a run of ticks can write\<close>

text \<open>
  The worlds that ticks reach from empty files, whatever states, markets, clocks, executors and
  configurations they are run with; the digest and the committed hash are fixed. A tick that raises
  counts too: what it wrote stays written.
\<close>

definition empty_world :: world where
  "empty_world = \<lparr>w_receipts = [], w_abstentions = [], w_executions = [], w_trace = []\<rparr>"

inductive ticked :: "digest_fun \<Rightarrow> string \<Rightarrow> world \<Rightarrow> bool" for H ph where
  start: "ticked H ph empty_world"
| step: "ticked H ph w \<Longrightarrow> te_digest env = H \<Longrightarrow> te_policy_hash env = ph \<Longrightarrow>
    tick env cfg s views data_ts now_opt w = (w', x) \<Longrightarrow> ticked H ph w'"

lemma ticked_policy:
  "ticked H ph w \<Longrightarrow> \<forall>r \<in> set (w_receipts w). rc_policy_hash r = ph"
proof (induction rule: ticked.induct)
  case start
  then show ?case by (simp add: empty_world_def)
next
  case (step w env cfg s views data_ts now_opt w' x)
  from tick_receipts [OF step.hyps(4)] step show ?case by (auto simp: tick_args_def)
qed

lemma ticked_valid: "ticked H ph w \<Longrightarrow> valid_chain H (w_receipts w) \<and> valid_ledger (w_abstentions w)"
proof (induction rule: ticked.induct)
  case start
  then show ?case by (simp add: empty_world_def receipt_log.valid_empty abstention_log.valid_empty)
next
  case (step w env cfg s views data_ts now_opt w' x)
  with tick_valid_chain [OF step.hyps(4)] tick_valid_ledger [OF step.hyps(4)] show ?case by auto
qed

lemma ticked_bound:
  "ticked H ph w \<Longrightarrow> distinct (map rc_hash (w_receipts w)) \<Longrightarrow>
    \<forall>x \<in> set (w_executions w). bound_to (w_receipts w) x"
proof (induction rule: ticked.induct)
  case start
  then show ?case by (simp add: empty_world_def)
next
  case (step w env cfg s views data_ts now_opt w' x)
  have "distinct (map rc_hash (w_receipts w))"
    using tick_receipts [OF step.hyps(4)] step.prems by auto
  with step.IH tick_executions [OF step.hyps(4)] step.prems show ?case by blast
qed

section \<open>The books\<close>

text \<open>A well-formed book: one entry per upper-case symbol, no negative quantity, no overdraft beyond 1e-9.\<close>

definition book_ok :: "agent_state \<Rightarrow> bool" where
  "book_ok s =
     (distinct (map fst (st_positions s)) \<and>
      (\<forall>(k, p) \<in> set (st_positions s). upper k = k \<and> 0 \<le> bp_qty p) \<and> - 1 / 10 ^ 9 \<le> state_stable s)"

lemma set_update_subset: "set (AList.update k v d) \<subseteq> insert (k, v) (set d)"
  by (induction d) auto

lemma set_delete_subset: "set (AList.delete k d) \<subseteq> set d"
  by (simp add: AList.delete_eq)

lemma map_of_upper:
  "\<forall>(k, p) \<in> set ps. upper k = k \<and> 0 \<le> bp_qty p \<Longrightarrow> map_of ps k = Some p \<Longrightarrow> upper k = k \<and> 0 \<le> bp_qty p"
  by (auto dest!: map_of_SomeD)

lemma book_buy_ok:
  assumes "distinct (map fst ps)" "\<forall>(k, p) \<in> set ps. upper k = k \<and> 0 \<le> bp_qty p" "0 \<le> qty" "upper symb = symb"
  shows "distinct (map fst (book_buy px qty now_ts symb ps)) \<and>
    (\<forall>(k, p) \<in> set (book_buy px qty now_ts symb ps). upper k = k \<and> 0 \<le> bp_qty p)"
proof (cases "map_of ps symb")
  case None
  then show ?thesis using assms set_update_subset [of symb _ ps]
    by (fastforce simp: book_buy_def distinct_keys_update)
next
  case (Some old)
  with map_of_upper [OF assms(2)] have "0 \<le> bp_qty old" by blast
  with Some show ?thesis using assms set_update_subset [of symb _ ps]
    by (fastforce simp: book_buy_def Let_def distinct_keys_update)
qed

lemma book_sell_ok:
  assumes "distinct (map fst ps)" "\<forall>(k, p) \<in> set ps. upper k = k \<and> 0 \<le> bp_qty p" "upper symb = symb"
  shows "distinct (map fst (book_sell qty symb p ps)) \<and>
    (\<forall>(k, q) \<in> set (book_sell qty symb p ps). upper k = k \<and> 0 \<le> bp_qty q)"
proof (cases "bp_qty p - qty \<le> 1 / 10 ^ 9")
  case True
  then show ?thesis using assms set_delete_subset [of symb ps]
    by (fastforce simp: book_sell_def distinct_keys_delete)
next
  case False
  then have "0 \<le> bp_qty p - qty" by (rule order_trans [rotated, OF less_imp_le, OF not_le_imp_less]) simp
  with False show ?thesis using assms set_update_subset [of symb _ ps]
    by (fastforce simp: book_sell_def Let_def distinct_keys_update)
qed

lemma apply_fill_ok:
  assumes ok: "book_ok s" and "0 \<le> amount"
  shows "book_ok (apply_fill s d amount price now_ts)"
proof -
  have b: "distinct (map fst (st_positions s))" "\<forall>(k, p) \<in> set (st_positions s). upper k = k \<and> 0 \<le> bp_qty p"
    "- 1 / 10 ^ 9 \<le> state_stable s"
    using ok by (auto simp: book_ok_def)
  have same: "book_ok (s\<lparr>st_positions := st_positions s, st_stable_usd := Some (state_stable s)\<rparr>)"
    using b by (simp add: book_ok_def state_stable_def)
  show ?thesis
  proof (cases "d_side d")
    case Buy
    let ?px = "get_or (price (upper (d_to_token d))) 0"
    show ?thesis
    proof (cases "0 < ?px \<and> amount \<le> state_stable s + 1 / 10 ^ 9")
      case True
      then have "0 \<le> amount / ?px" using assms(2) by simp
      from book_buy_ok [OF b(1,2) this, of "upper (d_to_token d)"] True Buy show ?thesis
        by (simp add: apply_fill_def book_ok_def state_stable_def Let_def)
    next
      case False
      with Buy same show ?thesis by (auto simp: apply_fill_def Let_def)
    qed
  next
    case Sell
    let ?px = "get_or (price (upper (d_from_token d))) 0"
    show ?thesis
    proof (cases "map_of (st_positions s) (upper (d_from_token d))")
      case (Some p)
      show ?thesis
      proof (cases "0 < ?px")
        case True
        have "0 \<le> bp_qty p" using map_of_upper [OF b(2) Some] by blast
        then have "0 \<le> min (bp_qty p) (amount / ?px) * ?px" using True assms(2) by simp
        then have "- 1 / 10 ^ 9 \<le> state_stable s + min (bp_qty p) (amount / ?px) * ?px" using b(3) by linarith
        with book_sell_ok [OF b(1,2), of "upper (d_from_token d)"] True Some Sell show ?thesis
          by (simp add: apply_fill_def book_ok_def state_stable_def Let_def)
      next
        case False
        with Sell Some same show ?thesis by (simp add: apply_fill_def Let_def)
      qed
    next
      case None
      with Sell same show ?thesis by (simp add: apply_fill_def Let_def)
    qed
  next
    case Hold
    with same show ?thesis by (simp add: apply_fill_def Let_def)
  qed
qed

section \<open>NAV across a fill\<close>

abbreviation pos_value :: "(string \<rightharpoonup> real) \<Rightarrow> string \<Rightarrow> book_pos \<Rightarrow> real" where
  "pos_value price \<equiv> (\<lambda>symb p. bp_qty p * mark_price price symb p)"

lemma mark_price_at:
  "price (upper symb) = Some px \<Longrightarrow> 0 < px \<Longrightarrow> mark_price price symb p = px"
  by (simp add: mark_price_def)

lemma book_buy_value:
  assumes "price (upper symb) = Some px" "0 < px"
  shows "dict_sum (pos_value price) (book_buy px qty now_ts symb ps) = dict_sum (pos_value price) ps + qty * px"
proof (cases "map_of ps symb")
  case None
  then show ?thesis
    by (simp add: book_buy_def dict_sum_update_new mark_price_at [of price symb px, OF assms])
next
  case (Some old)
  then show ?thesis
    by (simp add: book_buy_def Let_def dict_sum_update_old [OF Some] mark_price_at [of price symb px, OF assms] distrib_right)
qed

lemma book_sell_value:
  assumes "price (upper symb) = Some px" "0 < px" "map_of ps symb = Some p" "distinct (map fst ps)"
  shows "dict_sum (pos_value price) (book_sell qty symb p ps) = dict_sum (pos_value price) ps - qty * px
    - (if bp_qty p - qty \<le> 1 / 10 ^ 9 then (bp_qty p - qty) * px else 0)"
  using assms
  by (simp add: book_sell_def Let_def dict_sum_delete dict_sum_update_old mark_price_at [of price symb px, OF assms(1,2)]
      left_diff_distrib)

lemma marked_nav_fields:
  "marked_nav price (s\<lparr>st_positions := ps, st_stable_usd := Some c\<rparr>) = c + dict_sum (pos_value price) ps"
  by (simp add: marked_nav_def state_stable_def)

lemma apply_fill_buy_nav:
  assumes "d_side d = Buy"
  shows "marked_nav price (apply_fill s d amount price now_ts) = marked_nav price s"
proof -
  let ?symb = "upper (d_to_token d)"
  have same: "marked_nav price (s\<lparr>st_positions := st_positions s, st_stable_usd := Some (state_stable s)\<rparr>) = marked_nav price s"
    by (simp add: marked_nav_def state_stable_def)
  show ?thesis
  proof (cases "0 < get_or (price ?symb) 0 \<and> amount \<le> state_stable s + 1 / 10 ^ 9")
    case True
    then obtain px where px: "price ?symb = Some px" "0 < px" by (cases "price ?symb") auto
    then have "price (upper ?symb) = Some px" by simp
    from book_buy_value [of price ?symb px, OF this px(2)] px(2) True assms show ?thesis
      by (simp add: apply_fill_def Let_def marked_nav_fields px(1)) (simp add: marked_nav_def)
  next
    case False
    with assms same show ?thesis by (auto simp: apply_fill_def Let_def)
  qed
qed

lemma apply_fill_sell_nav:
  assumes "d_side d = Sell" "distinct (map fst (st_positions s))"
  shows "marked_nav price (apply_fill s d amount price now_ts) \<le> marked_nav price s \<and>
    marked_nav price s \<le> marked_nav price (apply_fill s d amount price now_ts) +
      \<bar>get_or (price (upper (d_from_token d))) 0\<bar> / 10 ^ 9"
proof -
  let ?symb = "upper (d_from_token d)"
  have same: "marked_nav price (s\<lparr>st_positions := st_positions s, st_stable_usd := Some (state_stable s)\<rparr>) = marked_nav price s"
    by (simp add: marked_nav_def state_stable_def)
  show ?thesis
  proof (cases "0 < get_or (price ?symb) 0 \<and> map_of (st_positions s) ?symb \<noteq> None")
    case True
    then obtain px p where px: "price ?symb = Some px" "0 < px" and p: "map_of (st_positions s) ?symb = Some p"
      by (cases "price ?symb") auto
    let ?qty = "min (bp_qty p) (amount / px)"
    let ?lost = "if bp_qty p - ?qty \<le> 1 / 10 ^ 9 then (bp_qty p - ?qty) * px else 0"
    have "price (upper ?symb) = Some px" using px by simp
    from book_sell_value [of price ?symb px "st_positions s" p ?qty, OF this px(2) p assms(2)]
    have "marked_nav price (apply_fill s d amount price now_ts) = marked_nav price s - ?lost"
      using px p assms(1) by (simp add: apply_fill_def Let_def marked_nav_fields) (simp add: marked_nav_def)
    moreover have "0 \<le> ?lost" using px(2) by simp
    moreover have "?lost \<le> px / 10 ^ 9"
    proof (cases "bp_qty p - ?qty \<le> 1 / 10 ^ 9")
      case le: True
      then have "(bp_qty p - ?qty) * px \<le> 1 / 10 ^ 9 * px" using px(2) by (intro mult_right_mono) simp_all
      with le show ?thesis by simp
    qed (use px(2) in simp)
    ultimately show ?thesis using px by simp
  next
    case False
    then have "apply_fill s d amount price now_ts =
        s\<lparr>st_positions := st_positions s, st_stable_usd := Some (state_stable s)\<rparr>"
      using assms(1) by (auto simp: apply_fill_def Let_def split: option.splits)
    with same show ?thesis by simp
  qed
qed

lemma tick_returns:
  assumes "te_executor env = None" "get_or (vol_enter_max_pct cfg) 4 \<noteq> 0"
    "get_or (quote_tokens cfg) [''USDT''] \<noteq> []"
  shows "\<exists>w' res s'. tick env cfg s views data_ts now_opt w = (w', Inr (res, s'))"
proof -
  obtain w' x where t: "tick env cfg s views data_ts now_opt w = (w', x)" by fastforce
  then show ?thesis
  proof (cases rule: tick_cases)
    case (Undecided e)
    obtain quote qs where q: "get_or (quote_tokens cfg) [''USDT''] = quote # qs"
      using assms(3) by (cases "get_or (quote_tokens cfg) [''USDT'']") auto
    obtain rs where "find_entry cfg (ladder_rung cfg (ps_drawdown_pct (build_portfolio_state (te_wall env) s views)))
       (build_portfolio_state (te_wall env) s views) (exposure_room (build_portfolio_state (te_wall env) s views) cfg)
       quote (trade_chain cfg) (rank_entries (entry_views views cfg) cfg) = Inr rs"
      using find_entry_total [OF assms(2)] by blast
    then have "\<exists>i. decide views (build_portfolio_state (te_wall env) s views) cfg (tick_time env now_opt) quote (trade_chain cfg) = Inr i"
      by (auto simp: decide_def Let_def split: option.splits)
    with Undecided(1) q show ?thesis by (auto simp: tick_decide_def Let_def)
  next
    case (Decided i d v w2 y)
    from Decided(2) have "\<not> isl y"
      by (cases rule: tick_execute_cases) (auto simp: run_executor_def assms(1))
    then obtain out where "y = Inr out" by (cases y) auto
    with Decided(6) t show ?thesis by (auto split: prod.splits)
  qed
qed

text \<open>What a live tick with a trade that the policy let through does, in order.\<close>

lemma tick_live_trace:
  assumes "tick env cfg s views data_ts now_opt w = (w', x)"
    and "te_executor env = Some xr" "x_mode xr = Live" "te_persist env"
    and "tick_decide env cfg s views data_ts (tick_time env now_opt) = Inr (i, d, v)" "allowed v" "is_trade d"
  shows "\<exists>st cid sent ans. execute (x_backend xr) Live (x_slippage_bps xr) d (v_final_amount_usd v) cid = (sent, ans) \<and>
    w_trace w' = w_trace w @ [Receipted (rc_hash (last (w_receipts w'))), Persisted st] @ map Sent sent \<and>
    st_pending_intent st = Some (pending_of (get_or (st_intent_seq s) 0 + 1) d (v_final_amount_usd v) (tick_time env now_opt)) \<and>
    st_positions st = st_positions s \<and> st_stable_usd st = st_stable_usd s"
  using assms(1)
proof (cases rule: tick_cases)
  case (Undecided e)
  with assms(5) show ?thesis by simp
next
  case (Decided i' d' v' w2 y)
  have same: "i' = i" "d' = d" "v' = v" using Decided(1) assms(5) by simp_all
  let ?r = "new_receipt (te_digest env) (tick_args env s views now_opt d v) (w_receipts w)"
  have rs: "w_receipts w' = w_receipts w @ [?r]"
    using Decided(3) tick_execute_frame(1) [OF Decided(2)] same by (simp add: append_receipt_def)
  obtain trace res where tr: "run_executor env (s\<lparr>st_pending_intent := None\<rparr>) d
      (v_final_amount_usd v) (receipt_cid (rc_hash ?r)) (tick_time env now_opt) = (trace, res)"
      "w_trace w' = w_trace w @ [Receipted (rc_hash ?r)] @ trace"
    using Decided(2) unfolding same
    by (cases rule: tick_execute_cases) (use assms(6,7) Decided(5) same in auto)
  let ?st = "(s\<lparr>st_pending_intent := None\<rparr>)\<lparr>st_intent_seq := Some (get_or (st_intent_seq s) 0 + 1),
       st_pending_intent := Some (pending_of (get_or (st_intent_seq s) 0 + 1) d (v_final_amount_usd v) (tick_time env now_opt))\<rparr>"
  obtain sent ans where "trace = [Persisted ?st] @ map Sent sent"
      "execute (x_backend xr) Live (x_slippage_bps xr) d (v_final_amount_usd v) (receipt_cid (rc_hash ?r)) = (sent, ans)"
    using run_executor_trace [OF tr(1)] assms(2-4) by auto
  with tr(2) rs show ?thesis
    by (intro exI [of _ ?st] exI [of _ "receipt_cid (rc_hash ?r)"] exI [of _ sent] exI [of _ ans]) simp
qed

section \<open>Examples\<close>

definition ex_state :: agent_state where
  "ex_state = \<lparr>st_positions = [], st_nav = Some 1000, st_portfolio_value_usd = None, st_stable_usd = Some 1000,
     st_high_water_mark = Some 1000, st_last_trade_ts = None, st_trades_this_week = None,
     st_trades_last_hour = None, st_intent_seq = None, st_pending_intent = None\<rparr>"

definition ex_env :: "executor option \<Rightarrow> tick_env" where
  "ex_env x = \<lparr>te_digest = ex_digest, te_policy_hash = policy_hash ex_digest JNull, te_wall = 10 ^ 9,
     te_persist = True, te_executor = x\<rparr>"

definition ex_shell :: "string list \<Rightarrow> shell_answer" where
  "ex_shell cmd = \<lparr>sh_code = 0, sh_message = [], sh_stdout = [], sh_json = Some (JObj [(''hash'', JStr ''0xabc'')])\<rparr>"

definition ex_live :: executor where
  "ex_live = \<lparr>x_backend = twak_backend ex_shell \<lparr>tw_bin = ''twak'', tw_chain_default = ''bsc'', tw_dry_run = False\<rparr>,
     x_mode = Live, x_slippage_bps = 50\<rparr>"

abbreviation ex_views :: "token_view list" where
  "ex_views \<equiv> [ex_view_token ''ETH'' 2000 1 1 2]"

lemma ex_decides: "case tick_decide (ex_env x) bnb_config ex_state ex_views 1000 1060 of
    Inr (i, d, v) \<Rightarrow> allowed v \<and> is_trade d | Inl _ \<Rightarrow> False"
  by code_simp

lemma ex_returns:
  "\<exists>w' res s'. tick (ex_env None) bnb_config ex_state ex_views 1000 (Some 1060) empty_world = (w', Inr (res, s'))"
  by (rule tick_returns) (simp_all add: ex_env_def bnb_config_def)

lemma ex_live_sends: "b_swap (x_backend ex_live) a = (sent, y) \<Longrightarrow> \<exists>cmd. sent = [ShellSwap cmd]"
  by (auto simp: ex_live_def twak_backend_def twak_run_def Let_def)

section \<open>Claims\<close>

text \<open>
  C13. One receipt per decision: a tick that returns has appended exactly one receipt; it carries the
  committed policy hash, the decision and the verdict that the result reports, and its hash is the one in
  the result; a valid receipt chain stays valid.
\<close>

theorem tick_one_receipt:
  assumes "tick env cfg s views data_ts now_opt w = (w', Inr (res, s'))"
  shows "\<exists>r. w_receipts w' = w_receipts w @ [r] \<and> rc_hash r = tr_receipt_hash res \<and>
    rc_policy_hash r = te_policy_hash env \<and> rc_decision r = decision_json (tr_decision res) \<and>
    rc_reason r = tr_reason res \<and>
    rc_verdict r = (if is_trade (tr_decision res) then verdict_action_text (tr_verdict res) else ''hold'') \<and>
    (valid_chain (te_digest env) (w_receipts w) \<longrightarrow> valid_chain (te_digest env) (w_receipts w'))"
  using assms
proof (cases rule: tick_cases)
  case (Decided i d v w2 y)
  let ?r = "new_receipt (te_digest env) (tick_args env s views now_opt d v) (w_receipts w)"
  have rs: "w_receipts w' = w_receipts w @ [?r]"
    using Decided(3) tick_execute_frame(1) [OF Decided(2)] by (simp add: append_receipt_def)
  obtain e pf mkt where v: "v = check e d pf mkt"
    using Decided(1) by (elim tick_decide_Inr) blast
  have "v_kind v = ''hold'' \<longleftrightarrow> \<not> is_trade d"
    using check_kinds [of e d pf mkt] v by (auto split: verdict_action.splits)
  moreover have "tr_decision res = d" "tr_verdict res = v_action v" "tr_reason res = v_reason v"
    "tr_receipt_hash res = rc_hash ?r"
    using Decided(6) by (auto split: sum.splits)
  ultimately show ?thesis using rs tick_valid_chain [OF assms] by (auto simp: tick_args_def)
qed simp

theorem tick_one_receipt_witness:
  "\<exists>w' r. fst (tick (ex_env None) bnb_config ex_state ex_views 1000 (Some 1060) empty_world) = w' \<and>
    w_receipts w' = [r] \<and> rc_policy_hash r = policy_hash ex_digest JNull"
proof -
  obtain w' res s' where t: "tick (ex_env None) bnb_config ex_state ex_views 1000 (Some 1060) empty_world = (w', Inr (res, s'))"
    using ex_returns by blast
  from tick_one_receipt [OF t] t show ?thesis by (auto simp: empty_world_def ex_env_def)
qed

text \<open>
  C3. Nothing is broadcast without a receipt and a persisted intent: whenever a live tick with a persist
  callback sends something, however the tick ends, the policy allowed a trade, the receipt of the decision
  is already on the chain as allowed or clamped, and right before the broadcast a state was persisted whose
  pending intent is this trade at the approved amount, with the book unchanged.
\<close>

theorem broadcast_is_staged:
  assumes "tick env cfg s views data_ts now_opt w = (w', x)"
    and "te_executor env = Some xr" "x_mode xr = Live" "te_persist env"
    and "Sent b \<in> set (drop (length (w_trace w)) (w_trace w'))"
  shows "\<exists>r d amount st sent. w_receipts w' = w_receipts w @ [r] \<and> rc_decision r = decision_json d \<and>
    is_trade d \<and> rc_verdict r \<in> {''allow'', ''clamp''} \<and>
    w_trace w' = w_trace w @ [Receipted (rc_hash r), Persisted st] @ map Sent sent \<and>
    st_pending_intent st = Some (pending_of (get_or (st_intent_seq s) 0 + 1) d amount (tick_time env now_opt)) \<and>
    st_positions st = st_positions s \<and> st_stable_usd st = st_stable_usd s"
  using assms(1)
proof (cases rule: tick_cases)
  case (Undecided e)
  with assms(5) show ?thesis by simp
next
  case (Decided i d v w2 y)
  let ?r = "new_receipt (te_digest env) (tick_args env s views now_opt d v) (w_receipts w)"
  have rs: "w_receipts w' = w_receipts w @ [?r]"
    using Decided(3) tick_execute_frame(1) [OF Decided(2)] by (simp add: append_receipt_def)
  have run: "allowed v \<and> is_trade d \<and> (\<exists>trace res. run_executor env (s\<lparr>st_pending_intent := None\<rparr>) d
      (v_final_amount_usd v) (receipt_cid (rc_hash ?r)) (tick_time env now_opt) = (trace, res) \<and>
      w_trace w' = w_trace w @ [Receipted (rc_hash ?r)] @ trace)"
    using Decided(2)
    by (cases rule: tick_execute_cases) (use assms(5) Decided(5) in auto)
  then obtain trace res where tr: "run_executor env (s\<lparr>st_pending_intent := None\<rparr>) d
      (v_final_amount_usd v) (receipt_cid (rc_hash ?r)) (tick_time env now_opt) = (trace, res)"
      "w_trace w' = w_trace w @ [Receipted (rc_hash ?r)] @ trace" by blast
  let ?st = "(s\<lparr>st_pending_intent := None\<rparr>)\<lparr>st_intent_seq := Some (get_or (st_intent_seq s) 0 + 1),
       st_pending_intent := Some (pending_of (get_or (st_intent_seq s) 0 + 1) d (v_final_amount_usd v) (tick_time env now_opt))\<rparr>"
  obtain sent where "trace = [Persisted ?st] @ map Sent sent"
    using run_executor_trace [OF tr(1)] assms(2-4) by auto
  with tr(2) have trace: "w_trace w' = w_trace w @ [Receipted (rc_hash ?r), Persisted ?st] @ map Sent sent" by simp
  obtain e pf mkt where v: "v = check e d pf mkt"
    using Decided(1) by (elim tick_decide_Inr) blast
  with run verdict_text_trade have "rc_verdict ?r \<in> {''allow'', ''clamp''}" "is_trade d"
    by (auto simp: tick_args_def)
  then show ?thesis
    by (intro exI [of _ ?r] exI [of _ d] exI [of _ "v_final_amount_usd v"] exI [of _ ?st] exI [of _ sent])
      (simp add: rs trace tick_args_def)
qed

theorem broadcast_is_staged_witness:
  "\<exists>w' r. fst (tick (ex_env (Some ex_live)) bnb_config ex_state ex_views 1000 (Some 1060) empty_world) = w' \<and>
    w_receipts w' = [r] \<and> rc_verdict r \<in> {''allow'', ''clamp''}"
proof -
  obtain w' x where t: "tick (ex_env (Some ex_live)) bnb_config ex_state ex_views 1000 (Some 1060) empty_world = (w', x)"
    by fastforce
  obtain i d v where d: "tick_decide (ex_env (Some ex_live)) bnb_config ex_state ex_views 1000 1060 = Inr (i, d, v)"
    "allowed v" "is_trade d"
    using ex_decides [of "Some ex_live"] by (auto split: sum.splits)
  have env: "te_executor (ex_env (Some ex_live)) = Some ex_live" "x_mode ex_live = Live" "te_persist (ex_env (Some ex_live))"
    "tick_time (ex_env (Some ex_live)) (Some 1060) = 1060"
    by (simp_all add: ex_env_def ex_live_def tick_time_def)
  obtain st cid sent ans where "execute (x_backend ex_live) Live (x_slippage_bps ex_live) d (v_final_amount_usd v) cid = (sent, ans)"
      "w_trace w' = [Receipted (rc_hash (last (w_receipts w'))), Persisted st] @ map Sent sent"
    using tick_live_trace [OF t env(1-3)] d env(4) by (auto simp: empty_world_def)
  moreover from this obtain cmd where "sent = [ShellSwap cmd]"
    using ex_live_sends [of _ sent ans] by (auto simp: execute_def Let_def)
  ultimately have "Sent (ShellSwap cmd) \<in> set (drop (length (w_trace empty_world)) (w_trace w'))"
    by (simp add: empty_world_def)
  from broadcast_is_staged [OF t env(1-3) this] t show ?thesis by (auto simp: empty_world_def)
qed

text \<open>
  C4. The whole history audits: after any sequence of ticks from empty files (any states, markets, clocks,
  executors; failed ticks included) the public verifier finds the receipt chain intact and every receipt on
  the committed hash, and finds every logged order bound to an allowed receipt unless two receipts have the
  same hash.
\<close>

theorem history_audits:
  assumes "ticked H (policy_hash H cfg_json) w"
  shows "lc_chain_intact (verify_live H cfg_json (w_receipts w) (w_executions w)) \<and>
    lc_all_reference_committed_hash (verify_live H cfg_json (w_receipts w) (w_executions w)) \<and>
    (lc_executions_bound (verify_live H cfg_json (w_receipts w) (w_executions w)) \<or>
     \<not> distinct (map rc_hash (w_receipts w)))"
proof -
  have l: "linked H GENESIS (w_receipts w)" using ticked_valid [OF assms] by (simp add: valid_chain_def)
  have p: "\<forall>r \<in> set (w_receipts w). rc_policy_hash r = policy_hash H cfg_json" by (rule ticked_policy [OF assms])
  have "get_or (cr_policy_ok (verify_chain H (Some (policy_hash H cfg_json)) (w_receipts w))) False"
    using verify_policy [OF l, of "Some (policy_hash H cfg_json)"] p by simp
  then show ?thesis
    using l ticked_bound [OF assms] by (auto simp: verify_live_def Let_def verify_ok verify_executions_ok)
qed

theorem history_audits_witness:
  "\<exists>w :: world. w_receipts w \<noteq> [] \<and> lc_chain_intact (verify_live ex_digest JNull (w_receipts w) (w_executions w))"
proof -
  obtain w' res s' where t: "tick (ex_env None) bnb_config ex_state ex_views 1000 (Some 1060) empty_world = (w', Inr (res, s'))"
    using ex_returns by blast
  have "ticked ex_digest (policy_hash ex_digest JNull) w'"
    by (rule ticked.step [OF ticked.start _ _ t]) (simp_all add: ex_env_def)
  from history_audits [OF this]
  have "lc_chain_intact (verify_live ex_digest JNull (w_receipts w') (w_executions w'))" by blast
  moreover have "w_receipts w' \<noteq> []" using tick_receipts [OF t] by auto
  ultimately show ?thesis by blast
qed

text \<open>
  C18. Booking a fill conserves value: at the prices of the fill the marked NAV is unchanged by a purchase,
  and a sale can only drop the dust below 1e-9 units that it deletes.
\<close>

theorem fill_conserves_nav:
  assumes "distinct (map fst (st_positions s))"
  shows "marked_nav price (apply_fill s d amount price now_ts) \<le> marked_nav price s \<and>
    marked_nav price s \<le> marked_nav price (apply_fill s d amount price now_ts) +
      \<bar>get_or (price (upper (d_from_token d))) 0\<bar> / 10 ^ 9 \<and>
    (d_side d = Buy \<longrightarrow> marked_nav price (apply_fill s d amount price now_ts) = marked_nav price s)"
proof (cases "d_side d")
  case Hold
  then show ?thesis by (simp add: apply_fill_def Let_def marked_nav_def state_stable_def)
qed (use apply_fill_buy_nav apply_fill_sell_nav assms in simp_all)

definition ex_fill :: decision where
  "ex_fill = \<lparr>d_side = Buy, d_chain = ''bsc'', d_from_token = ''USDT'', d_to_token = ''ETH'', d_amount_usd = 20,
     d_confidence = 1, d_rationale = []\<rparr>"

theorem fill_conserves_nav_witness:
  "marked_nav [''ETH'' \<mapsto> 2000] (apply_fill ex_state ex_fill 20 [''ETH'' \<mapsto> 2000] 0) = marked_nav [''ETH'' \<mapsto> 2000] ex_state"
  using fill_conserves_nav [of ex_state] by (simp add: ex_state_def ex_fill_def)

text \<open>
  The book stays well formed: after any fill of a non-negative amount there is one entry per upper-case
  symbol, no quantity is negative, and cash is never overdrawn beyond 1e-9.
\<close>

theorem fill_keeps_book:
  assumes "book_ok s" "0 \<le> amount"
  shows "book_ok (apply_fill s d amount price now_ts)"
  using assms by (rule apply_fill_ok)

theorem fill_keeps_book_witness:
  "book_ok (apply_fill ex_state ex_fill 20 [''ETH'' \<mapsto> 2000] 0)"
  by (rule fill_keeps_book) (simp_all add: book_ok_def ex_state_def state_stable_def)

text \<open>
  Marking to market: the recorded NAV is cash plus positions at current prices, the high-water mark
  never falls and is at least the NAV, so the drawdown the next tick computes is between 0 and 100 percent
  for a non-negative NAV.
\<close>

theorem mark_nav_drawdown:
  assumes "0 \<le> marked_nav price s"
  shows "let (nav, s') = mark_nav s price; hwm = the (st_high_water_mark s') in
    nav = marked_nav price s \<and> state_nav s' = nav \<and> nav \<le> hwm \<and> get_or (st_high_water_mark s) nav \<le> hwm \<and>
    0 \<le> drawdown_of hwm nav \<and> drawdown_of hwm nav \<le> 100"
proof -
  have "drawdown_of h n \<le> 100" if "0 \<le> n" "n \<le> h" for h n :: real
    using that by (auto simp: drawdown_of_def divide_le_eq)
  moreover have "0 \<le> drawdown_of h n" for h n by (simp add: drawdown_of_def)
  ultimately show ?thesis using assms by (simp add: mark_nav_def state_nav_def Let_def)
qed

theorem mark_nav_drawdown_witness:
  "let (nav, s') = mark_nav (ex_state\<lparr>st_stable_usd := Some 900\<rparr>) Map.empty in
    drawdown_of (the (st_high_water_mark s')) nav \<le> 100"
  using mark_nav_drawdown [of Map.empty "ex_state\<lparr>st_stable_usd := Some 900\<rparr>"]
  by (simp add: marked_nav_def state_stable_def ex_state_def Let_def split: prod.splits)

text \<open>
  No phantom fills: when a tick does not report execution, the book, the cash and the trade counters are
  as they were; and a tick with a live executor reports execution only when the policy allowed a trade and
  something was run.
\<close>

theorem no_phantom_fill:
  assumes "tick env cfg s views data_ts now_opt w = (w', Inr (res, s'))" "\<not> tr_executed res"
  shows "st_positions s' = st_positions s \<and> st_stable_usd s' = st_stable_usd s \<and>
    st_last_trade_ts s' = st_last_trade_ts s \<and> st_trades_this_week s' = st_trades_this_week s \<and>
    st_pending_intent s' = None"
  using assms(1)
proof (cases rule: tick_cases)
  case (Decided i d v w2 y)
  from Decided(2) show ?thesis
  proof (cases rule: tick_execute_cases)
    case (Ran trace out)
    have "\<not> xo_executed out" "s' = (xo_state out)\<lparr>st_pending_intent := None\<rparr>"
      using Ran(5) Decided(6) assms(2) by (auto split: if_splits)
    moreover have "st_positions (xo_state out) = st_positions s" "st_stable_usd (xo_state out) = st_stable_usd s"
      "st_last_trade_ts (xo_state out) = st_last_trade_ts s"
      "st_trades_this_week (xo_state out) = st_trades_this_week s"
      by (subst run_executor_state [OF Ran(3)], simp)+
    ultimately show ?thesis by simp
  qed (use Decided(6) in auto)
qed simp

theorem no_phantom_fill_witness:
  "\<exists>w' res s'. tick (ex_env None) bnb_config ex_state [] 0 (Some 1060) empty_world = (w', Inr (res, s')) \<and>
    st_positions s' = []"
proof -
  obtain w' res s' where t: "tick (ex_env None) bnb_config ex_state [] 0 (Some 1060) empty_world = (w', Inr (res, s'))"
    using tick_returns [of "ex_env None" bnb_config] by (force simp: ex_env_def bnb_config_def)
  have "case tick_decide (ex_env None) bnb_config ex_state [] 0 1060 of Inr (i, d, v) \<Rightarrow> \<not> is_trade d | Inl _ \<Rightarrow> False"
    by code_simp
  moreover from t have "\<not> tr_executed res"
  proof (cases rule: tick_cases)
    case (Decided i d v w2 y)
    with calculation have "\<not> is_trade d" by (simp add: tick_time_def)
    with Decided(2) Decided(6) show ?thesis by (cases rule: tick_execute_cases) auto
  qed simp
  ultimately show ?thesis using no_phantom_fill [OF t] t by (simp add: ex_state_def)
qed

text \<open>
  An abstention is about a real restraint: the token it records is not a stablecoin, its reference price
  is that token's current price, and the reason is one of the ledger's; only holds and rejections are
  recorded.
\<close>

theorem abstention_faithful:
  assumes "tick_decide env cfg s views data_ts now_ts = Inr (i, d, v)"
    and "tick_abstention cfg views now_ts i d v = Some a"
  shows "(i_action i = HoldIntent \<or> v_action v = Reject) \<and> aa_symbol a \<notin> set (get_or (quote_tokens cfg) [''USDT'', ''USDC'']) \<and>
    price_table views (aa_symbol a) = Some (aa_ref_price a) \<and> aa_ref_price a \<noteq> 0 \<and> aa_reason a \<in> set VALID_REASONS"
proof -
  obtain quote where "decide views (build_portfolio_state (te_wall env) s views) cfg now_ts quote (trade_chain cfg) = Inr i"
    using assms(1) by (elim tick_decide_Inr)
  from decide_abstain_reason [OF this] have "i_abstain_reason i = [] \<or> i_abstain_reason i \<in> set VALID_REASONS"
    by (auto simp: hold_reasons_def VALID_REASONS_def)
  moreover have "reject_reason_code x \<in> set VALID_REASONS" for x
    by (simp add: reject_reason_code_def VALID_REASONS_def)
  moreover have "''regime_conflict'' \<in> set VALID_REASONS" by (simp add: VALID_REASONS_def)
  ultimately show ?thesis
    using assms(2) by (auto simp: tick_abstention_def split: if_splits option.splits)
qed

theorem abstention_faithful_witness:
  "\<exists>i d v a. tick_decide (ex_env None) bnb_config ex_state [ex_view_token ''ETH'' 1900 (- 1) (- 3) 2] 0 1060
      = Inr (i, d, v) \<and>
    tick_abstention bnb_config [ex_view_token ''ETH'' 1900 (- 1) (- 3) 2] 1060 i d v = Some a \<and>
    aa_ref_price a = 1900 \<and> aa_reason a \<in> set VALID_REASONS"
proof -
  let ?views = "[ex_view_token ''ETH'' 1900 (- 1) (- 3) 2]"
  have "case tick_decide (ex_env None) bnb_config ex_state ?views 0 1060 of
      Inr (i, d, v) \<Rightarrow> (case tick_abstention bnb_config ?views 1060 i d v of Some a \<Rightarrow> aa_symbol a = ''ETH'' | None \<Rightarrow> False)
    | Inl _ \<Rightarrow> False" by code_simp
  then obtain i d v a where *: "tick_decide (ex_env None) bnb_config ex_state ?views 0 1060 = Inr (i, d, v)"
    "tick_abstention bnb_config ?views 1060 i d v = Some a" "aa_symbol a = ''ETH''"
    by (auto split: sum.splits option.splits)
  moreover have "price_table ?views ''ETH'' = Some 1900" by code_simp
  ultimately have "aa_ref_price a = 1900" "aa_reason a \<in> set VALID_REASONS"
    using abstention_faithful [OF *(1,2)] by simp_all
  with * show ?thesis by blast
qed

text \<open>
  C33. Dust blocks the agent: when the first position due to exit is worth less than half a cent, the exit
  intent has the amount 0, which is no trade; the engine answers with a hold, so the tick neither sells the
  dust nor considers any other action.
\<close>

theorem dust_exit_blocks:
  assumes "tick_decide env cfg s views data_ts now_ts = Inr (i, d, v)"
    and "find (exit_now views (build_portfolio_state (te_wall env) s views) cfg now_ts)
      (ps_positions (build_portfolio_state (te_wall env) s views)) = Some sp"
    and "\<bar>pos_qty (snd sp) * the (price_table views (upper (fst sp)))\<bar> < 1 / 200"
  shows "i_action i = Exit \<and> d_amount_usd d = 0 \<and> \<not> is_trade d \<and> v_kind v = ''hold''"
proof -
  obtain quote where i: "decide views (build_portfolio_state (te_wall env) s views) cfg now_ts quote (trade_chain cfg) = Inr i"
    and d: "d = intent_to_decision i"
    and v: "v = check (init_engine cfg) d (engine_view s (build_portfolio_state (te_wall env) s views))
      (engine_market cfg views data_ts now_ts)"
    using assms(1) by (elim tick_decide_Inr)
  from i have "i_action i = Exit" "i_amount_usd i = py_round (pos_qty (snd sp) * the (price_table views (upper (fst sp)))) 2"
    by (cases rule: decide_cases; use assms(2) in simp)+
  moreover have "py_round (pos_qty (snd sp) * the (price_table views (upper (fst sp)))) 2 = 0"
    by (rule py_round2_small) (rule assms(3))
  ultimately have "i_action i = Exit" "d_amount_usd d = 0" by (simp_all add: d intent_to_decision_def Let_def)
  moreover from this have "\<not> is_trade d" by (simp add: is_trade_def)
  ultimately show ?thesis using check_hold v by simp
qed

definition ex_dust_state :: agent_state where
  "ex_dust_state = ex_state\<lparr>st_positions := [(''ETH'', \<lparr>bp_qty = 1 / 10 ^ 6, bp_entry_price = 3000, bp_entry_ts = 1\<rparr>)]\<rparr>"

theorem dust_exit_blocks_witness:
  "\<exists>i d v. tick_decide (ex_env None) bnb_config ex_dust_state ex_views 1000 1060 = Inr (i, d, v) \<and> \<not> is_trade d"
proof -
  let ?pf = "build_portfolio_state (te_wall (ex_env None)) ex_dust_state ex_views"
  have "case tick_decide (ex_env None) bnb_config ex_dust_state ex_views 1000 1060 of Inr _ \<Rightarrow> True | Inl _ \<Rightarrow> False"
    by code_simp
  then obtain i d v where t: "tick_decide (ex_env None) bnb_config ex_dust_state ex_views 1000 1060 = Inr (i, d, v)"
    by (auto split: sum.splits)
  have "case find (exit_now ex_views ?pf bnb_config 1060) (ps_positions ?pf) of None \<Rightarrow> False
    | Some sp \<Rightarrow> \<bar>pos_qty (snd sp) * the (price_table ex_views (upper (fst sp)))\<bar> < 1 / 200" by code_simp
  then obtain sp where "find (exit_now ex_views ?pf bnb_config 1060) (ps_positions ?pf) = Some sp"
    "\<bar>pos_qty (snd sp) * the (price_table ex_views (upper (fst sp)))\<bar> < 1 / 200"
    by (auto split: option.splits)
  from dust_exit_blocks [OF t this] t show ?thesis by blast
qed

text \<open>
  The tick always completes offline: without an executor, with a non-zero volatility ceiling and a quote
  token, no market view, state or clock makes it raise.
\<close>

theorem tick_total:
  assumes "te_executor env = None" "get_or (vol_enter_max_pct cfg) 4 \<noteq> 0"
    "get_or (quote_tokens cfg) [''USDT''] \<noteq> []"
  shows "\<exists>w' res s'. tick env cfg s views data_ts now_opt w = (w', Inr (res, s')) \<and> st_pending_intent s' = None"
proof -
  obtain w' res s' where t: "tick env cfg s views data_ts now_opt w = (w', Inr (res, s'))"
    using tick_returns [OF assms] by blast
  then have "st_pending_intent s' = None"
  proof (cases rule: tick_cases)
    case (Decided i d v w2 y)
    from Decided(2) Decided(6) show ?thesis by (cases rule: tick_execute_cases) (auto split: if_splits)
  qed simp
  with t show ?thesis by blast
qed

theorem tick_total_witness:
  "\<exists>w' res s'. tick (ex_env None) injective_config ex_state [] 0 None empty_world = (w', Inr (res, s')) \<and>
    st_pending_intent s' = None"
  by (rule tick_total) (simp_all add: ex_env_def injective_config_def)

end
