(* ===== verification/Cmc.thy ===== *)
theory Cmc
  imports Brain
begin

text \<open>
  \<open>agent/data/cmc.py\<close>: the market views of the live agent, from the price service or from the offline
  scenario, and the log of paid requests. The HTTP request is an argument; the log is the list of its
  records.
\<close>

section \<open>Receipts of paid data\<close>

record x402_receipt =
  xp_ts :: real
  xp_provider :: string
  xp_endpoint :: string
  xp_symbols :: "string list"
  xp_price_usdc :: real
  xp_network :: string
  xp_mode :: string

definition new_x402 :: "real \<Rightarrow> string \<Rightarrow> string list \<Rightarrow> bool \<Rightarrow> x402_receipt" where
  "new_x402 now endpoint symbols live =
     \<lparr>xp_ts = now, xp_provider = ''coinmarketcap'', xp_endpoint = endpoint, xp_symbols = symbols,
      xp_price_usdc = 1 / 100, xp_network = ''base'', xp_mode = (if live then ''paid'' else ''simulated'')\<rparr>"

text \<open>Paid requests are logged only when \<open>X402_ENABLED\<close> is set, simulated ones always.\<close>

definition log_x402 :: "bool \<Rightarrow> x402_receipt \<Rightarrow> x402_receipt list \<Rightarrow> x402_receipt list" where
  "log_x402 enabled r l = (if \<not> enabled \<and> xp_mode r = ''paid'' then l else l @ [r])"

definition x402_summary :: "x402_receipt list \<Rightarrow> nat \<times> real" where
  "x402_summary l = (length l, py_round (sum_list (map xp_price_usdc l)) 4)"

section \<open>Quotes\<close>

record cmc_row =
  cr_price :: json
  cr_pct_1h :: json
  cr_pct_4h :: json
  cr_vol_24h_pct :: json

definition scenario_row :: "real \<Rightarrow> real \<Rightarrow> real \<Rightarrow> real \<Rightarrow> cmc_row" where
  "scenario_row p h1 h4 v = \<lparr>cr_price = JFloat p, cr_pct_1h = JFloat h1, cr_pct_4h = JFloat h4, cr_vol_24h_pct = JFloat v\<rparr>"

definition MOCK_SCENARIO :: "string \<rightharpoonup> cmc_row" where
  "MOCK_SCENARIO = map_of
     [(''WBNB'', scenario_row 632 (8 / 10) (16 / 10) (24 / 10)),
      (''BTCB'', scenario_row 68000 (3 / 10) (- 2 / 10) (18 / 10)),
      (''ETH'', scenario_row 3550 (- 14 / 10) (21 / 10) (56 / 10)),
      (''CAKE'', scenario_row (235 / 100) (5 / 10) (9 / 10) (32 / 10)),
      (''INJ'', scenario_row 20 (9 / 10) (17 / 10) (25 / 10)),
      (''USDT'', scenario_row 1 0 0 (1 / 10)),
      (''USDC'', scenario_row 1 0 0 (1 / 10))]"

text \<open>\<open>abs(x or 0.0)\<close>.\<close>

definition abs_or_zero :: "json \<Rightarrow> py_error + json" where
  "abs_or_zero j = (if truthy j then and_then (json_number j) (\<lambda>x. Inr (JFloat \<bar>x\<bar>)) else Inr (JFloat 0))"

definition live_row :: "json \<Rightarrow> string \<Rightarrow> py_error + cmc_row" where
  "live_row data s =
     and_then (cmc_quote data s) (\<lambda>q.
     and_then (py_get q ''price'' JNull) (\<lambda>p.
     and_then (py_get q ''percent_change_1h'' JNull) (\<lambda>h1.
     and_then (py_get q ''percent_change_24h'' JNull) (\<lambda>h24.
     and_then (abs_or_zero h24) (\<lambda>v.
       Inr \<lparr>cr_price = p, cr_pct_1h = h1, cr_pct_4h = h24, cr_vol_24h_pct = v\<rparr>)))))"

fun cmc_live :: "json \<Rightarrow> string list \<Rightarrow> py_error + (string \<times> cmc_row) list" where
  "cmc_live data [] = Inr []"
| "cmc_live data (s # ss) =
     and_then (live_row data s) (\<lambda>r. and_then (cmc_live data ss) (\<lambda>rs. Inr ((s, r) # rs)))"

definition mock_rows :: "string list \<Rightarrow> (string \<times> cmc_row) list" where
  "mock_rows symbols = map (\<lambda>s. (s, get_or (MOCK_SCENARIO (upper s))
     \<lparr>cr_price = JNull, cr_pct_1h = JNull, cr_pct_4h = JNull, cr_vol_24h_pct = JNull\<rparr>)) symbols"

section \<open>Token views\<close>

text \<open>
  A quote is a number or null; another JSON value (which the service does not return) raises here, in Python at
  its first comparison.
\<close>

definition number_or_none :: "json \<Rightarrow> py_error + real option" where
  "number_or_none j = (if j = JNull then Inr None else and_then (json_number j) (\<lambda>x. Inr (Some x)))"

definition row_view :: "real \<Rightarrow> string \<Rightarrow> cmc_row \<Rightarrow> py_error + token_view" where
  "row_view now s r =
     and_then (number_or_none (cr_price r)) (\<lambda>p.
     and_then (number_or_none (cr_pct_1h r)) (\<lambda>h1.
     and_then (number_or_none (cr_pct_4h r)) (\<lambda>h4.
     and_then (number_or_none (cr_vol_24h_pct r)) (\<lambda>v.
       Inr \<lparr>tv_symbol = upper s, tv_price = get_or p 0, tv_pct_1h = h1, tv_pct_4h = h4, tv_vol_24h_pct = v,
            tv_liquidity_usd = 0, tv_spread_bps = 0, tv_ts = now, tv_extra = []\<rparr>))))"

fun row_views :: "real \<Rightarrow> (string \<times> cmc_row) list \<Rightarrow> py_error + token_view list" where
  "row_views now [] = Inr []"
| "row_views now ((s, r) # rows) =
     and_then (row_view now s r) (\<lambda>v. and_then (row_views now rows) (\<lambda>vs. Inr (v # vs)))"

text \<open>
  \<open>get_token_views\<close>: \<open>request\<close> is present when an API key is set. The result is the views with the time of the
  request, and the log.
\<close>

definition get_token_views :: "(string list \<Rightarrow> py_error + json) option \<Rightarrow> bool \<Rightarrow> real \<Rightarrow> string list \<Rightarrow>
    x402_receipt list \<Rightarrow> x402_receipt list \<times> (py_error + token_view list \<times> real)" where
  "get_token_views request enabled now symbols l =
     (case request of
        Some fetch \<Rightarrow>
          (case and_then (fetch symbols) (\<lambda>data. cmc_live data symbols) of
             Inl e \<Rightarrow> (l, Inl e)
           | Inr rows \<Rightarrow> (log_x402 enabled (new_x402 now ''cryptocurrency/quotes/latest'' symbols True) l,
               and_then (row_views now rows) (\<lambda>vs. Inr (vs, now))))
      | None \<Rightarrow> (log_x402 enabled (new_x402 now ''mock/quotes'' symbols False) l,
          and_then (row_views now (mock_rows symbols)) (\<lambda>vs. Inr (vs, now))))"

section \<open>What a fetch leaves behind\<close>

lemma scenario_number:
  "MOCK_SCENARIO k = Some r \<Longrightarrow> \<exists>p h1 h4 v. r = scenario_row p h1 h4 v \<and> 0 < p \<and> 0 \<le> v"
  by (fastforce simp: MOCK_SCENARIO_def split: if_splits)

lemma row_view_scenario [simp]:
  "row_view now s (scenario_row p h1 h4 v) = Inr \<lparr>tv_symbol = upper s, tv_price = p, tv_pct_1h = Some h1,
     tv_pct_4h = Some h4, tv_vol_24h_pct = Some v, tv_liquidity_usd = 0, tv_spread_bps = 0, tv_ts = now, tv_extra = []\<rparr>"
  by (simp add: row_view_def scenario_row_def number_or_none_def json_number_def)

lemma row_view_unknown [simp]:
  "row_view now s \<lparr>cr_price = JNull, cr_pct_1h = JNull, cr_pct_4h = JNull, cr_vol_24h_pct = JNull\<rparr> =
     Inr \<lparr>tv_symbol = upper s, tv_price = 0, tv_pct_1h = None, tv_pct_4h = None, tv_vol_24h_pct = None,
       tv_liquidity_usd = 0, tv_spread_bps = 0, tv_ts = now, tv_extra = []\<rparr>"
  by (simp add: row_view_def number_or_none_def)

lemma mock_views:
  "\<exists>vs. row_views now (mock_rows symbols) = Inr vs \<and> map tv_symbol vs = map upper symbols \<and>
    (\<forall>v \<in> set vs. tv_ts v = now \<and> (tv_price v = 0 \<longleftrightarrow> MOCK_SCENARIO (tv_symbol v) = None))"
proof (induction symbols)
  case (Cons s ss)
  obtain vs where vs: "row_views now (mock_rows ss) = Inr vs" "map tv_symbol vs = map upper ss"
      "\<forall>v \<in> set vs. tv_ts v = now \<and> (tv_price v = 0 \<longleftrightarrow> MOCK_SCENARIO (tv_symbol v) = None)"
    using Cons by blast
  show ?case
  proof (cases "MOCK_SCENARIO (upper s)")
    case None
    with vs show ?thesis by (simp add: mock_rows_def)
  next
    case (Some r)
    from scenario_number [OF this] obtain p h1 h4 v where "r = scenario_row p h1 h4 v" "0 < p" by blast
    with Some vs show ?thesis by (simp add: mock_rows_def)
  qed
qed (simp add: mock_rows_def)

lemma row_views_symbols:
  "row_views now rows = Inr vs \<Longrightarrow> map tv_symbol vs = map upper (map fst rows) \<and> (\<forall>v \<in> set vs. tv_ts v = now)"
  by (induction rows arbitrary: vs) (auto simp: and_then_Inr row_view_def)

lemma cmc_live_symbols: "cmc_live data symbols = Inr rows \<Longrightarrow> map fst rows = symbols"
  by (induction symbols arbitrary: rows) (auto simp: and_then_Inr)

text \<open>
  A fetch that returns gives one view per requested symbol, in order and in upper case, all stamped with the
  time of the request, which is also the data time handed to the policy; so the data age the engine sees in a
  tick at that time is zero, whatever the age of the quotes that the service sent.
\<close>

theorem views_are_stamped_now:
  assumes "get_token_views request enabled now symbols l = (l', Inr (views, data_ts))"
  shows "data_ts = now \<and> map tv_symbol views = map upper symbols \<and> (\<forall>v \<in> set views. tv_ts v = now) \<and>
    max 0 (now - data_ts) = 0"
proof (cases request)
  case None
  from mock_views [of now symbols] obtain vs where vs: "row_views now (mock_rows symbols) = Inr vs"
    "map tv_symbol vs = map upper symbols" "\<forall>v \<in> set vs. tv_ts v = now"
    by (elim exE conjE) simp
  have "vs = views" "data_ts = now" using assms None vs(1) by (simp_all add: get_token_views_def)
  with vs(2,3) show ?thesis by simp
next
  case (Some fetch)
  note d = assms [unfolded get_token_views_def Some option.case]
  obtain data where data: "fetch symbols = Inr data" using d by (cases "fetch symbols") simp_all
  obtain rows where rows: "cmc_live data symbols = Inr rows" using d data by (cases "cmc_live data symbols") simp_all
  obtain vs where vs: "row_views now rows = Inr vs" using d data rows by (cases "row_views now rows") simp_all
  have "vs = views" "data_ts = now" using d data rows vs by simp_all
  with row_views_symbols [OF vs] cmc_live_symbols [OF rows] show ?thesis by simp
qed

theorem views_are_stamped_now_witness:
  "\<exists>l' views. get_token_views None False 1000 [''WBNB'', ''usdt''] [] = (l', Inr (views, 1000)) \<and>
     map tv_symbol views = [''WBNB'', ''USDT'']"
proof -
  obtain vs where "row_views 1000 (mock_rows [''WBNB'', ''usdt'']) = Inr vs"
    using mock_views [of 1000 "[''WBNB'', ''usdt'']"] by blast
  then obtain l' where r: "get_token_views None False 1000 [''WBNB'', ''usdt''] [] = (l', Inr (vs, 1000))"
    by (simp add: get_token_views_def)
  have "map upper [''WBNB'', ''usdt''] = [''WBNB'', ''USDT'']" by code_simp
  with views_are_stamped_now [OF r] r show ?thesis by auto
qed

lemma x402_accounting:
  "x402_summary (map (\<lambda>now. new_x402 now endpoint symbols live) ts) = (length ts, real (length ts) / 100)"
proof -
  have "sum_list (map xp_price_usdc (map (\<lambda>now. new_x402 now endpoint symbols live) ts)) = real (length ts) / 100"
    by (induction ts) (simp_all add: new_x402_def)
  moreover have "py_round (real (length ts) / 100) 4 = real (length ts) / 100"
    using round_half_even_of_int [of "100 * int (length ts)"] by (simp add: py_round_def)
  ultimately show ?thesis by (simp only: x402_summary_def length_map)
qed

end
