(* ===== verification/Simulate.thy ===== *)
theory Simulate
  imports Core Metrics BtData Cmc
begin

text \<open>
  \<open>agent/simulate.py\<close>: the decision pipeline driven over a synthetic price series, one tick per step, with the
  fills simulated (no executor), and the summary it reports. The random draws of the generator and the wall
  clock (which \<open>core.tick\<close> reads) are arguments; the files are the world of the ticks, the request log and
  the equity lines.
\<close>

type_synonym series = "(string \<times> (nat \<times> real) list) list"

section \<open>The views of an hour\<close>

text \<open>The hourly returns that end at hour \<open>h\<close>, at most a day of them; a zero price divides by zero.\<close>

fun hourly_returns :: "(nat \<times> real) list \<Rightarrow> nat list \<Rightarrow> py_error + real list" where
  "hourly_returns path [] = Inr []"
| "hourly_returns path (i # is) =
     (if snd (path ! (i - 1)) = 0 then Inl ZeroDivisionError
      else map_sum id (Cons (snd (path ! i) / snd (path ! (i - 1)) - 1)) (hourly_returns path is))"

definition path_view :: "string \<Rightarrow> (nat \<times> real) list \<Rightarrow> nat \<Rightarrow> real \<Rightarrow> py_error + token_view" where
  "path_view symb path h now_ts =
     (if length path \<le> h then Inl IndexError
      else let price = snd (path ! h);
               p1 = (if 1 \<le> h then snd (path ! (h - 1)) else price);
               p4 = (if 4 \<le> h then snd (path ! (h - 4)) else price) in
        and_then (hourly_returns path [max 1 (h - 23)..<h + 1]) (\<lambda>rets.
        if p1 = 0 \<or> p4 = 0 then Inl ZeroDivisionError
        else Inr \<lparr>tv_symbol = symb, tv_price = price, tv_pct_1h = Some ((price / p1 - 1) * 100),
               tv_pct_4h = Some ((price / p4 - 1) * 100),
               tv_vol_24h_pct = Some (if 1 < length rets then pstdev rets * 100 else 0),
               tv_liquidity_usd = 0, tv_spread_bps = 0, tv_ts = now_ts, tv_extra = []\<rparr>))"

text \<open>A symbol without a path (or with an empty one) is skipped.\<close>

fun universe_views :: "series \<Rightarrow> nat \<Rightarrow> real \<Rightarrow> string list \<Rightarrow> py_error + token_view list" where
  "universe_views series h now_ts [] = Inr []"
| "universe_views series h now_ts (s # ss) =
     (case get_or (map_of series s) [] of
        [] \<Rightarrow> universe_views series h now_ts ss
      | x # path \<Rightarrow> and_then (path_view s (x # path) h now_ts) (\<lambda>v.
          and_then (universe_views series h now_ts ss) (\<lambda>vs. Inr (v # vs))))"

definition stable_view :: "real \<Rightarrow> string \<Rightarrow> token_view" where
  "stable_view now_ts q = \<lparr>tv_symbol = q, tv_price = 1, tv_pct_1h = Some 0, tv_pct_4h = Some 0,
     tv_vol_24h_pct = Some (5 / 100), tv_liquidity_usd = 0, tv_spread_bps = 0, tv_ts = now_ts, tv_extra = []\<rparr>"

definition views_at :: "series \<Rightarrow> nat \<Rightarrow> real \<Rightarrow> config \<Rightarrow> py_error + token_view list" where
  "views_at series h now_ts cfg =
     and_then (universe_views series h now_ts (universe cfg)) (\<lambda>vs.
       Inr (vs @ map (stable_view now_ts) (get_or (quote_tokens cfg) [''USDT'', ''USDC''])))"

section \<open>The simulation\<close>

record equity_line =
  sq_ts :: real
  sq_nav :: real
  sq_drawdown_pct :: real
  sq_risky_exposure_pct :: real
  sq_regime :: string
  sq_action :: intent_action
  sq_verdict :: verdict_action
  sq_rung :: rung

record sim_run =
  sm_state :: agent_state
  sm_world :: world
  sm_x402 :: "x402_receipt list"
  sm_max_dd :: real
  sm_breached :: bool
  sm_lines :: "equity_line list"

record sim_params =
  sp_cfg :: config
  sp_digest :: digest_fun
  sp_policy_hash :: string
  sp_wall :: "nat \<Rightarrow> real"
  sp_base_ts :: real

definition sim_env :: "sim_params \<Rightarrow> nat \<Rightarrow> tick_env" where
  "sim_env sp h = \<lparr>te_digest = sp_digest sp, te_policy_hash = sp_policy_hash sp, te_wall = sp_wall sp h,
     te_persist = False, te_executor = None\<rparr>"

definition fetch_symbols :: "config \<Rightarrow> string list" where
  "fetch_symbols cfg = universe cfg @ get_or (quote_tokens cfg) [''USDT'', ''USDC'']"

text \<open>What is recorded after a tick: NAV, drawdown, exposure and the equity line.\<close>

definition sim_record :: "sim_params \<Rightarrow> token_view list \<Rightarrow> real \<Rightarrow> tick_result \<Rightarrow> agent_state \<Rightarrow> world \<Rightarrow> sim_run \<Rightarrow> sim_run" where
  "sim_record sp views now_ts res s w run =
     (let cfg = sp_cfg sp; price = price_table views;
          (nav, s') = mark_nav s price;
          hwm = get_or (st_high_water_mark s') 0;
          dd = (if 0 < hwm then (hwm - nav) / hwm * 100 else 0);
          risky_usd = risky_value price (st_positions s')
      in run\<lparr>sm_state := s', sm_world := w, sm_max_dd := max (sm_max_dd run) dd,
           sm_breached := (sm_breached run \<or> risk_cfg.max_drawdown_pct (risk cfg) \<le> dd),
           sm_lines := sm_lines run @ [\<lparr>sq_ts = now_ts, sq_nav = py_round nav 2, sq_drawdown_pct = py_round dd 3,
             sq_risky_exposure_pct = (if nav \<noteq> 0 then py_round (risky_usd / nav * 100) 2 else 0),
             sq_regime = (if rank_entries views cfg \<noteq> [] then ''risk_on'' else ''risk_off''),
             sq_action = tr_intent_action res, sq_verdict = tr_verdict res, sq_rung = tr_ladder_rung res\<rparr>]\<rparr>)"

text \<open>One hour of the loop; an exception of the tick stops the simulation where it is.\<close>

definition sim_step :: "sim_params \<Rightarrow> series \<Rightarrow> nat \<Rightarrow> sim_run \<Rightarrow> sim_run \<times> py_error option" where
  "sim_step sp series h run =
     (let now_ts = sp_base_ts sp + real h * 3600;
          run1 = run\<lparr>sm_x402 := log_x402 False (new_x402 now_ts ''mock/quotes'' (fetch_symbols (sp_cfg sp)) False) (sm_x402 run)\<rparr>
      in case views_at series h now_ts (sp_cfg sp) of
           Inl e \<Rightarrow> (run1, Some e)
         | Inr views \<Rightarrow>
             (case tick (sim_env sp h) (sp_cfg sp) (sm_state run) views now_ts (Some now_ts) (sm_world run) of
                (w, Inl e) \<Rightarrow> (run1\<lparr>sm_world := w\<rparr>, Some e)
              | (w, Inr (res, s)) \<Rightarrow> (sim_record sp views now_ts res s w run1, None)))"

fun sim_hours :: "sim_params \<Rightarrow> series \<Rightarrow> nat list \<Rightarrow> sim_run \<Rightarrow> sim_run \<times> py_error option" where
  "sim_hours sp series [] run = (run, None)"
| "sim_hours sp series (h # hs) run =
     (case sim_step sp series h run of
        (run', Some e) \<Rightarrow> (run', Some e)
      | (run', None) \<Rightarrow> sim_hours sp series hs run')"

text \<open>\<open>range(lo, hi, step)\<close> of a positive step.\<close>

definition py_range :: "nat \<Rightarrow> nat \<Rightarrow> nat \<Rightarrow> nat list" where
  "py_range lo hi step = map (\<lambda>k. lo + k * step) [0..<(hi - lo + step - 1) div step]"

definition sim_state0 :: "real \<Rightarrow> agent_state" where
  "sim_state0 nav0 = \<lparr>st_positions = [], st_nav = Some nav0, st_portfolio_value_usd = None, st_stable_usd = Some nav0,
     st_high_water_mark = Some nav0, st_last_trade_ts = Some 0, st_trades_this_week = Some 0,
     st_trades_last_hour = Some 0, st_intent_seq = None, st_pending_intent = None\<rparr>"

record sim_summary =
  ss_weeks :: real
  ss_ticks :: nat
  ss_nav0 :: real
  ss_final_nav :: real
  ss_return_pct :: real
  ss_max_drawdown_pct :: real
  ss_gate_pct :: real
  ss_breached_gate :: bool
  ss_trades :: int

definition sim_summarise :: "sim_params \<Rightarrow> real \<Rightarrow> real \<Rightarrow> sim_run \<Rightarrow> py_error + sim_summary" where
  "sim_summarise sp weeks nav0 run =
     (let final_nav = get_or (st_nav (sm_state run)) nav0 in
      if nav0 = 0 then Inl ZeroDivisionError
      else Inr \<lparr>ss_weeks = weeks, ss_ticks = length (sm_lines run), ss_nav0 = nav0,
             ss_final_nav = py_round final_nav 2, ss_return_pct = py_round ((final_nav / nav0 - 1) * 100) 2,
             ss_max_drawdown_pct = py_round (sm_max_dd run) 2, ss_gate_pct = risk_cfg.max_drawdown_pct (risk (sp_cfg sp)),
             ss_breached_gate = sm_breached run, ss_trades = get_or (st_trades_this_week (sm_state run)) 0\<rparr>)"

text \<open>\<open>hours = int(weeks * 7 * 24)\<close>; \<open>reset\<close> removes the receipts, the abstentions and the request log.\<close>

definition sim_hour_count :: "real \<Rightarrow> nat" where
  "sim_hour_count weeks = nat \<lfloor>weeks * 7 * 24\<rfloor>"

definition sim_start :: "real \<Rightarrow> bool \<Rightarrow> world \<Rightarrow> x402_receipt list \<Rightarrow> sim_run" where
  "sim_start nav0 reset w l =
     \<lparr>sm_state = sim_state0 nav0,
      sm_world = (if reset then w\<lparr>w_receipts := [], w_abstentions := []\<rparr> else w),
      sm_x402 = (if reset then [] else l), sm_max_dd = 0, sm_breached = False, sm_lines = []\<rparr>"

definition simulate :: "sim_params \<Rightarrow> (nat \<Rightarrow> real) \<Rightarrow> real \<Rightarrow> nat \<Rightarrow> real \<Rightarrow> bool \<Rightarrow> world \<Rightarrow> x402_receipt list \<Rightarrow>
    sim_run \<times> (py_error + sim_summary)" where
  "simulate sp draws weeks step_hours nav0 reset w l =
     (let hours = sim_hour_count weeks; run0 = sim_start nav0 reset w l in
      case generate_synthetic_prices draws (hours + 5) [] None of
        Inl e \<Rightarrow> (run0, Inl e)
      | Inr series \<Rightarrow>
          if step_hours = 0 then (run0, Inl (ValueError ''range() arg 3 must not be zero''))
          else case sim_hours sp series (py_range 4 hours step_hours) run0 of
                 (run, Some e) \<Rightarrow> (run, Inl e)
               | (run, None) \<Rightarrow> (run, sim_summarise sp weeks nav0 run))"

section \<open>The simulation always completes\<close>

text \<open>A price series is good when every path has a positive price for every hour below \<open>n\<close>.\<close>

definition good_series :: "nat \<Rightarrow> series \<Rightarrow> bool" where
  "good_series n series = (\<forall>(a, path) \<in> set series. length path = n \<and> (\<forall>x \<in> set path. 0 < snd x))"

lemma hourly_returns_ok:
  "\<forall>i \<in> set is. 0 < snd (path ! (i - 1)) \<Longrightarrow> \<exists>r. hourly_returns path is = Inr r"
proof (induction "is")
  case (Cons i "is")
  then obtain r where "hourly_returns path is = Inr r" by auto
  with Cons.prems show ?case by auto
qed simp

lemma path_view_ok:
  assumes "h < length path" "\<forall>x \<in> set path. 0 < snd x"
  shows "\<exists>v. path_view s path h now_ts = Inr v"
proof -
  have pos: "0 < snd (path ! i)" if "i \<le> h" for i using that assms by simp
  have "\<forall>i \<in> set [max 1 (h - 23)..<h + 1]. 0 < snd (path ! (i - 1))" using pos by auto
  from hourly_returns_ok [OF this] obtain r where "hourly_returns path [max 1 (h - 23)..<h + 1] = Inr r" by blast
  moreover have "(if 1 \<le> h then snd (path ! (h - 1)) else snd (path ! h)) \<noteq> 0"
      "(if 4 \<le> h then snd (path ! (h - 4)) else snd (path ! h)) \<noteq> 0"
    using pos [of h] pos [of "h - 1"] pos [of "h - 4"] by auto
  ultimately show ?thesis using assms(1) by (simp add: path_view_def Let_def)
qed

lemma universe_views_ok:
  assumes "good_series n series" "h < n"
  shows "\<exists>vs. universe_views series h now_ts syms = Inr vs"
proof (induction syms)
  case (Cons s ss)
  then obtain vs where vs: "universe_views series h now_ts ss = Inr vs" by blast
  show ?case
  proof (cases "get_or (map_of series s) []")
    case Nil
    with vs show ?thesis by simp
  next
    case (Cons x path)
    then have "map_of series s = Some (x # path)" by (cases "map_of series s") auto
    then have "(s, x # path) \<in> set series" by (rule map_of_SomeD)
    then have "length (x # path) = n" "\<forall>y \<in> set (x # path). 0 < snd y" using assms(1) unfolding good_series_def by blast+
    with path_view_ok [of h "x # path" s now_ts] assms(2) obtain v where "path_view s (x # path) h now_ts = Inr v" by auto
    with vs Cons show ?thesis by simp
  qed
qed simp

lemma views_at_ok:
  assumes "good_series n series" "h < n"
  shows "\<exists>vs. views_at series h now_ts cfg = Inr vs"
  using universe_views_ok [OF assms, of now_ts "universe cfg"] by (auto simp: views_at_def)

lemma py_range_less:
  assumes "h \<in> set (py_range lo hi step)" "0 < step"
  shows "lo \<le> h \<and> h < hi"
proof -
  have "h \<in> (\<lambda>k. lo + k * step) ` {0..<(hi - lo + step - 1) div step}"
    using assms(1) by (simp only: py_range_def set_map set_upt)
  then obtain k where k: "h = lo + k * step" "k < (hi - lo + step - 1) div step"
    by (elim imageE) (simp only: atLeastLessThan_iff)
  then have "k + 1 \<le> (hi - lo + step - 1) div step" by simp
  then have "(k + 1) * step \<le> hi - lo + step - 1"
    using assms(2) by (simp add: less_eq_div_iff_mult_less_eq)
  then have "k * step + step \<le> hi - lo + step - 1" by simp
  then have "k * step < hi - lo" using assms(2) by linarith
  then show ?thesis using k(1) by simp
qed

text \<open>What a run has recorded after the hours \<open>hs\<close>.\<close>

definition sim_recorded :: "sim_params \<Rightarrow> nat list \<Rightarrow> nat \<Rightarrow> sim_run \<Rightarrow> bool" where
  "sim_recorded sp hs n0 run =
     (map sq_ts (sm_lines run) = map (\<lambda>h. sp_base_ts sp + real h * 3600) hs \<and>
      length (w_receipts (sm_world run)) = n0 + length hs \<and>
      valid_chain (sp_digest sp) (w_receipts (sm_world run)) \<and>
      length (sm_x402 run) = length hs \<and>
      (0 < risk_cfg.max_drawdown_pct (risk (sp_cfg sp)) \<longrightarrow>
         (sm_breached run \<longleftrightarrow> risk_cfg.max_drawdown_pct (risk (sp_cfg sp)) \<le> sm_max_dd run)))"

lemma sim_step_ok:
  assumes "good_series n series" "h < n" "get_or (vol_enter_max_pct (sp_cfg sp)) 4 \<noteq> 0"
    "get_or (quote_tokens (sp_cfg sp)) [''USDT''] \<noteq> []" "sim_recorded sp hs n0 run"
  shows "\<exists>run'. sim_step sp series h run = (run', None) \<and> sim_recorded sp (hs @ [h]) n0 run' \<and>
    st_nav (sm_state run') \<noteq> None"
proof -
  define now where "now = sp_base_ts sp + real h * 3600"
  obtain views where views: "views_at series h now (sp_cfg sp) = Inr views"
    using views_at_ok [OF assms(1,2)] by blast
  obtain w res s where t: "tick (sim_env sp h) (sp_cfg sp) (sm_state run) views now (Some now) (sm_world run) = (w, Inr (res, s))"
  proof -
    have "te_executor (sim_env sp h) = None" by (simp add: sim_env_def)
    from tick_returns [OF this assms(3,4)] that show thesis by blast
  qed
  have "length (w_receipts w) = Suc (length (w_receipts (sm_world run)))" using tick_receipts [OF t] by auto
  moreover have "valid_chain (sp_digest sp) (w_receipts w)"
    using tick_valid_chain [OF t] assms(5) by (simp add: sim_env_def sim_recorded_def)
  ultimately show ?thesis
    using views t assms(5)
    by (auto simp: sim_step_def now_def [symmetric] Let_def sim_record_def sim_recorded_def log_x402_def new_x402_def
        mark_nav_def)
qed

lemma sim_hours_ok:
  assumes "good_series n series" "get_or (vol_enter_max_pct (sp_cfg sp)) 4 \<noteq> 0"
    "get_or (quote_tokens (sp_cfg sp)) [''USDT''] \<noteq> []"
  shows "\<forall>h \<in> set hs. h < n \<Longrightarrow> sim_recorded sp hs0 n0 run \<Longrightarrow>
    \<exists>run'. sim_hours sp series hs run = (run', None) \<and> sim_recorded sp (hs0 @ hs) n0 run'"
proof (induction hs arbitrary: hs0 run)
  case (Cons h hs)
  obtain run1 where r: "sim_step sp series h run = (run1, None)" "sim_recorded sp (hs0 @ [h]) n0 run1"
    using sim_step_ok [OF assms(1) _ assms(2,3) Cons.prems(2), of h] Cons.prems(1) by auto
  with Cons.IH [OF _ r(2)] Cons.prems(1) show ?case by simp
qed simp

text \<open>
  C31. The simulation always completes and reports the truth: for every stream of draws, wall clock and number of
  weeks, with a positive step, non-zero start and a policy with a quote token, it returns a summary; it made one
  tick per step of the range, each with one receipt on an intact chain, one request record and one equity line
  stamped with its hour; and it reports a breach of the drawdown gate exactly when the largest drawdown of a
  step reached the gate.
\<close>

theorem simulation_completes:
  assumes "0 < step" "nav0 \<noteq> 0" "get_or (vol_enter_max_pct (sp_cfg sp)) 4 \<noteq> 0"
    "get_or (quote_tokens (sp_cfg sp)) [''USDT''] \<noteq> []" "0 < risk_cfg.max_drawdown_pct (risk (sp_cfg sp))"
  shows "\<exists>run summary. simulate sp draws weeks step nav0 True w l = (run, Inr summary) \<and>
    map sq_ts (sm_lines run) =
      map (\<lambda>h. sp_base_ts sp + real h * 3600) (py_range 4 (sim_hour_count weeks) step) \<and>
    ss_ticks summary = length (py_range 4 (sim_hour_count weeks) step) \<and>
    length (w_receipts (sm_world run)) = ss_ticks summary \<and> length (sm_x402 run) = ss_ticks summary \<and>
    valid_chain (sp_digest sp) (w_receipts (sm_world run)) \<and>
    (ss_breached_gate summary \<longleftrightarrow> risk_cfg.max_drawdown_pct (risk (sp_cfg sp)) \<le> sm_max_dd run)"
proof -
  let ?hours = "sim_hour_count weeks" and ?run0 = "sim_start nav0 True w l"
  have "\<forall>a \<in> set (sort ASSETS). map_of START_PRICES a \<noteq> None" by (simp add: ASSETS_def START_PRICES_def)
  then obtain series where g: "generate_assets (?hours + 5) default_shocks (sort ASSETS) draws = Inr series"
    using generate_assets_total by blast
  have "\<forall>f \<in> ran default_shocks. 0 < f" by (auto simp: default_shocks_def ran_def split: if_splits)
  from generate_assets_ok [OF g _ this] have "\<forall>(a, path) \<in> set series. map fst path = [0..<?hours + 5] \<and> (\<forall>x \<in> set path. 0 < snd x)"
    by simp
  moreover have "length path = ?hours + 5" if "map fst path = [0..<?hours + 5]" for path :: "(nat \<times> real) list"
    using that by (metis length_map length_upt minus_nat.diff_0)
  ultimately have good: "good_series (?hours + 5) series" unfolding good_series_def by blast
  have "sim_recorded sp [] 0 ?run0"
    using assms(5) receipt_log.valid_empty by (simp add: sim_recorded_def sim_start_def)
  moreover have "\<forall>h \<in> set (py_range 4 ?hours step). h < ?hours + 5" using py_range_less assms(1) by fastforce
  ultimately obtain run where run: "sim_hours sp series (py_range 4 ?hours step) ?run0 = (run, None)"
      "sim_recorded sp (py_range 4 ?hours step) 0 run"
    using sim_hours_ok [OF good assms(3,4), of "py_range 4 ?hours step" "[]" 0 ?run0] by auto
  have lines: "length (sm_lines run) = length (py_range 4 ?hours step)"
    using run(2) unfolding sim_recorded_def by (metis length_map)
  have "simulate sp draws weeks step nav0 True w l = (run, sim_summarise sp weeks nav0 run)"
    using g run(1) assms(1) by (simp add: simulate_def Let_def generate_synthetic_prices_def)
  then show ?thesis
    using run(2) lines assms(2,5) by (auto simp: sim_summarise_def Let_def sim_recorded_def)
qed

theorem simulation_completes_witness:
  "\<exists>run summary. simulate \<lparr>sp_cfg = bnb_config, sp_digest = id, sp_policy_hash = [], sp_wall = (\<lambda>_. 0), sp_base_ts = 1750550400\<rparr>
     (\<lambda>_. 0) 1 2 500 True empty_world [] = (run, Inr summary) \<and> ss_ticks summary = 82"
proof -
  let ?sp = "\<lparr>sp_cfg = bnb_config, sp_digest = id, sp_policy_hash = [], sp_wall = (\<lambda>_. 0), sp_base_ts = 1750550400\<rparr> :: sim_params"
  have "length (py_range 4 (sim_hour_count 1) 2) = 82" by (simp add: py_range_def sim_hour_count_def)
  with simulation_completes [of 2 500 ?sp "\<lambda>_. 0" 1 empty_world "[]"] show ?thesis
    by (auto simp: bnb_config_def)
qed

end
