(* ===== verification/Strategy_Spec.thy ===== *)
theory Strategy_Spec
  imports Champion Cmc
begin

text \<open>
  \<open>skills/sumplus-survival-strategy/generate_spec.py\<close>: the regime read off the market, the strategy specification
  assembled from the committed policy, and its conversion into the configuration of the backtest's champion.
  Fixed descriptive texts of the specification are left out of the record.
\<close>

section \<open>The regime\<close>

datatype spec_regime = SpecRiskOn | SpecNeutral | SpecRiskOff

definition REGIME_EXPOSURE :: "spec_regime \<Rightarrow> real" where
  "REGIME_EXPOSURE r = (case r of SpecRiskOn \<Rightarrow> 12 / 100 | SpecNeutral \<Rightarrow> 8 / 100 | SpecRiskOff \<Rightarrow> 4 / 100)"

definition classify_regime :: "real \<Rightarrow> real \<Rightarrow> real \<Rightarrow> spec_regime" where
  "classify_regime fng avg_mom_4h avg_vol =
     (if 80 \<le> fng \<or> 4 \<le> avg_vol \<or> avg_mom_4h \<le> - 2 then SpecRiskOff
      else if fng \<le> 35 \<or> 1 \<le> avg_mom_4h
      then (if avg_vol < 3 then SpecRiskOn else SpecNeutral)
      else SpecNeutral)"

definition list_mean :: "real list \<Rightarrow> real" where
  "list_mean xs = (if xs = [] then 0 else sum_list xs / real (length xs))"

definition read_market :: "config \<Rightarrow> token_view list \<Rightarrow> real \<times> real" where
  "read_market cfg views =
     (let syms = universe cfg;
          risky = filter (\<lambda>v. upper (tv_symbol v) \<in> upper ` set syms) views
      in (list_mean (List.map_filter tv_pct_4h risky), list_mean (List.map_filter tv_vol_24h_pct risky)))"

section \<open>The specification\<close>

record strategy_spec =
  sy_universe :: "string list"
  sy_quote_tokens :: "string list"
  sy_regime :: spec_regime
  sy_fear_greed :: real
  sy_avg_momentum :: real
  sy_avg_vol :: real
  sy_source :: string
  sy_require_agreement :: bool
  sy_max_entry_vol :: real
  sy_min_trade_pct :: real
  sy_max_trade_pct :: real
  sy_vol_scaled :: bool
  sy_max_risky :: real
  sy_halve_at :: real
  sy_no_new_risk_at :: real
  sy_flatten_at :: real
  sy_hard_kill_at :: real
  sy_gate_at :: real
  sy_stop_loss_pct :: real
  sy_take_profit_pct :: real
  sy_max_hold_hours :: real
  sy_max_trades_per_hour :: int
  sy_min_interval_s :: int

definition need :: "string \<Rightarrow> 'a option \<Rightarrow> py_error + 'a" where
  "need k x = (case x of Some v \<Rightarrow> Inr v | None \<Rightarrow> Inl (KeyError k))"

text \<open>\<open>hard_kill\<close> is \<open>cfg["internal_hard_kill_pct"]\<close>, \<open>live\<close> whether the API key is set.\<close>

definition build_spec :: "config \<Rightarrow> real option \<Rightarrow> bool \<Rightarrow> spec_regime \<Rightarrow> real \<Rightarrow> real \<Rightarrow> real \<Rightarrow> py_error + strategy_spec" where
  "build_spec cfg hard_kill live regime fng avg_mom_4h avg_vol =
     (let r = risk cfg in
      and_then (need ''vol_enter_max_pct'' (vol_enter_max_pct cfg)) (\<lambda>vol_max.
      and_then (need ''min_single_trade_pct'' (min_single_trade_pct r)) (\<lambda>min_pct.
      and_then (need ''max_single_trade_pct'' (max_single_trade_pct r)) (\<lambda>max_pct.
      case drawdown_ladder cfg of
        a # b # c # _ \<Rightarrow>
          and_then (need ''internal_hard_kill_pct'' hard_kill) (\<lambda>kill.
            Inr \<lparr>sy_universe = universe cfg, sy_quote_tokens = get_or (quote_tokens cfg) [''USDT'', ''USDC''],
                 sy_regime = regime, sy_fear_greed = py_round fng 1, sy_avg_momentum = py_round avg_mom_4h 3,
                 sy_avg_vol = py_round avg_vol 3,
                 sy_source = (if live then ''coinmarketcap'' else ''offline-scenario''),
                 sy_require_agreement = True, sy_max_entry_vol = vol_max, sy_min_trade_pct = min_pct,
                 sy_max_trade_pct = max_pct, sy_vol_scaled = True, sy_max_risky = REGIME_EXPOSURE regime,
                 sy_halve_at = at_pct a, sy_no_new_risk_at = at_pct b, sy_flatten_at = at_pct c,
                 sy_hard_kill_at = kill, sy_gate_at = max_drawdown_pct r, sy_stop_loss_pct = stop_loss_pct r,
                 sy_take_profit_pct = take_profit_pct r, sy_max_hold_hours = max_hold_hours r,
                 sy_max_trades_per_hour = max_trades_per_hour r,
                 sy_min_interval_s = min_trade_interval_seconds r\<rparr>)
      | _ \<Rightarrow> Inl IndexError))))"

definition to_backtest_cfg :: "strategy_spec \<Rightarrow> champion_cfg" where
  "to_backtest_cfg spec = \<lparr>cc_universe = sy_universe spec, cc_lookbacks = [1, 4],
     cc_require_agreement = sy_require_agreement spec, cc_vol_max = sy_max_entry_vol spec, cc_vol_window = 24,
     cc_max_single = sy_max_trade_pct spec, cc_min_single = sy_min_trade_pct spec, cc_max_risky = sy_max_risky spec,
     cc_stop_loss_pct = sy_stop_loss_pct spec, cc_take_profit_pct = sy_take_profit_pct spec,
     cc_max_hold_hours = \<lceil>sy_max_hold_hours spec\<rceil>,
     cc_ladder = [\<lparr>at_pct = sy_halve_at spec, le_action = HalveSize\<rparr>,
       \<lparr>at_pct = sy_no_new_risk_at spec, le_action = NoNewRisk\<rparr>,
       \<lparr>at_pct = sy_flatten_at spec, le_action = StablecoinMode\<rparr>],
     cc_micro_usd = 12, cc_target_ratio = 10 / 100, cc_band = 4 / 100, cc_cadence_h = 12\<rparr>"

text \<open>\<open>generate\<close>: the request log is that of \<open>get_token_views\<close>.\<close>

definition generate_spec :: "config \<Rightarrow> real option \<Rightarrow> (string list \<Rightarrow> py_error + json) option \<Rightarrow> bool \<Rightarrow> real \<Rightarrow>
    real option \<Rightarrow> x402_receipt list \<Rightarrow> x402_receipt list \<times> (py_error + strategy_spec)" where
  "generate_spec cfg hard_kill request enabled now fng l =
     (case get_token_views request enabled now (universe cfg) l of
        (l', Inl e) \<Rightarrow> (l', Inl e)
      | (l', Inr (views, _)) \<Rightarrow>
          let (avg_mom, avg_vol) = read_market cfg views; f = get_or fng 52
          in (l', build_spec cfg hard_kill (request \<noteq> None) (classify_regime f avg_mom avg_vol) f avg_mom avg_vol))"

section \<open>The regime is monotone\<close>

text \<open>
  The risk budget reacts in the right direction: more greed, more volatility or less momentum never raise the
  exposure of the specification, and it always lies between 4 and 12 percent.
\<close>

theorem exposure_monotone:
  assumes "fng \<le> fng'" "avg_mom' \<le> avg_mom" "avg_vol \<le> avg_vol'"
  shows "REGIME_EXPOSURE (classify_regime fng' avg_mom' avg_vol') \<le> REGIME_EXPOSURE (classify_regime fng avg_mom avg_vol) \<and>
    4 / 100 \<le> REGIME_EXPOSURE (classify_regime fng' avg_mom' avg_vol') \<and>
    REGIME_EXPOSURE (classify_regime fng avg_mom avg_vol) \<le> 12 / 100"
proof -
  have range: "4 / 100 \<le> REGIME_EXPOSURE r" "REGIME_EXPOSURE r \<le> 12 / 100" for r
    by (cases r; simp add: REGIME_EXPOSURE_def)+
  show ?thesis
  proof (cases "classify_regime fng' avg_mom' avg_vol'")
    case SpecRiskOff
    then show ?thesis using range [of "classify_regime fng avg_mom avg_vol"] by (simp add: REGIME_EXPOSURE_def)
  next
    case SpecRiskOn
    then have "classify_regime fng avg_mom avg_vol = SpecRiskOn"
      using assms by (auto simp: classify_regime_def split: if_splits)
    with SpecRiskOn range show ?thesis by simp
  next
    case SpecNeutral
    then have "classify_regime fng avg_mom avg_vol \<noteq> SpecRiskOff"
      using assms by (auto simp: classify_regime_def split: if_splits)
    with SpecNeutral show ?thesis
      by (cases "classify_regime fng avg_mom avg_vol") (simp_all add: REGIME_EXPOSURE_def)
  qed
qed

theorem exposure_monotone_witness:
  "REGIME_EXPOSURE (classify_regime 85 0 2) \<le> REGIME_EXPOSURE (classify_regime 52 1 2)"
  using exposure_monotone [of 52 85 0 1 2 2] by simp

section \<open>The specification is the policy\<close>

text \<open>The policy in the form of the backtest, with another exposure cap.\<close>

definition policy_as_backtest :: "config \<Rightarrow> real \<Rightarrow> champion_cfg" where
  "policy_as_backtest cfg exposure = \<lparr>cc_universe = universe cfg, cc_lookbacks = [1, 4], cc_require_agreement = True,
     cc_vol_max = the (vol_enter_max_pct cfg), cc_vol_window = 24, cc_max_single = the (max_single_trade_pct (risk cfg)),
     cc_min_single = the (min_single_trade_pct (risk cfg)), cc_max_risky = exposure,
     cc_stop_loss_pct = stop_loss_pct (risk cfg), cc_take_profit_pct = take_profit_pct (risk cfg),
     cc_max_hold_hours = \<lceil>max_hold_hours (risk cfg)\<rceil>, cc_ladder = drawdown_ladder cfg, cc_micro_usd = 12,
     cc_target_ratio = 10 / 100, cc_band = 4 / 100, cc_cadence_h = 12\<rparr>"

text \<open>
  The specification survives the way to the backtest: for a policy whose ladder is the three rungs in their
  order, the configuration that the champion gets from the generated specification is the committed policy with
  the regime's exposure as its only change; a policy without one of the fields raises instead.
\<close>

theorem spec_round_trip:
  assumes "map le_action (drawdown_ladder cfg) = [HalveSize, NoNewRisk, StablecoinMode]"
  shows "(case build_spec cfg hard_kill live regime fng avg_mom avg_vol of
      Inr spec \<Rightarrow> to_backtest_cfg spec = policy_as_backtest cfg (REGIME_EXPOSURE regime) \<and>
        sy_hard_kill_at spec = the hard_kill \<and> sy_gate_at spec = max_drawdown_pct (risk cfg)
    | Inl e \<Rightarrow> vol_enter_max_pct cfg = None \<or> min_single_trade_pct (risk cfg) = None \<or>
        max_single_trade_pct (risk cfg) = None \<or> hard_kill = None)"
proof -
  obtain a b c where l: "drawdown_ladder cfg = [a, b, c]" "le_action a = HalveSize" "le_action b = NoNewRisk"
      "le_action c = StablecoinMode"
    using assms by (auto simp: map_eq_Cons_conv)
  then have "drawdown_ladder cfg = [\<lparr>at_pct = at_pct a, le_action = HalveSize\<rparr>,
      \<lparr>at_pct = at_pct b, le_action = NoNewRisk\<rparr>, \<lparr>at_pct = at_pct c, le_action = StablecoinMode\<rparr>]"
    by (metis ladder_entry.surjective old.unit.exhaust)
  then show ?thesis using l
    by (auto simp: build_spec_def Let_def need_def and_then_def to_backtest_cfg_def policy_as_backtest_def
        split: option.splits)
qed

theorem spec_round_trip_witness:
  "case build_spec bnb_config (Some 3) False SpecRiskOn 52 (11 / 10) 3 of
     Inr spec \<Rightarrow> to_backtest_cfg spec = policy_as_backtest bnb_config (12 / 100) | Inl _ \<Rightarrow> False"
proof -
  have "map le_action (drawdown_ladder bnb_config) = [HalveSize, NoNewRisk, StablecoinMode]" by (simp add: bnb_config_def)
  from spec_round_trip [OF this, where hard_kill = "Some 3" and live = False and regime = SpecRiskOn and fng = 52 and avg_mom = "11 / 10" and avg_vol = 3] show ?thesis
    by (auto simp: REGIME_EXPOSURE_def bnb_config_def split: sum.splits)
qed

end
