(* ===== verification/RealData.thy ===== *)
theory RealData
  imports BtRun Simulate Strategy_Spec
begin

text \<open>
  \<open>backtest/real_data.py\<close> and \<open>backtest/real_data_live.py\<close>: the backtest on recent hourly closes, with the reference
  champion under the live parameters and with the live pipeline itself. The exchange is an argument: what it
  answers to a request that starts at a time. The fetch loop may run for ever, so its result is an option. The
  printed tables are output only; a week is identified by its first and last hour.
\<close>

section \<open>Fetching\<close>

text \<open>An answer is a list of bars, each with its opening time in milliseconds and its close.\<close>

type_synonym exchange = "int \<Rightarrow> py_error + (int \<times> real) list"

partial_function (option) fetch_from :: "exchange \<Rightarrow> int \<Rightarrow> int \<Rightarrow> real list \<Rightarrow> (py_error + real list) option" where
  "fetch_from klines end_ms cur out =
     (if cur < end_ms
      then (case klines cur of
              Inl e \<Rightarrow> Some (Inl e)
            | Inr rows \<Rightarrow>
                if rows = [] then Some (Inr out)
                else if length rows < 1000 then Some (Inr (out @ map snd rows))
                else fetch_from klines end_ms (fst (last rows) + 3600000) (out @ map snd rows))
      else Some (Inr out))"

definition fetch_hourly :: "exchange \<Rightarrow> int \<Rightarrow> int \<Rightarrow> (py_error + real list) option" where
  "fetch_hourly klines start_ms end_ms = fetch_from klines end_ms start_ms []"

definition BINANCE :: "(string \<times> string) list" where
  "BINANCE = [(''WBNB'', ''BNBUSDT''), (''BTCB'', ''BTCUSDT''), (''ETH'', ''ETHUSDT''), (''CAKE'', ''CAKEUSDT'')]"

fun fetch_all :: "(string \<Rightarrow> exchange) \<Rightarrow> int \<Rightarrow> int \<Rightarrow> (string \<times> string) list \<Rightarrow>
    (py_error + (string \<times> real list) list) option" where
  "fetch_all exchange start_ms end_ms [] = Some (Inr [])"
| "fetch_all exchange start_ms end_ms ((s, b) # ss) =
     (case fetch_hourly (exchange b) start_ms end_ms of
        None \<Rightarrow> None
      | Some (Inl e) \<Rightarrow> Some (Inl e)
      | Some (Inr closes) \<Rightarrow> map_option (map_sum id (Cons (s, closes))) (fetch_all exchange start_ms end_ms ss))"

text \<open>\<open>n\<close> is the shortest length; every series is cut to it.\<close>

definition shortest :: "(string \<times> real list) list \<Rightarrow> nat" where
  "shortest raw = Min (set (map (length \<circ> snd) raw))"

definition aligned :: "(string \<times> real list) list \<Rightarrow> (string \<times> real list) list" where
  "aligned raw = map (\<lambda>(s, closes). (s, take (shortest raw) closes)) raw"

definition WARMUP_H :: nat where "WARMUP_H = 24"

definition WEEK_H :: nat where "WEEK_H = 168"

definition week_bounds :: "nat \<Rightarrow> (nat \<times> nat) list" where
  "week_bounds n = map (\<lambda>i. let lo = WARMUP_H + i * WEEK_H; hi = lo + WEEK_H in (lo, if n < hi then n else hi)) [0..<3]"

section \<open>The reference champion\<close>

definition LIVE_CFG :: champion_cfg where
  "LIVE_CFG = \<lparr>cc_universe = [''WBNB'', ''BTCB'', ''ETH'', ''CAKE''], cc_lookbacks = [1, 4],
     cc_require_agreement = True, cc_vol_max = 4, cc_vol_window = 24, cc_max_single = 25 / 1000,
     cc_min_single = 1 / 100, cc_max_risky = 12 / 100, cc_stop_loss_pct = 2, cc_take_profit_pct = 4,
     cc_max_hold_hours = 48,
     cc_ladder = [\<lparr>at_pct = 1, le_action = HalveSize\<rparr>, \<lparr>at_pct = 2, le_action = NoNewRisk\<rparr>,
       \<lparr>at_pct = 3, le_action = StablecoinMode\<rparr>],
     cc_micro_usd = 12, cc_target_ratio = 10 / 100, cc_band = 4 / 100, cc_cadence_h = 12\<rparr>"

definition REAL_INITIAL_NAV :: real where "REAL_INITIAL_NAV = 500"

text \<open>\<open>_run_week\<close> runs the hours as the engine of \<open>run.py\<close> does, without writing a ledger.\<close>

definition run_week :: "strategy \<Rightarrow> (string \<times> real list) list \<Rightarrow> nat \<Rightarrow> nat \<Rightarrow> py_error + bt_portfolio" where
  "run_week decide_fn ppa lo hi = map_sum id fst (run_hours decide_fn ppa [lo..<hi] (new_portfolio REAL_INITIAL_NAV) [])"

record week_report =
  wr_week :: "nat \<times> nat"
  wr_return_pct :: real
  wr_max_drawdown_pct :: real
  wr_breached_gate :: bool
  wr_breach_hour :: "nat option"
  wr_trades :: int
  wr_sharpe :: "real option"

definition report_week :: "nat \<Rightarrow> nat \<Rightarrow> bt_portfolio \<Rightarrow> week_report" where
  "report_week lo hi p =
     (let m = all_metrics p (bt_nav_history p) (int hi - int lo);
          breach = first_breach_hour (bt_drawdown_history p) GATE_DD_PCT
      in \<lparr>wr_week = (lo, hi), wr_return_pct = mb_total_return_pct m, wr_max_drawdown_pct = mb_max_drawdown_pct m,
          wr_breached_gate = (breach \<noteq> None), wr_breach_hour = breach, wr_trades = mb_trade_count m,
          wr_sharpe = Some (mb_sharpe m)\<rparr>)"

fun run_weeks :: "strategy \<Rightarrow> (string \<times> real list) list \<Rightarrow> (nat \<times> nat) list \<Rightarrow> py_error + week_report list" where
  "run_weeks decide_fn ppa [] = Inr []"
| "run_weeks decide_fn ppa ((lo, hi) # ws) =
     (case run_week decide_fn ppa lo hi of
        Inl e \<Rightarrow> Inl e
      | Inr p \<Rightarrow> map_sum id (Cons (report_week lo hi p)) (run_weeks decide_fn ppa ws))"

record real_result =
  rr_weeks :: "week_report list"
  rr_challenger :: week_report
  rr_survived :: nat
  rr_worst :: real

text \<open>After the fetch: three weeks of the champion, the last week of the baseline, the verdict.\<close>

definition real_results :: "(string \<times> real list) list \<Rightarrow> py_error + real_result" where
  "real_results raw =
     (let ppa = aligned raw; weeks = week_bounds (shortest raw); (lo, hi) = last weeks in
      case run_weeks (champion_decide LIVE_CFG) ppa weeks of
        Inl e \<Rightarrow> Inl e
      | Inr ws \<Rightarrow>
          (case run_week (challenger_decide CHALLENGER_CFG) ppa lo hi of
             Inl e \<Rightarrow> Inl e
           | Inr chal \<Rightarrow> Inr \<lparr>rr_weeks = ws, rr_challenger = report_week lo hi chal,
               rr_survived = length (filter (\<lambda>w. \<not> wr_breached_gate w) ws),
               rr_worst = Max (set (map wr_max_drawdown_pct ws))\<rparr>))"

definition real_main :: "(string \<Rightarrow> exchange) \<Rightarrow> int \<Rightarrow> (py_error + real_result) option" where
  "real_main exchange end_s =
     (let start_s = end_s - int (WARMUP_H + 3 * WEEK_H) * 3600 in
      case fetch_all exchange (start_s * 1000) (end_s * 1000) BINANCE of
        None \<Rightarrow> None
      | Some (Inl e) \<Rightarrow> Some (Inl e)
      | Some (Inr raw) \<Rightarrow> Some (real_results raw))"

section \<open>The live pipeline\<close>

record week_run =
  wk_state :: agent_state
  wk_world :: world
  wk_max_dd :: real
  wk_breach :: "nat option"
  wk_price :: "(string \<rightharpoonup> real) option"

definition week_start :: week_run where
  "week_start = \<lparr>wk_state = sim_state0 REAL_INITIAL_NAV, wk_world = empty_world, wk_max_dd = 0, wk_breach = None,
     wk_price = None\<rparr>"

definition live_hour :: "sim_params \<Rightarrow> series \<Rightarrow> nat \<Rightarrow> nat \<Rightarrow> week_run \<Rightarrow> py_error + week_run" where
  "live_hour sp series lo h run =
     (let now_ts = sp_base_ts sp + real h * 3600 in
      case views_at series h now_ts (sp_cfg sp) of
        Inl e \<Rightarrow> Inl e
      | Inr views \<Rightarrow>
          let price = price_table views in
          (case tick (sim_env sp h) (sp_cfg sp) (wk_state run) views now_ts (Some now_ts) (wk_world run) of
             (w, Inl e) \<Rightarrow> Inl e
           | (w, Inr (res, s)) \<Rightarrow>
               let (nav, s') = mark_nav s price; hwm = get_or (st_high_water_mark s') 0;
                   dd = (if 0 < hwm then (hwm - nav) / hwm * 100 else 0)
               in Inr \<lparr>wk_state = s', wk_world = w, wk_max_dd = max (wk_max_dd run) dd,
                       wk_breach = (if wk_breach run = None \<and> GATE_DD_PCT \<le> dd then Some (h - lo) else wk_breach run),
                       wk_price = Some price\<rparr>))"

fun live_hours :: "sim_params \<Rightarrow> series \<Rightarrow> nat \<Rightarrow> nat list \<Rightarrow> week_run \<Rightarrow> py_error + week_run" where
  "live_hours sp series lo [] run = Inr run"
| "live_hours sp series lo (h # hs) run =
     and_then (live_hour sp series lo h run) (live_hours sp series lo hs)"

text \<open>A week without an hour leaves \<open>price\<close> unbound.\<close>

definition run_week_live :: "sim_params \<Rightarrow> series \<Rightarrow> nat \<Rightarrow> nat \<Rightarrow> py_error + week_report" where
  "run_week_live sp series lo hi =
     and_then (live_hours sp series lo [lo..<hi] week_start) (\<lambda>run.
     case wk_price run of
       None \<Rightarrow> Inl (RuntimeError ''UnboundLocalError'')
     | Some price \<Rightarrow>
         let final_nav = fst (mark_nav (wk_state run) price) in
         Inr \<lparr>wr_week = (lo, hi), wr_return_pct = py_round ((final_nav / REAL_INITIAL_NAV - 1) * 100) 2,
              wr_max_drawdown_pct = py_round (wk_max_dd run) 2, wr_breached_gate = (wk_breach run \<noteq> None),
              wr_breach_hour = wk_breach run, wr_trades = get_or (st_trades_this_week (wk_state run)) 0, wr_sharpe = None\<rparr>)"

text \<open>The series of \<open>_views_at\<close>; the stamp of a bar, which it does not read, is the number of its hour.\<close>

definition live_series :: "(string \<times> real list) list \<Rightarrow> series" where
  "live_series raw = map (\<lambda>(s, closes). (s, map (\<lambda>i. (i, closes ! i)) [0..<shortest raw])) raw"

fun run_weeks_live :: "sim_params \<Rightarrow> series \<Rightarrow> (nat \<times> nat) list \<Rightarrow> py_error + week_report list" where
  "run_weeks_live sp series [] = Inr []"
| "run_weeks_live sp series ((lo, hi) # ws) =
     and_then (run_week_live sp series lo hi) (\<lambda>r. and_then (run_weeks_live sp series ws) (\<lambda>rs. Inr (r # rs)))"

definition live_results :: "sim_params \<Rightarrow> (string \<times> real list) list \<Rightarrow> py_error + real_result" where
  "live_results sp raw =
     (let ppa = aligned raw; weeks = week_bounds (shortest raw); (lo, hi) = last weeks in
      and_then (run_weeks_live sp (live_series raw) weeks) (\<lambda>ws.
      and_then (run_week (challenger_decide CHALLENGER_CFG) ppa lo hi) (\<lambda>chal.
        Inr \<lparr>rr_weeks = ws, rr_challenger = report_week lo hi chal,
             rr_survived = length (filter (\<lambda>w. \<not> wr_breached_gate w) ws),
             rr_worst = Max (set (map wr_max_drawdown_pct ws))\<rparr>)))"

section \<open>The fetch ends\<close>

text \<open>
  The fetch ends whenever the exchange answers forwards: if no answer to a request that starts at a time ends
  with a bar that opened before it, the loop returns (prices, or the exception of a failed request) whatever the
  answers contain otherwise.
\<close>

theorem fetch_terminates:
  assumes "\<forall>cur rows. klines cur = Inr rows \<longrightarrow> rows \<noteq> [] \<longrightarrow> cur \<le> fst (last rows)"
  shows "\<exists>r. fetch_hourly klines start_ms end_ms = Some r"
proof -
  have "\<exists>r. fetch_from klines end_ms cur out = Some r" for cur out
  proof (induction "nat (end_ms - cur)" arbitrary: cur out rule: less_induct)
    case less
    show ?case
    proof (cases "\<exists>rows. cur < end_ms \<and> klines cur = Inr rows \<and> rows \<noteq> [] \<and> \<not> length rows < 1000")
      case True
      then obtain rows where r: "cur < end_ms" "klines cur = Inr rows" "rows \<noteq> []" "\<not> length rows < 1000" by blast
      then have "nat (end_ms - (fst (last rows) + 3600000)) < nat (end_ms - cur)" using assms by fastforce
      from less [OF this, of "out @ map snd rows"] r show ?thesis by (subst fetch_from.simps) simp
    next
      case False
      then show ?thesis by (subst fetch_from.simps) (auto split: sum.splits)
    qed
  qed
  then show ?thesis by (simp add: fetch_hourly_def)
qed

theorem fetch_terminates_witness:
  "\<exists>r. fetch_hourly (\<lambda>cur. Inr (map (\<lambda>k. (cur + int k * 3600000, 100)) [0..<1000])) 0 (10 ^ 12) = Some r"
  by (rule fetch_terminates) (auto simp: last_map)

section \<open>The reference run\<close>

interpretation live: bt_strategy "champion_decide LIVE_CFG" "set ASSETS"
  by (rule champion_strategy) (simp_all add: LIVE_CFG_def ASSETS_def)

definition good_raw :: "(string \<times> real list) list \<Rightarrow> bool" where
  "good_raw raw = (map fst raw = map fst BINANCE \<and> (\<forall>(s, closes) \<in> set raw. \<forall>x \<in> set closes. 0 < x))"

lemma good_raw_nonempty: "good_raw raw \<Longrightarrow> raw \<noteq> []"
  by (auto simp: good_raw_def BINANCE_def)

lemma shortest_le: "(s, closes) \<in> set raw \<Longrightarrow> shortest raw \<le> length closes"
  unfolding shortest_def by (rule Min_le) force+

lemma aligned_priced:
  assumes "good_raw raw" "hi \<le> shortest raw \<or> hi \<le> lo"
  shows "set ASSETS \<subseteq> fst ` set (aligned raw)"
    "\<forall>(a, path) \<in> set (aligned raw). \<forall>h \<in> set [lo..<hi]. h < length path \<and> 0 < path ! h"
proof -
  have "fst ` set (aligned raw) = set (map fst raw)" by (force simp: aligned_def)
  moreover have "map fst raw = map fst BINANCE" using assms(1) by (simp only: good_raw_def)
  moreover have "set (map fst BINANCE) = set ASSETS" by (simp add: BINANCE_def ASSETS_def)
  ultimately show "set ASSETS \<subseteq> fst ` set (aligned raw)" by (simp only: order_refl)
  show "\<forall>(a, path) \<in> set (aligned raw). \<forall>h \<in> set [lo..<hi]. h < length path \<and> 0 < path ! h"
  proof (safe)
    fix a path h assume a: "(a, path) \<in> set (aligned raw)" and h: "h \<in> set [lo..<hi]"
    then obtain closes where c: "(a, closes) \<in> set raw" "path = take (shortest raw) closes" by (auto simp: aligned_def)
    from h assms(2) have "h < shortest raw" by auto
    with shortest_le [OF c(1)] c(2) show "h < length path" by simp
    then show "0 < path ! h" using assms(1) c by (auto simp: good_raw_def)
  qed
qed

lemma run_week_ok:
  assumes "good_raw raw" "hi \<le> shortest raw \<or> hi \<le> lo"
  shows "\<exists>p. run_week (champion_decide LIVE_CFG) (aligned raw) lo hi = Inr p \<and> (hi \<le> lo \<longrightarrow> p = new_portfolio REAL_INITIAL_NAV)"
    "\<exists>p. run_week (challenger_decide CHALLENGER_CFG) (aligned raw) lo hi = Inr p"
proof -
  have ok: "bt_ok (new_portfolio REAL_INITIAL_NAV)" by (rule bt_ok_new) (simp add: REAL_INITIAL_NAV_def)
  have e: "held (new_portfolio REAL_INITIAL_NAV) \<subseteq> set ASSETS" by (simp add: held_def new_portfolio_def)
  note ppa = aligned_priced [OF assms]
  show "\<exists>p. run_week (champion_decide LIVE_CFG) (aligned raw) lo hi = Inr p \<and> (hi \<le> lo \<longrightarrow> p = new_portfolio REAL_INITIAL_NAV)"
  proof (cases "hi \<le> lo")
    case False
    obtain p l where "run_hours (champion_decide LIVE_CFG) (aligned raw) [lo..<hi] (new_portfolio REAL_INITIAL_NAV) [] = Inr (p, l)"
      using live.run_hours_ok [OF ok e ppa, of "[]" Map.empty] by blast
    with False show ?thesis by (simp add: run_week_def)
  qed (simp add: run_week_def)
  show "\<exists>p. run_week (challenger_decide CHALLENGER_CFG) (aligned raw) lo hi = Inr p"
  proof -
    obtain p l where "run_hours (challenger_decide CHALLENGER_CFG) (aligned raw) [lo..<hi] (new_portfolio REAL_INITIAL_NAV) [] = Inr (p, l)"
      using challenger.run_hours_ok [OF ok e ppa, of "[]" Map.empty] by blast
    then show ?thesis by (simp add: run_week_def)
  qed
qed

lemma week_bounds_fit: "(lo, hi) \<in> set (week_bounds n) \<Longrightarrow> hi \<le> n \<or> hi \<le> lo"
  by (auto simp: week_bounds_def Let_def split: if_splits)

lemma report_untouched:
  "report_week lo hi (new_portfolio REAL_INITIAL_NAV) = \<lparr>wr_week = (lo, hi), wr_return_pct = 0, wr_max_drawdown_pct = 0,
     wr_breached_gate = False, wr_breach_hour = None, wr_trades = 0, wr_sharpe = Some 0\<rparr>"
  by (simp add: report_week_def all_metrics_def metrics_from_nav_def new_portfolio_def total_return_pct_def
      Metrics.max_drawdown_pct_def sharpe_def period_returns_def calmar_def first_breach_hour_def Let_def)

lemma run_weeks_ok:
  assumes "good_raw raw" "\<forall>(lo, hi) \<in> set ws. hi \<le> shortest raw \<or> hi \<le> lo"
  shows "\<exists>rs. run_weeks (champion_decide LIVE_CFG) (aligned raw) ws = Inr rs \<and> map wr_week rs = ws \<and>
    (\<forall>r \<in> set rs. snd (wr_week r) \<le> fst (wr_week r) \<longrightarrow>
       r = report_week (fst (wr_week r)) (snd (wr_week r)) (new_portfolio REAL_INITIAL_NAV))"
  using assms(2)
proof (induction ws)
  case (Cons w ws)
  obtain lo hi where w: "w = (lo, hi)" by fastforce
  have "hi \<le> shortest raw \<or> hi \<le> lo" using Cons.prems by (simp add: w)
  from run_week_ok(1) [OF assms(1) this] obtain p where p: "run_week (champion_decide LIVE_CFG) (aligned raw) lo hi = Inr p"
      "hi \<le> lo \<longrightarrow> p = new_portfolio REAL_INITIAL_NAV" by blast
  obtain rs where rs: "run_weeks (champion_decide LIVE_CFG) (aligned raw) ws = Inr rs" "map wr_week rs = ws"
      "\<forall>r \<in> set rs. snd (wr_week r) \<le> fst (wr_week r) \<longrightarrow>
         r = report_week (fst (wr_week r)) (snd (wr_week r)) (new_portfolio REAL_INITIAL_NAV)"
    using Cons by auto
  have week: "wr_week (report_week lo hi q) = (lo, hi)" for q by (simp add: report_week_def Let_def)
  from p rs week show ?case by (simp add: w)
qed simp

text \<open>
  The real-data backtest always reports, and counts missing data as survival: for positive closes, however
  few, it returns three weeks; a week for which there are no bars is reported as untouched, without a breach, and
  so is one of the survived weeks of the verdict.
\<close>

theorem missing_weeks_survive:
  assumes "good_raw raw"
  shows "\<exists>res. real_results raw = Inr res \<and> map wr_week (rr_weeks res) = week_bounds (shortest raw) \<and>
    rr_survived res = length (filter (\<lambda>w. \<not> wr_breached_gate w) (rr_weeks res)) \<and>
    (\<forall>w \<in> set (rr_weeks res). shortest raw \<le> fst (wr_week w) \<longrightarrow>
       \<not> wr_breached_gate w \<and> wr_return_pct w = 0 \<and> wr_max_drawdown_pct w = 0 \<and> wr_trades w = 0)"
proof -
  let ?n = "shortest raw"
  have fit: "\<forall>(lo, hi) \<in> set (week_bounds ?n). hi \<le> ?n \<or> hi \<le> lo" using week_bounds_fit by blast
  obtain rs where rs: "run_weeks (champion_decide LIVE_CFG) (aligned raw) (week_bounds ?n) = Inr rs"
      "map wr_week rs = week_bounds ?n"
      "\<forall>r \<in> set rs. snd (wr_week r) \<le> fst (wr_week r) \<longrightarrow>
         r = report_week (fst (wr_week r)) (snd (wr_week r)) (new_portfolio REAL_INITIAL_NAV)"
    using run_weeks_ok [OF assms fit] by blast
  obtain lo hi where l: "last (week_bounds ?n) = (lo, hi)" by fastforce
  have "week_bounds ?n \<noteq> []" by (simp add: week_bounds_def)
  from last_in_set [OF this] l have "(lo, hi) \<in> set (week_bounds ?n)" by simp
  from run_week_ok(2) [OF assms week_bounds_fit [OF this]]
  obtain chal where chal: "run_week (challenger_decide CHALLENGER_CFG) (aligned raw) lo hi = Inr chal" by blast
  have empty: "snd (wr_week w) \<le> fst (wr_week w)" if "w \<in> set rs" "?n \<le> fst (wr_week w)" for w
  proof -
    have "wr_week w \<in> set (week_bounds ?n)" using rs(2) that(1) by (metis image_eqI list.set_map)
    then have "snd (wr_week w) \<le> ?n \<or> snd (wr_week w) \<le> fst (wr_week w)"
      using week_bounds_fit [of "fst (wr_week w)" "snd (wr_week w)"] by simp
    with that(2) show ?thesis by linarith
  qed
  have "real_results raw = Inr \<lparr>rr_weeks = rs, rr_challenger = report_week lo hi chal,
      rr_survived = length (filter (\<lambda>w. \<not> wr_breached_gate w) rs), rr_worst = Max (set (map wr_max_drawdown_pct rs))\<rparr>"
    using rs(1) chal l by (simp add: real_results_def Let_def)
  moreover have "\<not> wr_breached_gate w \<and> wr_return_pct w = 0 \<and> wr_max_drawdown_pct w = 0 \<and> wr_trades w = 0"
    if w: "w \<in> set rs" "?n \<le> fst (wr_week w)" for w
  proof -
    have "w = report_week (fst (wr_week w)) (snd (wr_week w)) (new_portfolio REAL_INITIAL_NAV)" using rs(3) w empty by blast
    then have "w = \<lparr>wr_week = (fst (wr_week w), snd (wr_week w)), wr_return_pct = 0, wr_max_drawdown_pct = 0,
        wr_breached_gate = False, wr_breach_hour = None, wr_trades = 0, wr_sharpe = Some 0\<rparr>"
      by (simp only: report_untouched)
    then show ?thesis by (metis week_report.select_convs(2,3,4,6))
  qed
  ultimately show ?thesis using rs(2) by (intro exI conjI) (assumption | simp)+
qed

theorem missing_weeks_survive_witness:
  "\<exists>res. real_results (map (\<lambda>(s, _). (s, [100])) BINANCE) = Inr res \<and> rr_survived res = 3"
proof -
  let ?raw = "map (\<lambda>(s, _). (s, [100])) BINANCE :: (string \<times> real list) list"
  have "good_raw ?raw" by (auto simp: good_raw_def BINANCE_def)
  from missing_weeks_survive [OF this] obtain res where res: "real_results ?raw = Inr res"
      "map wr_week (rr_weeks res) = week_bounds (shortest ?raw)"
      "rr_survived res = length (filter (\<lambda>w. \<not> wr_breached_gate w) (rr_weeks res))"
      "\<forall>w \<in> set (rr_weeks res). shortest ?raw \<le> fst (wr_week w) \<longrightarrow> \<not> wr_breached_gate w" by blast
  have n: "shortest ?raw = 1" by (simp add: shortest_def BINANCE_def)
  have late: "1 \<le> fst b" if "b \<in> set (week_bounds 1)" for b
    using that by (auto simp: week_bounds_def WARMUP_H_def Let_def)
  have "\<not> wr_breached_gate w" if "w \<in> set (rr_weeks res)" for w
  proof -
    have "wr_week w \<in> set (week_bounds 1)" using res(2) that unfolding n by (metis image_eqI list.set_map)
    with late res(4) that n show ?thesis by simp
  qed
  then have "rr_survived res = length (map wr_week (rr_weeks res))" unfolding res(3) by simp
  then show ?thesis using res(1) unfolding res(2) by (simp add: week_bounds_def)
qed

text \<open>The parameters that the module mirrors by hand are those of the committed policy.\<close>

lemma live_cfg_is_committed: "LIVE_CFG = policy_as_backtest bnb_config (REGIME_EXPOSURE SpecRiskOn)"
  by (simp add: LIVE_CFG_def policy_as_backtest_def bnb_config_def REGIME_EXPOSURE_def)

section \<open>The live week\<close>

definition week_ok :: "nat list \<Rightarrow> nat \<Rightarrow> week_run \<Rightarrow> bool" where
  "week_ok hs lo run =
     ((wk_breach run = None \<longleftrightarrow> wk_max_dd run < GATE_DD_PCT) \<and>
      (\<forall>k. wk_breach run = Some k \<longrightarrow> (\<exists>h \<in> set hs. k = h - lo)) \<and>
      length (w_receipts (wk_world run)) = length hs \<and> (wk_price run = None \<longleftrightarrow> hs = []))"

lemma live_hour_ok:
  assumes "good_series n series" "h < n" "get_or (vol_enter_max_pct (sp_cfg sp)) 4 \<noteq> 0"
    "get_or (quote_tokens (sp_cfg sp)) [''USDT''] \<noteq> []" "week_ok hs lo run"
  shows "\<exists>run'. live_hour sp series lo h run = Inr run' \<and> week_ok (hs @ [h]) lo run'"
proof -
  define now where "now = sp_base_ts sp + real h * 3600"
  obtain views where views: "views_at series h now (sp_cfg sp) = Inr views"
    using views_at_ok [OF assms(1,2)] by blast
  obtain w res s where t: "tick (sim_env sp h) (sp_cfg sp) (wk_state run) views now (Some now) (wk_world run) = (w, Inr (res, s))"
  proof -
    have "te_executor (sim_env sp h) = None" by (simp add: sim_env_def)
    from tick_returns [OF this assms(3,4)] that show thesis by blast
  qed
  have rc: "length (w_receipts w) = Suc (length (w_receipts (wk_world run)))" using tick_receipts [OF t] by auto
  obtain nav s' where m: "mark_nav s (price_table views) = (nav, s')" by fastforce
  define dd where "dd = (if 0 < get_or (st_high_water_mark s') 0
    then (get_or (st_high_water_mark s') 0 - nav) / get_or (st_high_water_mark s') 0 * 100 else 0)"
  have "live_hour sp series lo h run = Inr \<lparr>wk_state = s', wk_world = w, wk_max_dd = max (wk_max_dd run) dd,
      wk_breach = (if wk_breach run = None \<and> GATE_DD_PCT \<le> dd then Some (h - lo) else wk_breach run),
      wk_price = Some (price_table views)\<rparr>"
    using views t m by (simp add: live_hour_def now_def [symmetric] Let_def dd_def)
  moreover have "week_ok (hs @ [h]) lo \<lparr>wk_state = s', wk_world = w, wk_max_dd = max (wk_max_dd run) dd,
      wk_breach = (if wk_breach run = None \<and> GATE_DD_PCT \<le> dd then Some (h - lo) else wk_breach run),
      wk_price = Some (price_table views)\<rparr>"
    using assms(5) rc by (auto simp: week_ok_def)
  ultimately show ?thesis by blast
qed

lemma live_hours_ok:
  assumes "good_series n series" "get_or (vol_enter_max_pct (sp_cfg sp)) 4 \<noteq> 0"
    "get_or (quote_tokens (sp_cfg sp)) [''USDT''] \<noteq> []"
  shows "\<forall>h \<in> set hs. h < n \<Longrightarrow> week_ok hs0 lo run \<Longrightarrow>
    \<exists>run'. live_hours sp series lo hs run = Inr run' \<and> week_ok (hs0 @ hs) lo run'"
proof (induction hs arbitrary: hs0 run)
  case (Cons h hs)
  obtain run1 where r: "live_hour sp series lo h run = Inr run1" "week_ok (hs0 @ [h]) lo run1"
    using live_hour_ok [OF assms(1) _ assms(2,3) Cons.prems(2), of h] Cons.prems(1) by auto
  with Cons.IH [OF _ r(2)] Cons.prems(1) show ?case by simp
qed simp

text \<open>
  A week through the live pipeline: with positive prices it completes for every week that has at least one
  hour, making one receipt per hour; it reports a breach exactly when some hour's drawdown reached the gate, with
  an hour of the week; a week without hours raises.
\<close>

theorem live_week_reports:
  assumes "good_series n series" "hi \<le> n" "get_or (vol_enter_max_pct (sp_cfg sp)) 4 \<noteq> 0"
    "get_or (quote_tokens (sp_cfg sp)) [''USDT''] \<noteq> []"
  shows "if lo < hi
    then \<exists>run r. live_hours sp series lo [lo..<hi] week_start = Inr run \<and> run_week_live sp series lo hi = Inr r \<and>
      length (w_receipts (wk_world run)) = hi - lo \<and> (wr_breached_gate r \<longleftrightarrow> GATE_DD_PCT \<le> wk_max_dd run) \<and>
      (\<forall>k. wr_breach_hour r = Some k \<longrightarrow> k < hi - lo)
    else run_week_live sp series lo hi = Inl (RuntimeError ''UnboundLocalError'')"
proof (cases "lo < hi")
  case True
  have "week_ok [] lo week_start" by (simp add: week_ok_def week_start_def empty_world_def GATE_DD_PCT_def)
  from live_hours_ok [OF assms(1,3,4) _ this, of "[lo..<hi]"] assms(2) obtain run
    where run: "live_hours sp series lo [lo..<hi] week_start = Inr run" "week_ok [lo..<hi] lo run" by auto
  then obtain price where "wk_price run = Some price" using True by (cases "wk_price run") (auto simp: week_ok_def)
  then have "\<exists>r. run_week_live sp series lo hi = Inr r \<and> wr_breached_gate r = (wk_breach run \<noteq> None) \<and>
      wr_breach_hour r = wk_breach run"
    using run(1) by (simp add: run_week_live_def Let_def)
  moreover have "k < hi - lo" if k: "wk_breach run = Some k" for k
  proof -
    obtain h where "h \<in> set [lo..<hi]" "k = h - lo" using run(2) k unfolding week_ok_def by blast
    then show ?thesis by (simp add: diff_less_mono)
  qed
  ultimately show ?thesis using run True by (auto simp: week_ok_def)
next
  case False
  then show ?thesis by (simp add: run_week_live_def week_start_def)
qed

theorem live_week_reports_witness:
  "\<exists>r. run_week_live \<lparr>sp_cfg = bnb_config, sp_digest = id, sp_policy_hash = [], sp_wall = (\<lambda>_. 0), sp_base_ts = 0\<rparr>
     [(''WBNB'', replicate 30 (0, 600))] 24 30 = Inr r"
proof -
  let ?sp = "\<lparr>sp_cfg = bnb_config, sp_digest = id, sp_policy_hash = [], sp_wall = (\<lambda>_. 0), sp_base_ts = 0\<rparr> :: sim_params"
  have "good_series 30 [(''WBNB'', replicate 30 (0, 600))]" by (simp add: good_series_def)
  from live_week_reports [OF this, of 30 ?sp 24] show ?thesis by (auto simp: bnb_config_def)
qed

section \<open>The whole live run\<close>

text \<open>
  \<open>main\<close> of \<open>real_data_live.py\<close>: without an argument the data ends at the last midnight (UTC), with one at
  the midnight of that date, given in seconds; the clock of the run is the time of the first bar.
\<close>

definition data_end :: "int option \<Rightarrow> int \<Rightarrow> int" where
  "data_end date now_s = (case date of Some d \<Rightarrow> d | None \<Rightarrow> now_s - now_s mod 86400)"

definition live_main :: "(string \<Rightarrow> exchange) \<Rightarrow> sim_params \<Rightarrow> int option \<Rightarrow> int \<Rightarrow> (py_error + real_result) option" where
  "live_main exchange sp date now_s =
     (let end_s = data_end date now_s; start_s = end_s - int (WARMUP_H + 3 * WEEK_H) * 3600 in
      case fetch_all exchange (start_s * 1000) (end_s * 1000) BINANCE of
        None \<Rightarrow> None
      | Some (Inl e) \<Rightarrow> Some (Inl e)
      | Some (Inr raw) \<Rightarrow> Some (live_results (sp\<lparr>sp_base_ts := of_int start_s\<rparr>) raw))"

lemma data_end_midnight: "data_end None now_s mod 86400 = 0" "data_end None now_s \<le> now_s" "now_s < data_end None now_s + 86400"
proof -
  have "(now_s - now_s mod 86400) mod 86400 = 0" by (simp add: minus_mod_eq_div_mult)
  then show "data_end None now_s mod 86400 = 0" by (simp add: data_end_def)
  show "data_end None now_s \<le> now_s" "now_s < data_end None now_s + 86400"
    using pos_mod_bound [of 86400 now_s] by (simp_all add: data_end_def)
qed

end
