(* ===== verification/RpcPool.thy ===== *)
theory RpcPool
  imports Agent_Types
begin

text \<open>
  \<open>agent/ops/rpc.py\<close>: the JSON-RPC endpoint pool. A call goes to the first endpoint that is not cooling
  down; an endpoint that fails cools down, and the call moves on to the next. The transport is a parameter
  (the text of an exception or a response), and the readings of the monotonic clock are arguments: \<open>now\<close>
  when the candidates are chosen, and a start and an end reading per endpoint.
\<close>

record endpoint_status =
  es_endpoint :: string
  es_healthy :: bool
  es_unhealthy_until :: real
  es_fail_count :: nat
  es_latency_s :: "real option"

record rpc_pool =
  rp_endpoints :: "string list"
  rp_cooldown_s :: real
  rp_states :: "(string \<times> endpoint_status) list"
  rp_rpc_id :: int

type_synonym transport = "string \<Rightarrow> json \<Rightarrow> string + json"
type_synonym clock = "string \<Rightarrow> real \<times> real"

definition fresh_endpoint :: "string \<Rightarrow> endpoint_status" where
  "fresh_endpoint url = \<lparr>es_endpoint = url, es_healthy = True, es_unhealthy_until = 0, es_fail_count = 0,
     es_latency_s = None\<rparr>"

definition init_pool :: "string list \<Rightarrow> real \<Rightarrow> py_error + rpc_pool" where
  "init_pool endpoints cooldown_s =
     (if endpoints = [] then Inl (ValueError ''at least one RPC endpoint is required'')
      else Inr \<lparr>rp_endpoints = endpoints, rp_cooldown_s = cooldown_s,
             rp_states = foldl (\<lambda>d url. AList.update url (fresh_endpoint url) d) [] endpoints,
             rp_rpc_id = 0\<rparr>)"

definition status_of :: "rpc_pool \<Rightarrow> string \<Rightarrow> endpoint_status" where
  "status_of p url = get_or (map_of (rp_states p) url) (fresh_endpoint url)"

definition healthy_endpoints :: "rpc_pool \<Rightarrow> string list" where
  "healthy_endpoints p = filter (\<lambda>url. es_healthy (status_of p url)) (rp_endpoints p)"

definition is_available :: "rpc_pool \<Rightarrow> real \<Rightarrow> string \<Rightarrow> bool" where
  "is_available p now url =
     (es_healthy (status_of p url) \<or> es_unhealthy_until (status_of p url) \<le> now)"

definition candidate_endpoints :: "rpc_pool \<Rightarrow> real \<Rightarrow> string list" where
  "candidate_endpoints p now = filter (is_available p now) (rp_endpoints p)"

definition set_status :: "rpc_pool \<Rightarrow> string \<Rightarrow> endpoint_status \<Rightarrow> rpc_pool" where
  "set_status p url st = p\<lparr>rp_states := AList.update url st (rp_states p)\<rparr>"

definition mark_success :: "string \<Rightarrow> real \<Rightarrow> rpc_pool \<Rightarrow> rpc_pool" where
  "mark_success url latency_s p = set_status p url
     ((status_of p url)\<lparr>es_healthy := True, es_unhealthy_until := 0, es_latency_s := Some latency_s\<rparr>)"

definition mark_failure :: "string \<Rightarrow> real \<Rightarrow> rpc_pool \<Rightarrow> rpc_pool" where
  "mark_failure url now p = set_status p url
     ((status_of p url)\<lparr>es_healthy := False, es_unhealthy_until := now + rp_cooldown_s p,
        es_fail_count := es_fail_count (status_of p url) + 1\<rparr>)"

text \<open>\<open>_validate_response\<close>: what an endpoint's answer must look like; otherwise why it is unusable.\<close>

definition response_error :: "json \<Rightarrow> string option" where
  "response_error r =
     (case r of
        JObj kvs \<Rightarrow>
          if map_of kvs ''jsonrpc'' \<noteq> Some (JStr ''2.0'') then Some ''response missing jsonrpc=2.0''
          else if map_of kvs ''error'' \<noteq> None then Some ''json-rpc error''
          else if map_of kvs ''result'' = None then Some ''response missing result''
          else None
      | _ \<Rightarrow> Some ''response is not a dict'')"

definition rpc_payload :: "int \<Rightarrow> string \<Rightarrow> json list \<Rightarrow> json" where
  "rpc_payload i meth params = JObj
     [(''jsonrpc'', JStr ''2.0''), (''id'', JInt i), (''method'', JStr meth), (''params'', JList params)]"

text \<open>One endpoint's answer: a response that validates, or why it failed.\<close>

definition ask :: "transport \<Rightarrow> json \<Rightarrow> string \<Rightarrow> string + json" where
  "ask send payload url =
     (case send url payload of
        Inl e \<Rightarrow> Inl e
      | Inr r \<Rightarrow> (case response_error r of None \<Rightarrow> Inr r | Some e \<Rightarrow> Inl e))"

fun try_endpoints :: "transport \<Rightarrow> clock \<Rightarrow> json \<Rightarrow> string list \<Rightarrow> string list \<Rightarrow> rpc_pool \<Rightarrow>
    rpc_pool \<times> (py_error + json)" where
  "try_endpoints send clock payload [] errors p =
     (p, Inl (RuntimeError (if errors = [] then ''all endpoints are cooling down'' else join ''; '' errors)))"
| "try_endpoints send clock payload (url # urls) errors p =
     (case ask send payload url of
        Inl e \<Rightarrow> try_endpoints send clock payload urls (errors @ [url @ '': '' @ e])
                  (mark_failure url (snd (clock url)) p)
      | Inr r \<Rightarrow> (mark_success url (snd (clock url) - fst (clock url)) p, Inr r))"

definition call :: "transport \<Rightarrow> clock \<Rightarrow> real \<Rightarrow> string \<Rightarrow> json list \<Rightarrow> rpc_pool \<Rightarrow> rpc_pool \<times> (py_error + json)" where
  "call send clock now meth params p =
     (let p' = p\<lparr>rp_rpc_id := rp_rpc_id p + 1\<rparr> in
      try_endpoints send clock (rpc_payload (rp_rpc_id p') meth params) (candidate_endpoints p' now) [] p')"

section \<open>The interface its clients use\<close>

text \<open>
  A client of the pool (the nonce manager, the balance reader) relies on one thing: an answer it gets is a
  response object with a result and without an error.
\<close>

definition usable :: "json \<Rightarrow> bool" where
  "usable r = (response_error r = None)"

definition rpc_result :: "json \<Rightarrow> json" where
  "rpc_result r = (case r of JObj kvs \<Rightarrow> get_or (map_of kvs ''result'') JNull | _ \<Rightarrow> JNull)"

locale rpc_provider =
  fixes rpc :: "string \<Rightarrow> json list \<Rightarrow> 's \<Rightarrow> 's \<times> (py_error + json)"
  assumes rpc_usable: "rpc m ps s = (s', Inr r) \<Longrightarrow> usable r"
begin

text \<open>Asking for several results in a row, stopping at the first failure.\<close>

fun ask_all :: "(string \<times> json list) list \<Rightarrow> 's \<Rightarrow> 's \<times> (py_error + json list)" where
  "ask_all [] s = (s, Inr [])"
| "ask_all ((m, ps) # qs) s =
     (case rpc m ps s of
        (s', Inl e) \<Rightarrow> (s', Inl e)
      | (s', Inr r) \<Rightarrow> (case ask_all qs s' of
           (s'', Inl e) \<Rightarrow> (s'', Inl e)
         | (s'', Inr rs) \<Rightarrow> (s'', Inr (rpc_result r # rs))))"

lemma ask_all_length: "ask_all qs s = (s', Inr rs) \<Longrightarrow> length rs = length qs"
  by (induction qs s arbitrary: s' rs rule: ask_all.induct) (auto split: prod.splits sum.splits)

lemma ask_result: "rpc m ps s = (s', Inr r) \<Longrightarrow>
    \<exists>kvs v. r = JObj kvs \<and> map_of kvs ''result'' = Some v \<and> rpc_result r = v \<and> map_of kvs ''error'' = None"
  using rpc_usable [of m ps s s' r]
  by (auto simp: usable_def response_error_def rpc_result_def split: json.splits if_splits)

end

section \<open>Facts\<close>

lemma ask_usable: "ask send payload url = Inr r \<Longrightarrow> usable r \<and> send url payload = Inr r"
  by (auto simp: ask_def usable_def split: sum.splits option.splits)

lemma status_set [simp]:
  "status_of (set_status p url st) v = (if v = url then st else status_of p v)"
  by (simp add: status_of_def set_status_def pydict)

lemma set_status_endpoints [simp]:
  "rp_endpoints (set_status p url st) = rp_endpoints p" "rp_cooldown_s (set_status p url st) = rp_cooldown_s p"
  "rp_rpc_id (set_status p url st) = rp_rpc_id p"
  by (simp_all add: set_status_def)

lemma try_endpoints_frame:
  "try_endpoints send clock payload urls errors p = (p', x) \<Longrightarrow>
    rp_endpoints p' = rp_endpoints p \<and> rp_cooldown_s p' = rp_cooldown_s p \<and> rp_rpc_id p' = rp_rpc_id p \<and>
    (\<forall>v. v \<notin> set urls \<longrightarrow> status_of p' v = status_of p v)"
  by (induction send clock payload urls errors p rule: try_endpoints.induct)
    (auto simp: mark_success_def mark_failure_def split: sum.splits)

lemma try_endpoints_ok:
  "try_endpoints send clock payload urls errors p = (p', Inr r) \<Longrightarrow>
    \<exists>pre url post. urls = pre @ url # post \<and> (\<forall>v \<in> set pre. isl (ask send payload v)) \<and>
      ask send payload url = Inr r"
proof (induction send clock payload urls errors p rule: try_endpoints.induct)
  case (1 send clock payload errors p)
  then show ?case by simp
next
  case (2 send clock payload url urls errors p)
  show ?case
  proof (cases "ask send payload url")
    case (Inl e)
    with 2 obtain pre u post where "urls = pre @ u # post" "\<forall>v \<in> set pre. isl (ask send payload v)"
      "ask send payload u = Inr r" by auto
    with Inl show ?thesis by (intro exI [of _ "url # pre"] exI [of _ u] exI [of _ post]) simp
  next
    case (Inr s)
    with 2(2) show ?thesis by (intro exI [of _ "[]"] exI [of _ url] exI [of _ urls]) simp
  qed
qed

lemma try_endpoints_failed:
  "try_endpoints send clock payload urls errors p = (p', Inl e) \<Longrightarrow>
    \<forall>url \<in> set urls. isl (ask send payload url) \<and> \<not> es_healthy (status_of p' url)"
proof (induction send clock payload urls errors p rule: try_endpoints.induct)
  case (1 send clock payload errors p)
  then show ?case by simp
next
  case (2 send clock payload url urls errors p)
  then obtain m where ask: "ask send payload url = Inl m" by (cases "ask send payload url") auto
  with 2(2) have step: "try_endpoints send clock payload urls (errors @ [url @ '': '' @ m])
      (mark_failure url (snd (clock url)) p) = (p', Inl e)" by simp
  have "\<not> es_healthy (status_of p' url)"
  proof (cases "url \<in> set urls")
    case False
    with try_endpoints_frame [OF step] have "status_of p' url = status_of (mark_failure url (snd (clock url)) p) url"
      by blast
    then show ?thesis by (simp add: mark_failure_def)
  qed (use 2(1) [OF ask step] in blast)
  with 2(1) [OF ask step] ask show ?case by simp
qed

interpretation pool: rpc_provider "call send clock now" for send clock now
proof unfold_locales
  fix m ps s s' r
  assume "call send clock now m ps s = (s', Inr r)"
  then show "usable r" by (auto simp: call_def Let_def dest!: try_endpoints_ok ask_usable)
qed

section \<open>Claims\<close>

text \<open>
  C21. The pool fails closed: a call returns a response only when it validates and comes from the first
  available endpoint whose answer does, every available endpoint before it having failed; and it raises
  only after every available endpoint was asked and failed, each of which is then marked unhealthy.
\<close>

theorem rpc_call_outcome:
  assumes "call send clock now meth params p = (p', x)"
  shows "case x of
      Inr r \<Rightarrow> \<exists>pre url post. candidate_endpoints (p\<lparr>rp_rpc_id := rp_rpc_id p + 1\<rparr>) now = pre @ url # post \<and>
        send url (rpc_payload (rp_rpc_id p + 1) meth params) = Inr r \<and> response_error r = None \<and>
        (\<forall>v \<in> set pre. isl (ask send (rpc_payload (rp_rpc_id p + 1) meth params) v))
    | Inl e \<Rightarrow> \<forall>url \<in> set (candidate_endpoints (p\<lparr>rp_rpc_id := rp_rpc_id p + 1\<rparr>) now).
        isl (ask send (rpc_payload (rp_rpc_id p + 1) meth params) url) \<and> \<not> es_healthy (status_of p' url)"
proof (cases x)
  case (Inl e)
  with assms try_endpoints_failed show ?thesis by (auto simp: call_def Let_def)
next
  case (Inr r)
  with assms obtain pre url post where
    "candidate_endpoints (p\<lparr>rp_rpc_id := rp_rpc_id p + 1\<rparr>) now = pre @ url # post"
    "\<forall>v \<in> set pre. isl (ask send (rpc_payload (rp_rpc_id p + 1) meth params) v)"
    "ask send (rpc_payload (rp_rpc_id p + 1) meth params) url = Inr r"
    by (auto simp: call_def Let_def dest!: try_endpoints_ok)
  with Inr ask_usable [of send _ url r] show ?thesis by (auto simp: usable_def)
qed

definition ex_pool :: rpc_pool where
  "ex_pool = \<lparr>rp_endpoints = [''a'', ''b''], rp_cooldown_s = 30,
     rp_states = [(''a'', fresh_endpoint ''a''), (''b'', fresh_endpoint ''b'')], rp_rpc_id = 0\<rparr>"

theorem rpc_call_outcome_witness:
  "\<not> es_healthy (status_of (fst (call (\<lambda>url payload. Inl ''down'') (\<lambda>url. (0, 1)) 0 ''m'' [] ex_pool)) ''b'')"
proof -
  obtain p' x where c: "call (\<lambda>url payload. Inl ''down'') (\<lambda>url. (0, 1)) 0 ''m'' [] ex_pool = (p', x)" by fastforce
  have "isl (snd (call (\<lambda>url payload. Inl ''down'') (\<lambda>url. (0, 1)) 0 ''m'' [] ex_pool))" by code_simp
  with c obtain e where "x = Inl e" by (cases x) auto
  moreover have "''b'' \<in> set (candidate_endpoints (ex_pool\<lparr>rp_rpc_id := rp_rpc_id ex_pool + 1\<rparr>) 0)" by code_simp
  ultimately show ?thesis using rpc_call_outcome [OF c] c by auto
qed

end
