(* ===== verification/Nonce.thy ===== *)
theory Nonce
  imports RpcPool
begin

text \<open>
  \<open>agent/ops/nonce.py\<close>: nonces are handed out from the pending count of the chain; a doubtful state is
  flagged as gapped and refuses every further reservation. The answer of \<open>rpc.call\<close> at the time of a
  \<open>sync\<close> is an argument.
\<close>

record nonce_mgr =
  nm_next :: "int option"
  nm_reserved :: "int set"
  nm_confirmed :: "int set"
  nm_failed :: "int set"
  nm_gapped :: bool

definition init_nonce :: nonce_mgr where
  "init_nonce = \<lparr>nm_next = None, nm_reserved = {}, nm_confirmed = {}, nm_failed = {}, nm_gapped = False\<rparr>"

text \<open>\<open>int(raw, 16)\<close> and \<open>int(raw)\<close> on the texts a node returns.\<close>

definition parse_int :: "string \<Rightarrow> py_error + int" where
  "parse_int raw =
     (let (b, ds) = (if prefix ''0x'' raw then (16, drop 2 raw) else (10, raw)) in
      if ds = [] then Inl (ValueError raw)
      else case parse_base b 0 ds of Some n \<Rightarrow> Inr (int n) | None \<Rightarrow> Inl (ValueError raw))"

definition to_int :: "string \<Rightarrow> json \<Rightarrow> py_error + int" where
  "to_int err j = (case j of JStr s \<Rightarrow> parse_int s | JInt i \<Rightarrow> Inr i
     | JBool b \<Rightarrow> Inr (if b then 1 else 0) | _ \<Rightarrow> Inl (RuntimeError err))"

definition read_chain_nonce :: "py_error + json \<Rightarrow> py_error + int" where
  "read_chain_nonce answer =
     (case answer of Inl e \<Rightarrow> Inl e | Inr r \<Rightarrow> to_int ''invalid chain nonce response'' (rpc_result r))"

definition sync_to :: "int \<Rightarrow> nonce_mgr \<Rightarrow> nonce_mgr" where
  "sync_to chain_nonce m =
     (case nm_next m of
        None \<Rightarrow> m\<lparr>nm_next := Some chain_nonce\<rparr>
      | Some next \<Rightarrow>
          let m1 = (if next < chain_nonce
                    then m\<lparr>nm_confirmed := nm_confirmed m \<union> {next..<chain_nonce},
                           nm_reserved := nm_reserved m - {next..<chain_nonce}, nm_next := Some chain_nonce\<rparr>
                    else m)
          in if nm_reserved m1 \<noteq> {} \<and> chain_nonce \<le> Min (nm_reserved m1) \<and> Min (nm_reserved m1) < the (nm_next m1)
             then m1\<lparr>nm_gapped := True\<rparr> else m1)"

definition sync_nonce :: "py_error + json \<Rightarrow> nonce_mgr \<Rightarrow> nonce_mgr \<times> (py_error + unit)" where
  "sync_nonce answer m =
     (case read_chain_nonce answer of Inl e \<Rightarrow> (m, Inl e) | Inr n \<Rightarrow> (sync_to n m, Inr ()))"

definition reserve :: "py_error + json \<Rightarrow> nonce_mgr \<Rightarrow> nonce_mgr \<times> (py_error + int)" where
  "reserve answer m =
     (if nm_gapped m then (m, Inl (RuntimeError ''nonce state is gapped''))
      else let (m1, r) = (if nm_next m = None then sync_nonce answer m else (m, Inr ())) in
        case r of
          Inl e \<Rightarrow> (m1, Inl e)
        | Inr _ \<Rightarrow> (case nm_next m1 of
            None \<Rightarrow> (m1, Inl (RuntimeError ''nonce state was not initialized''))
          | Some n \<Rightarrow> (m1\<lparr>nm_reserved := insert n (nm_reserved m1), nm_next := Some (n + 1)\<rparr>, Inr n)))"

definition on_confirmed :: "int \<Rightarrow> py_error + json \<Rightarrow> nonce_mgr \<Rightarrow> nonce_mgr \<times> (py_error + unit)" where
  "on_confirmed nonce answer m =
     (let m1 = m\<lparr>nm_confirmed := insert nonce (nm_confirmed m), nm_reserved := nm_reserved m - {nonce}\<rparr>;
          m2 = (if \<exists>n \<in> nm_reserved m1. n < nonce then m1\<lparr>nm_gapped := True\<rparr> else m1)
      in sync_nonce answer m2)"

definition on_failed :: "int \<Rightarrow> py_error + json \<Rightarrow> nonce_mgr \<Rightarrow> nonce_mgr \<times> (py_error + unit)" where
  "on_failed nonce answer m =
     (let m1 = m\<lparr>nm_failed := insert nonce (nm_failed m), nm_reserved := nm_reserved m - {nonce}\<rparr>;
          m2 = (if nm_next m1 = None \<or> nonce < the (nm_next m1) then m1\<lparr>nm_gapped := True\<rparr> else m1)
      in sync_nonce answer m2)"

section \<open>A run of the manager\<close>

text \<open>
  The manager as a state machine: each step is one operation with the node's answer at that time; the label
  is the nonce handed out, if one was.
\<close>

inductive nonce_step :: "nonce_mgr \<Rightarrow> int option \<Rightarrow> nonce_mgr \<Rightarrow> bool" where
  do_sync: "sync_nonce answer m = (m', r) \<Longrightarrow> nonce_step m None m'"
| do_reserve: "reserve answer m = (m', Inr n) \<Longrightarrow> nonce_step m (Some n) m'"
| no_reserve: "reserve answer m = (m', Inl e) \<Longrightarrow> nonce_step m None m'"
| do_confirm: "on_confirmed n answer m = (m', r) \<Longrightarrow> nonce_step m None m'"
| do_fail: "on_failed n answer m = (m', r) \<Longrightarrow> nonce_step m None m'"

inductive nonce_run :: "nonce_mgr \<Rightarrow> int list \<Rightarrow> nonce_mgr \<Rightarrow> bool" where
  run_nil: "nonce_run m [] m"
| run_step: "nonce_run m ns m1 \<Longrightarrow> nonce_step m1 l m2 \<Longrightarrow>
    nonce_run m (case l of None \<Rightarrow> ns | Some n \<Rightarrow> ns @ [n]) m2"

definition next_le :: "int option \<Rightarrow> int option \<Rightarrow> bool" where
  "next_le a b = (case a of None \<Rightarrow> True | Some x \<Rightarrow> (case b of None \<Rightarrow> False | Some y \<Rightarrow> x \<le> y))"

lemma next_le_simps [simp]: "next_le a a" "next_le None b"
  by (simp_all add: next_le_def split: option.splits)

lemma sync_to_next: "next_le (nm_next m) (nm_next (sync_to n m)) \<and> nm_next (sync_to n m) \<noteq> None \<and>
    (nm_gapped m \<longrightarrow> nm_gapped (sync_to n m)) \<and>
    (\<forall>k. nm_next m = Some k \<longrightarrow> nm_reserved m \<subseteq> {..<k} \<longrightarrow> nm_reserved (sync_to n m) = nm_reserved m)"
  by (auto simp: sync_to_def next_le_def Let_def split: option.splits)

lemma sync_nonce_next:
  "sync_nonce answer m = (m', r) \<Longrightarrow> next_le (nm_next m) (nm_next m') \<and> (nm_gapped m \<longrightarrow> nm_gapped m')"
  using sync_to_next by (auto simp: sync_nonce_def split: sum.splits)

lemma reserve_next:
  assumes "reserve answer m = (m', Inr n)"
  shows "nm_next m' = Some (n + 1) \<and> next_le (nm_next m) (Some n) \<and> \<not> nm_gapped m"
proof -
  obtain m1 where m1: "m1 = (if nm_next m = None then fst (sync_nonce answer m) else m)" "nm_next m1 = Some n"
      "m' = m1\<lparr>nm_reserved := insert n (nm_reserved m1), nm_next := Some (n + 1)\<rparr>" "\<not> nm_gapped m"
    using assms by (auto simp: reserve_def Let_def split: if_splits prod.splits sum.splits option.splits)
  then have "next_le (nm_next m) (Some n)"
    by (cases "nm_next m") (simp_all add: next_le_def)
  with m1 show ?thesis by simp
qed

lemma step_next:
  assumes "nonce_step m l m'"
  shows "next_le (nm_next m) (nm_next m') \<and> (nm_gapped m \<longrightarrow> nm_gapped m' \<and> l = None) \<and>
    (\<forall>n. l = Some n \<longrightarrow> next_le (nm_next m) (Some n) \<and> nm_next m' = Some (n + 1))"
  using assms
proof (cases rule: nonce_step.cases)
  case (do_sync answer r)
  then show ?thesis using sync_nonce_next by simp
next
  case (do_reserve answer n)
  with reserve_next [OF do_reserve(2)] show ?thesis
    by (auto simp: next_le_def split: option.splits)
next
  case (no_reserve answer e)
  then show ?thesis using sync_nonce_next
    by (auto simp: reserve_def Let_def split: if_splits prod.splits sum.splits option.splits)
next
  case (do_confirm n answer r)
  then have "next_le (nm_next m) (nm_next m') \<and> (nm_gapped m \<longrightarrow> nm_gapped m')"
    by (auto simp: on_confirmed_def Let_def dest!: sync_nonce_next split: if_splits)
  with do_confirm show ?thesis by simp
next
  case (do_fail n answer r)
  then have "next_le (nm_next m) (nm_next m') \<and> (nm_gapped m \<longrightarrow> nm_gapped m')"
    by (auto simp: on_failed_def Let_def dest!: sync_nonce_next split: if_splits)
  with do_fail show ?thesis by simp
qed

lemma run_nonces:
  "nonce_run m ns m' \<Longrightarrow> sorted_wrt (<) ns \<and> (\<forall>n \<in> set ns. next_le (Some (n + 1)) (nm_next m'))"
proof (induction rule: nonce_run.induct)
  case (run_nil m)
  then show ?case by simp
next
  case (run_step m ns m1 l m2)
  note s = step_next [OF run_step.hyps(2)]
  have keep: "\<forall>n \<in> set ns. next_le (Some (n + 1)) (nm_next m2)"
  proof
    fix n assume "n \<in> set ns"
    with run_step.IH have "next_le (Some (n + 1)) (nm_next m1)" by blast
    with s show "next_le (Some (n + 1)) (nm_next m2)" by (auto simp: next_le_def split: option.splits)
  qed
  show ?case
  proof (cases l)
    case None
    with run_step.IH keep show ?thesis by simp
  next
    case (Some k)
    with s have k: "next_le (nm_next m1) (Some k)" "nm_next m2 = Some (k + 1)" by simp_all
    have "\<forall>n \<in> set ns. n < k"
      using run_step.IH k(1) by (force simp: next_le_def split: option.splits)
    with run_step.IH keep Some k(2) show ?thesis by (simp add: sorted_wrt_append next_le_def)
  qed
qed

lemma gapped_run: "nonce_run m ns m' \<Longrightarrow> nm_gapped m \<Longrightarrow> nm_gapped m' \<and> ns = []"
proof (induction rule: nonce_run.induct)
  case (run_step m ns m1 l m2)
  with step_next [OF run_step.hyps(2)] show ?case by simp
qed simp

section \<open>Claims\<close>

text \<open>
  C22. No nonce is handed out twice: along any run of syncs, reservations, confirmations and failures, with
  any answers of the node (lagging, wrong or failing ones too), the nonces handed out are strictly
  increasing; and once the state is gapped, no nonce is handed out any more.
\<close>

theorem nonces_never_reused:
  assumes "nonce_run m ns m'"
  shows "sorted_wrt (<) ns \<and> distinct ns \<and> (nm_gapped m \<longrightarrow> ns = [])"
proof -
  have "sorted_wrt (<) ns" using run_nonces [OF assms] by blast
  moreover from this have "distinct ns" by (simp add: strict_sorted_iff)
  ultimately show ?thesis using gapped_run [OF assms] by blast
qed

definition ex_answer :: "int \<Rightarrow> py_error + json" where
  "ex_answer n = Inr (JObj [(''jsonrpc'', JStr ''2.0''), (''result'', JInt n)])"

theorem nonces_never_reused_witness:
  "\<exists>m. nonce_run init_nonce [7, 8] m \<and> distinct [7, 8 :: int]"
proof -
  have r1: "reserve (ex_answer 7) init_nonce =
      (init_nonce\<lparr>nm_next := Some 8, nm_reserved := {7}\<rparr>, Inr 7)"
    by (simp add: reserve_def sync_nonce_def read_chain_nonce_def ex_answer_def rpc_result_def to_int_def
        sync_to_def init_nonce_def)
  have r2: "reserve (ex_answer 7) (init_nonce\<lparr>nm_next := Some 8, nm_reserved := {7}\<rparr>) =
      (init_nonce\<lparr>nm_next := Some 9, nm_reserved := {8, 7}\<rparr>, Inr 8)"
    by (simp add: reserve_def init_nonce_def)
  have "nonce_run init_nonce [7, 8] (init_nonce\<lparr>nm_next := Some 9, nm_reserved := {8, 7}\<rparr>)"
    using nonce_run.run_step [OF nonce_run.run_step [OF nonce_run.run_nil nonce_step.do_reserve [OF r1]]
        nonce_step.do_reserve [OF r2]] by simp
  with nonces_never_reused [OF this] show ?thesis by blast
qed

text \<open>
  Any failed reserved nonce stops the agent for good: reporting a failure of a nonce that was handed out
  leaves a gapped state from which no run hands out another nonce.
\<close>

theorem failed_nonce_stops:
  assumes "nm_next m = Some k" "n < k" "on_failed n answer m = (m', r)" "nonce_run m' ns m''"
  shows "nm_gapped m' \<and> ns = [] \<and> nm_gapped m''"
proof -
  have "nm_gapped m'"
    using assms(1-3) sync_nonce_next [of answer _ m' r] by (auto simp: on_failed_def Let_def)
  with gapped_run [OF assms(4)] show ?thesis by blast
qed

theorem failed_nonce_stops_witness:
  "nm_gapped (fst (on_failed 7 (ex_answer 8) (init_nonce\<lparr>nm_next := Some 8, nm_reserved := {7}\<rparr>)))"
proof -
  obtain m' r where f: "on_failed 7 (ex_answer 8) (init_nonce\<lparr>nm_next := Some 8, nm_reserved := {7}\<rparr>) = (m', r)"
    by fastforce
  have "nm_next (init_nonce\<lparr>nm_next := Some 8, nm_reserved := {7}\<rparr>) = Some (8 :: int)" "(7 :: int) < 8" by simp_all
  from failed_nonce_stops [OF this f nonce_run.run_nil] f show ?thesis by simp
qed

end
