(* ===== verification/Trail.thy ===== *)
theory Trail
  imports Loop Nonce
begin

text \<open>
  \<open>scripts/run_live_trail.py\<close>: a short run of real decisions on Mantle. The node's answers, the clock, the brain and
  the backend are arguments. What a tick prints is left out; the summary file is the list of its lines.
\<close>

section \<open>Holdings and price\<close>

record holdings =
  ho_mnt :: "real option"
  ho_usdc :: "real option"
  ho_error :: "string option"

text \<open>\<open>int(x, 16)\<close>.\<close>

definition int16 :: "string \<Rightarrow> py_error + real" where
  "int16 s = (let ds = (if prefix ''0x'' s then drop 2 s else s) in
     if ds = [] then Inl (ValueError s)
     else case parse_base 16 0 ds of Some n \<Rightarrow> Inr (real n) | None \<Rightarrow> Inl (ValueError s))"

text \<open>One balance: an absent or empty answer counts as zero; \<open>bare\<close> is the text that also does.\<close>

definition holding_of :: "json \<Rightarrow> string \<Rightarrow> real \<Rightarrow> py_error + real" where
  "holding_of answer bare unit =
     (case answer of
        JStr s \<Rightarrow> if s = [] \<or> s = bare then Inr 0 else and_then (int16 s) (\<lambda>n. Inr (n / unit))
      | j \<Rightarrow> if truthy j then Inl (TypeError ''int() with explicit base'') else Inr 0)"

text \<open>\<open>_read_holdings\<close>: the two requests either fail or answer; any exception is reported inside the result.\<close>

definition read_holdings :: "py_error + json \<times> json \<Rightarrow> holdings" where
  "read_holdings answers =
     (case and_then answers (\<lambda>(native, usdc_raw).
             and_then (holding_of native [] (10 ^ 18)) (\<lambda>mnt.
             and_then (holding_of usdc_raw ''0x'' (10 ^ 6)) (\<lambda>usdc. Inr (mnt, usdc)))) of
        Inr (mnt, usdc) \<Rightarrow> \<lparr>ho_mnt = Some (py_round mnt 4), ho_usdc = Some (py_round usdc 4), ho_error = None\<rparr>
      | Inl e \<Rightarrow> \<lparr>ho_mnt = None, ho_usdc = None, ho_error = Some (error_text e)\<rparr>)"

definition PRICE_KEYS :: "string list" where
  "PRICE_KEYS = [''amount_out'', ''to_amount'', ''out_amount'', ''expected_out'', ''price'']"

definition first_price :: "detail \<Rightarrow> json option" where
  "first_price src = map_option (\<lambda>k. dget k src) (find (\<lambda>k. dget k src \<noteq> JNull) PRICE_KEYS)"

text \<open>\<open>_live_price\<close>: the top level of the quote, then the nested one; \<open>JNull\<close> when there is none or the quote failed.\<close>

definition live_price :: "backend \<Rightarrow> json" where
  "live_price b =
     (case b_quote b \<lparr>sw_chain = ''mantle'', sw_from = ''MNT'', sw_to = ''USDC'', sw_amount = 1,
             sw_slippage_bps = 100, sw_cid = []\<rparr> of
        Inl _ \<Rightarrow> JNull
      | Inr q \<Rightarrow> get_or (case first_price q of Some p \<Rightarrow> Some p
          | None \<Rightarrow> (case dget ''quote'' q of JObj nested \<Rightarrow> first_price nested | _ \<Rightarrow> None)) JNull)"

text \<open>The share of MNT and USDC in percent, when both are known and worth something.\<close>

definition allocation :: "(string \<Rightarrow> real option) \<Rightarrow> holdings \<Rightarrow> json \<Rightarrow> (real \<times> real) option" where
  "allocation float_of h price =
     (case ho_mnt h of
        None \<Rightarrow> None
      | Some mnt \<Rightarrow>
          if \<not> truthy price then None
          else case py_float float_of price of
            Inl _ \<Rightarrow> None
          | Inr p \<Rightarrow>
              let mnt_usd = mnt * p; usdc_usd = get_or (ho_usdc h) 0; tot = mnt_usd + usdc_usd in
              if 0 < tot then Some (py_round (100 * mnt_usd / tot) 1, py_round (100 * usdc_usd / tot) 1) else None)"

section \<open>The transaction hash\<close>

definition is_hex :: "char \<Rightarrow> bool" where
  "is_hex c = (hex_digit c \<noteq> None)"

definition tx_at :: "string \<Rightarrow> bool" where
  "tx_at s = (prefix ''0x'' s \<and> 66 \<le> length s \<and> (\<forall>c \<in> set (take 64 (drop 2 s)). is_hex c))"

text \<open>The leftmost match of the pattern.\<close>

fun find_tx :: "string \<Rightarrow> string option" where
  "find_tx [] = None"
| "find_tx (c # s) = (if tx_at (c # s) then Some (take 66 (c # s)) else find_tx s)"

text \<open>
  \<open>json.dumps\<close> separates with a comma and a blank where \<open>dumps\<close> writes the comma alone; no match of the pattern
  contains either.
\<close>

definition extract_tx :: "detail \<Rightarrow> string option" where
  "extract_tx d = find_tx (dumps (JObj d))"

section \<open>The run\<close>

record trail_snapshot =
  tn_holdings :: holdings
  tn_price :: json
  tn_allocation :: "(real \<times> real) option"

record trail_input =
  ti_answers :: "py_error + json \<times> json"
  ti_brain :: "nat \<Rightarrow> trail_snapshot \<Rightarrow> policy_summary \<Rightarrow> py_error + decision"
  ti_clock :: Runtime.clock

record trail_env =
  tv_utc_offset :: int
  tv_float_of :: "string \<Rightarrow> real option"
  tv_backend :: backend
  tv_mode :: exec_mode
  tv_slippage_bps :: int

record trail_line =
  tl_tick :: nat
  tl_decision :: decision
  tl_verdict :: string
  tl_allowed :: bool
  tl_tx :: "string option"
  tl_executed :: "bool option"

text \<open>Three attempts at the brain.\<close>

fun first_answer :: "(nat \<Rightarrow> py_error + decision) \<Rightarrow> nat list \<Rightarrow> decision option" where
  "first_answer try_n [] = None"
| "first_answer try_n (n # ns) = (case try_n n of Inr d \<Rightarrow> Some d | Inl _ \<Rightarrow> first_answer try_n ns)"

definition trail_verdict :: "trail_env \<Rightarrow> strategy_cfg \<Rightarrow> Runtime.clock \<Rightarrow> decision \<Rightarrow> ledger \<Rightarrow> guardrail_verdict" where
  "trail_verdict env cfg now_at d led = guard_check (init_guardrail cfg) d
     \<lparr>gw_portfolio_value_usd = 1000, gw_drawdown_pct = 0,
      gw_trades_last_hour = trades_last_hour (tv_utc_offset env) now_at led\<rparr>"

text \<open>The record of an execution: the amount and the backend's detail (its \<open>tx\<close> is computed from the detail), without
  the error text that the loop stores.\<close>

definition trail_event :: "real \<Rightarrow> execution_result \<Rightarrow> ledger_event" where
  "trail_event amount r = execution_event amount (r\<lparr>er_error := None\<rparr>)"

definition trail_tick :: "trail_env \<Rightarrow> strategy_cfg \<Rightarrow> nat \<Rightarrow> trail_input \<Rightarrow> ledger \<Rightarrow>
    ledger \<times> broadcast list \<times> (py_error + trail_line option)" where
  "trail_tick env cfg i inp led =
     (let h = read_holdings (ti_answers inp); price = live_price (tv_backend env);
          sn = \<lparr>tn_holdings = h, tn_price = price, tn_allocation = allocation (tv_float_of env) h price\<rparr>;
          now_at = ti_clock inp in
      case first_answer (\<lambda>n. ti_brain inp n sn (policy_summary_of cfg)) [0, 1, 2] of
        None \<Rightarrow> (ledger_record now_at (TickError (RuntimeError ''brain_unreachable'')) led, [], Inr None)
      | Some d \<Rightarrow>
          let led1 = ledger_record now_at (DecisionMade d) led;
              v = trail_verdict env cfg now_at d led1;
              led2 = ledger_record now_at (GuardrailSaid d (gv_allowed v) (gv_reason v)) led1;
              line = \<lparr>tl_tick = i + 1, tl_decision = d, tl_verdict = gv_reason v, tl_allowed = gv_allowed v,
                       tl_tx = None, tl_executed = None\<rparr>
          in if gv_allowed v \<and> is_trade d
             then let amount = loop_amount d v in
                  (case execute (tv_backend env) (tv_mode env) (tv_slippage_bps env) d amount [] of
                     (sent, Inl e) \<Rightarrow> (led2, sent, Inl e)
                   | (sent, Inr r) \<Rightarrow> (ledger_record now_at (trail_event amount r) led2, sent,
                       Inr (Some (line\<lparr>tl_tx := extract_tx (er_detail r), tl_executed := Some (er_executed r)\<rparr>))))
             else (led2, [], Inr (Some line)))"

fun trail_ticks :: "trail_env \<Rightarrow> strategy_cfg \<Rightarrow> nat \<Rightarrow> trail_input list \<Rightarrow> ledger \<Rightarrow>
    ledger \<times> broadcast list \<times> (py_error + trail_line list)" where
  "trail_ticks env cfg i [] led = (led, [], Inr [])"
| "trail_ticks env cfg i (inp # inps) led =
     (case trail_tick env cfg i inp led of
        (led1, sent1, Inl e) \<Rightarrow> (led1, sent1, Inl e)
      | (led1, sent1, Inr line) \<Rightarrow>
          (case trail_ticks env cfg (i + 1) inps led1 of
             (led2, sent2, r) \<Rightarrow> (led2, sent1 @ sent2,
               map_sum id (\<lambda>ls. case line of None \<Rightarrow> ls | Some x \<Rightarrow> x # ls) r)))"

text \<open>\<open>main\<close>: the effective caps are read once, before the first tick.\<close>

definition run_trail :: "trail_env \<Rightarrow> strategy_cfg \<Rightarrow> runtime \<Rightarrow> trail_input list \<Rightarrow> ledger \<Rightarrow>
    ledger \<times> broadcast list \<times> (py_error + trail_line list)" where
  "run_trail env base rt inps led = trail_ticks env (effective_cfg base rt) 0 inps led"

section \<open>What the summary contains\<close>

lemma find_tx_form:
  "find_tx s = Some t \<Longrightarrow> length t = 66 \<and> prefix ''0x'' t \<and> (\<forall>c \<in> set (drop 2 t). is_hex c) \<and> sublist t s"
proof (induction s)
  case (Cons c s)
  show ?case
  proof (cases "tx_at (c # s)")
    case True
    then have t: "t = take 66 (c # s)" using Cons.prems by simp
    have "prefix ''0x'' t" using True unfolding t tx_at_def by (auto simp: prefix_def)
    moreover have "drop 2 t = take 64 (drop 2 (c # s))" unfolding t by (simp add: drop_take)
    moreover have "length t = 66" using True unfolding t tx_at_def by simp
    moreover have "sublist t (c # s)" unfolding t by (rule sublist_take)
    ultimately show ?thesis using True by (simp add: tx_at_def)
  next
    case False
    with Cons show ?thesis by (auto simp: sublist_Cons_right)
  qed
qed simp

lemma extract_tx_form:
  "extract_tx d = Some t \<Longrightarrow> length t = 66 \<and> prefix ''0x'' t \<and> (\<forall>c \<in> set (drop 2 t). is_hex c) \<and> sublist t (dumps (JObj d))"
  unfolding extract_tx_def by (rule find_tx_form)

lemma trail_tick_lawful: "appends (amount_lawful cfg 1000 0) led (fst (trail_tick env cfg i inp led))"
proof -
  have event: "amount_lawful cfg 1000 0 (trail_event (loop_amount d (trail_verdict env cfg c d led')) r)"
    if "is_trade d" "gv_allowed (trail_verdict env cfg c d led')" for d c led' r
    using loop_amount_lawful [OF that trail_verdict_def] by (simp add: trail_event_def)
  have other: "amount_lawful cfg 1000 0 (DecisionMade d)" "amount_lawful cfg 1000 0 (GuardrailSaid d b t)"
    "amount_lawful cfg 1000 0 (TickError e)" for d b t e
    by (simp_all add: amount_lawful_def)
  show ?thesis
    unfolding trail_tick_def Let_def
    by (auto split: option.split sum.split prod.split intro!: appends_record event other)
qed

lemma trail_ticks_lawful: "appends (amount_lawful cfg 1000 0) led (fst (trail_ticks env cfg i inps led))"
proof (induction inps arbitrary: i led)
  case (Cons inp inps)
  obtain led1 sent1 r1 where t: "trail_tick env cfg i inp led = (led1, sent1, r1)" using prod_cases3 by blast
  have a: "appends (amount_lawful cfg 1000 0) led led1" using trail_tick_lawful [of cfg led env i inp] t by simp
  obtain led2 sent2 r2 where u: "trail_ticks env cfg (i + 1) inps led1 = (led2, sent2, r2)" using prod_cases3 by blast
  have "appends (amount_lawful cfg 1000 0) led1 led2" using Cons.IH [where led = led1 and i = "i + 1"] u by simp
  with a have "appends (amount_lawful cfg 1000 0) led led2" by (rule appends_trans)
  with a t u show ?case by (cases r1) simp_all
qed simp

text \<open>
  The trail keeps the caps, but not those of the wallet it trades: whatever the brain and the chain answer, every
  amount that a run records as sent is lawful for a portfolio of exactly 1000 dollars without any drawdown; the
  real holdings and losses never enter.
\<close>

theorem trail_amounts_lawful:
  "\<exists>new. fst (run_trail env base rt inps led) = led @ new \<and>
     (\<forall>x \<in> set new. \<exists>ts e. x = Line ts e \<and> amount_lawful (effective_cfg base rt) 1000 0 e)"
  using trail_ticks_lawful [of "effective_cfg base rt" led env 0 inps]
  unfolding run_trail_def appends_def by blast

definition ex_trail_env :: trail_env where
  "ex_trail_env = \<lparr>tv_utc_offset = 0, tv_float_of = (\<lambda>_. None), tv_backend = mock_backend, tv_mode = Mock, tv_slippage_bps = 50\<rparr>"

definition ex_trail_input :: trail_input where
  "ex_trail_input = \<lparr>ti_answers = Inr (JStr ''0x0'', JNull),
     ti_brain = (\<lambda>_ _ _. Inr (brain_decision Buy ''bsc'' ''USDT'' ''WBNB'' 900 1 ''all in'')), ti_clock = real\<rparr>"

theorem trail_amounts_lawful_witness:
  "\<exists>new. fst (run_trail ex_trail_env bnb_strategy fresh_runtime [ex_trail_input] []) = [] @ new \<and>
     (\<forall>x \<in> set new. \<exists>ts e. x = Line ts e \<and> amount_lawful (effective_cfg bnb_strategy fresh_runtime) 1000 0 e)"
  by (rule trail_amounts_lawful)

text \<open>In particular the committed drawdown cap never changes a verdict.\<close>

lemma trail_verdict_breaker:
  assumes "0 < num_value (gk_max_drawdown_pct (sc_risk cfg))" "0 < num_value m"
  shows "trail_verdict env (cfg\<lparr>sc_risk := (sc_risk cfg)\<lparr>gk_max_drawdown_pct := m\<rparr>\<rparr>) now_at d led =
    trail_verdict env cfg now_at d led"
proof -
  let ?cfg = "cfg\<lparr>sc_risk := (sc_risk cfg)\<lparr>gk_max_drawdown_pct := m\<rparr>\<rparr>"
  have "guard_cap (init_guardrail ?cfg) w = guard_cap (init_guardrail cfg) w" for w
    by (simp add: guard_cap_def init_guardrail_def)
  then show ?thesis using assms
    by (simp add: trail_verdict_def guard_check_def init_guardrail_def Let_def)
qed

end
