(* ===== verification/InjMarket.thy ===== *)
theory InjMarket
  imports Agent_Types
begin

text \<open>
  \<open>agent/ops/injective_market.py\<close>: tokens, markets, number formats and tick sizes of the Injective spot
  venue. A \<open>Decimal\<close> is an exact real (the 28-digit context is not modelled). The environment variables
  are the record \<open>inj_env\<close>; \<open>mainnet_env\<close> is what an empty environment gives. The indexer's answers are
  arguments.
\<close>

record inj_env =
  ie_denom_inj :: string
  ie_denom_usdt :: string
  ie_market_inj_usdt :: string
  ie_min_notional_usd :: real
  ie_price_tick :: "real option"
  ie_qty_tick :: "real option"

definition mainnet_env :: inj_env where
  "mainnet_env = \<lparr>ie_denom_inj = ''inj'',
     ie_denom_usdt = ''peggy0xdAC17F958D2ee523a2206206994597C13D831ec7'',
     ie_market_inj_usdt = ''0xa508cb32923323679f29a032c70342c147c17d0145625922b0ef22e955c844c0'',
     ie_min_notional_usd = 1, ie_price_tick = None, ie_qty_tick = None\<rparr>"

definition INJ_TOKENS :: "inj_env \<Rightarrow> (string \<times> string \<times> nat) list" where
  "INJ_TOKENS env = [(''INJ'', ie_denom_inj env, 18), (''USDT'', ie_denom_usdt env, 6)]"

definition RISKY_SYMBOLS :: "string list" where
  "RISKY_SYMBOLS = [''INJ'']"

definition QUOTE_SYMBOLS :: "string list" where
  "QUOTE_SYMBOLS = [''USDT'']"

section \<open>Subaccounts\<close>

text \<open>\<open>s.replace("0x", "")\<close>\<close>

fun remove_0x :: "string \<Rightarrow> string" where
  "remove_0x (a # b # s) = (if a = CHR ''0'' \<and> b = CHR ''x'' then remove_0x s else a # remove_0x (b # s))"
| "remove_0x s = s"

fun show_hex :: "nat \<Rightarrow> string" where
  "show_hex n = (if n < 16 then [hex_char n] else show_hex (n div 16) @ [hex_char (n mod 16)])"

declare show_hex.simps [simp del]

definition subaccount_id :: "string \<Rightarrow> nat \<Rightarrow> py_error + string" where
  "subaccount_id contract_address index =
     (let addr = remove_0x (lower contract_address) in
      if length addr \<noteq> 40 then Inl (ValueError ''bad contract address'')
      else Inr (''0x'' @ addr @ pad_zero 24 (show_hex index)))"

section \<open>Number formats\<close>

text \<open>\<open>int(x)\<close> truncates towards zero.\<close>

definition trunc :: "real \<Rightarrow> int" where
  "trunc x = (if 0 \<le> x then \<lfloor>x\<rfloor> else \<lceil>x\<rceil>)"

definition to_ufixed :: "real \<Rightarrow> int" where
  "to_ufixed v = trunc (v * 10 ^ 18)"

definition from_ufixed :: "int \<Rightarrow> real" where
  "from_ufixed raw = of_int raw / 10 ^ 18"

definition to_chain_amount :: "real \<Rightarrow> nat \<Rightarrow> int" where
  "to_chain_amount human decimals = trunc (human * 10 ^ decimals)"

definition from_chain_amount :: "int \<Rightarrow> nat \<Rightarrow> real" where
  "from_chain_amount raw decimals = of_int raw / 10 ^ decimals"

section \<open>Tokens and markets\<close>

definition inj_token :: "inj_env \<Rightarrow> string \<Rightarrow> py_error + string \<times> nat" where
  "inj_token env symb =
     (case map_of (INJ_TOKENS env) (upper symb) of
        None \<Rightarrow> Inl (KeyError (''unknown Injective token symbol: '' @ symb)) | Some t \<Rightarrow> Inr t)"

definition market_id :: "inj_env \<Rightarrow> string \<Rightarrow> string \<Rightarrow> py_error + string" where
  "market_id env base quote =
     (let pair = upper base @ ''/'' @ upper quote;
          mid = map_of [(''INJ/USDT'', ie_market_inj_usdt env)] pair in
      if mid = None \<or> mid = Some [] then Inl (KeyError (''no spot market id for '' @ pair))
      else Inr (the mid))"

record swap_plan =
  sp_side :: side
  sp_base :: string
  sp_quote :: string
  sp_order_type :: string

definition classify_swap :: "string \<Rightarrow> string \<Rightarrow> py_error + swap_plan" where
  "classify_swap from_token to_token =
     (let f = upper from_token; t = upper to_token in
      if f \<in> set QUOTE_SYMBOLS \<and> t \<in> set RISKY_SYMBOLS
      then Inr \<lparr>sp_side = Buy, sp_base = t, sp_quote = f, sp_order_type = ''buy''\<rparr>
      else if f \<in> set RISKY_SYMBOLS \<and> t \<in> set QUOTE_SYMBOLS
      then Inr \<lparr>sp_side = Sell, sp_base = f, sp_quote = t, sp_order_type = ''sell''\<rparr>
      else Inl (ValueError (''unsupported Injective pair '' @ from_token @ ''->'' @ to_token)))"

section \<open>Ticks\<close>

text \<open>
  \<open>market_ticks\<close> reads the ticks from the environment, the cache, or the indexer: \<open>fetched\<close> are the
  answers of the two indexer versions in the order they are tried, each the chain-format tick sizes or
  nothing when the request fails. The result comes with the cache after the call.
\<close>

type_synonym ticks = "real \<times> real"

definition human_ticks :: "nat \<Rightarrow> nat \<Rightarrow> ticks \<Rightarrow> ticks" where
  "human_ticks base_dec quote_dec m =
     (fst m * (10 ^ base_dec / 10 ^ quote_dec), snd m / 10 ^ base_dec)"

definition fetch_ticks :: "inj_env \<Rightarrow> string \<Rightarrow> string \<Rightarrow> ticks option list \<Rightarrow> py_error + ticks" where
  "fetch_ticks env base quote fetched =
     (case inj_token env base of Inl e \<Rightarrow> Inl e | Inr (_, base_dec) \<Rightarrow>
       (case inj_token env quote of Inl e \<Rightarrow> Inl e | Inr (_, quote_dec) \<Rightarrow>
         (case market_id env base quote of Inl e \<Rightarrow> Inl e | Inr _ \<Rightarrow>
           (case find (\<lambda>m. m \<noteq> None) (take 2 fetched) of
              Some m \<Rightarrow> Inr (human_ticks base_dec quote_dec (the m))
            | None \<Rightarrow>
                if ie_price_tick env \<noteq> None \<or> ie_qty_tick env \<noteq> None
                then Inr (get_or (ie_price_tick env) 0, get_or (ie_qty_tick env) 0)
                else Inl (KeyError ''could not resolve tick sizes'')))))"

definition market_ticks :: "inj_env \<Rightarrow> string \<Rightarrow> string \<Rightarrow> ticks option \<Rightarrow> ticks option list \<Rightarrow>
    (py_error + ticks) \<times> ticks option" where
  "market_ticks env base quote cache fetched =
     (case (ie_price_tick env, ie_qty_tick env) of
        (Some p, Some q) \<Rightarrow> (Inr (p, q), cache)
      | _ \<Rightarrow> (case cache of
          Some t \<Rightarrow> (Inr t, cache)
        | None \<Rightarrow>
            (case fetch_ticks env base quote fetched of
               Inl e \<Rightarrow> (Inl e, None)
             | Inr t \<Rightarrow> (Inr t, if find (\<lambda>m. m \<noteq> None) (take 2 fetched) = None then None else Some t))))"

datatype snap_mode = Up | Down

definition snap_to_tick :: "real \<Rightarrow> real \<Rightarrow> snap_mode \<Rightarrow> real" where
  "snap_to_tick v tick mode =
     (if tick \<le> 0 then v
      else of_int (if mode = Up then \<lceil>v / tick\<rceil> else \<lfloor>v / tick\<rfloor>) * tick)"

section \<open>Facts\<close>

lemma classify_swap_plan:
  "classify_swap f t = Inr p \<Longrightarrow>
    (sp_side p = Buy \<and> upper f = ''USDT'' \<and> upper t = ''INJ'' \<or> sp_side p = Sell \<and> upper f = ''INJ'' \<and> upper t = ''USDT'') \<and>
    sp_base p = ''INJ'' \<and> sp_quote p = ''USDT'' \<and> sp_order_type p = side_text (sp_side p)"
  by (auto simp: classify_swap_def Let_def QUOTE_SYMBOLS_def RISKY_SYMBOLS_def side_text_def split: if_splits)

lemma snap_down:
  assumes "0 < tick"
  shows "snap_to_tick v tick Down \<le> v" "v < snap_to_tick v tick Down + tick"
proof -
  have "of_int \<lfloor>v / tick\<rfloor> * tick \<le> v / tick * tick" using assms by (intro mult_right_mono) simp_all
  with assms show "snap_to_tick v tick Down \<le> v" by (simp add: snap_to_tick_def)
  have "v / tick * tick < (of_int \<lfloor>v / tick\<rfloor> + 1) * tick"
    using assms by (intro mult_strict_right_mono) (linarith, simp)
  with assms show "v < snap_to_tick v tick Down + tick" by (simp add: snap_to_tick_def distrib_right)
qed

lemma snap_up:
  assumes "0 < tick"
  shows "v \<le> snap_to_tick v tick Up" "snap_to_tick v tick Up < v + tick"
proof -
  have "v / tick * tick \<le> of_int \<lceil>v / tick\<rceil> * tick" using assms by (intro mult_right_mono) simp_all
  with assms show "v \<le> snap_to_tick v tick Up" by (simp add: snap_to_tick_def)
  have "of_int \<lceil>v / tick\<rceil> * tick < (v / tick + 1) * tick"
    using assms by (intro mult_strict_right_mono) (linarith, simp)
  with assms show "snap_to_tick v tick Up < v + tick" by (simp add: snap_to_tick_def distrib_right)
qed

lemma snap_down_le: "snap_to_tick v tick Down \<le> v"
  by (cases "0 < tick") (simp_all add: snap_down, simp add: snap_to_tick_def)

lemma snap_nonneg:
  assumes "0 \<le> v" shows "0 \<le> snap_to_tick v tick m"
proof (cases "0 < tick")
  case True
  then have "0 \<le> v / tick" using assms by simp
  then have "0 \<le> \<lfloor>v / tick\<rfloor>" "0 \<le> \<lceil>v / tick\<rceil>" by linarith+
  then have "0 \<le> real_of_int \<lfloor>v / tick\<rfloor> * tick" "0 \<le> real_of_int \<lceil>v / tick\<rceil> * tick"
    using True by (simp_all only: zero_le_mult_iff of_int_0_le_iff) auto
  with True show ?thesis by (simp add: snap_to_tick_def)
qed (use assms in \<open>simp add: snap_to_tick_def\<close>)

lemma trunc_nonneg_bounds:
  assumes "0 \<le> x" shows "of_int (trunc x) \<le> x" "x < of_int (trunc x) + 1" "0 \<le> trunc x"
  using assms by (simp_all add: trunc_def)

lemma trunc_of_int [simp]: "trunc (of_int k) = k"
  by (simp add: trunc_def)

lemma from_to_ufixed:
  assumes "0 \<le> v" shows "from_ufixed (to_ufixed v) \<le> v" "v < from_ufixed (to_ufixed v) + 1 / 10 ^ 18"
  using trunc_nonneg_bounds [of "v * 10 ^ 18"] assms
  by (simp_all add: from_ufixed_def to_ufixed_def field_simps)

lemma to_from_ufixed [simp]: "to_ufixed (from_ufixed n) = n"
  by (simp add: from_ufixed_def to_ufixed_def)

lemma to_from_chain_amount [simp]: "to_chain_amount (from_chain_amount n d) d = n"
  by (simp add: from_chain_amount_def to_chain_amount_def)

lemma length_lower [simp]: "length (lower s) = length s"
  by (simp add: lower_def)

lemma length_show_hex: "n < 16 ^ w \<Longrightarrow> 0 < w \<Longrightarrow> length (show_hex n) \<le> w"
proof (induction n arbitrary: w rule: show_hex.induct)
  case (1 n)
  show ?case
  proof (cases "n < 16")
    case True
    with "1.prems" show ?thesis by (simp add: show_hex.simps [of n])
  next
    case False
    from "1.prems" obtain v where w: "w = Suc v" by (cases w) auto
    with False "1.prems" have "0 < v" by (cases v) auto
    from w "1.prems" have "n div 16 < 16 ^ v" by auto
    with False \<open>0 < v\<close> w "1.IH" show ?thesis by (simp add: show_hex.simps [of n])
  qed
qed

section \<open>Claims\<close>

text \<open>
  Tick snapping: for a positive tick the snapped value is a whole multiple of it, within one tick of
  the value, never above it when snapping down (quantities, a sell's worst price) and never below it when
  snapping up (a buy's worst price).
\<close>

theorem snap_to_tick_bounds:
  assumes "0 < tick"
  shows "(\<exists>k. snap_to_tick v tick m = of_int k * tick) \<and>
    \<bar>snap_to_tick v tick m - v\<bar> < tick \<and>
    snap_to_tick v tick Down \<le> v \<and> v \<le> snap_to_tick v tick Up"
proof -
  have "\<exists>k. snap_to_tick v tick m = of_int k * tick"
    using assms by (simp add: snap_to_tick_def)
  moreover have "\<bar>snap_to_tick v tick m - v\<bar> < tick"
    using snap_down [OF assms, of v] snap_up [OF assms, of v] by (cases m) (simp_all add: abs_less_iff)
  ultimately show ?thesis using snap_down(1) [OF assms] snap_up(1) [OF assms] by blast
qed

theorem snap_to_tick_bounds_witness:
  "\<bar>snap_to_tick (1 / 3) (1 / 1000) Down - 1 / 3\<bar> < 1 / 1000"
  by (rule snap_to_tick_bounds [THEN conjunct2, THEN conjunct1]) simp

text \<open>
  The on-chain number formats round-trip: reading back what an integer denotes gives the integer, and
  a non-negative human value loses less than one unit of the last place, downwards.
\<close>

theorem ufixed_round_trip:
  assumes "0 \<le> v"
  shows "to_ufixed (from_ufixed n) = n \<and> to_chain_amount (from_chain_amount n dec) dec = n \<and>
    from_ufixed (to_ufixed v) \<le> v \<and> v < from_ufixed (to_ufixed v) + 1 / 10 ^ 18"
  using from_to_ufixed [OF assms] by simp

theorem ufixed_round_trip_witness:
  "to_ufixed (from_ufixed 5) = 5 \<and> from_ufixed (to_ufixed (2 / 3)) \<le> 2 / 3"
  using ufixed_round_trip [of "2 / 3" 5 0] by simp

text \<open>
  A subaccount id is 66 characters, \<open>0x\<close> then the address then the index, whenever the address has 40
  hex digits and the index fits 96 bits; any other address is refused.
\<close>

theorem subaccount_id_format:
  assumes "index < 16 ^ 24"
  shows "case subaccount_id a index of
      Inr s \<Rightarrow> length (remove_0x (lower a)) = 40 \<and> length s = 66 \<and> prefix (''0x'' @ remove_0x (lower a)) s
    | Inl e \<Rightarrow> length (remove_0x (lower a)) \<noteq> 40"
  using length_pad_zero [OF length_show_hex [OF assms]]
  by (simp add: subaccount_id_def Let_def)

theorem subaccount_id_format_witness:
  "case subaccount_id (''0x'' @ replicate 40 CHR ''A'') 1 of
      Inr s \<Rightarrow> length s = 66 | Inl e \<Rightarrow> False"
proof -
  have "length (remove_0x (lower (''0x'' @ replicate 40 CHR ''A''))) = 40" by code_simp
  with subaccount_id_format [of 1 "''0x'' @ replicate 40 CHR ''A''"] show ?thesis
    by (simp split: sum.splits)
qed

end
