(* ===== verification/InjBackend.thy ===== *)
theory InjBackend
  imports InjMarket Execution
begin

text \<open>
  \<open>agent/execution/injective_backend.py\<close>: sizing an order against the live book, snapping it to the
  market's ticks, the minimum-notional and dry-run guards, and the broadcast. What the venue answers (the
  order book, the ticks, the outcome of the transaction) is the record \<open>venue\<close>; reading it costs no
  broadcast. Numbers are exact reals, so \<open>float(Decimal)\<close> is the identity.
\<close>

text \<open>
  One answer of the order-book endpoint: the prices of the sell and the buy levels, in chain format, with
  nothing for a level without a price; no answer when the request fails.
\<close>

type_synonym book = "real option list \<times> real option list"

record venue =
  ve_books :: "book option list"
  ve_tick_cache :: "ticks option"
  ve_tick_answers :: "ticks option list"
  ve_send :: "spot_order \<Rightarrow> string + (string \<times> string)"

record inj_backend =
  ib_env :: inj_env
  ib_executor_addr :: string
  ib_fee_recipient :: string
  ib_subaccount_index :: nat
  ib_ref_price_env :: "real option"
  ib_env_cid :: string
  ib_dry_run :: bool

section \<open>Pricing\<close>

definition best_price :: "real option list \<Rightarrow> bool \<Rightarrow> real \<Rightarrow> real option" where
  "best_price levels want_min scale =
     (let prices = map (\<lambda>p. p * scale) (List.map_filter id levels) in
      if prices = [] then None
      else Some (if want_min then Min (set prices) else Max (set prices)))"

definition orderbook_top :: "book option list \<Rightarrow> real \<Rightarrow> py_error + real option \<times> real option" where
  "orderbook_top books scale =
     (case find (\<lambda>b. b \<noteq> None) (take 3 books) of
        None \<Rightarrow> Inl (RuntimeError ''orderbook unavailable'')
      | Some b \<Rightarrow> Inr (best_price (fst (the b)) True scale, best_price (snd (the b)) False scale))"

definition book_price :: "inj_env \<Rightarrow> book option list \<Rightarrow> string \<Rightarrow> string \<Rightarrow> side \<Rightarrow> py_error + real" where
  "book_price env books base quote s =
     sum_bind (market_id env base quote) (\<lambda>mid.
     sum_bind (inj_token env base) (\<lambda>(_, base_dec).
     sum_bind (inj_token env quote) (\<lambda>(_, quote_dec).
     sum_bind (orderbook_top books (10 ^ base_dec / 10 ^ quote_dec)) (\<lambda>(ask, bid).
       case (if s = Buy then ask else bid) of
         Some px \<Rightarrow> if 0 < px then Inr px else Inl (RuntimeError ''empty order book side'')
       | None \<Rightarrow> Inl (RuntimeError ''empty order book side'')))))"

definition ref_price :: "inj_backend \<Rightarrow> venue \<Rightarrow> string \<Rightarrow> string \<Rightarrow> side \<Rightarrow> py_error + real" where
  "ref_price b ve base quote s =
     (case book_price (ib_env b) (ve_books ve) base quote s of
        Inr px \<Rightarrow> Inr px
      | Inl e \<Rightarrow> (case ib_ref_price_env b of Some px \<Rightarrow> Inr px
          | None \<Rightarrow> Inl (RuntimeError (''no reference price for '' @ base @ ''/'' @ quote))))"

section \<open>Sizing\<close>

record sizing =
  sz_ref_price :: real
  sz_worst_price :: real
  sz_quantity_base :: real
  sz_price_ufixed :: int
  sz_quantity_ufixed :: int
  sz_amount_usd :: real

definition size_order :: "inj_backend \<Rightarrow> venue \<Rightarrow> string \<Rightarrow> string \<Rightarrow> side \<Rightarrow> real \<Rightarrow> int \<Rightarrow> py_error + sizing" where
  "size_order b ve base quote s usd slippage_bps =
     sum_bind (ref_price b ve base quote s) (\<lambda>ref.
       if ref = 0 then Inl ZeroDivisionError
       else
         let quantity0 = usd / ref;
             slip = of_int slippage_bps / 10000;
             worst0 = (if s = Buy then ref * (1 + slip) else ref * (1 - slip));
             (worst, quantity) =
               (case fst (market_ticks (ib_env b) base quote (ve_tick_cache ve) (ve_tick_answers ve)) of
                  Inr (price_tick, qty_tick) \<Rightarrow>
                    (snap_to_tick worst0 price_tick (if s = Buy then Up else Down),
                     snap_to_tick quantity0 qty_tick Down)
                | Inl _ \<Rightarrow> (worst0, quantity0))
         in Inr \<lparr>sz_ref_price = ref, sz_worst_price = worst, sz_quantity_base = quantity,
              sz_price_ufixed = to_ufixed worst, sz_quantity_ufixed = to_ufixed quantity,
              sz_amount_usd = quantity * ref\<rparr>)"

definition sizing_detail :: "sizing \<Rightarrow> detail" where
  "sizing_detail z =
     [(''ref_price'', JFloat (sz_ref_price z)), (''worst_price'', JFloat (sz_worst_price z)),
      (''quantity_base'', JFloat (sz_quantity_base z)), (''price_ufixed'', JInt (sz_price_ufixed z)),
      (''quantity_ufixed'', JInt (sz_quantity_ufixed z)), (''amount_usd'', JFloat (sz_amount_usd z))]"

section \<open>Quote and swap\<close>

definition inj_quote :: "inj_backend \<Rightarrow> venue \<Rightarrow> swap_args \<Rightarrow> py_error + detail" where
  "inj_quote b ve a =
     sum_bind (classify_swap (sw_from a) (sw_to a)) (\<lambda>plan.
     sum_bind (size_order b ve (sp_base plan) (sp_quote plan) (sp_side plan) (sw_amount a) (sw_slippage_bps a)) (\<lambda>z.
       Inr ([(''source'', JStr ''injective''),
             (''chain'', JStr (if sw_chain a = [] then ''injective'' else sw_chain a)),
             (''market'', JStr (sp_base plan @ ''/'' @ sp_quote plan)), (''side'', JStr (side_text (sp_side plan))),
             (''slippage_bps'', JInt (sw_slippage_bps a))] @ sizing_detail z)))"

text \<open>The guards before a broadcast, and the broadcast of one sized order.\<close>

definition inj_result :: "bool \<Rightarrow> bool \<Rightarrow> detail \<Rightarrow> string option \<Rightarrow> execution_result" where
  "inj_result executed dry d err = \<lparr>er_executed = executed, er_dry_run = dry, er_detail = d, er_error = err\<rparr>"

definition skipped_detail :: "real \<Rightarrow> string \<Rightarrow> sizing \<Rightarrow> detail" where
  "skipped_detail min_notional cid z =
     [(''source'', JStr ''injective''), (''skipped'', JStr ''below_min_notional''),
      (''min_notional_usd'', JFloat min_notional), (''cid'', JStr cid)] @ sizing_detail z"

definition dry_run_detail :: "string \<Rightarrow> string \<Rightarrow> string \<Rightarrow> sizing \<Rightarrow> detail" where
  "dry_run_detail market order_type cid z =
     [(''source'', JStr ''injective''), (''mode'', JStr ''dry_run''),
      (''would_call'', JStr ''SpotExecutor.placeSpotMarketOrder''), (''market'', JStr market),
      (''order_type'', JStr order_type), (''cid'', JStr cid)] @ sizing_detail z"

definition failed_detail :: "string \<Rightarrow> sizing \<Rightarrow> detail" where
  "failed_detail cid z = [(''source'', JStr ''injective''), (''cid'', JStr cid)] @ sizing_detail z"

definition placed_detail :: "string \<Rightarrow> string \<Rightarrow> string \<Rightarrow> string \<Rightarrow> string \<Rightarrow> sizing \<Rightarrow> detail" where
  "placed_detail tx order_hash market order_type cid z =
     [(''source'', JStr ''injective''), (''tx'', JStr tx), (''order_hash'', JStr order_hash),
      (''market'', JStr market), (''order_type'', JStr order_type), (''cid'', JStr cid),
      (''fill'', JStr ''via_reconcile'')] @ sizing_detail z"

definition inj_place :: "inj_backend \<Rightarrow> venue \<Rightarrow> swap_plan \<Rightarrow> string \<Rightarrow> string \<Rightarrow> sizing \<Rightarrow>
    broadcast list \<times> (py_error + execution_result)" where
  "inj_place b ve plan market cid z =
     (if sz_amount_usd z < ie_min_notional_usd (ib_env b)
      then ([], Inr (inj_result False (ib_dry_run b)
             (skipped_detail (ie_min_notional_usd (ib_env b)) cid z) None))
      else if ib_dry_run b
      then ([], Inr (inj_result False True (dry_run_detail market (sp_order_type plan) cid z) None))
      else case subaccount_id (ib_executor_addr b) (ib_subaccount_index b) of
        Inl e \<Rightarrow> ([], Inr (inj_result False False (failed_detail cid z) (Some ''bad contract address'')))
      | Inr sub \<Rightarrow>
          let order = \<lparr>so_market = market, so_subaccount = sub, so_fee_recipient = ib_fee_recipient b,
                so_price_ufixed = sz_price_ufixed z, so_quantity_ufixed = sz_quantity_ufixed z,
                so_cid = cid, so_order_type = sp_order_type plan\<rparr>
          in ([SpotOrder order],
              case ve_send ve order of
                Inl err \<Rightarrow> Inr (inj_result False False (failed_detail cid z) (Some err))
              | Inr (tx, order_hash) \<Rightarrow> Inr (inj_result (tx \<noteq> []) False
                  (placed_detail tx order_hash market (sp_order_type plan) cid z) None)))"

definition inj_plan :: "inj_backend \<Rightarrow> venue \<Rightarrow> swap_args \<Rightarrow> py_error + swap_plan \<times> sizing \<times> string" where
  "inj_plan b ve a =
     sum_bind (classify_swap (sw_from a) (sw_to a)) (\<lambda>plan.
     sum_bind (size_order b ve (sp_base plan) (sp_quote plan) (sp_side plan) (sw_amount a) (sw_slippage_bps a)) (\<lambda>z.
     sum_bind (market_id (ib_env b) (sp_base plan) (sp_quote plan)) (\<lambda>market. Inr (plan, z, market))))"

definition inj_swap :: "inj_backend \<Rightarrow> venue \<Rightarrow> swap_args \<Rightarrow> broadcast list \<times> (py_error + execution_result)" where
  "inj_swap b ve a =
     (case inj_plan b ve a of
        Inl e \<Rightarrow> ([], Inl e)
      | Inr (plan, z, market) \<Rightarrow>
          inj_place b ve plan market (if sw_cid a = [] then ib_env_cid b else sw_cid a) z)"

definition injective_backend :: "inj_backend \<Rightarrow> venue \<Rightarrow> backend" where
  "injective_backend b ve =
     \<lparr>b_quote = inj_quote b ve, b_swap = inj_swap b ve, b_accepts_cid = True\<rparr>"

text \<open>The subaccount's balances, from the raw amounts the contract reports.\<close>

definition read_subaccount_balances :: "inj_env \<Rightarrow> (string \<Rightarrow> int) \<Rightarrow> string list \<Rightarrow> py_error + (string \<times> real) list" where
  "read_subaccount_balances env available symbols =
     foldl (\<lambda>acc symb. sum_bind acc (\<lambda>out. sum_bind (inj_token env symb) (\<lambda>(denom, decimals).
         Inr (AList.update (upper symb) (from_chain_amount (available denom) decimals) out))))
       (Inr []) symbols"

section \<open>Facts\<close>

lemma sum_bind_Inr: "sum_bind x f = Inr y \<longleftrightarrow> (\<exists>a. x = Inr a \<and> f a = Inr y)"
  by (cases x) (simp_all add: sum_bind_def)

lemma ref_price_book_pos:
  "book_price env books base quote s = Inr px \<Longrightarrow> 0 < px"
  by (auto simp: book_price_def sum_bind_Inr split: option.splits if_splits)

lemma ref_price_pos:
  assumes "ref_price b ve base quote s = Inr px" "\<And>p. ib_ref_price_env b = Some p \<Longrightarrow> 0 < p"
  shows "0 < px"
  using assms ref_price_book_pos
  by (auto simp: ref_price_def split: sum.splits option.splits)

lemma size_order_Inr:
  assumes "size_order b ve base quote s usd slippage = Inr z"
    and pos: "\<And>p. ib_ref_price_env b = Some p \<Longrightarrow> 0 < p" and "0 \<le> usd"
  shows "0 < sz_ref_price z" "0 \<le> sz_quantity_base z" "sz_amount_usd z = sz_quantity_base z * sz_ref_price z"
    "sz_amount_usd z \<le> usd" "sz_quantity_ufixed z = to_ufixed (sz_quantity_base z)"
    "sz_price_ufixed z = to_ufixed (sz_worst_price z)" "ref_price b ve base quote s = Inr (sz_ref_price z)"
proof -
  obtain ref where ref: "ref_price b ve base quote s = Inr ref" "sz_ref_price z = ref"
    and q: "sz_amount_usd z = sz_quantity_base z * ref" "sz_quantity_ufixed z = to_ufixed (sz_quantity_base z)"
      "sz_price_ufixed z = to_ufixed (sz_worst_price z)"
      "sz_quantity_base z \<le> usd / ref" "0 \<le> usd / ref \<Longrightarrow> 0 \<le> sz_quantity_base z"
    using assms(1)
    by (auto simp: size_order_def sum_bind_Inr Let_def snap_down_le snap_nonneg split: if_splits sum.splits)
  have "0 < ref" using ref_price_pos [OF ref(1) pos] by blast
  then have "0 \<le> usd / ref" using assms(3) by simp
  with q(4,5) have le: "sz_quantity_base z \<le> usd / ref" and nn: "0 \<le> sz_quantity_base z"
    by simp_all
  have "sz_quantity_base z * ref \<le> usd / ref * ref" using le \<open>0 < ref\<close> by (intro mult_right_mono) simp_all
  then show "sz_amount_usd z \<le> usd" using q(1) \<open>0 < ref\<close> by simp
  show "0 < sz_ref_price z" "0 \<le> sz_quantity_base z" "sz_amount_usd z = sz_quantity_base z * sz_ref_price z"
    "sz_quantity_ufixed z = to_ufixed (sz_quantity_base z)" "sz_price_ufixed z = to_ufixed (sz_worst_price z)"
    "ref_price b ve base quote s = Inr (sz_ref_price z)"
    using ref q nn \<open>0 < ref\<close> by simp_all
qed

text \<open>The quantity falls short of the full amount by less than a tick, or not at all when no ticks are known.\<close>

definition qty_step :: "inj_backend \<Rightarrow> venue \<Rightarrow> string \<Rightarrow> string \<Rightarrow> real" where
  "qty_step b ve base quote =
     (case fst (market_ticks (ib_env b) base quote (ve_tick_cache ve) (ve_tick_answers ve)) of
        Inr (_, qty_tick) \<Rightarrow> max 0 qty_tick | Inl _ \<Rightarrow> 0)"

lemma size_order_short:
  assumes "size_order b ve base quote s usd slippage = Inr z"
  shows "usd / sz_ref_price z - sz_quantity_base z \<le> qty_step b ve base quote"
proof -
  have "v - snap_to_tick v t Down \<le> max 0 t" for v t
    using snap_down(2) [of t v] by (cases "0 < t") (simp_all, simp add: snap_to_tick_def)
  then show ?thesis using assms
    by (auto simp: size_order_def sum_bind_Inr Let_def qty_step_def split: if_splits sum.splits)
qed

lemma inj_result_simps [simp]:
  "er_executed (inj_result ex dry d err) = ex" "er_dry_run (inj_result ex dry d err) = dry"
  "er_detail (inj_result ex dry d err) = d" "er_error (inj_result ex dry d err) = err"
  by (simp_all add: inj_result_def)

lemma inj_place_cases:
  "inj_place b ve plan market cid z = (sent, x) \<Longrightarrow>
     (sent = [] \<and> (\<exists>r. x = Inr r \<and> \<not> er_executed r)) \<or>
     (\<exists>order r. sent = [SpotOrder order] \<and> x = Inr r \<and> \<not> er_dry_run r \<and> \<not> ib_dry_run b \<and>
        ie_min_notional_usd (ib_env b) \<le> sz_amount_usd z \<and> so_market order = market \<and> so_cid order = cid \<and>
        so_order_type order = sp_order_type plan \<and> so_price_ufixed order = sz_price_ufixed z \<and>
        so_quantity_ufixed order = sz_quantity_ufixed z \<and>
        subaccount_id (ib_executor_addr b) (ib_subaccount_index b) = Inr (so_subaccount order))"
  by (auto simp: inj_place_def Let_def split: if_splits sum.splits)

interpretation injective: exec_backend "injective_backend b ve" for b ve
proof unfold_locales
  fix a sent r
  assume "b_swap (injective_backend b ve) a = (sent, Inr r)" "er_executed r"
  then show "\<not> er_dry_run r \<and> length sent = 1"
    by (auto simp: injective_backend_def inj_swap_def split: sum.splits prod.splits dest!: inj_place_cases)
next
  fix a sent x
  assume "b_swap (injective_backend b ve) a = (sent, x)"
  then show "length sent \<le> 1"
    by (auto simp: injective_backend_def inj_swap_def split: sum.splits prod.splits dest!: inj_place_cases)
qed

section \<open>Claims\<close>

text \<open>
  C19. Every spot order that leaves the backend is guarded and never oversized: the backend is not in
  dry-run mode, the market is INJ/USDT and the order's type is the swap's direction, the order carries the
  caller's order id. Its base quantity, valued at the price that the venue gives for this side (the best ask for a
  buy, the best bid for a sale, or the configured price), is at most the USD amount asked for, less than a quantity tick (and
  the last place of the fixed-point format) short of it, and at least the venue's minimum notional up to that last place.
\<close>

theorem injective_order_guarded:
  assumes "inj_swap b ve a = (sent, x)" "SpotOrder order \<in> set sent"
    and "0 \<le> sw_amount a" "\<And>p. ib_ref_price_env b = Some p \<Longrightarrow> 0 < p"
  shows "sent = [SpotOrder order] \<and> \<not> ib_dry_run b \<and>
    so_order_type order = (if upper (sw_from a) = ''USDT'' then ''buy'' else ''sell'') \<and>
    {upper (sw_from a), upper (sw_to a)} = {''INJ'', ''USDT''} \<and>
    so_market order = ie_market_inj_usdt (ib_env b) \<and>
    (sw_cid a \<noteq> [] \<longrightarrow> so_cid order = sw_cid a) \<and>
    (\<exists>ref. ref_price b ve ''INJ'' ''USDT'' (if upper (sw_from a) = ''USDT'' then Buy else Sell) = Inr ref \<and> 0 < ref \<and>
       from_ufixed (so_quantity_ufixed order) * ref \<le> sw_amount a \<and>
       sw_amount a / ref - from_ufixed (so_quantity_ufixed order) < qty_step b ve ''INJ'' ''USDT'' + 1 / 10 ^ 18 \<and>
       ie_min_notional_usd (ib_env b) \<le> (from_ufixed (so_quantity_ufixed order) + 1 / 10 ^ 18) * ref)"
proof -
  obtain plan z market where p: "inj_plan b ve a = Inr (plan, z, market)"
    and placed: "inj_place b ve plan market (if sw_cid a = [] then ib_env_cid b else sw_cid a) z = (sent, x)"
    using assms(1,2) by (auto simp: inj_swap_def split: sum.splits)
  from p have plan: "classify_swap (sw_from a) (sw_to a) = Inr plan"
    and z: "size_order b ve (sp_base plan) (sp_quote plan) (sp_side plan) (sw_amount a) (sw_slippage_bps a) = Inr z"
    and m: "market_id (ib_env b) (sp_base plan) (sp_quote plan) = Inr market"
    by (auto simp: inj_plan_def sum_bind_Inr)
  from inj_place_cases [OF placed] assms(2) have o: "sent = [SpotOrder order]" "\<not> ib_dry_run b"
      "ie_min_notional_usd (ib_env b) \<le> sz_amount_usd z" "so_market order = market"
      "so_cid order = (if sw_cid a = [] then ib_env_cid b else sw_cid a)"
      "so_order_type order = sp_order_type plan" "so_quantity_ufixed order = sz_quantity_ufixed z"
    by auto
  note s = size_order_Inr [OF z assms(4) assms(3)]
  note c = classify_swap_plan [OF plan]
  have "market = ie_market_inj_usdt (ib_env b)"
  proof -
    have "upper ''INJ'' = ''INJ''" "upper ''USDT'' = ''USDT''" by code_simp+
    with m c show ?thesis by (auto simp: market_id_def Let_def split: if_splits)
  qed
  moreover have "ref_price b ve ''INJ'' ''USDT'' (sp_side plan) = Inr (sz_ref_price z)" using s(7) c by simp
  moreover have "sw_amount a / sz_ref_price z - from_ufixed (so_quantity_ufixed order) < qty_step b ve ''INJ'' ''USDT'' + 1 / 10 ^ 18"
    using size_order_short [OF z] from_to_ufixed(2) [OF s(2)] o(7) s(5) c by simp
  moreover have "from_ufixed (so_quantity_ufixed order) * sz_ref_price z \<le> sw_amount a"
    "ie_min_notional_usd (ib_env b) \<le> (from_ufixed (so_quantity_ufixed order) + 1 / 10 ^ 18) * sz_ref_price z"
  proof -
    note q = from_to_ufixed [OF s(2)]
    have "from_ufixed (so_quantity_ufixed order) * sz_ref_price z \<le> sz_quantity_base z * sz_ref_price z"
      using q(1) s(1) o(7) s(5) by (intro mult_right_mono) simp_all
    then show "from_ufixed (so_quantity_ufixed order) * sz_ref_price z \<le> sw_amount a"
      using s(3,4) by simp
    have "sz_quantity_base z * sz_ref_price z \<le> (from_ufixed (so_quantity_ufixed order) + 1 / 10 ^ 18) * sz_ref_price z"
      using q(2) s(1) o(7) s(5) by (intro mult_right_mono) simp_all
    then show "ie_min_notional_usd (ib_env b) \<le> (from_ufixed (so_quantity_ufixed order) + 1 / 10 ^ 18) * sz_ref_price z"
      using s(3) o(3) by simp
  qed
  ultimately show ?thesis using o c s(1) by (auto simp: side_text_def)
qed

definition ex_inj_backend :: inj_backend where
  "ex_inj_backend = \<lparr>ib_env = mainnet_env\<lparr>ie_price_tick := Some (1 / 1000), ie_qty_tick := Some (1 / 1000)\<rparr>,
     ib_executor_addr = ''0x'' @ replicate 40 CHR ''a'', ib_fee_recipient = [], ib_subaccount_index = 1,
     ib_ref_price_env = Some 20, ib_env_cid = [], ib_dry_run = False\<rparr>"

definition ex_venue :: venue where
  "ex_venue = \<lparr>ve_books = [], ve_tick_cache = None, ve_tick_answers = [], ve_send = (\<lambda>order. Inr (''0xabc'', ''0xdef''))\<rparr>"

definition ex_swap :: swap_args where
  "ex_swap = \<lparr>sw_chain = ''injective'', sw_from = ''USDT'', sw_to = ''INJ'', sw_amount = 2,
     sw_slippage_bps = 50, sw_cid = ''c''\<rparr>"

definition ex_trade :: decision where
  "ex_trade = \<lparr>d_side = Buy, d_chain = ''injective'', d_from_token = ''USDT'', d_to_token = ''INJ'',
     d_amount_usd = 2, d_confidence = 7 / 10, d_rationale = []\<rparr>"

theorem injective_order_guarded_witness:
  "\<exists>order. fst (inj_swap ex_inj_backend ex_venue ex_swap) = [SpotOrder order] \<and> so_cid order = ''c''"
proof -
  obtain sent x where sx: "inj_swap ex_inj_backend ex_venue ex_swap = (sent, x)" by fastforce
  have "length (fst (inj_swap ex_inj_backend ex_venue ex_swap)) = 1"
    "list_all (\<lambda>e. case e of SpotOrder _ \<Rightarrow> True | _ \<Rightarrow> False) (fst (inj_swap ex_inj_backend ex_venue ex_swap))"
    by code_simp+
  then obtain order where "sent = [SpotOrder order]"
    using sx by (cases sent) (auto split: broadcast.splits)
  moreover have "0 \<le> sw_amount ex_swap" "sw_cid ex_swap = ''c''" by (simp_all add: ex_swap_def)
  moreover have "\<And>p. ib_ref_price_env ex_inj_backend = Some p \<Longrightarrow> 0 < p"
    by (simp add: ex_inj_backend_def)
  ultimately show ?thesis using injective_order_guarded [OF sx, of order] sx by simp
qed

text \<open>
  The executor is honest about execution on every backend whose contract is proved (mock, Trust Wallet
  CLI, Injective), whatever the outside world answers: a result that says executed is not from paper mode,
  is no dry run, and came with exactly one broadcast; and no call broadcasts twice.
\<close>

theorem executor_honest:
  assumes "be \<in> {mock_backend, twak_backend shell t, injective_backend b ve}"
    and "execute be mode slip d amt cid = (sent, x)"
  shows "length sent \<le> 1 \<and>
    (\<forall>r. x = Inr r \<and> er_executed r \<longrightarrow> mode \<noteq> Paper \<and> \<not> er_dry_run r \<and> length sent = 1)"
proof -
  consider "be = mock_backend" | "be = twak_backend shell t" | "be = injective_backend b ve"
    using assms(1) by blast
  then show ?thesis
  proof cases
    case 1
    then show ?thesis using assms(2) mock.execute_one mock.execute_executed by blast
  next
    case 2
    then show ?thesis using assms(2) twak.execute_one twak.execute_executed by blast
  next
    case 3
    then show ?thesis using assms(2) injective.execute_one injective.execute_executed by blast
  qed
qed

theorem executor_honest_witness:
  "length (fst (execute (injective_backend ex_inj_backend ex_venue) Live 50 ex_trade 2 ''c'')) \<le> 1"
proof -
  obtain sent x where e: "execute (injective_backend ex_inj_backend ex_venue) Live 50 ex_trade 2 ''c'' = (sent, x)"
    by fastforce
  have "length sent \<le> 1"
    by (rule executor_honest [OF _ e, THEN conjunct1]) auto
  with e show ?thesis by simp
qed

end
