(* ===== verification/Onchain.thy ===== *)
theory Onchain
  imports Nonce
begin

text \<open>
  \<open>agent/ops/onchain.py\<close>: token balances read through the pool, in human units. The provider is any
  function with the pool's contract; a read that fails raises, so that the caller holds.
\<close>

definition BSC_TOKENS :: "(string \<times> string \<times> nat) list" where
  "BSC_TOKENS =
     [(''USDT'', ''0x55d398326f99059fF775485246999027B3197955'', 18),
      (''USDC'', ''0x8AC76a51cc950d9822D68b83fE1Ad97B32Cd580d'', 18),
      (''WBNB'', ''0xbb4CdB9CBd36B01bD1cBaEBF2De08d9173bc095c'', 18),
      (''BTCB'', ''0x7130d2A12B9BCbFAe4f2634d864A1Ee1Ce3Ead9c'', 18),
      (''ETH'', ''0x2170Ed0880ac9A755fd29B2688956BD959F933F8'', 18),
      (''CAKE'', ''0x0E09FaBB73Bd3Ade0a17ECC321fD13a19e81cE82'', 18)]"

text \<open>\<open>address.lower().replace("0x", "").rjust(64, "0")\<close>\<close>

fun drop_0x :: "string \<Rightarrow> string" where
  "drop_0x (a # b # s) = (if a = CHR ''0'' \<and> b = CHR ''x'' then drop_0x s else a # drop_0x (b # s))"
| "drop_0x s = s"

definition encode_address_arg :: "string \<Rightarrow> string" where
  "encode_address_arg address = pad_zero 64 (drop_0x (lower address))"

type_synonym 's rpc_fun = "string \<Rightarrow> json list \<Rightarrow> 's \<Rightarrow> 's \<times> (py_error + json)"

definition balance_query :: "string \<Rightarrow> string \<Rightarrow> json list" where
  "balance_query addr wallet =
     [JObj [(''to'', JStr addr), (''data'', JStr (''0x70a08231'' @ encode_address_arg wallet))], JStr ''latest'']"

definition onchain_int :: "json \<Rightarrow> py_error + int" where
  "onchain_int r = to_int ''unexpected RPC result type'' (rpc_result r)"

fun read_balances :: "'s rpc_fun \<Rightarrow> string \<Rightarrow> string list \<Rightarrow> (string \<times> real) list \<Rightarrow> 's \<Rightarrow>
    's \<times> (py_error + (string \<times> real) list)" where
  "read_balances rpc wallet [] out s = (s, Inr out)"
| "read_balances rpc wallet (symb # symbs) out s =
     (case map_of BSC_TOKENS (upper symb) of
        None \<Rightarrow> read_balances rpc wallet symbs out s
      | Some (addr, decimals) \<Rightarrow>
          (case rpc ''eth_call'' (balance_query addr wallet) s of
             (s', Inl e) \<Rightarrow> (s', Inl e)
           | (s', Inr r) \<Rightarrow> (case onchain_int r of
               Inl e \<Rightarrow> (s', Inl e)
             | Inr n \<Rightarrow> read_balances rpc wallet symbs
                 (AList.update (upper symb) (of_int n / 10 ^ decimals) out) s')))"

definition read_token_balances :: "'s rpc_fun \<Rightarrow> string \<Rightarrow> string list \<Rightarrow> 's \<Rightarrow>
    's \<times> (py_error + (string \<times> real) list)" where
  "read_token_balances rpc wallet symbols s = read_balances rpc wallet symbols [] s"

definition read_native_bnb :: "'s rpc_fun \<Rightarrow> string \<Rightarrow> 's \<Rightarrow> 's \<times> (py_error + real)" where
  "read_native_bnb rpc wallet s =
     (case rpc ''eth_getBalance'' [JStr wallet, JStr ''latest''] s of
        (s', Inl e) \<Rightarrow> (s', Inl e)
      | (s', Inr r) \<Rightarrow> (s', map_sum id (\<lambda>n. of_int n / 10 ^ 18) (onchain_int r)))"

section \<open>All or nothing\<close>

definition known_token :: "string \<Rightarrow> bool" where
  "known_token symb = (map_of BSC_TOKENS (upper symb) \<noteq> None)"

lemma known_token_iff: "known_token symb \<longleftrightarrow> upper symb \<in> fst ` set BSC_TOKENS"
  by (simp add: known_token_def map_of_eq_None_iff)

lemma read_balances_step:
  assumes "read_balances rpc wallet (symb # symbs) out s = (s', Inr bals)" "known_token symb"
  shows "\<exists>s1 x. read_balances rpc wallet symbs (AList.update (upper symb) x out) s1 = (s', Inr bals)"
proof -
  obtain addr dec where t: "map_of BSC_TOKENS (upper symb) = Some (addr, dec)"
    using assms(2) by (auto simp: known_token_def)
  obtain s1 a where a: "rpc ''eth_call'' (balance_query addr wallet) s = (s1, a)" by fastforce
  show ?thesis
  proof (cases a)
    case (Inl e)
    with assms(1) t a show ?thesis by simp
  next
    case (Inr r)
    with assms(1) t a show ?thesis by (cases "onchain_int r") auto
  qed
qed

lemma read_balances_keys:
  "read_balances rpc wallet symbs out s = (s', Inr bals) \<Longrightarrow>
    fst ` set bals = fst ` set out \<union> upper ` set (filter known_token symbs)"
proof (induction symbs arbitrary: out s)
  case Nil
  then show ?case by simp
next
  case (Cons symb symbs)
  show ?case
  proof (cases "known_token symb")
    case True
    from read_balances_step [OF Cons.prems True] obtain s1 x where
      "read_balances rpc wallet symbs (AList.update (upper symb) x out) s1 = (s', Inr bals)" by blast
    from Cons.IH [OF this] True show ?thesis by (auto simp: dom_update)
  next
    case False
    then have "map_of BSC_TOKENS (upper symb) = None" unfolding known_token_def by blast
    with Cons.prems have "read_balances rpc wallet symbs out s = (s', Inr bals)" by simp
    from Cons.IH [OF this] False show ?thesis by simp
  qed
qed

text \<open>What a provider's contract gives the reader: the number comes from the result of an error-free answer.\<close>

context rpc_provider
begin

lemma native_from_result:
  assumes "read_native_bnb rpc wallet s = (s', Inr x)"
  shows "\<exists>kvs v n. rpc ''eth_getBalance'' [JStr wallet, JStr ''latest''] s = (s', Inr (JObj kvs)) \<and>
    map_of kvs ''error'' = None \<and> map_of kvs ''result'' = Some v \<and>
    to_int ''unexpected RPC result type'' v = Inr n \<and> x = of_int n / 10 ^ 18"
proof -
  obtain r n where r: "rpc ''eth_getBalance'' [JStr wallet, JStr ''latest''] s = (s', Inr r)"
    "onchain_int r = Inr n" "x = of_int n / 10 ^ 18"
    using assms by (auto simp: read_native_bnb_def map_sum_def split: prod.splits sum.splits)
  from ask_result [OF r(1)] r show ?thesis by (auto simp: onchain_int_def)
qed

end

lemmas pool_native = pool.native_from_result

text \<open>
  A balance read is complete or it raises, over any provider: when it returns, there is a balance for
  exactly the known tokens that were asked for, so a caller never takes an unread token for an empty one.
\<close>

theorem balances_complete:
  assumes "read_token_balances rpc wallet symbols s = (s', Inr bals)"
  shows "fst ` set bals = upper ` set symbols \<inter> fst ` set BSC_TOKENS"
  using read_balances_keys [of rpc wallet symbols "[]" s s' bals] assms
  by (auto simp: read_token_balances_def known_token_iff)

definition ex_rpc :: "nat rpc_fun" where
  "ex_rpc m ps s = (Suc s, Inr (JObj [(''jsonrpc'', JStr ''2.0''), (''result'', JInt (10 ^ 18))]))"

theorem balances_complete_witness:
  "\<exists>bals. read_token_balances ex_rpc ''0xAB'' [''usdt'', ''doge''] 0 = (1, Inr bals) \<and> fst ` set bals = {''USDT''}"
proof -
  have known: "map_of BSC_TOKENS (upper ''usdt'') = Some (''0x55d398326f99059fF775485246999027B3197955'', 18)"
    "map_of BSC_TOKENS (upper ''doge'') = None" by code_simp+
  have "read_token_balances ex_rpc ''0xAB'' [''usdt'', ''doge''] 0 =
      (1, Inr (AList.update (upper ''usdt'') (of_int (10 ^ 18) / 10 ^ 18) []))"
    by (simp only: read_token_balances_def read_balances.simps known option.case prod.case ex_rpc_def sum.case)
      (simp add: onchain_int_def rpc_result_def to_int_def)
  moreover have "upper ` set [''usdt'', ''doge''] \<inter> fst ` set BSC_TOKENS = {''USDT''}" by code_simp
  ultimately show ?thesis using balances_complete [of ex_rpc "''0xAB''" "[''usdt'', ''doge'']" 0 1] by auto
qed

end
