(* ===== verification/Watchdog.thy ===== *)
theory Watchdog
  imports Prelude
begin

text \<open>
  \<open>agent/ops/watchdog.py\<close>: the supervisor. What it observes is a list of rounds: whether the kill file is
  there before a run, how the run ends, and whether the kill file is there after a crash. The result says
  how supervision ended, or that it is still going on when the observations run out. The last section has the heartbeat file.
\<close>

datatype run_end = Returned | Cancelled | Crashed

record round =
  wd_kill_before :: bool
  wd_end :: run_end
  wd_kill_after :: bool

datatype supervision = Stopped | Raised | Running

record supervised =
  su_runs :: nat
  su_delays :: "real list"
  su_end :: supervision

definition backoff :: "real \<Rightarrow> nat \<Rightarrow> real" where
  "backoff backoff_s restarts = min (backoff_s * 2 ^ (restarts - 1)) 60"

fun watchdog :: "nat \<Rightarrow> real \<Rightarrow> nat \<Rightarrow> round list \<Rightarrow> supervised" where
  "watchdog max_restarts backoff_s restarts [] = \<lparr>su_runs = 0, su_delays = [], su_end = Running\<rparr>"
| "watchdog max_restarts backoff_s restarts (r # rs) =
     (if wd_kill_before r then \<lparr>su_runs = 0, su_delays = [], su_end = Stopped\<rparr>
      else case wd_end r of
        Returned \<Rightarrow> \<lparr>su_runs = 1, su_delays = [], su_end = Stopped\<rparr>
      | Cancelled \<Rightarrow> \<lparr>su_runs = 1, su_delays = [], su_end = Raised\<rparr>
      | Crashed \<Rightarrow>
          if max_restarts < restarts + 1 then \<lparr>su_runs = 1, su_delays = [], su_end = Raised\<rparr>
          else if wd_kill_after r then \<lparr>su_runs = 1, su_delays = [], su_end = Stopped\<rparr>
          else let rest = watchdog max_restarts backoff_s (restarts + 1) rs in
               rest\<lparr>su_runs := su_runs rest + 1, su_delays := backoff backoff_s (restarts + 1) # su_delays rest\<rparr>)"

definition run_with_watchdog :: "nat \<Rightarrow> real \<Rightarrow> round list \<Rightarrow> supervised" where
  "run_with_watchdog max_restarts backoff_s rs = watchdog max_restarts backoff_s 0 rs"

text \<open>A heartbeat is stale when the file is missing, unreadable as a number, or too old.\<close>

definition is_stale :: "real option \<Rightarrow> real \<Rightarrow> real \<Rightarrow> bool" where
  "is_stale stamp now max_age_s = (case stamp of None \<Rightarrow> True | Some ts \<Rightarrow> max_age_s < now - ts)"

lemma watchdog_runs: "restarts \<le> m \<Longrightarrow> su_runs (watchdog m b restarts rs) + restarts \<le> m + 1"
proof (induction rs arbitrary: restarts)
  case (Cons r rs)
  show ?case
  proof (cases "wd_end r = Crashed \<and> \<not> wd_kill_before r \<and> \<not> m < restarts + 1 \<and> \<not> wd_kill_after r")
    case True
    then have "restarts + 1 \<le> m" by simp
    from Cons.IH [OF this] True show ?thesis by (simp add: Let_def)
  next
    case False
    with Cons.prems show ?thesis by (cases "wd_end r") auto
  qed
qed simp

lemma watchdog_delays:
  "su_delays (watchdog m b restarts rs) =
     map (\<lambda>k. backoff b (restarts + k + 1)) [0..<length (su_delays (watchdog m b restarts rs))]"
proof (induction rs arbitrary: restarts)
  case (Cons r rs)
  show ?case
  proof (cases "wd_end r = Crashed \<and> \<not> wd_kill_before r \<and> \<not> m < restarts + 1 \<and> \<not> wd_kill_after r")
    case True
    let ?n = "length (su_delays (watchdog m b (Suc restarts) rs))"
    have "su_delays (watchdog m b restarts (r # rs)) =
        backoff b (Suc restarts) # su_delays (watchdog m b (Suc restarts) rs)"
      using True by (simp add: Let_def)
    moreover have "su_delays (watchdog m b (Suc restarts) rs) = map (\<lambda>k. backoff b (Suc restarts + k + 1)) [0..<?n]"
      by (rule Cons.IH)
    moreover have "[0..<Suc n] = 0 # map Suc [0..<n]" for n
      by (simp add: upt_conv_Cons map_Suc_upt del: upt_Suc)
    ultimately show ?thesis by (simp add: comp_def del: upt_Suc)
  next
    case False
    then show ?thesis by (cases "wd_end r") auto
  qed
qed simp

lemma watchdog_ends:
  "restarts + length rs > m \<Longrightarrow> su_end (watchdog m b restarts rs) = Running \<Longrightarrow> restarts > m"
proof (induction rs arbitrary: restarts)
  case (Cons r rs)
  show ?case
  proof (cases "wd_end r = Crashed \<and> \<not> wd_kill_before r \<and> \<not> m < restarts + 1 \<and> \<not> wd_kill_after r")
    case True
    then have "watchdog m b restarts (r # rs) = (let rest = watchdog m b (restarts + 1) rs in
        rest\<lparr>su_runs := su_runs rest + 1, su_delays := backoff b (restarts + 1) # su_delays rest\<rparr>)"
      by simp
    with Cons.prems(2) have "su_end (watchdog m b (restarts + 1) rs) = Running" by (simp add: Let_def)
    moreover have "m < restarts + 1 + length rs" using Cons.prems(1) by simp
    ultimately have "m < restarts + 1" by (blast intro: Cons.IH [of "restarts + 1"])
    with True show ?thesis by blast
  next
    case False
    with Cons.prems show ?thesis by (cases "wd_end r") (auto split: if_splits)
  qed
qed simp

lemma backoff_mono: "0 \<le> b \<Longrightarrow> i \<le> j \<Longrightarrow> backoff b i \<le> backoff b j"
proof -
  assume "0 \<le> b" "i \<le> j"
  then have "b * 2 ^ (i - 1) \<le> b * 2 ^ (j - 1)" by (intro mult_left_mono power_increasing) simp_all
  then show ?thesis by (auto simp: backoff_def)
qed

text \<open>
  Supervision is bounded: the loop is run at most one more time than the restarts allowed, every pause
  is at most a minute and the pauses never shrink, and after that many observed rounds the supervisor has
  stopped or raised, whatever the loop and the kill file did.
\<close>

theorem watchdog_bounded:
  assumes "0 \<le> backoff_s"
  shows "su_runs (run_with_watchdog m backoff_s rs) \<le> m + 1 \<and>
    sorted (su_delays (run_with_watchdog m backoff_s rs)) \<and>
    (\<forall>d \<in> set (su_delays (run_with_watchdog m backoff_s rs)). d \<le> 60) \<and>
    (m < length rs \<longrightarrow> su_end (run_with_watchdog m backoff_s rs) \<noteq> Running)"
proof -
  let ?ds = "su_delays (watchdog m backoff_s 0 rs)"
  have ds: "?ds = map (\<lambda>k. backoff backoff_s (k + 1)) [0..<length ?ds]"
    using watchdog_delays [of m backoff_s 0 rs] by simp
  have "sorted (map (\<lambda>k. backoff backoff_s (k + 1)) [0..<n])" for n
    by (auto simp: sorted_iff_nth_mono intro!: backoff_mono assms)
  then have "sorted ?ds" using ds by metis
  moreover have "\<forall>d \<in> set ?ds. d \<le> 60" by (subst ds) (simp add: backoff_def)
  moreover have "m < length rs \<longrightarrow> su_end (watchdog m backoff_s 0 rs) \<noteq> Running"
    using watchdog_ends [of m 0 rs backoff_s] by auto
  ultimately show ?thesis
    using watchdog_runs [of 0 m backoff_s rs] by (simp add: run_with_watchdog_def)
qed

theorem watchdog_bounded_witness:
  "su_runs (run_with_watchdog 3 5 (replicate 9 \<lparr>wd_kill_before = False, wd_end = Crashed, wd_kill_after = False\<rparr>)) \<le> 4"
  using watchdog_bounded [of 5 3] by simp

section \<open>Heartbeats\<close>

text \<open>
  \<open>heartbeat\<close> overwrites the file with a stamp; the supervisor calls it when it starts a run and when the run has ended,
  in every way. A timed round says when that was.
\<close>

definition heartbeat :: "real \<Rightarrow> real option \<Rightarrow> real option" where
  "heartbeat ts file = Some ts"

record timed_round = round +
  wd_started :: real
  wd_ended :: real

fun heartbeats :: "nat \<Rightarrow> nat \<Rightarrow> timed_round list \<Rightarrow> real list" where
  "heartbeats max_restarts restarts [] = []"
| "heartbeats max_restarts restarts (r # rs) =
     (if wd_kill_before r then []
      else wd_started r # wd_ended r #
        (if wd_end r = Crashed \<and> \<not> max_restarts < restarts + 1 \<and> \<not> wd_kill_after r
         then heartbeats max_restarts (restarts + 1) rs else []))"

text \<open>The file at a time, when the stamps are written at their own times.\<close>

definition beat_at :: "real \<Rightarrow> real list \<Rightarrow> real option" where
  "beat_at now stamps = fold heartbeat (filter (\<lambda>t. t \<le> now) stamps) None"

lemma heartbeats_per_run:
  "length (heartbeats m k rs) = 2 * su_runs (watchdog m b k (map round.truncate rs))"
proof (induction m k rs rule: heartbeats.induct)
  case (2 m k r rs)
  then show ?case by (cases "wd_end r") (auto simp: round.truncate_def Let_def)
qed simp

lemma fold_heartbeat: "fold heartbeat (xs @ [x]) f = Some x"
  by (simp add: heartbeat_def)

text \<open>
  The loop writes no heartbeat itself: in the middle of a run the file holds the time at which the run started, so
  a healthy loop looks dead as soon as it has run for longer than the age that the monitor allows.
\<close>

lemma running_looks_stale:
  assumes "heartbeats m k rs = a @ wd_started r # wd_ended r # z" "sorted (heartbeats m k rs)"
    and "wd_started r \<le> now" "now < wd_ended r"
  shows "beat_at now (heartbeats m k rs) = Some (wd_started r)"
    "is_stale (beat_at now (heartbeats m k rs)) now max_age \<longleftrightarrow> max_age < now - wd_started r"
proof -
  have "\<forall>t \<in> set a. t \<le> now" "\<forall>t \<in> set z. \<not> t \<le> now"
    using assms by (auto simp: sorted_append)
  then have "filter (\<lambda>t. t \<le> now) (heartbeats m k rs) = a @ [wd_started r]"
    using assms(1,3,4) by (simp add: filter_id_conv filter_empty_conv)
  then show b: "beat_at now (heartbeats m k rs) = Some (wd_started r)"
    unfolding beat_at_def by (simp only: fold_heartbeat)
  show "is_stale (beat_at now (heartbeats m k rs)) now max_age \<longleftrightarrow> max_age < now - wd_started r"
    unfolding b by (simp add: is_stale_def)
qed

end
