(* ===== verification/OpsState.thy ===== *)
theory OpsState
  imports Agent_Types
begin

text \<open>
  \<open>agent/ops/state.py\<close>: the crash-safe state file. A file holds a JSON document or, while it is being
  written, bytes that do not parse. Saving is a sequence of micro-steps on the disk (create the temporary
  file, write it, rename it over the real one), each of which may be the last before a crash; the methods
  of \<open>PersistentState\<close> are functions from the object and the disk to the new ones and an answer.
\<close>

type_synonym dict = "(string \<times> json) list"

definition DEFAULTS :: dict where
  "DEFAULTS =
     [(''positions'', JObj []), (''high_water_mark'', JFloat 0), (''nav'', JFloat 0), (''stable_usd'', JFloat 0),
      (''receipt_seq'', JInt 0), (''last_tick_ts'', JFloat 0), (''last_trade_ts'', JFloat 0),
      (''trades_this_week'', JInt 0), (''trades_last_hour'', JInt 0), (''intent_seq'', JInt 0),
      (''pending_intent'', JNull), (''mode'', JStr ''paper''), (''kill'', JBool False)]"

text \<open>\<open>d.update(e)\<close>: keys of \<open>e\<close> win, new ones go to the end.\<close>

definition dict_update :: "dict \<Rightarrow> dict \<Rightarrow> dict" where
  "dict_update d e = foldl (\<lambda>acc (k, v). AList.update k v acc) d e"

section \<open>The disk\<close>

datatype file_content = Doc json | Garbage

record disk =
  dk_main :: "file_content option"
  dk_tmp :: "file_content option"

datatype save_pc = Opening | Writing | Written | Replaced

inductive save_step :: "json \<Rightarrow> save_pc \<times> disk \<Rightarrow> save_pc \<times> disk \<Rightarrow> bool" for doc where
  open_tmp: "save_step doc (Opening, dk) (Writing, dk\<lparr>dk_tmp := Some Garbage\<rparr>)"
| write_tmp: "save_step doc (Writing, dk) (Written, dk\<lparr>dk_tmp := Some (Doc doc)\<rparr>)"
| replace_main: "save_step doc (Written, dk) (Replaced, dk\<lparr>dk_main := dk_tmp dk, dk_tmp := None\<rparr>)"

inductive save_steps :: "json \<Rightarrow> save_pc \<times> disk \<Rightarrow> save_pc \<times> disk \<Rightarrow> bool" for doc where
  none: "save_steps doc x x"
| more: "save_steps doc x y \<Longrightarrow> save_step doc y z \<Longrightarrow> save_steps doc x z"

code_pred save_step .

inductive_cases save_stepE [elim!]: "save_step doc (pc, dk) (pc', dk')"

text \<open>
  Where the operating system may refuse: before the temporary file exists, while it is written, at the
  rename, or at the final sync of the directory, when the new file is already in place.
\<close>

datatype save_fault = NoFault | FailOpen | FailWrite | FailReplace | FailSyncDir

definition save_error :: "py_error + unit" where
  "save_error = Inl (RuntimeError ''could not save state'')"

definition save :: "save_fault \<Rightarrow> json \<Rightarrow> disk \<Rightarrow> disk \<times> (py_error + unit)" where
  "save fault doc dk =
     (if fault = FailOpen then (dk, save_error)
      else let dk1 = dk\<lparr>dk_tmp := Some Garbage\<rparr> in
      if fault = FailWrite then (dk1, save_error)
      else let dk2 = dk1\<lparr>dk_tmp := Some (Doc doc)\<rparr> in
      if fault = FailReplace then (dk2, save_error)
      else let dk3 = dk2\<lparr>dk_main := dk_tmp dk2, dk_tmp := None\<rparr> in
      if fault = FailSyncDir then (dk3, save_error)
      else (dk3, Inr ()))"

section \<open>The object\<close>

record persistent_state =
  ps_data :: dict

definition fresh_defaults :: dict where
  "fresh_defaults = AList.update ''positions'' (JObj []) DEFAULTS"

definition init_state :: persistent_state where
  "init_state = \<lparr>ps_data = fresh_defaults\<rparr>"

definition load :: "disk \<Rightarrow> persistent_state \<Rightarrow> persistent_state \<times> (py_error + dict)" where
  "load dk ps =
     (case dk_main dk of
        None \<Rightarrow> (\<lparr>ps_data = fresh_defaults\<rparr>, Inr fresh_defaults)
      | Some Garbage \<Rightarrow> (ps, Inl (RuntimeError ''could not load state''))
      | Some (Doc (JObj loaded)) \<Rightarrow>
          let state = dict_update fresh_defaults loaded in (\<lparr>ps_data = state\<rparr>, Inr state)
      | Some (Doc _) \<Rightarrow> (ps, Inl (RuntimeError ''state root is not an object'')))"

text \<open>
  Saving what the object holds, with the keys of every dictionary in order (\<open>sort_keys=True\<close>), and answering with a
  copy of it.
\<close>

definition save_and_copy :: "save_fault \<Rightarrow> dict \<Rightarrow> disk \<Rightarrow> persistent_state \<times> disk \<times> (py_error + dict)" where
  "save_and_copy fault data dk =
     (let (dk', r) = save fault (sort_keys (JObj data)) dk in (\<lparr>ps_data = data\<rparr>, dk', map_sum id (\<lambda>_. data) r))"

definition update :: "save_fault \<Rightarrow> dict \<Rightarrow> persistent_state \<Rightarrow> disk \<Rightarrow> persistent_state \<times> disk \<times> (py_error + dict)" where
  "update fault kw ps dk =
     (if filter (\<lambda>k. k \<notin> set (map fst DEFAULTS)) (map fst kw) \<noteq> []
      then (ps, dk, Inl (RuntimeError ''unknown state fields''))
      else save_and_copy fault (dict_update (ps_data ps) kw) dk)"

definition write_state :: "save_fault \<Rightarrow> dict \<Rightarrow> persistent_state \<Rightarrow> disk \<Rightarrow> persistent_state \<times> disk \<times> (py_error + dict)" where
  "write_state fault state ps dk = save_and_copy fault (dict_update fresh_defaults state) dk"

definition get_field :: "persistent_state \<Rightarrow> string \<Rightarrow> json \<Rightarrow> json" where
  "get_field ps key dflt = (case map_of (ps_data ps) key of None \<Rightarrow> dflt | Some v \<Rightarrow> v)"

section \<open>Dictionaries\<close>

lemma dict_update_simps [simp]:
  "dict_update d [] = d" "dict_update d ((k, v) # e) = dict_update (AList.update k v d) e"
  by (simp_all add: dict_update_def)

lemma map_of_dict_update [pydict]: "distinct (map fst e) \<Longrightarrow> map_of (dict_update d e) = map_of d ++ map_of e"
proof (induction e arbitrary: d)
  case (Cons kv e)
  obtain k v where kv: "kv = (k, v)" by (cases kv)
  then have "map_of (dict_update (AList.update k v d) e) = (map_of d)(k \<mapsto> v) ++ map_of e"
    using Cons by (simp add: map_of_update)
  moreover have "map_of e k = None" using Cons.prems kv by (simp add: map_of_eq_None_iff)
  ultimately show ?case using kv by (auto simp: map_add_def fun_eq_iff split: option.splits)
qed simp

lemma distinct_dict_update [pydict]: "distinct (map fst d) \<Longrightarrow> distinct (map fst (dict_update d e))"
  by (induction e arbitrary: d) (auto simp: distinct_keys_update)

lemma fresh_defaults_eq: "fresh_defaults = DEFAULTS"
  by (simp add: fresh_defaults_def DEFAULTS_def)

lemma distinct_DEFAULTS [simp]: "distinct (map fst DEFAULTS)"
  by (simp add: DEFAULTS_def)

section \<open>Crashes\<close>

text \<open>What the main file is at every point of a save.\<close>

lemma save_steps_inv:
  "save_steps doc (Opening, dk) (pc, dk') \<Longrightarrow>
    (pc = Replaced \<longrightarrow> dk_main dk' = Some (Doc doc)) \<and> (pc \<noteq> Replaced \<longrightarrow> dk_main dk' = dk_main dk) \<and>
    (pc = Written \<longrightarrow> dk_tmp dk' = Some (Doc doc))"
proof (induction "(Opening, dk)" "(pc, dk')" arbitrary: pc dk' rule: save_steps.induct)
  case (more y)
  obtain pc1 dk1 where y: "y = (pc1, dk1)" by (cases y)
  from more.hyps(2) [OF y] more.hyps(3) y show ?case by auto
qed simp

lemma save_reaches:
  "\<exists>pc. save_steps doc (Opening, dk) (pc, fst (save fault doc dk)) \<and>
     (snd (save fault doc dk) = Inr () \<longrightarrow> pc = Replaced)"
proof -
  let ?d1 = "dk\<lparr>dk_tmp := Some Garbage\<rparr>" and ?d2 = "dk\<lparr>dk_tmp := Some (Doc doc)\<rparr>"
  have 1: "save_steps doc (Opening, dk) (Writing, ?d1)" by (blast intro: save_steps.intros save_step.intros)
  have "save_step doc (Writing, ?d1) (Written, ?d2)" using write_tmp [of doc ?d1] by simp
  with 1 have 2: "save_steps doc (Opening, dk) (Written, ?d2)" by (rule save_steps.more)
  have "save_step doc (Written, ?d2) (Replaced, dk\<lparr>dk_main := Some (Doc doc), dk_tmp := None\<rparr>)"
    using replace_main [of doc ?d2] by simp
  with 2 have 3: "save_steps doc (Opening, dk) (Replaced, dk\<lparr>dk_main := Some (Doc doc), dk_tmp := None\<rparr>)"
    by (rule save_steps.more)
  have 0: "save_steps doc (Opening, dk) (Opening, dk)" by (rule save_steps.none)
  show ?thesis
  proof (cases fault)
    case NoFault with 3 show ?thesis by (auto simp: save_def)
  next
    case FailOpen with 0 show ?thesis by (auto simp: save_def save_error_def)
  next
    case FailWrite with 1 show ?thesis by (auto simp: save_def save_error_def)
  next
    case FailReplace with 2 show ?thesis by (auto simp: save_def save_error_def)
  next
    case FailSyncDir with 3 show ?thesis by (auto simp: save_def save_error_def)
  qed
qed

text \<open>A refused save leaves the file as it was, except when only the sync of the directory fails.\<close>

lemma save_main:
  "dk_main (fst (save fault doc dk)) = (if fault \<in> {NoFault, FailSyncDir} then Some (Doc doc) else dk_main dk)"
  "snd (save fault doc dk) = Inr () \<longleftrightarrow> fault = NoFault"
  by (cases fault; simp add: save_def save_error_def)+

lemma save_and_copy_eq:
  "save_and_copy fault data dk =
     (\<lparr>ps_data = data\<rparr>, fst (save fault (sort_keys (JObj data)) dk),
      if fault = NoFault then Inr data else Inl (RuntimeError ''could not save state''))"
  by (cases fault) (simp_all add: save_and_copy_def save_def save_error_def)

lemma load_saved: "load \<lparr>dk_main = Some (Doc (JObj data)), dk_tmp = t\<rparr> ps =
    (\<lparr>ps_data = dict_update DEFAULTS data\<rparr>, Inr (dict_update DEFAULTS data))"
  by (simp add: load_def Let_def fresh_defaults_eq)

text \<open>
  C7. A crash leaves a complete snapshot: after any number of the micro-steps of a save, the state file is
  the previous one or the new one, loading it gives exactly what loading one of these would give, and
  the temporary file is never looked at.
\<close>

theorem crash_leaves_a_snapshot:
  assumes "save_steps (JObj data) (Opening, dk) (pc, dk')"
  shows "load dk' ps = load dk ps \<or> load dk' ps = load \<lparr>dk_main = Some (Doc (JObj data)), dk_tmp = None\<rparr> ps"
  using save_steps_inv [OF assms] by (cases "pc = Replaced") (auto simp: load_def)

theorem crash_leaves_a_snapshot_witness:
  "load \<lparr>dk_main = None, dk_tmp = Some Garbage\<rparr> init_state = load \<lparr>dk_main = None, dk_tmp = None\<rparr> init_state \<or>
   load \<lparr>dk_main = None, dk_tmp = Some Garbage\<rparr> init_state =
     load \<lparr>dk_main = Some (Doc (JObj [])), dk_tmp = None\<rparr> init_state"
proof -
  have "save_step (JObj []) (Opening, \<lparr>dk_main = None, dk_tmp = None\<rparr>) (Writing, \<lparr>dk_main = None, dk_tmp = Some Garbage\<rparr>)"
    using open_tmp [of "JObj []" "\<lparr>dk_main = None, dk_tmp = None\<rparr>"] by simp
  then have "save_steps (JObj []) (Opening, \<lparr>dk_main = None, dk_tmp = None\<rparr>) (Writing, \<lparr>dk_main = None, dk_tmp = Some Garbage\<rparr>)"
    by (rule save_steps.more [OF save_steps.none])
  from crash_leaves_a_snapshot [OF this] show ?thesis by simp
qed


text \<open>
  What is written is what is loaded: writing a state (no key twice) returns a dictionary that has the
  state's value for every key of the state and the default for every other default key, and loading the file
  afterwards, by any object, gives a dictionary with the same values, their own keys in order.
\<close>

theorem write_load_round_trip:
  assumes "distinct (map fst state)"
  shows "\<exists>dk' data loaded. write_state NoFault state ps dk = (\<lparr>ps_data = data\<rparr>, dk', Inr data) \<and>
    load dk' ps' = (\<lparr>ps_data = loaded\<rparr>, Inr loaded) \<and>
    map_of data = map_of DEFAULTS ++ map_of state \<and> (\<forall>k. map_of loaded k = map_option sort_keys (map_of data k))"
proof -
  let ?data = "dict_update DEFAULTS state"
  let ?kvs = "map (\<lambda>(k, v). (k, sort_keys v)) (sort_key fst ?data)"
  have data: "map_of ?data = map_of DEFAULTS ++ map_of state" using assms by (simp add: map_of_dict_update)
  have "distinct (map fst ?kvs)" by (simp only: distinct_sorted_fields) (simp add: distinct_dict_update)
  then have "map_of (dict_update DEFAULTS ?kvs) k = map_option sort_keys (map_of ?data k)" for k
    by (auto simp: map_of_dict_update map_add_def map_of_sorted_fields data split: option.splits)
  then show ?thesis
    using data save_main(1) [of NoFault "sort_keys (JObj ?data)" dk]
    by - (rule exI [of _ "fst (save NoFault (sort_keys (JObj ?data)) dk)"], rule exI [of _ ?data],
        rule exI [of _ "dict_update DEFAULTS ?kvs"],
        simp add: write_state_def save_and_copy_eq fresh_defaults_eq load_def Let_def)
qed

theorem write_load_round_trip_witness:
  "\<exists>dk' data loaded. write_state NoFault [(''nav'', JFloat 7)] init_state \<lparr>dk_main = None, dk_tmp = None\<rparr> =
      (\<lparr>ps_data = data\<rparr>, dk', Inr data) \<and>
    load dk' init_state = (\<lparr>ps_data = loaded\<rparr>, Inr loaded) \<and>
    map_of data = map_of DEFAULTS ++ map_of [(''nav'', JFloat 7)] \<and>
    (\<forall>k. map_of loaded k = map_option sort_keys (map_of data k))"
  by (rule write_load_round_trip) simp

text \<open>
  C12. Errors of the store: an update raises exactly when it names an unknown field or the system refuses the
  save. On an unknown field neither the object nor the disk changes. On a refused save the file is the old one and loads
  as before (or already the new one when only the final directory sync failed), but the object keeps the new values: it
  runs ahead of the disk, and the next update that succeeds writes the refused values too, although the caller was told
  that they were not saved.
\<close>

theorem update_errors:
  assumes "update fault kw ps dk = (ps', dk', r)"
  shows "(isl r \<longleftrightarrow> \<not> set (map fst kw) \<subseteq> set (map fst DEFAULTS) \<or> fault \<noteq> NoFault) \<and>
    (\<not> set (map fst kw) \<subseteq> set (map fst DEFAULTS) \<longrightarrow> ps' = ps \<and> dk' = dk) \<and>
    (set (map fst kw) \<subseteq> set (map fst DEFAULTS) \<longrightarrow>
      ps_data ps' = dict_update (ps_data ps) kw \<and>
      (if fault \<in> {NoFault, FailSyncDir} then dk_main dk' = Some (Doc (sort_keys (JObj (ps_data ps'))))
       else dk_main dk' = dk_main dk \<and> load dk' q = load dk q) \<and>
      (\<forall>kw2 ps2 dk2 d. update NoFault kw2 ps' dk' = (ps2, dk2, Inr d) \<longrightarrow>
         d = dict_update (dict_update (ps_data ps) kw) kw2 \<and> dk_main dk2 = Some (Doc (sort_keys (JObj d)))))"
proof (cases "set (map fst kw) \<subseteq> set (map fst DEFAULTS)")
  case True
  then have "filter (\<lambda>k. k \<notin> set (map fst DEFAULTS)) (map fst kw) = []" by (auto simp: filter_empty_conv)
  with assms have u: "save_and_copy fault (dict_update (ps_data ps) kw) dk = (ps', dk', r)" by (simp add: update_def)
  then have main: "dk_main dk' = (if fault \<in> {NoFault, FailSyncDir} then Some (Doc (sort_keys (JObj (ps_data ps')))) else dk_main dk)"
      "ps_data ps' = dict_update (ps_data ps) kw" "isl r \<longleftrightarrow> fault \<noteq> NoFault"
    using save_main(1) [of fault "sort_keys (JObj (dict_update (ps_data ps) kw))" dk] by (auto simp: save_and_copy_eq)
  have "d = dict_update (ps_data ps') kw2 \<and> dk_main dk2 = Some (Doc (sort_keys (JObj d)))"
    if "update NoFault kw2 ps' dk' = (ps2, dk2, Inr d)" for kw2 ps2 dk2 d
    using that save_main(1) [of NoFault "sort_keys (JObj (dict_update (ps_data ps') kw2))" dk']
    by (auto simp: update_def save_and_copy_eq split: if_splits)
  with main True show ?thesis by (simp add: load_def)
next
  case False
  then have "filter (\<lambda>k. k \<notin> set (map fst DEFAULTS)) (map fst kw) \<noteq> []" by (auto simp: filter_empty_conv)
  with assms False show ?thesis by (auto simp: update_def)
qed

theorem update_errors_witness:
  "let (ps1, dk1, r1) = update FailReplace [(''nav'', JFloat 7)] init_state \<lparr>dk_main = None, dk_tmp = None\<rparr>;
       (ps2, dk2, r2) = update NoFault [(''mode'', JStr ''live'')] ps1 dk1
   in isl r1 \<and> dk_main dk1 = None \<and> get_field ps1 ''nav'' JNull = JFloat 7 \<and>
      (\<exists>d. dk_main dk2 = Some (Doc (JObj d)) \<and> map_of d ''nav'' = Some (JFloat 7))"
proof -
  obtain ps1 dk1 r1 where u1: "update FailReplace [(''nav'', JFloat 7)] init_state \<lparr>dk_main = None, dk_tmp = None\<rparr> =
      (ps1, dk1, r1)" by (metis prod_cases3)
  obtain ps2 dk2 r2 where u2: "update NoFault [(''mode'', JStr ''live'')] ps1 dk1 = (ps2, dk2, r2)" by (metis prod_cases3)
  have known: "set (map fst [(''nav'', JFloat 7)]) \<subseteq> set (map fst DEFAULTS)"
      "set (map fst [(''mode'', JStr ''live'')]) \<subseteq> set (map fst DEFAULTS)" by (simp_all add: DEFAULTS_def)
  note e1 = update_errors [OF u1] and e2 = update_errors [OF u2]
  have 1: "isl r1" "dk_main dk1 = None" "ps_data ps1 = dict_update fresh_defaults [(''nav'', JFloat 7)]"
    using e1 known(1) by (simp_all add: init_state_def)
  obtain d where d: "r2 = Inr d" using e2 known(2) by (cases r2) simp_all
  have "dk_main dk2 = Some (Doc (sort_keys (JObj (dict_update (ps_data ps1) [(''mode'', JStr ''live'')]))))"
    using e2 known(2) by simp
  with 1 show ?thesis by (simp add: u1 u2 get_field_def map_of_update map_of_sorted_fields)
qed

end
