(* ===== verification/RunLive.thy ===== *)
theory RunLive
  imports Core InjBackend Onchain Watchdog OpsState
begin

text \<open>
  \<open>agent/run_live.py\<close>: the unattended loop. One iteration reads the market, reconciles the books with the
  chain, marks the NAV, recovers a pending intent or runs one tick, and writes one snapshot. The loop's
  history is a trace: every \<open>ps.write\<close> (its own and the one that the tick stages) and every event of the
  tick, in order, so that a crash at any point is a prefix of the trace and a restart begins from the last
  snapshot in it.
\<close>

section \<open>State and snapshots\<close>

record live_state =
  ls_agent :: agent_state
  ls_mode :: string
  ls_last_tick_ts :: real

datatype live_event = Wrote live_state | Did event

text \<open>A snapshot as the dictionary that \<open>PersistentState.write\<close> is given.\<close>

definition book_pos_json :: "book_pos \<Rightarrow> json" where
  "book_pos_json p = JObj [(''qty'', JFloat (bp_qty p)), (''entry_price'', JFloat (bp_entry_price p)),
     (''entry_ts'', JFloat (bp_entry_ts p))]"

definition pending_json :: "pending \<Rightarrow> json" where
  "pending_json p = JObj [(''seq'', JInt (pi_seq p)), (''side'', JStr (side_text (pi_side p))),
     (''from_token'', JStr (pi_from_token p)), (''to_token'', JStr (pi_to_token p)),
     (''amount_usd'', JFloat (pi_amount_usd p)), (''ts'', JStr (pi_ts p))]"

definition field :: "string \<Rightarrow> ('a \<Rightarrow> json) \<Rightarrow> 'a option \<Rightarrow> dict" where
  "field k f x = (case x of None \<Rightarrow> [] | Some v \<Rightarrow> [(k, f v)])"

definition state_dict :: "live_state \<Rightarrow> dict" where
  "state_dict s =
     (let a = ls_agent s in
      [(''positions'', JObj (map (\<lambda>(k, p). (k, book_pos_json p)) (st_positions a))),
       (''pending_intent'', case st_pending_intent a of None \<Rightarrow> JNull | Some p \<Rightarrow> pending_json p),
       (''mode'', JStr (ls_mode s)), (''last_tick_ts'', JFloat (ls_last_tick_ts s))] @
      field ''nav'' JFloat (st_nav a) @ field ''portfolio_value_usd'' JFloat (st_portfolio_value_usd a) @
      field ''stable_usd'' JFloat (st_stable_usd a) @ field ''high_water_mark'' JFloat (st_high_water_mark a) @
      field ''last_trade_ts'' JFloat (st_last_trade_ts a) @ field ''trades_this_week'' JInt (st_trades_this_week a) @
      field ''trades_last_hour'' JInt (st_trades_last_hour a) @ field ''intent_seq'' JInt (st_intent_seq a))"

text \<open>
  What \<open>write\<close> stores and \<open>load\<close> returns: the keys that were absent have their defaults, and the positions come back in
  the order of their symbols (the file is written with sorted keys).
\<close>

definition with_defaults :: "live_state \<Rightarrow> live_state" where
  "with_defaults s = s\<lparr>ls_agent := (let a = ls_agent s in
     a\<lparr>st_positions := sort_key fst (st_positions a), st_nav := Some (get_or (st_nav a) 0), st_stable_usd := Some (get_or (st_stable_usd a) 0),
       st_high_water_mark := Some (get_or (st_high_water_mark a) 0),
       st_last_trade_ts := Some (get_or (st_last_trade_ts a) 0),
       st_trades_this_week := Some (get_or (st_trades_this_week a) 0),
       st_trades_last_hour := Some (get_or (st_trades_last_hour a) 0),
       st_intent_seq := Some (get_or (st_intent_seq a) 0)\<rparr>)\<rparr>"

definition default_state :: live_state where
  "default_state = \<lparr>ls_agent = \<lparr>st_positions = [], st_nav = Some 0, st_portfolio_value_usd = None,
       st_stable_usd = Some 0, st_high_water_mark = Some 0, st_last_trade_ts = Some 0,
       st_trades_this_week = Some 0, st_trades_last_hour = Some 0, st_intent_seq = Some 0,
       st_pending_intent = None\<rparr>, ls_mode = ''paper'', ls_last_tick_ts = 0\<rparr>"

section \<open>Reconciliation with the chain\<close>

definition DUST_USD :: real where "DUST_USD = 1"

definition MAX_RESTARTS :: nat where "MAX_RESTARTS = 3"

text \<open>\<open>price.get(s) or d\<close>\<close>

definition price_or :: "real \<Rightarrow> (string \<rightharpoonup> real) \<Rightarrow> string \<Rightarrow> real" where
  "price_or d price s = (case price s of None \<Rightarrow> d | Some p \<Rightarrow> if p = 0 then d else p)"

definition stable_total :: "string list \<Rightarrow> (string \<rightharpoonup> real) \<Rightarrow> (string \<times> real) list \<Rightarrow> real" where
  "stable_total stables price bals =
     (\<Sum>s\<leftarrow>remdups stables. get_or (map_of bals s) 0 * price_or 1 price s)"

text \<open>One balance: quote tokens and dust are skipped, a known position keeps its entry.\<close>

definition anchor_step :: "string list \<Rightarrow> (string \<rightharpoonup> real) \<Rightarrow> (string \<Rightarrow> real) \<Rightarrow> (string \<times> book_pos) list \<Rightarrow>
    (string \<times> book_pos) list \<Rightarrow> string \<times> real \<Rightarrow> (string \<times> book_pos) list" where
  "anchor_step stables price clock old positions b =
     (let (s, qty) = b in
      if s \<in> set stables then positions
      else if qty * price_or 0 price s < DUST_USD then positions
      else AList.update s
        (case map_of old s of
           Some p \<Rightarrow> \<lparr>bp_qty = qty, bp_entry_price = bp_entry_price p, bp_entry_ts = bp_entry_ts p\<rparr>
         | None \<Rightarrow> \<lparr>bp_qty = qty, bp_entry_price = price_or 0 price s, bp_entry_ts = clock s\<rparr>) positions)"

definition anchored :: "string list \<Rightarrow> (string \<rightharpoonup> real) \<Rightarrow> (string \<Rightarrow> real) \<Rightarrow> (string \<times> book_pos) list \<Rightarrow>
    (string \<times> real) list \<Rightarrow> (string \<times> book_pos) list" where
  "anchored stables price clock old bals = foldl (anchor_step stables price clock old) [] bals"

definition read_symbols :: "config \<Rightarrow> string list" where
  "read_symbols cfg = universe cfg @ get_or (quote_tokens cfg) []"

text \<open>What both reconcilers do with the answer of the balance read.\<close>

definition sync_books :: "string list \<Rightarrow> config \<Rightarrow> (string \<rightharpoonup> real) \<Rightarrow> (string \<Rightarrow> real) \<Rightarrow>
    py_error + (string \<times> real) list \<Rightarrow> agent_state \<Rightarrow> bool \<times> agent_state" where
  "sync_books default_stables cfg price clock answer s =
     (case answer of
        Inl e \<Rightarrow> (False, s)
      | Inr bals \<Rightarrow>
          let stables = map upper (get_or (quote_tokens cfg) default_stables) in
          (True, s\<lparr>st_positions := anchored stables price clock (st_positions s) bals,
                   st_stable_usd := Some (stable_total stables price bals)\<rparr>))"

definition sync_state_from_injective :: "(string list \<Rightarrow> py_error + (string \<times> real) list) \<Rightarrow> config \<Rightarrow>
    (string \<rightharpoonup> real) \<Rightarrow> (string \<Rightarrow> real) \<Rightarrow> agent_state \<Rightarrow> bool \<times> agent_state" where
  "sync_state_from_injective read_subaccount cfg price clock s =
     sync_books [''USDT''] cfg price clock (read_subaccount (read_symbols cfg)) s"

definition sync_state_from_chain :: "'p rpc_fun \<Rightarrow> 'p \<Rightarrow> string \<Rightarrow> config \<Rightarrow> (string \<rightharpoonup> real) \<Rightarrow> (string \<Rightarrow> real) \<Rightarrow>
    agent_state \<Rightarrow> 'p \<times> bool \<times> agent_state" where
  "sync_state_from_chain rpc pool wallet cfg price clock s =
     (let (pool', answer) = read_token_balances rpc wallet (read_symbols cfg) pool in
      (pool', sync_books [''USDT'', ''USDC''] cfg price clock answer s))"

section \<open>The equity curve\<close>

record equity_point =
  eq_ts :: real
  eq_nav :: real
  eq_drawdown_pct :: real
  eq_risky_exposure_pct :: real
  eq_regime :: string
  eq_action :: string
  eq_verdict :: string
  eq_rung :: string

definition append_equity_point :: "real \<Rightarrow> agent_state \<Rightarrow> tick_result option \<Rightarrow> equity_point" where
  "append_equity_point now s result =
     (let nav = get_or (st_nav s) 0;
          hwm0 = get_or (st_high_water_mark s) nav; hwm = (if hwm0 = 0 then nav else hwm0);
          dd = (if 0 < hwm then max 0 ((hwm - nav) / hwm * 100) else 0);
          stable = get_or (st_stable_usd s) 0;
          risky = (if 0 < nav then max 0 ((nav - stable) / nav * 100) else 0)
      in \<lparr>eq_ts = now, eq_nav = py_round nav 4, eq_drawdown_pct = py_round dd 2,
          eq_risky_exposure_pct = py_round risky 2,
          eq_regime = (if 1 / 2 < risky then ''risk_on'' else ''neutral''),
          eq_action = (case result of None \<Rightarrow> ''hold'' | Some t \<Rightarrow> side_text (d_side (tr_decision t))),
          eq_verdict = (case result of None \<Rightarrow> ''hold'' | Some t \<Rightarrow> verdict_action_text (tr_verdict t)),
          eq_rung = (case result of None \<Rightarrow> ''none'' | Some t \<Rightarrow> rung_text (tr_ladder_rung t))\<rparr>)"

section \<open>Starting\<close>

text \<open>What the loop is started with: \<open>EXECUTION_BACKEND\<close>, the backend's dry-run flag, the wallet address,
  \<open>START_NAV\<close>.\<close>

record live_setup =
  lu_backend :: string
  lu_dry_run :: bool
  lu_wallet :: string
  lu_start_nav :: "real option"

definition live_mode :: "live_setup \<Rightarrow> exec_mode" where
  "live_mode u = (if lower (lu_backend u) \<in> {''twak'', ''maria'', ''injective''} then Live else Mock)"

definition mode_text :: "exec_mode \<Rightarrow> string" where
  "mode_text m = (case m of Mock \<Rightarrow> ''mock'' | Paper \<Rightarrow> ''paper'' | Live \<Rightarrow> ''live'')"

datatype books_source = FromInjective | FromChain | FromLedger

definition ledger_source :: "live_setup \<Rightarrow> books_source" where
  "ledger_source u =
     (let is_injective = (lower (lu_backend u) = ''injective'') in
      if is_injective \<and> \<not> lu_dry_run u then FromInjective
      else if live_mode u = Live \<and> lu_wallet u \<noteq> [] \<and> \<not> is_injective then FromChain
      else FromLedger)"

definition seed_nav :: "live_setup \<Rightarrow> real" where
  "seed_nav u = get_or (lu_start_nav u) (if lower (lu_backend u) = ''injective'' then 0 else 500)"

text \<open>The state after \<open>ps.load()\<close>, with the mode set and the high-water mark seeded.\<close>

definition start_state :: "live_setup \<Rightarrow> live_state \<Rightarrow> live_state" where
  "start_state u loaded =
     (let a = ls_agent loaded in
      loaded\<lparr>ls_mode := mode_text (live_mode u),
        ls_agent := (if get_or (st_high_water_mark a) 0 = 0 \<and> 0 < seed_nav u
                     then a\<lparr>st_high_water_mark := Some (seed_nav u)\<rparr> else a)\<rparr>)"

section \<open>One iteration\<close>

text \<open>
  What an iteration observes: the market answer, the subaccount read, the RPC provider, the clock of new
  entries, the tick's clock, and the clock of the snapshot.
\<close>

record live_input =
  li_market :: "py_error + token_view list \<times> real"
  li_subaccount :: "string list \<Rightarrow> py_error + (string \<times> real) list"
  li_rpc :: "rpc_pool rpc_fun"
  li_clock :: "string \<Rightarrow> real"
  li_wall :: real
  li_done :: real

record live_params =
  lp_setup :: live_setup
  lp_cfg :: config
  lp_digest :: digest_fun
  lp_policy_hash :: string
  lp_executor :: executor

record live_run =
  lr_state :: live_state
  lr_pool :: rpc_pool
  lr_trace :: "live_event list"
  lr_world :: world
  lr_equity :: "equity_point list"

datatype iter_end = HeldUnread | Recovered | Ticked tick_result | Failed py_error

definition live_env :: "live_params \<Rightarrow> live_input \<Rightarrow> tick_env" where
  "live_env lp inp = \<lparr>te_digest = lp_digest lp, te_policy_hash = lp_policy_hash lp, te_wall = li_wall inp,
     te_persist = True, te_executor = Some (lp_executor lp)\<rparr>"

definition reconcile_books :: "live_params \<Rightarrow> live_input \<Rightarrow> (string \<rightharpoonup> real) \<Rightarrow> rpc_pool \<Rightarrow> agent_state \<Rightarrow>
    rpc_pool \<times> bool \<times> agent_state" where
  "reconcile_books lp inp price pool s =
     (case ledger_source (lp_setup lp) of
        FromInjective \<Rightarrow> (pool, sync_state_from_injective (li_subaccount inp) (lp_cfg lp) price (li_clock inp) s)
      | FromChain \<Rightarrow> sync_state_from_chain (li_rpc inp) pool (lu_wallet (lp_setup lp)) (lp_cfg lp) price (li_clock inp) s
      | FromLedger \<Rightarrow>
          (pool, True, if get_or (st_stable_usd s) 0 = 0 \<and> st_positions s = []
                       then s\<lparr>st_stable_usd := Some (seed_nav (lp_setup lp))\<rparr> else s))"

text \<open>The events of a tick in the loop's trace; what the tick persists carries the loop's own keys.\<close>

definition lift_event :: "live_state \<Rightarrow> event \<Rightarrow> live_event" where
  "lift_event s e = (case e of Persisted a \<Rightarrow> Wrote (s\<lparr>ls_agent := a\<rparr>) | _ \<Rightarrow> Did e)"

definition ps_write :: "live_state \<Rightarrow> live_run \<Rightarrow> live_run" where
  "ps_write s r = r\<lparr>lr_state := s, lr_trace := lr_trace r @ [Wrote s]\<rparr>"

text \<open>\<open>float(state.get("high_water_mark", nav_now) or nav_now)\<close> and the maximum with it.\<close>

definition raise_hwm :: "agent_state \<Rightarrow> agent_state" where
  "raise_hwm a =
     (let nav = get_or (st_nav a) 0; h0 = get_or (st_high_water_mark a) nav; h = (if h0 = 0 then nav else h0) in
      a\<lparr>st_high_water_mark := Some (max h nav)\<rparr>)"

definition live_iteration :: "live_params \<Rightarrow> live_input \<Rightarrow> live_run \<Rightarrow> live_run \<times> iter_end" where
  "live_iteration lp inp r =
     (case li_market inp of
        Inl e \<Rightarrow> (r, Failed e)
      | Inr (views, data_ts) \<Rightarrow>
          let price = price_table views; s0 = lr_state r;
              (pool, ok, a1) = reconcile_books lp inp price (lr_pool r) (ls_agent s0);
              r1 = r\<lparr>lr_pool := pool\<rparr>
          in if \<not> ok then (ps_write (s0\<lparr>ls_agent := a1\<rparr>) r1, HeldUnread)
             else
             let a2 = snd (mark_nav a1 price); s2 = s0\<lparr>ls_agent := a2\<rparr> in
             if st_pending_intent a2 \<noteq> None
             then (ps_write (s2\<lparr>ls_agent := a2\<lparr>st_pending_intent := None\<rparr>\<rparr>) r1, Recovered)
             else
             let (w, x) = tick (live_env lp inp) (lp_cfg lp) a2 views data_ts None (lr_world r);
                 evs = map (lift_event s2) (drop (length (w_trace (lr_world r))) (w_trace w));
                 r2 = r1\<lparr>lr_state := s2, lr_world := w, lr_trace := lr_trace r @ evs\<rparr>
             in (case x of
                   Inl e \<Rightarrow> (r2, Failed e)
                 | Inr (result, a3) \<Rightarrow>
                     let a4 = raise_hwm (snd (mark_nav a3 price));
                         r3 = r2\<lparr>lr_equity := lr_equity r @ [append_equity_point (li_done inp) a4 (Some result)]\<rparr>
                     in (ps_write \<lparr>ls_agent = a4, ls_mode = ls_mode s2, ls_last_tick_ts = li_done inp\<rparr> r3,
                         Ticked result)))"

section \<open>Restarting\<close>

fun last_snapshot :: "live_event list \<Rightarrow> live_state option" where
  "last_snapshot [] = None"
| "last_snapshot (e # es) =
     (case last_snapshot es of Some s \<Rightarrow> Some s | None \<Rightarrow> (case e of Wrote s \<Rightarrow> Some s | Did _ \<Rightarrow> None))"

text \<open>The state from which the loop starts when the trace so far is all that happened before.\<close>

definition restart_state :: "live_setup \<Rightarrow> live_event list \<Rightarrow> live_state" where
  "restart_state u trace =
     start_state u (case last_snapshot trace of None \<Rightarrow> default_state | Some s \<Rightarrow> with_defaults s)"

text \<open>
  \<open>run()\<close>: remove the kill file, supervise the loop, and leave the kill file behind in every case. The
  result is the supervision and whether the kill file is there at the end.
\<close>

definition run_loop :: "round list \<Rightarrow> supervised \<times> bool" where
  "run_loop rs =
     (run_with_watchdog MAX_RESTARTS 5 (case rs of [] \<Rightarrow> [] | r # rs' \<Rightarrow> r\<lparr>wd_kill_before := False\<rparr> # rs'), True)"

section \<open>How an iteration ends\<close>

lemma mark_nav_frame [simp]:
  "st_pending_intent (snd (mark_nav a price)) = st_pending_intent a"
  "st_trades_last_hour (snd (mark_nav a price)) = st_trades_last_hour a"
  "st_positions (snd (mark_nav a price)) = st_positions a"
  "st_stable_usd (snd (mark_nav a price)) = st_stable_usd a"
  by (simp_all add: mark_nav_def Let_def)

lemma raise_hwm_frame [simp]:
  "st_pending_intent (raise_hwm a) = st_pending_intent a"
  "st_trades_last_hour (raise_hwm a) = st_trades_last_hour a"
  by (simp_all add: raise_hwm_def Let_def)

lemma sync_books_frame:
  assumes "sync_books stables cfg price clock answer a = (ok, a')"
  shows "st_pending_intent a' = st_pending_intent a" "st_trades_last_hour a' = st_trades_last_hour a"
    "ok \<longleftrightarrow> \<not> isl answer" "\<not> ok \<Longrightarrow> a' = a"
  using assms by (auto simp: sync_books_def Let_def split: sum.splits)

text \<open>The answer of the balance read that the iteration makes, when it makes one.\<close>

definition read_answer :: "live_params \<Rightarrow> live_input \<Rightarrow> live_run \<Rightarrow> (py_error + (string \<times> real) list) option" where
  "read_answer lp inp r =
     (case ledger_source (lp_setup lp) of
        FromInjective \<Rightarrow> Some (li_subaccount inp (read_symbols (lp_cfg lp)))
      | FromChain \<Rightarrow> Some (snd (read_token_balances (li_rpc inp) (lu_wallet (lp_setup lp))
          (read_symbols (lp_cfg lp)) (lr_pool r)))
      | FromLedger \<Rightarrow> None)"

lemma reconcile_books_frame:
  assumes "reconcile_books lp inp price (lr_pool r) a = (pool, ok, a')"
  shows "st_pending_intent a' = st_pending_intent a" "st_trades_last_hour a' = st_trades_last_hour a"
    "ok \<longleftrightarrow> (\<forall>e. read_answer lp inp r \<noteq> Some (Inl e))" "\<not> ok \<Longrightarrow> a' = a"
  using assms
  by (auto simp: reconcile_books_def read_answer_def sync_state_from_injective_def sync_state_from_chain_def Let_def
      split: books_source.splits prod.splits if_splits dest: sync_books_frame)
     (auto simp: sync_books_def Let_def split: sum.splits)

lemma live_iteration_cases:
  assumes "live_iteration lp inp r = (r', e)"
  obtains (NoMarket) err where "li_market inp = Inl err" "r' = r" "e = Failed err"
  | (Unread) views ts pool a1 where "li_market inp = Inr (views, ts)"
      "reconcile_books lp inp (price_table views) (lr_pool r) (ls_agent (lr_state r)) = (pool, False, a1)"
      "e = HeldUnread" "r' = ps_write ((lr_state r)\<lparr>ls_agent := a1\<rparr>) (r\<lparr>lr_pool := pool\<rparr>)"
  | (Pending) views ts pool a1 where "li_market inp = Inr (views, ts)"
      "reconcile_books lp inp (price_table views) (lr_pool r) (ls_agent (lr_state r)) = (pool, True, a1)"
      "st_pending_intent a1 \<noteq> None" "e = Recovered"
      "r' = ps_write ((lr_state r)\<lparr>ls_agent := (snd (mark_nav a1 (price_table views)))\<lparr>st_pending_intent := None\<rparr>\<rparr>)
         (r\<lparr>lr_pool := pool\<rparr>)"
  | (Tick) views ts pool a1 w x where "li_market inp = Inr (views, ts)"
      "reconcile_books lp inp (price_table views) (lr_pool r) (ls_agent (lr_state r)) = (pool, True, a1)"
      "st_pending_intent a1 = None"
      "tick (live_env lp inp) (lp_cfg lp) (snd (mark_nav a1 (price_table views))) views ts None (lr_world r) = (w, x)"
      "lr_world r' = w"
      "case x of
         Inl err \<Rightarrow> e = Failed err \<and> lr_trace r' = lr_trace r @ map (lift_event
            ((lr_state r)\<lparr>ls_agent := snd (mark_nav a1 (price_table views))\<rparr>)) (drop (length (w_trace (lr_world r))) (w_trace w))
            \<and> lr_state r' = (lr_state r)\<lparr>ls_agent := snd (mark_nav a1 (price_table views))\<rparr>
       | Inr (result, a3) \<Rightarrow> e = Ticked result \<and>
            ls_agent (lr_state r') = raise_hwm (snd (mark_nav a3 (price_table views))) \<and>
            lr_trace r' = lr_trace r @ map (lift_event ((lr_state r)\<lparr>ls_agent := snd (mark_nav a1 (price_table views))\<rparr>))
              (drop (length (w_trace (lr_world r))) (w_trace w)) @ [Wrote (lr_state r')]"
proof (cases "li_market inp")
  case (Inl err)
  with assms show thesis by (intro NoMarket [of err]) (auto simp: live_iteration_def)
next
  case (Inr m)
  obtain views ts where m: "li_market inp = Inr (views, ts)" using Inr by (cases m) auto
  obtain pool ok a1 where rec: "reconcile_books lp inp (price_table views) (lr_pool r) (ls_agent (lr_state r)) = (pool, ok, a1)"
    by (metis prod_cases3)
  note it = assms [unfolded live_iteration_def Let_def m, simplified, unfolded rec, simplified]
  show thesis
  proof (cases ok)
    case False
    with m rec it show thesis by (intro Unread [of views ts pool a1]) auto
  next
    case ok: True
    show thesis
    proof (cases "st_pending_intent a1 = None")
      case False
      with m rec ok it show thesis by (intro Pending [of views ts pool a1]) auto
    next
      case True
      obtain w x where t: "tick (live_env lp inp) (lp_cfg lp) (snd (mark_nav a1 (price_table views))) views ts None (lr_world r) = (w, x)"
        by fastforce
      show thesis
        by (rule Tick [OF m rec [unfolded ok [THEN eqTrueI]] True t])
          (use it ok True t in \<open>auto simp: ps_write_def split: sum.splits prod.splits\<close>)
    qed
  qed
qed

section \<open>Broadcasts and snapshots\<close>

lemma tick_new_events:
  assumes t: "tick env cfg s views data_ts now_opt w = (w', x)"
    and env: "te_executor env = Some xr" "x_mode xr = Live" "te_persist env"
  shows "\<exists>evs. w_trace w' = w_trace w @ evs \<and>
    (evs = [] \<or> (\<exists>h. evs = [Receipted h]) \<or>
     (\<exists>h st sent. evs = [Receipted h, Persisted st] @ map Sent sent \<and> st_pending_intent st \<noteq> None))"
  using t
proof (cases rule: tick_cases)
  case (Decided i d v w2 y)
  show ?thesis
  proof (cases "allowed v \<and> is_trade d")
    case True
    from tick_live_trace [OF t env Decided(1)] True show ?thesis by fastforce
  next
    case False
    with Decided(2) have "w2 = after_receipt env cfg s views now_opt w i d v"
      by (cases rule: tick_execute_cases) auto
    with Decided(5) show ?thesis by simp
  qed
qed simp

definition is_sent :: "live_event \<Rightarrow> bool" where
  "is_sent e = (case e of Did (Sent _) \<Rightarrow> True | _ \<Rightarrow> False)"

lemma is_sent_simps [simp]:
  "\<not> is_sent (Wrote s)" "is_sent (Did (Sent b))" "\<not> is_sent (Did (Receipted h))"
  "\<not> is_sent (Did (Persisted a))"
  by (simp_all add: is_sent_def)

lemma lift_event_simps [simp]:
  "lift_event s (Persisted a) = Wrote (s\<lparr>ls_agent := a\<rparr>)"
  "lift_event s (Sent b) = Did (Sent b)" "lift_event s (Receipted h) = Did (Receipted h)"
  by (simp_all add: lift_event_def)

lemma last_snapshot_append [simp]:
  "last_snapshot (p @ q) = (case last_snapshot q of Some s \<Rightarrow> Some s | None \<Rightarrow> last_snapshot p)"
  by (induction p) (auto split: option.splits)

lemma last_snapshot_sent [simp]: "last_snapshot (map (lift_event s) (map Sent sent)) = None"
  by (induction sent) simp_all

lemma last_snapshot_none: "\<forall>ev \<in> set es. is_sent ev \<Longrightarrow> last_snapshot es = None"
  by (induction es) (auto simp: is_sent_def split: live_event.splits)

text \<open>A cut after a broadcast and before the closing snapshot finds the staged snapshot.\<close>

lemma cut_snapshot:
  assumes evs: "p @ q = [Did (Receipted h), Wrote st] @ map (\<lambda>b. Did (Sent b)) sent @ tail"
    and b: "Did (Sent b) \<in> set p" and tail: "tail = [] \<or> (\<exists>s'. tail = [Wrote s'] \<and> q \<noteq> [])"
  shows "last_snapshot p = Some st"
proof -
  obtain p' where p: "p = Did (Receipted h) # Wrote st # p'"
    using evs b by (cases p; cases "tl p") (auto simp: Cons_eq_append_conv)
  then have p': "p' @ q = map (\<lambda>b. Did (Sent b)) sent @ tail" using evs by simp
  have "set p' \<subseteq> set (map (\<lambda>b. Did (Sent b)) sent)"
    using tail
  proof (elim disjE exE conjE)
    fix s' assume t: "tail = [Wrote s']" "q \<noteq> []"
    then obtain q' where "p' @ q' = map (\<lambda>b. Did (Sent b)) sent"
      using p' by (metis append_assoc append_butlast_last_id butlast_append butlast_snoc)
    then show ?thesis by (metis Un_upper1 set_append)
  qed (use p' in \<open>metis Un_upper1 append_Nil2 set_append\<close>)
  then have "last_snapshot p' = None" by (intro last_snapshot_none) auto
  with p show ?thesis by simp
qed

text \<open>
  The new events of an iteration. Either nothing was broadcast, or the events are one receipt, one snapshot
  with a pending intent, the broadcasts, and, when the tick returned, the closing snapshot.
\<close>

lemma iteration_events:
  assumes it: "live_iteration lp inp r = (r', e)" and live: "x_mode (lp_executor lp) = Live"
  shows "\<exists>evs. lr_trace r' = lr_trace r @ evs \<and>
    ((\<forall>ev \<in> set evs. \<not> is_sent ev) \<or>
     (\<exists>h s sent tail. evs = [Did (Receipted h), Wrote s] @ map (\<lambda>b. Did (Sent b)) sent @ tail \<and>
        st_pending_intent (ls_agent s) \<noteq> None \<and>
        (tail = [] \<and> (\<exists>err. e = Failed err) \<or> (\<exists>s' res. tail = [Wrote s'] \<and> e = Ticked res))))"
  using it
proof (cases rule: live_iteration_cases)
  case (Tick views ts pool a1 w x)
  let ?s = "(lr_state r)\<lparr>ls_agent := snd (mark_nav a1 (price_table views))\<rparr>"
  have env: "te_executor (live_env lp inp) = Some (lp_executor lp)" "te_persist (live_env lp inp)"
    by (simp_all add: live_env_def)
  obtain evs where evs: "w_trace w = w_trace (lr_world r) @ evs"
    "evs = [] \<or> (\<exists>h. evs = [Receipted h]) \<or>
     (\<exists>h st sent. evs = [Receipted h, Persisted st] @ map Sent sent \<and> st_pending_intent st \<noteq> None)"
    using tick_new_events [OF Tick(4) env(1) live env(2)] by blast
  have tail: "\<exists>tail. lr_trace r' = lr_trace r @ map (lift_event ?s) evs @ tail \<and>
      (tail = [] \<and> (\<exists>err. e = Failed err) \<or> (\<exists>s' res. tail = [Wrote s'] \<and> e = Ticked res))"
    using Tick(6) evs(1) by (auto split: sum.splits)
  then obtain tail where tail: "lr_trace r' = lr_trace r @ map (lift_event ?s) evs @ tail"
      "tail = [] \<and> (\<exists>err. e = Failed err) \<or> (\<exists>s' res. tail = [Wrote s'] \<and> e = Ticked res)" by blast
  from evs(2) show ?thesis
  proof (elim disjE exE conjE)
    fix h st sent assume "evs = [Receipted h, Persisted st] @ map Sent sent" "st_pending_intent st \<noteq> None"
    then have "map (lift_event ?s) evs @ tail =
        [Did (Receipted h), Wrote (?s\<lparr>ls_agent := st\<rparr>)] @ map (\<lambda>b. Did (Sent b)) sent @ tail"
      "st_pending_intent (ls_agent (?s\<lparr>ls_agent := st\<rparr>)) \<noteq> None"
      by (simp_all add: comp_def)
    with tail show ?thesis by metis
  qed (use tail in \<open>auto intro!: exI\<close>)
qed (auto simp: ps_write_def)

lemma start_state_pending [simp]: "st_pending_intent (ls_agent (start_state u s)) = st_pending_intent (ls_agent s)"
  by (simp add: start_state_def Let_def)

lemma with_defaults_pending [simp]: "st_pending_intent (ls_agent (with_defaults s)) = st_pending_intent (ls_agent s)"
  by (simp add: with_defaults_def Let_def)

text \<open>From a pending intent an iteration does nothing but reconcile and clear it.\<close>

lemma pending_iteration:
  assumes it: "live_iteration lp inp r = (r', e)" and "st_pending_intent (ls_agent (lr_state r)) \<noteq> None"
  shows "lr_world r' = lr_world r \<and> lr_equity r' = lr_equity r \<and>
    (e = Recovered \<and> st_pending_intent (ls_agent (lr_state r')) = None \<and> lr_trace r' = lr_trace r @ [Wrote (lr_state r')]
     \<or> e = HeldUnread \<and> lr_state r' = lr_state r \<and> lr_trace r' = lr_trace r @ [Wrote (lr_state r')]
     \<or> (\<exists>err. e = Failed err) \<and> r' = r)"
  using it
proof (cases rule: live_iteration_cases)
  case (Unread views ts pool a1)
  then show ?thesis using reconcile_books_frame(4) [OF Unread(2)] by (simp add: ps_write_def)
next
  case (Tick views ts pool a1 w x)
  with assms(2) reconcile_books_frame(1) [OF Tick(2)] show ?thesis by simp
qed (auto simp: ps_write_def)

definition ex_params :: live_params where
  "ex_params = \<lparr>lp_setup = \<lparr>lu_backend = ''twak'', lu_dry_run = False, lu_wallet = [], lu_start_nav = None\<rparr>,
     lp_cfg = bnb_config, lp_digest = ex_digest, lp_policy_hash = policy_hash ex_digest JNull, lp_executor = ex_live\<rparr>"

definition ex_input :: live_input where
  "ex_input = \<lparr>li_market = Inr (ex_views, 1000), li_subaccount = (\<lambda>_. Inr []),
     li_rpc = (\<lambda>m ps s. (s, Inl (RuntimeError ''down''))), li_clock = (\<lambda>_. 0), li_wall = 1060, li_done = 1061\<rparr>"

definition ex_pool0 :: rpc_pool where
  "ex_pool0 = (case init_pool [''a''] 30 of Inr p \<Rightarrow> p)"

definition ex_run :: live_run where
  "ex_run = \<lparr>lr_state = \<lparr>ls_agent = ex_state, ls_mode = ''live'', ls_last_tick_ts = 0\<rparr>, lr_pool = ex_pool0,
     lr_trace = [], lr_world = empty_world, lr_equity = []\<rparr>"

lemma ex_reconciles:
  "reconcile_books ex_params ex_input price pool ex_state = (pool, True, ex_state)"
  by (simp add: reconcile_books_def ledger_source_def live_mode_def ex_params_def ex_state_def lower_def lower_char_def
      Let_def)

lemma ex_live_decides: "case tick_decide (live_env ex_params ex_input) bnb_config (snd (mark_nav ex_state (price_table ex_views)))
    ex_views 1000 1060 of Inr (i, d, v) \<Rightarrow> allowed v \<and> is_trade d | Inl _ \<Rightarrow> False"
  by code_simp

text \<open>
  C5. The loop fails closed: with a market answer, it holds exactly when it has to read balances and the read
  raises; then books, files and equity curve are untouched, nothing is broadcast, and the unchanged state is
  written to disk.
\<close>

theorem unreadable_chain_holds:
  assumes "live_iteration lp inp r = (r', e)" "li_market inp = Inr m"
  shows "(e = HeldUnread \<longleftrightarrow> (\<exists>err. read_answer lp inp r = Some (Inl err))) \<and>
    (e = HeldUnread \<longrightarrow> lr_state r' = lr_state r \<and> lr_world r' = lr_world r \<and> lr_equity r' = lr_equity r \<and>
      lr_trace r' = lr_trace r @ [Wrote (lr_state r)])"
  using assms(1)
proof (cases rule: live_iteration_cases)
  case (Unread views ts pool a1)
  then show ?thesis using reconcile_books_frame(3,4) [OF Unread(2)] by (simp add: ps_write_def)
next
  case (Pending views ts pool a1)
  then show ?thesis using reconcile_books_frame(3) [OF Pending(2)] by simp
next
  case (Tick views ts pool a1 w x)
  then show ?thesis using reconcile_books_frame(3) [OF Tick(2)] by (cases x) auto
qed (use assms(2) in simp)

definition ex_chain_params :: live_params where
  "ex_chain_params = ex_params\<lparr>lp_setup := (lp_setup ex_params)\<lparr>lu_wallet := ''0xab''\<rparr>\<rparr>"

theorem unreadable_chain_holds_witness:
  "\<exists>r'. live_iteration ex_chain_params ex_input ex_run = (r', HeldUnread) \<and> lr_state r' = lr_state ex_run"
proof -
  obtain r' e where it: "live_iteration ex_chain_params ex_input ex_run = (r', e)" by fastforce
  have m: "li_market ex_input = Inr (ex_views, 1000)" by (simp add: ex_input_def)
  have src: "ledger_source (lp_setup ex_chain_params) = FromChain" by code_simp
  have read: "read_symbols (lp_cfg ex_chain_params) = [''WBNB'', ''BTCB'', ''ETH'', ''CAKE'', ''USDT'', ''USDC'']" by code_simp
  have "map_of BSC_TOKENS (upper ''WBNB'') \<noteq> None" by code_simp
  then have "read_answer ex_chain_params ex_input ex_run = Some (Inl (RuntimeError ''down''))"
    by (auto simp: read_answer_def src read read_token_balances_def ex_input_def)
  with unreadable_chain_holds [OF it m] it show ?thesis by auto
qed

section \<open>The books after a reconciliation\<close>

lemma update_fresh: "k \<notin> set (map fst d) \<Longrightarrow> AList.update k v d = d @ [(k, v)]"
  by (induction d) auto

definition kept :: "string list \<Rightarrow> (string \<rightharpoonup> real) \<Rightarrow> string \<times> real \<Rightarrow> bool" where
  "kept stables price b = (fst b \<notin> set stables \<and> DUST_USD \<le> snd b * price_or 0 price (fst b))"

definition entry_of :: "(string \<rightharpoonup> real) \<Rightarrow> (string \<Rightarrow> real) \<Rightarrow> (string \<times> book_pos) list \<Rightarrow> string \<times> real \<Rightarrow>
    string \<times> book_pos" where
  "entry_of price clock old b = (fst b, case map_of old (fst b) of
     Some p \<Rightarrow> \<lparr>bp_qty = snd b, bp_entry_price = bp_entry_price p, bp_entry_ts = bp_entry_ts p\<rparr>
   | None \<Rightarrow> \<lparr>bp_qty = snd b, bp_entry_price = price_or 0 price (fst b), bp_entry_ts = clock (fst b)\<rparr>)"

lemma entry_of_simps [simp]: "fst (entry_of price clock old b) = fst b" "bp_qty (snd (entry_of price clock old b)) = snd b"
  by (simp_all add: entry_of_def split: option.splits)

text \<open>The reconciled positions are the balances worth keeping, in their order.\<close>

lemma anchor_step_eq:
  "anchor_step stables price clock old acc b =
     (if kept stables price b then AList.update (fst b) (snd (entry_of price clock old b)) acc else acc)"
  by (cases b) (auto simp: anchor_step_def kept_def entry_of_def split: option.split)

lemma anchored_eq:
  assumes "distinct (map fst bals)"
  shows "anchored stables price clock old bals = map (entry_of price clock old) (filter (kept stables price) bals)"
proof -
  have "foldl (anchor_step stables price clock old) acc bals
      = acc @ map (entry_of price clock old) (filter (kept stables price) bals)"
    if "distinct (map fst acc @ map fst bals)" for acc
    using that
  proof (induction bals arbitrary: acc)
    case (Cons b bals)
    show ?case
    proof (cases "kept stables price b")
      case True
      have "anchor_step stables price clock old acc b = acc @ [entry_of price clock old b]"
        using True Cons.prems by (simp add: anchor_step_eq update_fresh entry_of_def)
      moreover have "distinct (map fst (acc @ [entry_of price clock old b]) @ map fst bals)" using Cons.prems by simp
      ultimately show ?thesis using Cons.IH [of "acc @ [entry_of price clock old b]"] True by simp
    qed (use Cons in \<open>simp add: anchor_step_eq\<close>)
  qed simp
  from this [of "[]"] assms show ?thesis by (simp add: anchored_def)
qed

lemma stable_total_eq:
  assumes "distinct (map fst bals)"
  shows "stable_total stables price bals = dict_sum (\<lambda>k q. if k \<in> set stables then q * price_or 1 price k else 0) bals"
  using assms
proof (induction bals)
  case Nil
  then show ?case by (simp add: stable_total_def)
next
  case (Cons b bals)
  obtain k q where b: "b = (k, q)" by (cases b)
  have none: "map_of bals k = None" using Cons.prems b by (simp add: map_of_eq_None_iff)
  have "get_or (map_of (b # bals) s) 0 * price_or 1 price s =
      get_or (map_of bals s) 0 * price_or 1 price s + (if s = k then q * price_or 1 price k else 0)" for s
    using none b by (simp add: get_or_def)
  moreover have "(\<Sum>s\<leftarrow>remdups stables. if s = k then q * price_or 1 price k else 0) =
      (if k \<in> set stables then q * price_or 1 price k else 0)"
    by (simp add: sum_list_distinct_conv_sum_set)
  ultimately show ?case
    using Cons b by (simp add: stable_total_def sum_list_addf)
qed

text \<open>What the chain says the account is worth: a quote token without a price counts at par.\<close>

definition chain_value :: "string list \<Rightarrow> (string \<rightharpoonup> real) \<Rightarrow> (string \<times> real) list \<Rightarrow> real" where
  "chain_value stables price bals =
     dict_sum (\<lambda>k q. q * (if k \<in> set stables then price_or 1 price k else price_or 0 price k)) bals"

definition dust :: "string list \<Rightarrow> (string \<rightharpoonup> real) \<Rightarrow> string \<times> real \<Rightarrow> bool" where
  "dust stables price b = (fst b \<notin> set stables \<and> snd b * price_or 0 price (fst b) < DUST_USD)"

lemma kept_mark_price:
  assumes "kept stables price b" "upper (fst b) = fst b"
  shows "mark_price price (fst b) p = price_or 0 price (fst b)"
  using assms by (auto simp: kept_def mark_price_def price_or_def DUST_USD_def split: option.splits)

lemma anchored_value:
  assumes "\<forall>b \<in> set bals. upper (fst b) = fst b"
  shows "dict_sum (\<lambda>k p. bp_qty p * mark_price price k p) (map (entry_of price clock old) (filter (kept stables price) bals))
    = dict_sum (\<lambda>k q. if kept stables price (k, q) then q * price_or 0 price k else 0) bals"
  using assms
proof (induction bals)
  case (Cons b bals)
  obtain p where p: "entry_of price clock old b = (fst b, p)" "bp_qty p = snd b"
    by (metis entry_of_simps prod.collapse)
  show ?case using Cons p kept_mark_price [of stables price b p] by (cases b) auto
qed simp

lemma dust_sum_bounds:
  assumes "\<forall>b \<in> set bals. 0 \<le> snd b" "\<forall>p \<in> ran price. 0 \<le> p"
  shows "0 \<le> dict_sum (\<lambda>k q. if dust stables price (k, q) then q * price_or 0 price k else 0) bals \<and>
    dict_sum (\<lambda>k q. if dust stables price (k, q) then q * price_or 0 price k else 0) bals
      \<le> DUST_USD * length (filter (dust stables price) bals)"
  using assms
proof (induction bals)
  case (Cons b bals)
  obtain k q where b: "b = (k, q)" by (cases b)
  have "0 \<le> price_or 0 price k" using Cons.prems(2) by (auto simp: price_or_def ran_def split: option.splits)
  then have "0 \<le> q * price_or 0 price k" using Cons.prems(1) b by simp
  moreover have "q * price_or 0 price k \<le> DUST_USD" if "dust stables price (k, q)" using that by (simp add: dust_def)
  ultimately show ?case using Cons b by (auto simp: algebra_simps)
qed simp

text \<open>
  The books that the chain dictates: a position for every balance that is not quote cash and not dust, with the
  balance as its quantity and the entry of the position that was known (or the current price and time), no other
  positions, and as cash the value of the quote balances, a quote token without a price counting at par.
\<close>

definition chain_book :: "string list \<Rightarrow> (string \<rightharpoonup> real) \<Rightarrow> (string \<Rightarrow> real) \<Rightarrow> (string \<times> book_pos) list \<Rightarrow>
    (string \<times> real) list \<Rightarrow> string \<rightharpoonup> book_pos" where
  "chain_book stables price clock old bals k =
     (case map_of bals k of
        None \<Rightarrow> None
      | Some q \<Rightarrow>
          if k \<in> set stables \<or> q * price_or 0 price k < DUST_USD then None
          else Some (case map_of old k of
              Some p \<Rightarrow> \<lparr>bp_qty = q, bp_entry_price = bp_entry_price p, bp_entry_ts = bp_entry_ts p\<rparr>
            | None \<Rightarrow> \<lparr>bp_qty = q, bp_entry_price = price_or 0 price k, bp_entry_ts = clock k\<rparr>))"

definition mirrors_chain :: "string list \<Rightarrow> (string \<rightharpoonup> real) \<Rightarrow> (string \<Rightarrow> real) \<Rightarrow> (string \<times> book_pos) list \<Rightarrow>
    (string \<times> real) list \<Rightarrow> agent_state \<Rightarrow> bool" where
  "mirrors_chain stables price clock old bals a =
     (distinct (map fst (st_positions a)) \<and> map_of (st_positions a) = chain_book stables price clock old bals \<and>
      st_stable_usd a = Some (dict_sum (\<lambda>k q. if k \<in> set stables then q * price_or 1 price k else 0) bals))"

lemma map_of_entries:
  assumes "distinct (map fst bals)"
  shows "map_of (map (entry_of price clock old) (filter (kept stables price) bals)) k = chain_book stables price clock old bals k"
  using assms
proof (induction bals)
  case (Cons b bals)
  obtain s q where b: "b = (s, q)" by (cases b)
  have none: "map_of bals s = None" using Cons.prems b by (simp add: map_of_eq_None_iff)
  have e: "map_of (entry_of price clock old b # xs) k = (if k = s then Some (snd (entry_of price clock old b)) else map_of xs k)" for xs
    by (cases "entry_of price clock old b") (simp add: b entry_of_def)
  show ?case
  proof (cases "k = s")
    case True
    have "chain_book stables price clock old bals s = None" using none by (simp add: chain_book_def)
    moreover have "chain_book stables price clock old (b # bals) s =
        (if kept stables price b then Some (snd (entry_of price clock old b)) else None)"
      by (auto simp: b chain_book_def kept_def entry_of_def split: option.split)
    ultimately show ?thesis using Cons True e by simp
  next
    case False
    then have "chain_book stables price clock old (b # bals) k = chain_book stables price clock old bals k"
      by (simp add: b chain_book_def)
    with Cons False e show ?thesis by simp
  qed
qed (simp add: chain_book_def)

lemma sync_books_mirrors:
  assumes "sync_books dflt cfg price clock (Inr bals) s = (ok, s')" "distinct (map fst bals)"
  shows "ok" "mirrors_chain (map upper (get_or (quote_tokens cfg) dflt)) price clock (st_positions s) bals s'"
    "s' = s\<lparr>st_positions := st_positions s', st_stable_usd := st_stable_usd s'\<rparr>"
proof -
  let ?stables = "map upper (get_or (quote_tokens cfg) dflt)"
  have s': "ok" "st_positions s' = map (entry_of price clock (st_positions s)) (filter (kept ?stables price) bals)"
      "st_stable_usd s' = Some (stable_total ?stables price bals)"
      "s' = s\<lparr>st_positions := st_positions s', st_stable_usd := st_stable_usd s'\<rparr>"
    using assms(1) anchored_eq [OF assms(2)] by (auto simp: sync_books_def Let_def)
  have "map fst (st_positions s') = map fst (filter (kept ?stables price) bals)" by (simp add: s'(2))
  then have "distinct (map fst (st_positions s'))" using assms(2) by (simp add: distinct_map_filter)
  with s' show "ok" "mirrors_chain ?stables price clock (st_positions s) bals s'"
    "s' = s\<lparr>st_positions := st_positions s', st_stable_usd := st_stable_usd s'\<rparr>"
    using map_of_entries [OF assms(2)] stable_total_eq [OF assms(2)] by (simp_all add: mirrors_chain_def fun_eq_iff)
qed

text \<open>
  C6. After a reconciliation the books are the chain: when the balances can be read, the positions are exactly the
  balances that are neither quote cash nor worth less than a dollar (each with the balance as its quantity; known ones
  keep their entry price and time), the cash is the value of the quote balances, nothing else of the state
  changes, and the marked NAV is what the account is worth at the current prices less at most a dollar for
  every dust balance. In particular a position whose token has no price counts as dust: it is dropped from the
  books, although marking alone would have valued it at its entry price.
\<close>

theorem chain_truth:
  assumes "sync_books dflt cfg price clock (Inr bals) s = (ok, s')"
    and "distinct (map fst bals)" "\<forall>b \<in> set bals. upper (fst b) = fst b \<and> 0 \<le> snd b" "\<forall>p \<in> ran price. 0 \<le> p"
    and st: "stables = map upper (get_or (quote_tokens cfg) dflt)"
  shows "ok \<and> distinct (map fst (st_positions s')) \<and>
    (\<forall>k. map_of (st_positions s') k =
       (case map_of bals k of
          None \<Rightarrow> None
        | Some q \<Rightarrow>
            if k \<in> set stables \<or> q * price_or 0 price k < 1 then None
            else Some (case map_of (st_positions s) k of
                Some p \<Rightarrow> \<lparr>bp_qty = q, bp_entry_price = bp_entry_price p, bp_entry_ts = bp_entry_ts p\<rparr>
              | None \<Rightarrow> \<lparr>bp_qty = q, bp_entry_price = price_or 0 price k, bp_entry_ts = clock k\<rparr>))) \<and>
    st_stable_usd s' = Some (dict_sum (\<lambda>k q. if k \<in> set stables then q * price_or 1 price k else 0) bals) \<and>
    s' = s\<lparr>st_positions := st_positions s', st_stable_usd := st_stable_usd s'\<rparr> \<and>
    chain_value stables price bals - DUST_USD * length (filter (dust stables price) bals) \<le> marked_nav price s' \<and>
    marked_nav price s' \<le> chain_value stables price bals \<and>
    (\<forall>k. price_or 0 price k = 0 \<longrightarrow> map_of (st_positions s') k = None)"
proof -
  note m = sync_books_mirrors [OF assms(1,2), folded st]
  have book: "map_of (st_positions s') = chain_book stables price clock (st_positions s) bals"
    using m(2) by (simp add: mirrors_chain_def)
  have s': "st_positions s' = map (entry_of price clock (st_positions s)) (filter (kept stables price) bals)"
      "st_stable_usd s' = Some (stable_total stables price bals)"
    using assms(1) st anchored_eq [OF assms(2)] by (auto simp: sync_books_def Let_def)
  have "marked_nav price s' = stable_total stables price bals +
      dict_sum (\<lambda>k q. if kept stables price (k, q) then q * price_or 0 price k else 0) bals"
    unfolding marked_nav_def state_stable_def s' using anchored_value [of bals] assms(3) by simp
  also have "\<dots> = chain_value stables price bals -
      dict_sum (\<lambda>k q. if dust stables price (k, q) then q * price_or 0 price k else 0) bals"
    unfolding stable_total_eq [OF assms(2)] chain_value_def
    by (induction bals) (auto simp: kept_def dust_def)
  finally have "marked_nav price s' = \<dots>" .
  then have "chain_value stables price bals - DUST_USD * length (filter (dust stables price) bals) \<le> marked_nav price s'"
    "marked_nav price s' \<le> chain_value stables price bals"
    using dust_sum_bounds [of bals price stables] assms(3,4) by auto
  moreover have "\<forall>k. price_or 0 price k = 0 \<longrightarrow> map_of (st_positions s') k = None"
    by (simp add: book chain_book_def DUST_USD_def split: option.split)
  moreover have "\<forall>k. map_of (st_positions s') k = chain_book stables price clock (st_positions s) bals k" by (simp add: book)
  ultimately show ?thesis
    using m(1,3) m(2) [unfolded mirrors_chain_def] unfolding chain_book_def [unfolded DUST_USD_def] by (intro conjI) blast+
qed

theorem chain_truth_witness:
  "let (ok, s') = sync_books [''USDT''] injective_config [''INJ'' \<mapsto> 20, ''USDT'' \<mapsto> 1] (\<lambda>_. 7)
      (Inr [(''USDT'', 50), (''INJ'', 3)]) ex_state
   in ok \<and> map_of (st_positions s') ''INJ'' = Some \<lparr>bp_qty = 3, bp_entry_price = 20, bp_entry_ts = 7\<rparr> \<and>
      st_stable_usd s' = Some 50 \<and> marked_nav [''INJ'' \<mapsto> 20, ''USDT'' \<mapsto> 1] s' \<le> 110"
proof -
  let ?price = "[''INJ'' \<mapsto> 20, ''USDT'' \<mapsto> 1 :: real]" and ?bals = "[(''USDT'', 50 :: real), (''INJ'', 3)]"
  obtain ok s' where sy: "sync_books [''USDT''] injective_config ?price (\<lambda>_. 7) (Inr ?bals) ex_state = (ok, s')" by fastforce
  have st: "map upper (get_or (quote_tokens injective_config) [''USDT'']) = [''USDT'']" by code_simp
  have up: "upper ''USDT'' = ''USDT''" "upper ''INJ'' = ''INJ''" by code_simp+
  have worth: "chain_value [''USDT''] ?price ?bals = 110" by (simp add: chain_value_def price_or_def)
  have priced: "\<forall>p \<in> ran ?price. 0 \<le> p" by (auto simp: ran_def split: if_splits)
  have d: "distinct (map fst ?bals)" "\<forall>b \<in> set ?bals. upper (fst b) = fst b \<and> 0 \<le> snd b" using up by simp_all
  note t = chain_truth [OF sy d priced st [symmetric]]
  then have "map_of (st_positions s') ''INJ'' = Some \<lparr>bp_qty = 3, bp_entry_price = 20, bp_entry_ts = 7\<rparr>"
    by (simp add: price_or_def ex_state_def)
  moreover have "st_stable_usd s' = Some 50" using t by (simp add: price_or_def)
  ultimately show ?thesis using t sy worth by simp
qed

section \<open>A life of the loop\<close>

text \<open>
  Every configuration that the loop can be in: it boots from the default state, iterates, and may crash at
  any event of an iteration (or let the iteration fail), leaving its files in some state \<open>w\<close>, and restart
  from the last snapshot.
\<close>

inductive lived :: "live_params \<Rightarrow> live_run \<Rightarrow> bool" for lp where
  boot: "lr_state r = restart_state (lp_setup lp) [] \<Longrightarrow> lr_trace r = [] \<Longrightarrow> lived lp r"
| iterate: "lived lp r \<Longrightarrow> live_iteration lp inp r = (r', e) \<Longrightarrow> \<forall>err. e \<noteq> Failed err \<Longrightarrow> lived lp r'"
| crash: "lived lp r \<Longrightarrow> live_iteration lp inp r = (r', e) \<Longrightarrow> lr_trace r' = lr_trace r @ p @ q \<Longrightarrow>
    lived lp (r'\<lparr>lr_state := restart_state (lp_setup lp) (lr_trace r @ p), lr_pool := pool, lr_trace := lr_trace r @ p,
      lr_world := w\<rparr>)"

lemma apply_fill_last_hour [simp]: "st_trades_last_hour (apply_fill s d amount price now) = st_trades_last_hour s"
  by (auto simp: apply_fill_def Let_def split: side.splits option.splits)

lemma run_executor_last_hour:
  "run_executor env s d amount cid now = (trace, Inr out) \<Longrightarrow> st_trades_last_hour (xo_state out) = st_trades_last_hour s"
  by (drule run_executor_state) (metis agent_state.select_convs(8) agent_state.update_convs(9) agent_state.surjective)

lemma tick_last_hour:
  assumes "tick env cfg s views data_ts now_opt w = (w', x)"
  shows "(\<forall>res s'. x = Inr (res, s') \<longrightarrow> st_trades_last_hour s' = st_trades_last_hour s) \<and>
    (\<exists>evs. w_trace w' = w_trace w @ evs \<and> (\<forall>st. Persisted st \<in> set evs \<longrightarrow> st_trades_last_hour st = st_trades_last_hour s))"
  using assms
proof (cases rule: tick_cases)
  case (Decided i d v w2 y)
  let ?s = "s\<lparr>st_pending_intent := None\<rparr>"
  have trace: "\<exists>evs. w_trace w2 = w_trace (after_receipt env cfg s views now_opt w i d v) @ evs \<and>
      (\<forall>st. Persisted st \<in> set evs \<longrightarrow> st_trades_last_hour st = st_trades_last_hour s)"
    using Decided(2)
  proof (cases rule: tick_execute_cases)
    case (Failed trace e)
    with run_executor_trace [OF Failed(3)] show ?thesis by fastforce
  next
    case (Ran trace out)
    with run_executor_trace [OF Ran(3)] show ?thesis by fastforce
  qed simp
  moreover have "st_trades_last_hour s' = st_trades_last_hour s" if "y = Inr (b, s')" for b s'
    using Decided(2)
  proof (cases rule: tick_execute_cases)
    case (Ran trace out)
    with that run_executor_last_hour [OF Ran(3)] show ?thesis by (auto simp: book_trade_def)
  qed (use that in auto)
  ultimately show ?thesis using Decided(5,6) by (auto split: sum.splits)
qed simp

definition hour_zero :: "live_state \<Rightarrow> bool" where
  "hour_zero s = (get_or (st_trades_last_hour (ls_agent s)) 0 = 0)"

lemma iteration_hour_zero:
  assumes "live_iteration lp inp r = (r', e)" "hour_zero (lr_state r)"
  shows "hour_zero (lr_state r') \<and> (\<forall>s. Wrote s \<in> set (lr_trace r') \<longrightarrow> Wrote s \<in> set (lr_trace r) \<or> hour_zero s)"
  using assms(1)
proof (cases rule: live_iteration_cases)
  case (Unread views ts pool a1)
  then show ?thesis using assms(2) reconcile_books_frame(2) [OF Unread(2)] by (auto simp: ps_write_def hour_zero_def)
next
  case (Pending views ts pool a1)
  then show ?thesis using assms(2) reconcile_books_frame(2) [OF Pending(2)] by (auto simp: ps_write_def hour_zero_def)
next
  case (Tick views ts pool a1 w x)
  let ?a = "snd (mark_nav a1 (price_table views))"
  have zero: "get_or (st_trades_last_hour ?a) 0 = 0"
    using assms(2) reconcile_books_frame(2) [OF Tick(2)] by (simp add: hour_zero_def)
  obtain evs where evs: "w_trace w = w_trace (lr_world r) @ evs"
    "\<forall>st. Persisted st \<in> set evs \<longrightarrow> st_trades_last_hour st = st_trades_last_hour ?a"
    using tick_last_hour [OF Tick(4)] by blast
  have lifted: "hour_zero s" if "Wrote s \<in> set (map (lift_event ((lr_state r)\<lparr>ls_agent := ?a\<rparr>)) evs)" for s
  proof -
    obtain ev where "ev \<in> set evs" "Wrote s = lift_event ((lr_state r)\<lparr>ls_agent := ?a\<rparr>) ev" using \<open>Wrote s \<in> _\<close> by auto
    then show ?thesis using evs(2) zero by (cases ev rule: event.exhaust) (fastforce simp: hour_zero_def)+
  qed
  show ?thesis
  proof (cases x)
    case (Inl err)
    with Tick(6) evs(1) lifted zero show ?thesis by (auto simp: hour_zero_def)
  next
    case (Inr p)
    obtain res a3 where p: "p = (res, a3)" by (cases p)
    then have "st_trades_last_hour a3 = st_trades_last_hour ?a" using tick_last_hour [OF Tick(4)] Inr by blast
    then have "hour_zero (lr_state r')" using Tick(6) Inr p zero by (simp add: hour_zero_def)
    with Tick(6) Inr p evs(1) lifted show ?thesis by auto
  qed
qed (use assms(2) in auto)

lemma last_snapshot_in: "last_snapshot es = Some s \<Longrightarrow> Wrote s \<in> set es"
  by (induction es) (auto split: option.splits live_event.splits)

lemma restart_hour_zero:
  assumes "\<forall>s. Wrote s \<in> set trace \<longrightarrow> hour_zero s"
  shows "hour_zero (restart_state u trace)"
proof -
  have "hour_zero (start_state u s) = hour_zero s" "hour_zero (with_defaults s) = hour_zero s" for s
    by (simp_all add: hour_zero_def start_state_def with_defaults_def Let_def)
  moreover have "hour_zero default_state" by (simp add: hour_zero_def default_state_def)
  ultimately show ?thesis
    using assms last_snapshot_in [of trace] by (auto simp: restart_state_def split: option.splits)
qed

lemma lived_hour_zero: "lived lp r \<Longrightarrow> hour_zero (lr_state r) \<and> (\<forall>s. Wrote s \<in> set (lr_trace r) \<longrightarrow> hour_zero s)"
proof (induction rule: lived.induct)
  case (boot r)
  then show ?case using restart_hour_zero [of "[]"] by simp
next
  case (iterate r inp r' e)
  then show ?case using iteration_hour_zero [OF iterate.hyps(2)] by blast
next
  case (crash r inp r' e p q pool w)
  then have "\<forall>s. Wrote s \<in> set (lr_trace r @ p) \<longrightarrow> hour_zero s"
    using iteration_hour_zero [OF crash.hyps(2)] by auto
  then show ?case using restart_hour_zero by simp
qed

lemma check_hour_cap:
  assumes "pv_trades_last_hour pf < max_trades_per_hour (risk cfg)" "pv_trades_last_hour pf < m"
  shows "check (init_engine (cfg\<lparr>risk := (risk cfg)\<lparr>max_trades_per_hour := m\<rparr>\<rparr>)) d pf mkt = check (init_engine cfg) d pf mkt"
proof -
  let ?e = "init_engine cfg" and ?e' = "init_engine (cfg\<lparr>risk := (risk cfg)\<lparr>max_trades_per_hour := m\<rparr>\<rparr>)"
  have f: "pe_allowed_tokens ?e' = pe_allowed_tokens ?e" "pe_allowed_pairs ?e' = pe_allowed_pairs ?e"
    "pe_max_data_age ?e' = pe_max_data_age ?e" "pe_ladder ?e' = pe_ladder ?e" "pe_quote ?e' = pe_quote ?e"
    "max_trades_per_hour (pe_risk ?e') = m" "max_trades_per_hour (pe_risk ?e) = max_trades_per_hour (risk cfg)"
    "min_trade_interval_seconds (pe_risk ?e') = min_trade_interval_seconds (pe_risk ?e)"
    "max_single_trade_usd (pe_risk ?e') = max_single_trade_usd (pe_risk ?e)"
    "max_single_trade_pct (pe_risk ?e') = max_single_trade_pct (pe_risk ?e)"
    "max_risky_exposure_pct (pe_risk ?e') = max_risky_exposure_pct (pe_risk ?e)"
    by (simp_all add: init_engine_def)
  have fin: "finalise ?e' = finalise ?e" by (intro ext) (simp only: finalise_def f)
  have stab: "is_stable ?e' = is_stable ?e" by (intro ext) (simp only: is_stable_def f)
  have inc: "risk_increasing ?e' = risk_increasing ?e" by (intro ext) (simp only: risk_increasing_def stab)
  have red: "risk_reducing ?e' = risk_reducing ?e" by (intro ext) (simp only: risk_reducing_def stab)
  have rng: "engine_rung ?e' = engine_rung ?e" by (intro ext) (simp only: engine_rung_def f)
  have mx: "max_risky ?e' = max_risky ?e" by (simp only: max_risky_def f)
  have n: "\<not> m \<le> pv_trades_last_hour pf" "\<not> max_trades_per_hour (risk cfg) \<le> pv_trades_last_hour pf"
    using assms by simp_all
  show ?thesis by (simp only: check_def Let_def f fin inc red rng mx n if_False)
qed

text \<open>
  C11. The hourly cap never binds in the live loop: nothing the loop does, crashes and restarts included, ever
  counts a trade in \<open>trades_last_hour\<close>. The engine is always shown zero trades, and the verdict is the same
  whatever positive hourly cap the policy commits to.
\<close>

theorem hourly_cap_inert:
  assumes "lived lp r" "0 < max_trades_per_hour (risk cfg)" "0 < m"
  shows "pv_trades_last_hour (engine_view (ls_agent (lr_state r)) pstate) = 0 \<and>
    check (init_engine (cfg\<lparr>risk := (risk cfg)\<lparr>max_trades_per_hour := m\<rparr>\<rparr>)) d
      (engine_view (ls_agent (lr_state r)) pstate) mkt =
    check (init_engine cfg) d (engine_view (ls_agent (lr_state r)) pstate) mkt"
proof -
  have "pv_trades_last_hour (engine_view (ls_agent (lr_state r)) pstate) = 0"
    using lived_hour_zero [OF assms(1)] by (simp add: hour_zero_def engine_view_def)
  with assms(2,3) show ?thesis by (simp add: check_hour_cap)
qed

theorem hourly_cap_inert_witness:
  "\<exists>r. lived ex_params r \<and>
    pv_trades_last_hour (engine_view (ls_agent (lr_state r)) (build_portfolio_state 0 ex_state [])) = 0"
proof -
  let ?r = "ex_run\<lparr>lr_state := restart_state (lp_setup ex_params) []\<rparr>"
  have l: "lived ex_params ?r" by (rule lived.boot) (simp_all add: ex_run_def)
  have "0 < max_trades_per_hour (risk bnb_config)" by code_simp
  from hourly_cap_inert [OF l this zero_less_one] l show ?thesis by blast
qed

end
