(* ===== verification/InjDemo.thy ===== *)
theory InjDemo
  imports RunLive
begin

text \<open>
  \<open>tools/inj_demo_run.py\<close>: the demonstration driver for the Injective testnet. It runs the loop's iteration
  over a scripted price path; the reconciliation, the tick and the snapshots are those of \<open>agent/run_live.py\<close>.
  The iteration, its trace and its books are therefore the types of \<open>RunLive\<close>, and the driver is compared
  with the production iteration.
\<close>

section \<open>The scripted market\<close>

definition spike_at :: "nat \<Rightarrow> int" where
  "spike_at n = max 1 \<lfloor>of_nat n * 8 / 10 :: real\<rfloor>"

record tape_point =
  tp_price :: real
  tp_pct_1h :: real
  tp_pct_4h :: real
  tp_vol_24h_pct :: real

definition tape :: "nat \<Rightarrow> nat \<Rightarrow> tape_point" where
  "tape i n =
     (if spike_at n \<le> int i
      then \<lparr>tp_price = 20 * (106 / 100), tp_pct_1h = 24 / 10, tp_pct_4h = 31 / 10, tp_vol_24h_pct = 28 / 10\<rparr>
      else \<lparr>tp_price = 20 * (1 + 4 / 1000 * real i), tp_pct_1h = 13 / 10, tp_pct_4h = 19 / 10,
            tp_vol_24h_pct = 22 / 10\<rparr>)"

definition demo_views :: "nat \<Rightarrow> nat \<Rightarrow> real \<Rightarrow> token_view list" where
  "demo_views i n now =
     (let inj = tape i n in
      [\<lparr>tv_symbol = ''INJ'', tv_price = tp_price inj, tv_pct_1h = Some (tp_pct_1h inj), tv_pct_4h = Some (tp_pct_4h inj),
        tv_vol_24h_pct = Some (tp_vol_24h_pct inj), tv_liquidity_usd = 0, tv_spread_bps = 0, tv_ts = now, tv_extra = []\<rparr>,
       \<lparr>tv_symbol = ''USDT'', tv_price = 1, tv_pct_1h = Some 0, tv_pct_4h = Some 0, tv_vol_24h_pct = Some (1 / 10),
        tv_liquidity_usd = 0, tv_spread_bps = 0, tv_ts = now, tv_extra = []\<rparr>])"

section \<open>The driver\<close>

text \<open>What one round observes: \<open>time.time()\<close> at its start, inside the tick and at its end, the subaccount read,
  and the clock of new entries.\<close>

record demo_input =
  di_now :: real
  di_subaccount :: "string list \<Rightarrow> py_error + (string \<times> real) list"
  di_clock :: "string \<Rightarrow> real"
  di_wall :: real
  di_done :: real

definition demo_mode :: "bool \<Rightarrow> string" where
  "demo_mode live = (if live then ''live'' else ''paper'')"

definition demo_start :: "bool \<Rightarrow> live_state \<Rightarrow> live_state" where
  "demo_start live loaded = loaded\<lparr>ls_mode := demo_mode live\<rparr>"

definition demo_env :: "live_params \<Rightarrow> demo_input \<Rightarrow> tick_env" where
  "demo_env lp inp = \<lparr>te_digest = lp_digest lp, te_policy_hash = lp_policy_hash lp, te_wall = di_wall inp,
     te_persist = True, te_executor = Some (lp_executor lp)\<rparr>"

definition demo_iteration :: "live_params \<Rightarrow> nat \<Rightarrow> nat \<Rightarrow> demo_input \<Rightarrow> live_run \<Rightarrow> live_run \<times> iter_end" where
  "demo_iteration lp n i inp r =
     (let now = di_now inp; views = demo_views i n now; price = price_table views; s0 = lr_state r;
          (ok, a1) = sync_state_from_injective (di_subaccount inp) (lp_cfg lp) price (di_clock inp) (ls_agent s0)
      in if \<not> ok then (ps_write (s0\<lparr>ls_agent := a1\<rparr>) r, HeldUnread)
         else
         let s2 = s0\<lparr>ls_agent := snd (mark_nav a1 price)\<rparr>;
             (w, x) = tick (demo_env lp inp) (lp_cfg lp) (ls_agent s2) views now (Some now) (lr_world r);
             evs = map (lift_event s2) (drop (length (w_trace (lr_world r))) (w_trace w));
             r2 = r\<lparr>lr_state := s2, lr_world := w, lr_trace := lr_trace r @ evs\<rparr>
         in (case x of
               Inl e \<Rightarrow> (r2, Failed e)
             | Inr (result, a3) \<Rightarrow>
                 let a4 = raise_hwm (snd (mark_nav a3 price));
                     r3 = r2\<lparr>lr_equity := lr_equity r @ [append_equity_point (di_done inp) a4 (Some result)]\<rparr>
                 in (ps_write \<lparr>ls_agent = a4, ls_mode = ls_mode s2, ls_last_tick_ts = di_done inp\<rparr> r3,
                     Ticked result)))"

text \<open>\<open>run\<close>: the rounds in order; an exception of a tick ends the run.\<close>

fun demo_rounds :: "live_params \<Rightarrow> nat \<Rightarrow> nat \<Rightarrow> demo_input list \<Rightarrow> live_run \<Rightarrow> live_run \<times> iter_end list" where
  "demo_rounds lp n i [] r = (r, [])"
| "demo_rounds lp n i (inp # inps) r =
     (let (r1, e) = demo_iteration lp n i inp r in
      case e of
        Failed _ \<Rightarrow> (r1, [e])
      | _ \<Rightarrow> (let (r2, es) = demo_rounds lp n (i + 1) inps r1 in (r2, e # es)))"

definition demo_live_run :: "bool \<Rightarrow> live_params \<Rightarrow> demo_input list \<Rightarrow> live_run \<Rightarrow> live_run \<times> iter_end list" where
  "demo_live_run live lp inps r = demo_rounds lp (length inps) 0 inps (r\<lparr>lr_state := demo_start live (lr_state r)\<rparr>)"

section \<open>The tape\<close>

lemma tape_spike: "spike_at n \<le> int i \<Longrightarrow> tp_price (tape i n) = 212 / 10"
  by (simp add: tape_def)

lemma tape_rises: "int j < spike_at n \<Longrightarrow> i < j \<Longrightarrow> tp_price (tape i n) < tp_price (tape j n)"
  by (simp add: tape_def)

text \<open>At every round both changes are positive and the volatility is below the 4 per cent that the driver names.\<close>

lemma tape_enters:
  "0 < tp_pct_1h (tape i n) \<and> 0 < tp_pct_4h (tape i n) \<and> tp_vol_24h_pct (tape i n) < 4 \<and> 0 < tp_price (tape i n)"
  by (simp add: tape_def add_pos_nonneg)

text \<open>With 22 rounds or more the path climbs above the "spike", which is then a fall in price.\<close>

lemma tape_spike_falls:
  assumes "22 \<le> n"
  shows "\<exists>i. int i < spike_at n \<and> spike_at n \<le> int (i + 1) \<and> tp_price (tape (i + 1) n) < tp_price (tape i n)"
proof -
  have "of_int 17 \<le> (of_nat n * 8 / 10 :: real)" using assms by simp
  then have s: "17 \<le> spike_at n" unfolding spike_at_def le_max_iff_disj le_floor_iff by blast
  define i where "i = nat (spike_at n - 1)"
  have i: "int i = spike_at n - 1" using s by (simp add: i_def)
  then have "16 \<le> real i" using s by linarith
  then have "212 / 10 < tp_price (tape i n)" using i by (simp add: tape_def)
  moreover have "tp_price (tape (i + 1) n) = 212 / 10" using i by (intro tape_spike) simp
  ultimately show ?thesis using i by (intro exI [of _ i]) simp
qed

section \<open>The same path as in production\<close>

text \<open>The market and the clock of a round, as the production iteration would observe them.\<close>

definition as_live_input :: "nat \<Rightarrow> nat \<Rightarrow> demo_input \<Rightarrow> rpc_pool rpc_fun \<Rightarrow> live_input" where
  "as_live_input n i inp rpc = \<lparr>li_market = Inr (demo_views i n (di_now inp), di_now inp),
     li_subaccount = di_subaccount inp, li_rpc = rpc, li_clock = di_clock inp, li_wall = di_now inp,
     li_done = di_done inp\<rparr>"

lemma tick_now: "tick env cfg s views data_ts (Some (te_wall env)) w = tick env cfg s views data_ts None w"
  by (simp add: tick_def)

lemma sync_pending: "st_pending_intent (snd (sync_state_from_injective f cfg price clock a)) = st_pending_intent a"
  by (simp add: sync_state_from_injective_def sync_books_def Let_def split: sum.splits)

text \<open>
  The demonstration decides as production does: on a live Injective setup, from books without a pending
  intent and with the clock at the start of the round, a round of the driver does exactly what the
  production iteration does on the scripted market: same books, receipts, orders, snapshots and outcome.
\<close>

theorem demo_is_production:
  assumes "ledger_source (lp_setup lp) = FromInjective" "st_pending_intent (ls_agent (lr_state r)) = None"
    and "di_wall inp = di_now inp"
  shows "demo_iteration lp n i inp r = live_iteration lp (as_live_input n i inp rpc) r"
proof -
  let ?views = "demo_views i n (di_now inp)"
  let ?inp = "as_live_input n i inp rpc"
  obtain ok a1 where sync: "sync_state_from_injective (di_subaccount inp) (lp_cfg lp) (price_table ?views)
      (di_clock inp) (ls_agent (lr_state r)) = (ok, a1)" by fastforce
  then have a1: "st_pending_intent a1 = None"
    using sync_pending assms(2) by (metis snd_conv)
  have fields: "li_market ?inp = Inr (?views, di_now inp)" "li_subaccount ?inp = di_subaccount inp"
    "li_clock ?inp = di_clock inp" "li_done ?inp = di_done inp"
    by (simp_all add: as_live_input_def)
  have env: "live_env lp ?inp = demo_env lp inp"
    by (simp add: live_env_def demo_env_def as_live_input_def assms(3))
  have books: "reconcile_books lp ?inp (price_table ?views) pool (ls_agent (lr_state r)) = (pool, ok, a1)" for pool
    by (simp add: reconcile_books_def assms(1) fields sync)
  have now: "tick (demo_env lp inp) cfg s views ts (Some (di_now inp)) w = tick (demo_env lp inp) cfg s views ts None w"
    for cfg s views ts w
    using tick_now [of "demo_env lp inp"] by (simp add: demo_env_def assms(3))
  show ?thesis
    unfolding demo_iteration_def live_iteration_def Let_def fields sum.case prod.case sync books env now
    by (simp add: a1)
qed

definition ex_demo_params :: live_params where
  "ex_demo_params = ex_params\<lparr>lp_setup := \<lparr>lu_backend = ''injective'', lu_dry_run = False, lu_wallet = [], lu_start_nav = None\<rparr>\<rparr>"

definition ex_demo_input :: demo_input where
  "ex_demo_input = \<lparr>di_now = 1060, di_subaccount = (\<lambda>_. Inr [(''USDT'', 100)]), di_clock = (\<lambda>_. 1060), di_wall = 1060,
     di_done = 1061\<rparr>"

theorem demo_is_production_witness:
  "demo_iteration ex_demo_params 18 3 ex_demo_input ex_run =
     live_iteration ex_demo_params (as_live_input 18 3 ex_demo_input (li_rpc ex_input)) ex_run"
proof (rule demo_is_production)
  show "ledger_source (lp_setup ex_demo_params) = FromInjective" by code_simp
  show "st_pending_intent (ls_agent (lr_state ex_run)) = None" by (simp add: ex_run_def ex_state_def)
  show "di_wall ex_demo_input = di_now ex_demo_input" by (simp add: ex_demo_input_def)
qed

text \<open>The one step of production that the driver leaves out: after a crash between the staging and the closing
  snapshot, production clears the pending intent and skips the decision; the driver decides again.\<close>

lemma demo_skips_recovery:
  assumes "ledger_source (lp_setup lp) = FromInjective" "st_pending_intent (ls_agent (lr_state r)) \<noteq> None"
    and "di_subaccount inp (read_symbols (lp_cfg lp)) = Inr bals"
  shows "snd (live_iteration lp (as_live_input n i inp rpc) r) = Recovered \<and>
    snd (demo_iteration lp n i inp r) \<noteq> Recovered"
  using assms
  by (auto simp: live_iteration_def demo_iteration_def as_live_input_def reconcile_books_def Let_def
      sync_state_from_injective_def sync_books_def split: prod.splits sum.splits)

end
