(* ===== verification/Identity.thy ===== *)
theory Identity
  imports Execlog
begin

text \<open>
  \<open>agent/identity/commit_publish.py\<close> with \<open>build_commitment\<close> of \<open>agent/policy/commit.py\<close>: the transaction that puts
  the policy hash on the chain before the run. The environment variables are a record (\<open>None\<close>: unset), the
  configuration files a function from paths to their JSON, and the web3 client (nonce, gas price, signing and
  sending) an argument; what is sent is part of the result.
\<close>

section \<open>The calldata\<close>

definition TAG :: string where
  "TAG = ''sumplus.policy/v1 ''"

text \<open>\<open>str.encode("utf-8")\<close> of an 8-bit character, and \<open>bytes.hex()\<close>.\<close>

definition utf8_char :: "char \<Rightarrow> nat list" where
  "utf8_char c = (let n = of_char c in if n < 128 then [n] else [192 + n div 64, 128 + n mod 64])"

definition hex_bytes :: "nat list \<Rightarrow> string" where
  "hex_bytes bs = concat (map (\<lambda>b. [hex_char (b div 16), hex_char (b mod 16)]) bs)"

definition commitment_calldata :: "string \<Rightarrow> string \<times> string" where
  "commitment_calldata ph = (let tag = TAG @ ph in (tag, ''0x'' @ hex_bytes (concat (map utf8_char tag))))"

text \<open>How a reader of the chain gets the text back: two hexadecimal digits per byte.\<close>

fun unhex :: "string \<Rightarrow> string option" where
  "unhex [] = Some []"
| "unhex [c] = None"
| "unhex (c # d # s) = map_option ((#) (char_of (16 * hex_val c + hex_val d))) (unhex s)"

definition published_hash :: "string \<Rightarrow> string option" where
  "published_hash data =
     (case unhex (drop 2 data) of
        Some t \<Rightarrow> if prefix TAG t then Some (drop (length TAG) t) else None | None \<Rightarrow> None)"

section \<open>Publishing\<close>

record pub_env =
  pe_strategy_config :: "string option"
  pe_execution_backend :: string
  pe_inj_chain_id :: "int option"
  pe_inj_rpc :: "string option"
  pe_wallet_key :: string
  pe_wallet_address :: string
  pe_inj_explorer :: "string option"
  pe_bsc_chain_id :: "int option"
  pe_bsc_rpc :: "string option"
  pe_agent_key :: string
  pe_agent_address :: string
  pe_agent_id :: "string option"
  pe_repo_url :: string

record chain_profile =
  cp_chain :: string
  cp_chain_id :: int
  cp_rpc :: string
  cp_key :: string
  cp_address :: string
  cp_config_path :: string
  cp_agent_id :: string
  cp_explorer :: string
  cp_need :: string

text \<open>The files: where the default configurations lie, what a path holds, and \<open>os.path\<close>.\<close>

record pub_files =
  pf_default_config :: string
  pf_inj_config :: string
  pf_read :: "string \<Rightarrow> json"
  pf_is_abs :: "string \<Rightarrow> bool"
  pf_relpath :: "string \<Rightarrow> string"

definition profile_of :: "pub_env \<Rightarrow> pub_files \<Rightarrow> string \<Rightarrow> chain_profile" where
  "profile_of env fs chain =
     (if chain = ''injective''
      then \<lparr>cp_chain = ''injective'', cp_chain_id = get_or (pe_inj_chain_id env) 1439, cp_rpc = get_or (pe_inj_rpc env) [],
             cp_key = pe_wallet_key env, cp_address = pe_wallet_address env,
             cp_config_path = (let p = get_or (pe_strategy_config env) [] in if p = [] then pf_inj_config fs else p),
             cp_agent_id = get_or (pe_agent_id env) ''sumplus-trader-injective'',
             cp_explorer = get_or (pe_inj_explorer env) ''https://testnet.blockscout.injective.network/tx/'',
             cp_need = ''set INJ_RPC + AGENT_WALLET_PRIVATE_KEY + AGENT_WALLET_ADDRESS and pass --send''\<rparr>
      else \<lparr>cp_chain = ''bsc'', cp_chain_id = get_or (pe_bsc_chain_id env) 56,
             cp_rpc = get_or (pe_bsc_rpc env) ''https://bsc-dataseed.bnbchain.org'',
             cp_key = pe_agent_key env, cp_address = pe_agent_address env,
             cp_config_path = get_or (pe_strategy_config env) [],
             cp_agent_id = get_or (pe_agent_id env) ''sumplus-trader-bnb'', cp_explorer = ''https://bscscan.com/tx/'',
             cp_need = ''set AGENT_PRIVATE_KEY + AGENT_ADDRESS + BSC_RPC and pass --send to broadcast''\<rparr>)"

definition resolve_chain :: "pub_env \<Rightarrow> string option \<Rightarrow> string" where
  "resolve_chain env chain =
     (let given = get_or chain []; c = lower (if given = [] then pe_execution_backend env else given) in
      if c = ''injective'' then ''injective'' else ''bsc'')"

record commitment =
  cm_schema :: string
  cm_agent_id :: string
  cm_policy_hash :: string
  cm_strategy_version :: json
  cm_config_file :: string
  cm_canonicalisation :: string
  cm_repo_url :: string
  cm_note :: string

text \<open>\<open>CONFIG_PATH\<close> of \<open>agent/policy/canonical.py\<close>.\<close>

definition config_path :: "pub_env \<Rightarrow> pub_files \<Rightarrow> string" where
  "config_path env fs = get_or (pe_strategy_config env) (pf_default_config fs)"

definition build_commitment :: "digest_fun \<Rightarrow> pub_env \<Rightarrow> pub_files \<Rightarrow> string \<Rightarrow> string \<Rightarrow> commitment" where
  "build_commitment H env fs agent_id repo_url =
     (let cfg = pf_read fs (config_path env fs) in
      \<lparr>cm_schema = ''sumplus.policy-commitment/v1'', cm_agent_id = agent_id, cm_policy_hash = policy_hash H cfg,
       cm_strategy_version = get_or (json_field ''version'' cfg) (JStr ''unknown''),
       cm_config_file = ''config/strategy.json'',
       cm_canonicalisation = ''drop _-keys; sort keys; compact json; sha256'', cm_repo_url = repo_url,
       cm_note = ''Every live decision receipt references policy_hash. Recompute it from config/strategy.json to verify.''\<rparr>)"

record unsigned_tx =
  ut_from :: string
  ut_to :: string
  ut_value :: int
  ut_data :: string
  ut_chain_id :: int
  ut_nonce :: int
  ut_gas :: int
  ut_gas_price :: int

definition build_unsigned_tx :: "string \<Rightarrow> string \<Rightarrow> int \<Rightarrow> int \<Rightarrow> int \<Rightarrow> unsigned_tx" where
  "build_unsigned_tx agent_address calldata chain_id nonce gas_price =
     \<lparr>ut_from = agent_address, ut_to = agent_address, ut_value = 0, ut_data = calldata, ut_chain_id = chain_id,
      ut_nonce = nonce, ut_gas = 60000, ut_gas_price = gas_price\<rparr>"

record web3_client =
  w3_nonce :: "string \<Rightarrow> int"
  w3_gas_price :: int
  w3_send :: "unsigned_tx \<Rightarrow> string"

record publication =
  pu_dry_run :: bool
  pu_chain :: string
  pu_chain_id :: int
  pu_policy_hash :: string
  pu_tag :: string
  pu_calldata :: "string option"
  pu_commitment :: commitment
  pu_note :: "string option"
  pu_tx_hash :: "string option"
  pu_explorer :: "string option"

definition publish_commitment :: "digest_fun \<Rightarrow> pub_env \<Rightarrow> pub_files \<Rightarrow> chain_profile \<Rightarrow> string \<Rightarrow> commitment" where
  "publish_commitment H env fs prof ph =
     (let c = (build_commitment H env fs (cp_agent_id prof) (pe_repo_url env))\<lparr>cm_policy_hash := ph\<rparr>; p = cp_config_path prof in
      if p = [] then c
      else let rel = (if pf_is_abs fs p then pf_relpath fs p else p) in
           c\<lparr>cm_config_file := rel, cm_note := ''Every live decision receipt references policy_hash. Recompute it from '' @
             rel @ '' to verify.''\<rparr>)"

text \<open>\<open>publish\<close>: the transactions sent, and the result.\<close>

definition publish :: "digest_fun \<Rightarrow> pub_env \<Rightarrow> pub_files \<Rightarrow> (string \<Rightarrow> web3_client) \<Rightarrow> bool \<Rightarrow> string option \<Rightarrow>
    unsigned_tx list \<times> publication" where
  "publish H env fs web3 dry_run chain =
     (let prof = profile_of env fs (resolve_chain env chain);
          ph = policy_hash H (pf_read fs (if cp_config_path prof \<noteq> [] then cp_config_path prof else config_path env fs));
          (tag, data) = commitment_calldata ph;
          c = publish_commitment H env fs prof ph
      in if dry_run \<or> cp_key prof = [] \<or> cp_address prof = []
         then ([], \<lparr>pu_dry_run = True, pu_chain = cp_chain prof, pu_chain_id = cp_chain_id prof, pu_policy_hash = ph,
                    pu_tag = tag, pu_calldata = Some data, pu_commitment = c, pu_note = Some (cp_need prof),
                    pu_tx_hash = None, pu_explorer = None\<rparr>)
         else let w3 = web3 (cp_rpc prof);
                  tx = build_unsigned_tx (cp_address prof) data (cp_chain_id prof) (w3_nonce w3 (cp_address prof)) (w3_gas_price w3);
                  h = w3_send w3 tx
              in ([tx], \<lparr>pu_dry_run = False, pu_chain = cp_chain prof, pu_chain_id = cp_chain_id prof, pu_policy_hash = ph,
                    pu_tag = tag, pu_calldata = None, pu_commitment = c, pu_note = None,
                    pu_tx_hash = Some h, pu_explorer = Some (cp_explorer prof @ h)\<rparr>))"

section \<open>Reading the commitment back\<close>

lemma hex_val_char: "n < 16 \<Longrightarrow> hex_val (hex_char n) = n"
  by (simp add: hex_val_def hex_char_def)

lemma unhex_hex_bytes:
  "\<forall>b \<in> set bs. b < 256 \<Longrightarrow> unhex (hex_bytes bs) = Some (map char_of bs)"
proof (induction bs)
  case (Cons b bs)
  have "b div 16 < 16" using Cons.prems by (simp add: less_mult_imp_div_less)
  with Cons show ?case by (simp add: hex_bytes_def hex_val_char)
qed (simp add: hex_bytes_def)

definition ascii :: "string \<Rightarrow> bool" where
  "ascii s = (\<forall>c \<in> set s. (of_char c :: nat) < 128)"

lemma utf8_ascii: "ascii s \<Longrightarrow> concat (map utf8_char s) = map of_char s"
  by (induction s) (simp_all add: ascii_def utf8_char_def)

lemma published_hash_calldata:
  assumes "ascii ph"
  shows "published_hash (snd (commitment_calldata ph)) = Some ph"
proof -
  have tag: "ascii (TAG @ ph)" using assms by (auto simp: ascii_def TAG_def)
  have u: "unhex (hex_bytes (map of_char (TAG @ ph))) = Some (TAG @ ph)"
  proof -
    have "\<forall>b \<in> set (map of_char (TAG @ ph)). b < (256::nat)" using tag by (fastforce simp: ascii_def)
    from unhex_hex_bytes [OF this] show ?thesis by (simp add: comp_def)
  qed
  have "drop 2 (snd (commitment_calldata ph)) = hex_bytes (map of_char (TAG @ ph))"
    by (simp only: commitment_calldata_def Let_def snd_conv utf8_ascii [OF tag]) simp
  then show ?thesis by (simp only: published_hash_def u) simp
qed

text \<open>
  C27. Publishing reveals the right hash and nothing else: a dry run, or a run without key or address, sends nothing;
  otherwise exactly one transaction is sent, from the agent's address to itself, of value zero, on the chain of
  the profile, and whoever reads its data gets back the policy hash of the configuration that the chain's agent
  runs, which is also the hash in the result and in the commitment.
\<close>

theorem publish_reveals_the_hash:
  assumes "\<forall>s. ascii (H s)" "publish H env fs web3 dry_run chain = (sent, pub)"
  defines "prof \<equiv> profile_of env fs (resolve_chain env chain)"
  shows "pu_policy_hash pub =
      policy_hash H (pf_read fs (if cp_config_path prof \<noteq> [] then cp_config_path prof else config_path env fs)) \<and>
    cm_policy_hash (pu_commitment pub) = pu_policy_hash pub \<and>
    (if dry_run \<or> cp_key prof = [] \<or> cp_address prof = [] then sent = [] \<and> pu_tx_hash pub = None
     else \<exists>tx. sent = [tx] \<and> ut_from tx = cp_address prof \<and> ut_to tx = cp_address prof \<and> ut_value tx = 0 \<and>
       ut_chain_id tx = cp_chain_id prof \<and> published_hash (ut_data tx) = Some (pu_policy_hash pub))"
proof -
  define ph where "ph = policy_hash H (pf_read fs (if cp_config_path prof \<noteq> [] then cp_config_path prof else config_path env fs))"
  have "ascii ph" using assms(1) by (auto simp: ph_def policy_hash_def ascii_def)
  then have "published_hash (snd (commitment_calldata ph)) = Some ph" by (rule published_hash_calldata)
  moreover obtain tag data where td: "commitment_calldata ph = (tag, data)" by fastforce
  moreover have "cm_policy_hash (publish_commitment H env fs prof ph) = ph"
    by (simp add: publish_commitment_def Let_def)
  ultimately show ?thesis
    using assms(2)
    by (auto simp: publish_def Let_def prof_def [symmetric] ph_def [symmetric] build_unsigned_tx_def split: if_splits)
qed

definition ex_pub_env :: pub_env where
  "ex_pub_env = \<lparr>pe_strategy_config = None, pe_execution_backend = ''injective'', pe_inj_chain_id = None,
     pe_inj_rpc = Some ''rpc'', pe_wallet_key = ''key'', pe_wallet_address = ''0xagent'', pe_inj_explorer = None,
     pe_bsc_chain_id = None, pe_bsc_rpc = None, pe_agent_key = [], pe_agent_address = [], pe_agent_id = None,
     pe_repo_url = []\<rparr>"

definition ex_pub_files :: pub_files where
  "ex_pub_files = \<lparr>pf_default_config = ''/strategy.json'', pf_inj_config = ''/strategy.injective.json'',
     pf_read = (\<lambda>p. JObj [(''version'', JStr (if p = ''/strategy.json'' then ''bnb-1.0.0'' else ''injective-1.0.0''))]),
     pf_is_abs = (\<lambda>_. True), pf_relpath = drop 1\<rparr>"

definition ex_web3 :: web3_client where
  "ex_web3 = \<lparr>w3_nonce = (\<lambda>_. 7), w3_gas_price = 1, w3_send = (\<lambda>_. ''txhash'')\<rparr>"

theorem publish_reveals_the_hash_witness:
  "\<exists>tx. fst (publish (\<lambda>s. show_nat (length s)) ex_pub_env ex_pub_files (\<lambda>_. ex_web3) False None) = [tx] \<and>
     ut_to tx = ''0xagent'' \<and> ut_value tx = 0"
proof -
  let ?H = "\<lambda>s::string. show_nat (length s)" and ?prof = "profile_of ex_pub_env ex_pub_files (resolve_chain ex_pub_env None)"
  obtain sent pub where p: "publish ?H ex_pub_env ex_pub_files (\<lambda>_. ex_web3) False None = (sent, pub)" by fastforce
  have "\<forall>s. ascii (?H s)" using show_nat_digits by (fastforce simp: ascii_def is_digit_def)
  moreover have "cp_key ?prof \<noteq> []" "cp_address ?prof = ''0xagent''" by code_simp+
  ultimately show ?thesis using publish_reveals_the_hash [of ?H ex_pub_env ex_pub_files "\<lambda>_. ex_web3" False None sent pub] p
    by auto
qed

text \<open>
  The strategy version of a commitment comes from the configuration that the process was started with, not from
  the one that was hashed: for the Injective chain without \<open>STRATEGY_CONFIG\<close> they are different files.
\<close>

theorem version_of_another_file:
  assumes "publish H env fs web3 dry_run (Some ''injective'') = (sent, pub)" "pe_strategy_config env = None"
  shows "pu_policy_hash pub = policy_hash H (pf_read fs (if pf_inj_config fs \<noteq> [] then pf_inj_config fs else pf_default_config fs)) \<and>
    cm_strategy_version (pu_commitment pub) = get_or (json_field ''version'' (pf_read fs (pf_default_config fs))) (JStr ''unknown'')"
proof -
  have "resolve_chain env (Some ''injective'') = ''injective''"
    by (simp add: resolve_chain_def lower_def lower_char_def)
  with assms show ?thesis
    by (auto simp: publish_def Let_def profile_of_def publish_commitment_def build_commitment_def config_path_def
        split: if_splits prod.splits)
qed

theorem version_of_another_file_witness:
  "\<exists>sent pub. publish id ex_pub_env ex_pub_files (\<lambda>_. ex_web3) True (Some ''injective'') = (sent, pub) \<and>
     cm_strategy_version (pu_commitment pub) = JStr ''bnb-1.0.0'' \<and>
     pu_policy_hash pub = policy_hash id (JObj [(''version'', JStr ''injective-1.0.0'')])"
proof -
  obtain sent pub where p: "publish id ex_pub_env ex_pub_files (\<lambda>_. ex_web3) True (Some ''injective'') = (sent, pub)"
    by fastforce
  from version_of_another_file [OF p] p show ?thesis
    by (auto simp: ex_pub_env_def ex_pub_files_def json_field_def)
qed

end
