(* ===== verification/Web.thy ===== *)
theory Web
  imports RunLive Simulate Identity
begin

text \<open>
  \<open>agent/web.py\<close>: what the dashboard's endpoints compute from the files of the agent: the overview, the orders
  joined to their receipts, the feed, the replay of one receipt, and which configuration they read. Files are given as the lists of their
  records, the environment and \<open>config/proof.json\<close> as a record. The page itself (HTML and JavaScript) and the
  web server are not modelled.
\<close>

record web_env =
  wb_backend :: string
  wb_explorer :: "string option"
  wb_start_nav :: "real option"
  wb_pub_env :: pub_env
  wb_pub_files :: pub_files
  wb_cfg :: config
  wb_cfg_nav0 :: "real option"
  wb_internal_kill_pct :: "real option"
  wb_agent_id :: "string option"
  wb_repo_url :: "string option"

definition is_injective_web :: "web_env \<Rightarrow> bool" where
  "is_injective_web we = (lower (wb_backend we) = ''injective'')"

definition explorer_tx_base :: "web_env \<Rightarrow> string" where
  "explorer_tx_base we =
     (if is_injective_web we
      then get_or (wb_explorer we) ''https://testnet.blockscout.injective.network/tx/''
      else ''https://bscscan.com/tx/'')"

definition web_chain :: "web_env \<Rightarrow> string" where
  "web_chain we = (if is_injective_web we then ''injective'' else ''bsc'')"

section \<open>Orders joined to receipts\<close>

record web_row =
  wr_seq :: int
  wr_ts :: string
  wr_side :: json
  wr_amount_usd :: json
  wr_quantity_base :: json
  wr_cid :: string
  wr_receipt_hash :: string
  wr_cid_ok :: bool
  wr_verdict :: string
  wr_tx :: json
  wr_order_hash :: json
  wr_explorer :: string
  wr_executed :: bool

text \<open>The link to the explorer; only a string has \<open>startswith\<close>.\<close>

definition explorer_link :: "string \<Rightarrow> json \<Rightarrow> py_error + string" where
  "explorer_link base tx =
     (if \<not> truthy tx then Inr []
      else case tx of
        JStr s \<Rightarrow> Inr (base @ (if take 2 s = ''0x'' then s else ''0x'' @ s))
      | _ \<Rightarrow> Inl (AttributeError ''startswith''))"

definition web_row_of :: "string \<Rightarrow> (string \<rightharpoonup> receipt) \<Rightarrow> execution_record \<Rightarrow> py_error + web_row" where
  "web_row_of base recs e =
     (let rh = xr_receipt_hash e; cid = xr_cid e in
      case explorer_link base (xr_tx e) of
        Inl err \<Rightarrow> Inl err
      | Inr link \<Rightarrow> Inr \<lparr>wr_seq = xr_receipt_seq e, wr_ts = xr_ts e, wr_side = xr_order_type e,
          wr_amount_usd = xr_amount_usd e, wr_quantity_base = xr_quantity_base e, wr_cid = cid, wr_receipt_hash = rh,
          wr_cid_ok = (cid \<noteq> [] \<and> cid = receipt_cid rh),
          wr_verdict = (case recs rh of Some r \<Rightarrow> rc_verdict r | None \<Rightarrow> []), wr_tx = xr_tx e,
          wr_order_hash = xr_order_hash e, wr_explorer = link, wr_executed = xr_executed e\<rparr>)"

fun web_rows :: "string \<Rightarrow> (string \<rightharpoonup> receipt) \<Rightarrow> execution_record list \<Rightarrow> py_error + web_row list" where
  "web_rows base recs [] = Inr []"
| "web_rows base recs (e # es) =
     (case web_row_of base recs e of
        Inl err \<Rightarrow> Inl err
      | Inr row \<Rightarrow> (case web_rows base recs es of Inl err \<Rightarrow> Inl err | Inr rows \<Rightarrow> Inr (row # rows)))"

definition web_executions :: "web_env \<Rightarrow> receipt list \<Rightarrow> execution_record list \<Rightarrow> py_error + web_row list" where
  "web_executions we receipts execs = web_rows (explorer_tx_base we) (by_hash receipts) execs"

record executions_answer =
  ea_executions :: "web_row list"
  ea_total :: nat
  ea_all_bound :: bool
  ea_chain :: string

definition api_executions :: "web_env \<Rightarrow> receipt list \<Rightarrow> execution_record list \<Rightarrow> py_error + executions_answer" where
  "api_executions we receipts execs =
     (case web_executions we receipts execs of
        Inl err \<Rightarrow> Inl err
      | Inr ex \<Rightarrow> Inr \<lparr>ea_executions = rev ex, ea_total = length ex, ea_all_bound = list_all wr_cid_ok ex,
          ea_chain = web_chain we\<rparr>)"

section \<open>The overview\<close>

record curve_point =
  wp_nav :: real
  wp_drawdown_pct :: real
  wp_risky_exposure_pct :: real
  wp_regime :: string
  wp_rung :: string

definition live_point :: "equity_point \<Rightarrow> curve_point" where
  "live_point p = \<lparr>wp_nav = eq_nav p, wp_drawdown_pct = eq_drawdown_pct p,
     wp_risky_exposure_pct = eq_risky_exposure_pct p, wp_regime = eq_regime p, wp_rung = eq_rung p\<rparr>"

definition sim_point :: "equity_line \<Rightarrow> curve_point" where
  "sim_point p = \<lparr>wp_nav = sq_nav p, wp_drawdown_pct = sq_drawdown_pct p,
     wp_risky_exposure_pct = sq_risky_exposure_pct p, wp_regime = sq_regime p, wp_rung = rung_text (sq_rung p)\<rparr>"

definition web_equity :: "curve_point list \<Rightarrow> curve_point list \<Rightarrow> curve_point list" where
  "web_equity live sim = (if live \<noteq> [] then live else sim)"

text \<open>\<open>float(_start) if (on_live_curve and _start) else (eq[0]["nav"] if eq else cfg.get("_nav0", 500.0))\<close>\<close>

definition web_nav0 :: "web_env \<Rightarrow> curve_point list \<Rightarrow> curve_point list \<Rightarrow> real" where
  "web_nav0 we live sim =
     (case (live, wb_start_nav we) of
        (_ # _, Some x) \<Rightarrow> x
      | _ \<Rightarrow> (case web_equity live sim of p # _ \<Rightarrow> wp_nav p | [] \<Rightarrow> get_or (wb_cfg_nav0 we) 500))"

definition peak_drawdown :: "curve_point list \<Rightarrow> real" where
  "peak_drawdown eq = (case map wp_drawdown_pct eq of [] \<Rightarrow> 0 | d # ds \<Rightarrow> fold max ds d)"

record overview =
  ov_nav :: real
  ov_nav0 :: real
  ov_return_pct :: real
  ov_drawdown_pct :: real
  ov_peak_drawdown_pct :: real
  ov_gate_pct :: real
  ov_internal_kill_pct :: real
  ov_ladder :: "ladder_entry list"
  ov_risky_exposure_pct :: real
  ov_max_risky_pct :: real
  ov_regime :: string
  ov_rung :: string
  ov_trades :: nat
  ov_abstained :: abstention_summary
  ov_rule_violations :: nat
  ov_x402 :: "nat \<times> real"
  ov_verify :: live_check
  ov_commitment :: commitment
  ov_universe :: "string list"
  ov_chain :: string

definition web_trades :: "receipt list \<Rightarrow> nat" where
  "web_trades receipts = length (filter (\<lambda>r. rc_kind r \<in> {''trade'', ''clamp'', ''exit''}) receipts)"

definition api_overview :: "digest_fun \<Rightarrow> web_env \<Rightarrow> curve_point list \<Rightarrow> curve_point list \<Rightarrow> receipt list \<Rightarrow>
    execution_record list \<Rightarrow> abstention list \<Rightarrow> x402_receipt list \<Rightarrow> py_error + overview" where
  "api_overview H we live sim receipts execs abstentions x402s =
     (let eq = web_equity live sim; nav0 = web_nav0 we live sim; cfg = wb_cfg we;
          nav = (if eq = [] then nav0 else wp_nav (last eq))
      in case max_risky_exposure_pct (risk cfg) of
        None \<Rightarrow> Inl (KeyError ''max_risky_exposure_pct'')
      | Some cap \<Rightarrow> Inr
          \<lparr>ov_nav = nav, ov_nav0 = nav0,
           ov_return_pct = (if nav0 \<noteq> 0 then py_round ((nav / nav0 - 1) * 100) 2 else 0),
           ov_drawdown_pct = (if eq = [] then 0 else wp_drawdown_pct (last eq)),
           ov_peak_drawdown_pct = py_round (peak_drawdown eq) 2,
           ov_gate_pct = risk_cfg.max_drawdown_pct (risk cfg),
           ov_internal_kill_pct = get_or (wb_internal_kill_pct we) 3,
           ov_ladder = drawdown_ladder cfg,
           ov_risky_exposure_pct = (if eq = [] then 0 else wp_risky_exposure_pct (last eq)),
           ov_max_risky_pct = cap * 100,
           ov_regime = (if eq = [] then ''-'' else wp_regime (last eq)),
           ov_rung = (if eq = [] then ''none'' else wp_rung (last eq)),
           ov_trades = web_trades receipts, ov_abstained = ledger_summary abstentions, ov_rule_violations = 0,
           ov_x402 = x402_summary x402s,
           ov_verify = verify_live H (pf_read (wb_pub_files we) (config_path (wb_pub_env we) (wb_pub_files we))) receipts execs,
           ov_commitment = build_commitment H (wb_pub_env we) (wb_pub_files we)
             (get_or (wb_agent_id we) ''sumplus-trader-bnb'') (get_or (wb_repo_url we) []),
           ov_universe = universe cfg, ov_chain = web_chain we\<rparr>)"

section \<open>Feed and replay\<close>

text \<open>\<open>xs[k:]\<close>\<close>

definition py_from :: "int \<Rightarrow> 'a list \<Rightarrow> 'a list" where
  "py_from k xs = drop (if k < 0 then nat (max 0 (int (length xs) + k)) else nat k) xs"

definition api_feed :: "int \<Rightarrow> receipt list \<Rightarrow> receipt list \<times> nat" where
  "api_feed limit recs = (rev (py_from (- limit) recs), length recs)"

record replay_answer =
  ry_receipt :: receipt
  ry_recomputed_hash :: string
  ry_hash_match :: bool
  ry_prev_link_ok :: bool
  ry_committed_policy_hash :: string
  ry_references_committed :: bool

definition api_replay :: "digest_fun \<Rightarrow> json \<Rightarrow> receipt list \<Rightarrow> int \<Rightarrow> replay_answer option" where
  "api_replay H cfg_json recs seq =
     (case find (\<lambda>r. rc_seq r = seq) recs of
        None \<Rightarrow> None
      | Some rec \<Rightarrow>
          let recomputed = compute_hash H rec;
              prev = (if 0 < seq \<and> seq - 1 < int (length recs) then rc_hash (recs ! nat (seq - 1)) else GENESIS);
              committed = policy_hash H cfg_json
          in Some \<lparr>ry_receipt = rec, ry_recomputed_hash = recomputed, ry_hash_match = (recomputed = rc_hash rec),
                   ry_prev_link_ok = (rc_prev_hash rec = prev), ry_committed_policy_hash = committed,
                   ry_references_committed = (rc_policy_hash rec = committed)\<rparr>)"

section \<open>Replay and verification\<close>

lemma numbered_find:
  assumes "numbered recs"
  shows "find (\<lambda>r. rc_seq r = seq) recs =
    (if 0 \<le> seq \<and> seq < int (length recs) then Some (recs ! nat seq) else None)"
proof -
  have seq: "rc_seq (recs ! i) = int i" if "i < length recs" for i
    using assms that unfolding numbered_def by (metis add_0 diff_zero length_upt nth_map nth_upt)
  show ?thesis
  proof (cases "0 \<le> seq \<and> seq < int (length recs)")
    case True
    then have "find (\<lambda>r. rc_seq r = seq) recs = Some (recs ! nat seq)"
      unfolding find_Some_iff by (intro exI [of _ "nat seq"]) (auto simp: seq zless_nat_eq_int_zless)
    with True show ?thesis by simp
  next
    case False
    then have "find (\<lambda>r. rc_seq r = seq) recs = None"
      unfolding find_None_iff by (auto simp: in_set_conv_nth seq)
    with False show ?thesis by (simp only: if_False)
  qed
qed

lemma linked_nth:
  "linked H p recs \<longleftrightarrow> (\<forall>i < length recs. compute_hash H (recs ! i) = rc_hash (recs ! i) \<and>
     rc_prev_hash (recs ! i) = (if i = 0 then p else rc_hash (recs ! (i - 1))))"
proof (induction recs arbitrary: p)
  case (Cons r recs)
  show ?case
    unfolding linked.simps Cons.IH length_Cons All_less_Suc2 by (auto simp: nth_Cons' split: if_splits)
qed simp

text \<open>
  C26. Replaying the receipts one by one is a complete audit: on a log numbered from 0, a replay is found exactly for
  the numbers of the log, and the verifier accepts the chain exactly when every replay reports a matching
  hash and an intact link.
\<close>

theorem replay_audits_chain:
  assumes "numbered recs"
  shows "(api_replay H cfg recs seq \<noteq> None \<longleftrightarrow> 0 \<le> seq \<and> seq < int (length recs)) \<and>
    (cr_ok (verify_chain H expected recs) \<longleftrightarrow>
      (\<forall>seq a. api_replay H cfg recs seq = Some a \<longrightarrow> ry_hash_match a \<and> ry_prev_link_ok a))"
proof -
  have r: "api_replay H cfg recs (int i) = Some \<lparr>ry_receipt = recs ! i, ry_recomputed_hash = compute_hash H (recs ! i),
      ry_hash_match = (compute_hash H (recs ! i) = rc_hash (recs ! i)),
      ry_prev_link_ok = (rc_prev_hash (recs ! i) = (if i = 0 then GENESIS else rc_hash (recs ! (i - 1)))),
      ry_committed_policy_hash = policy_hash H cfg,
      ry_references_committed = (rc_policy_hash (recs ! i) = policy_hash H cfg)\<rparr>" if "i < length recs" for i
    using that by (cases i) (auto simp: api_replay_def numbered_find [OF assms] nat_add_distrib Let_def)
  have none: "api_replay H cfg recs seq = None" if "\<not> (0 \<le> seq \<and> seq < int (length recs))" for seq
    unfolding api_replay_def numbered_find [OF assms] if_not_P [OF that] by simp
  have found: "api_replay H cfg recs seq \<noteq> None" if "0 \<le> seq" "seq < int (length recs)" for seq
    using r [of "nat seq"] that by simp
  have "(\<forall>seq a. api_replay H cfg recs seq = Some a \<longrightarrow> ry_hash_match a \<and> ry_prev_link_ok a) \<longleftrightarrow>
      (\<forall>i < length recs. \<forall>a. api_replay H cfg recs (int i) = Some a \<longrightarrow> ry_hash_match a \<and> ry_prev_link_ok a)"
    using none by (metis nat_0_le nat_less_iff not_None_eq option.distinct(1))
  also have "\<dots> \<longleftrightarrow> linked H GENESIS recs" by (simp add: r linked_nth)
  finally have "cr_ok (verify_chain H expected recs) \<longleftrightarrow>
      (\<forall>seq a. api_replay H cfg recs seq = Some a \<longrightarrow> ry_hash_match a \<and> ry_prev_link_ok a)"
    by (simp add: verify_ok)
  moreover have "api_replay H cfg recs seq \<noteq> None \<longleftrightarrow> 0 \<le> seq \<and> seq < int (length recs)"
    using none [of seq] found [of seq] by metis
  ultimately show ?thesis by blast
qed

theorem replay_audits_chain_witness:
  "\<exists>a. api_replay ex_digest JNull ex_receipts 0 = Some a \<and> ry_hash_match a \<and> ry_prev_link_ok a"
proof -
  have n: "numbered ex_receipts"
    unfolding ex_receipts_def by (rule numbered_append_receipt) (simp add: numbered_def)
  have ok: "cr_ok (verify_chain ex_digest None ex_receipts)"
    by (simp add: verify_ok ex_receipts_def linked_append_receipt)
  have "length ex_receipts = 1" by (simp add: ex_receipts_def append_receipt_def)
  with replay_audits_chain [OF n, of ex_digest JNull 0 None] ok show ?thesis by fastforce
qed

section \<open>What the dashboard shows\<close>

lemma web_rows_cids:
  "web_rows base recs es = Inr rows \<Longrightarrow>
    list_all wr_cid_ok rows \<longleftrightarrow> (\<forall>e \<in> set es. xr_cid e \<noteq> [] \<and> xr_cid e = receipt_cid (xr_receipt_hash e))"
  by (induction es arbitrary: rows) (auto simp: web_row_of_def Let_def split: sum.splits)

text \<open>The dashboard's badge is weaker than the verifier's: orders that the verifier binds are shown as bound, but
  the badge does not ask whether the receipt exists or allowed the trade.\<close>

lemma badge_weaker:
  assumes "api_executions we recs execs = Inr a" "\<forall>e \<in> set execs. xr_cid e \<noteq> []"
    and "lc_executions_bound (verify_live H cfg recs execs)"
  shows "ea_all_bound a"
  using assms
  by (auto simp: api_executions_def web_executions_def verify_live_def Let_def verify_executions_ok bound_to_def
      web_rows_cids split: sum.splits)

lemma badge_without_receipt:
  fixes cid :: string
  defines "cid \<equiv> receipt_cid (''sha256:'' @ zero_hex)"
    and "e \<equiv> new_execution 0 (''sha256:'' @ zero_hex) cid ''t'' True [] None"
  shows "(\<exists>a. api_executions we [] [e] = Inr a \<and> ea_all_bound a) \<and>
    \<not> lc_executions_bound (verify_live H cfg [] [e])"
proof -
  have "cid \<noteq> []" unfolding cid_def by code_simp
  then have "\<exists>a. api_executions we [] [e] = Inr a \<and> ea_all_bound a"
    by (simp add: api_executions_def web_executions_def web_row_of_def explorer_link_def e_def new_execution_def dget_def
        truthy_def cid_def Let_def)
  moreover have "\<not> bound_to [] e" by (simp add: bound_to_def by_hash_def)
  ultimately show ?thesis by (simp add: verify_live_def Let_def verify_executions_ok)
qed

text \<open>A link always ends in a hash with its prefix.\<close>

lemma explorer_link_prefixed:
  "explorer_link base (JStr s) = Inr l \<Longrightarrow> l = [] \<or> (\<exists>h. l = base @ ''0x'' @ h)"
proof -
  have "take 2 s = ''0x'' \<Longrightarrow> s = ''0x'' @ drop 2 s" by (metis append_take_drop_id)
  then show "explorer_link base (JStr s) = Inr l \<Longrightarrow> l = [] \<or> (\<exists>h. l = base @ ''0x'' @ h)"
    unfolding explorer_link_def json.case by (auto split: if_splits)
qed

text \<open>A positive limit gives the newest receipts, newest first; a limit of 0 gives all of them.\<close>

lemma feed_newest:
  "0 < limit \<Longrightarrow> fst (api_feed limit recs) = take (nat limit) (rev recs)"
  "fst (api_feed 0 recs) = rev recs"
  by (auto simp: api_feed_def py_from_def rev_drop nat_diff_distrib' max_def)

lemma fold_max: "fold max ds d = Max (set (d # ds))" for d :: real
  unfolding Max.set_eq_fold ..

lemma peak_drawdown_largest: "p \<in> set eq \<Longrightarrow> wp_drawdown_pct p \<le> peak_drawdown eq"
  by (cases eq) (auto simp: peak_drawdown_def fold_max intro!: Max_ge)

text \<open>The figure "rule violations" is a constant: it is 0 whatever the logs hold.\<close>

lemma violations_constant: "api_overview H we live sim recs execs absts x402s = Inr ov \<Longrightarrow> ov_rule_violations ov = 0"
  by (auto simp: api_overview_def Let_def split: option.splits)

section \<open>Where the files are\<close>

text \<open>\<open>agent/ops/paths.py\<close>; a path is joined with a relative name.\<close>

definition data_dir :: "string option \<Rightarrow> string \<Rightarrow> string" where
  "data_dir env_dir repo_root = (let d = get_or env_dir [] in if d = [] then repo_root else d)"

definition data_path :: "string option \<Rightarrow> string \<Rightarrow> string \<Rightarrow> string" where
  "data_path env_dir repo_root name = data_dir env_dir repo_root @ ''/'' @ name"

text \<open>The simulation writes its curve under the repository (\<open>EQUITY_PATH\<close> of \<open>agent/simulate.py\<close>), the page looks for it in
  the data directory: when that is set to another directory, they never meet.\<close>

definition sim_equity_path :: "string \<Rightarrow> string" where
  "sim_equity_path repo_root = repo_root @ ''/'' @ ''sim_equity.jsonl''"

lemma simulated_curve_missed:
  "data_path env_dir repo_root ''sim_equity.jsonl'' = sim_equity_path repo_root \<longleftrightarrow> data_dir env_dir repo_root = repo_root"
  by (simp add: data_path_def sim_equity_path_def)

text \<open>\<open>_cfg\<close> looks for the configuration from the root of the repository.\<close>

definition web_config_path :: "string \<Rightarrow> pub_env \<Rightarrow> pub_files \<Rightarrow> string" where
  "web_config_path repo_root env fs =
     (let given = get_or (pe_strategy_config env) []; path = (if given = [] then pf_default_config fs else given)
      in if pf_is_abs fs path then path else repo_root @ ''/'' @ path)"

definition web_cfg :: "string \<Rightarrow> pub_env \<Rightarrow> pub_files \<Rightarrow> json" where
  "web_cfg repo_root env fs = pf_read fs (web_config_path repo_root env fs)"

definition api_equity :: "curve_point list \<Rightarrow> curve_point list \<Rightarrow> curve_point list" where
  "api_equity live sim = web_equity live sim"

text \<open>
  The dashboard and the policy hash on it read the same file when \<open>STRATEGY_CONFIG\<close> is unset or an absolute path. An
  empty setting gives the page the default configuration and the hash the empty path, and a relative path is
  taken from the repository by the page and from the working directory by the hash.
\<close>

lemma page_reads_the_hashed_file:
  assumes "pf_is_abs fs (pf_default_config fs)" "pe_strategy_config env = None \<or> (\<exists>p. pe_strategy_config env = Some p \<and> p \<noteq> [] \<and> pf_is_abs fs p)"
  shows "web_config_path repo_root env fs = config_path env fs"
  using assms by (auto simp: web_config_path_def config_path_def get_or_def Let_def)

lemma page_reads_another_file:
  "pe_strategy_config env = Some [] \<Longrightarrow> pf_is_abs fs (pf_default_config fs) \<Longrightarrow>
    web_config_path repo_root env fs = pf_default_config fs \<and> config_path env fs = []"
  "pe_strategy_config env = Some p \<Longrightarrow> p \<noteq> [] \<Longrightarrow> \<not> pf_is_abs fs p \<Longrightarrow>
    web_config_path repo_root env fs = repo_root @ ''/'' @ p \<and> config_path env fs = p"
  by (simp_all add: web_config_path_def config_path_def get_or_def Let_def)

end
