(* ===== verification/InjSend.thy ===== *)
theory InjSend
  imports InjBackend
begin

text \<open>
  The wiring of \<open>InjectiveBackend\<close> (\<open>agent/execution/injective_backend.py\<close>): reading its environment, and
  the transaction that carries an order. The web3 client is the record \<open>order_client\<close> of its answers: the account
  of a key, the nonce, the gas price, the node's reply to a signed transaction, the receipt of a mined one.
\<close>

section \<open>The environment\<close>

text \<open>\<open>int(s)\<close> of a text of decimal digits; a sign and underscores are not modelled.\<close>

definition int_text :: "string \<Rightarrow> py_error + nat" where
  "int_text s = (let t = py_strip s in
     if t \<noteq> [] \<and> list_all is_digit t then Inr (digits_value t) else Inl (ValueError ''invalid literal for int()''))"

record inj_environ =
  en_rpc :: string
  en_executor :: string
  en_key :: string
  en_fee_recipient :: string
  en_subaccount :: "string option"
  en_ref_price :: "real option"
  en_cid :: string
  en_gas_limit :: "string option"

definition inj_configured :: "inj_environ \<Rightarrow> bool" where
  "inj_configured en = (en_rpc en \<noteq> [] \<and> en_executor en \<noteq> [] \<and> en_key en \<noteq> [])"

text \<open>\<open>__init__\<close>: without an explicit choice the backend is in dry run unless it is fully configured.\<close>

definition inj_init :: "inj_env \<Rightarrow> inj_environ \<Rightarrow> bool option \<Rightarrow> nat \<Rightarrow> py_error + inj_backend" where
  "inj_init env en dry_run default_subaccount_index =
     and_then (case en_subaccount en of None \<Rightarrow> Inr default_subaccount_index | Some t \<Rightarrow> int_text t) (\<lambda>k.
       Inr \<lparr>ib_env = env, ib_executor_addr = en_executor en, ib_fee_recipient = en_fee_recipient en,
            ib_subaccount_index = k, ib_ref_price_env = en_ref_price en, ib_env_cid = en_cid en,
            ib_dry_run = (case dry_run of None \<Rightarrow> \<not> inj_configured en | Some b \<Rightarrow> b)\<rparr>)"

section \<open>The transaction\<close>

record order_tx =
  ot_call :: spot_order
  ot_from :: string
  ot_nonce :: int
  ot_gas :: nat
  ot_gas_price :: int
  ot_chain_id :: int

text \<open>A mined receipt: its status, and the arguments of its \<open>SpotMarketOrderPlaced\<close> events (decoding them may raise).\<close>

record mined_receipt =
  mr_status :: int
  mr_events :: "py_error + (string \<times> string) list list"

record order_client =
  oc_account :: "string \<Rightarrow> py_error + string"
  oc_nonce :: "string \<Rightarrow> py_error + int"
  oc_gas_price :: "py_error + int"
  oc_chain_id :: int
  oc_send :: "order_tx \<Rightarrow> py_error + string"
  oc_wait :: "string \<Rightarrow> py_error + mined_receipt"

definition read_order_hash :: "mined_receipt \<Rightarrow> string" where
  "read_order_hash m = (case mr_events m of
     Inr (args # _) \<Rightarrow> get_or (map_of args ''orderHash'') [] | _ \<Rightarrow> [])"

definition order_gas :: "inj_environ \<Rightarrow> py_error + nat" where
  "order_gas en = int_text (get_or (en_gas_limit en) ''2000000'')"

definition build_order_tx :: "order_client \<Rightarrow> inj_environ \<Rightarrow> spot_order \<Rightarrow> py_error + order_tx" where
  "build_order_tx cl en order =
     and_then (oc_account cl (en_key en)) (\<lambda>address.
     and_then (oc_nonce cl address) (\<lambda>nonce.
     and_then (order_gas en) (\<lambda>gas.
     and_then (oc_gas_price cl) (\<lambda>price.
       Inr \<lparr>ot_call = order, ot_from = address, ot_nonce = nonce, ot_gas = gas, ot_gas_price = price,
            ot_chain_id = oc_chain_id cl\<rparr>))))"

text \<open>\<open>_send_order\<close>: the transactions handed to the node, and the transaction and order hashes.\<close>

definition send_order :: "order_client \<Rightarrow> inj_environ \<Rightarrow> spot_order \<Rightarrow> order_tx list \<times> (py_error + string \<times> string)" where
  "send_order cl en order =
     (case build_order_tx cl en order of
        Inl e \<Rightarrow> ([], Inl e)
      | Inr tx \<Rightarrow> ([tx],
          and_then (oc_send cl tx) (\<lambda>tx_hash.
          and_then (oc_wait cl tx_hash) (\<lambda>m.
            if mr_status m \<noteq> 1 then Inl (RuntimeError (''order tx reverted: '' @ tx_hash))
            else Inr (tx_hash, read_order_hash m)))))"

text \<open>The venue whose orders go through the client; \<open>str(e)\<close> is what the backend reports.\<close>

definition wired :: "order_client \<Rightarrow> inj_environ \<Rightarrow> venue \<Rightarrow> venue" where
  "wired cl en ve = ve\<lparr>ve_send := \<lambda>order. map_sum error_text id (snd (send_order cl en order))\<rparr>"

section \<open>Facts\<close>

lemma send_order_once: "length (fst (send_order cl en order)) \<le> 1"
  by (simp add: send_order_def split: sum.split)

lemma send_order_Inr:
  "send_order cl en order = (txs, Inr (h, oh)) \<longleftrightarrow>
    (\<exists>tx m. txs = [tx] \<and> build_order_tx cl en order = Inr tx \<and> oc_send cl tx = Inr h \<and> oc_wait cl h = Inr m \<and>
       mr_status m = 1 \<and> oh = read_order_hash m)"
  by (auto simp: send_order_def and_then_Inr split: sum.splits if_splits)

lemma build_order_tx_call: "build_order_tx cl en order = Inr tx \<Longrightarrow> ot_call tx = order"
  by (auto simp: build_order_tx_def and_then_Inr)

lemma inj_place_wired:
  assumes "inj_place b (wired cl en ve) plan market cid z = (sent, Inr r)" "SpotOrder order \<in> set sent"
  shows "case snd (send_order cl en order) of
      Inl e \<Rightarrow> r = inj_result False False (failed_detail cid z) (Some (error_text e))
    | Inr (tx, oh) \<Rightarrow> r = inj_result (tx \<noteq> []) False (placed_detail tx oh market (sp_order_type plan) cid z) None"
  using assms by (auto simp: inj_place_def wired_def Let_def map_sum_def split: if_splits sum.splits)

text \<open>What is sent does not depend on the client, and a swap that sends returns.\<close>

lemma inj_swap_sent: "fst (inj_swap b (wired cl en ve) a) = fst (inj_swap b ve a)"
proof -
  have w: "ve_books (wired cl en ve) = ve_books ve" "ve_tick_cache (wired cl en ve) = ve_tick_cache ve"
    "ve_tick_answers (wired cl en ve) = ve_tick_answers ve"
    by (simp_all add: wired_def)
  have "size_order b (wired cl en ve) base quote s usd slip = size_order b ve base quote s usd slip" for base quote s usd slip
    unfolding size_order_def ref_price_def w by (rule refl)
  then have "inj_plan b (wired cl en ve) a = inj_plan b ve a" by (simp add: inj_plan_def)
  moreover have "fst (inj_place b (wired cl en ve) plan market cid z) = fst (inj_place b ve plan market cid z)" for plan market cid z
    by (simp add: inj_place_def Let_def split: sum.split)
  ultimately show ?thesis by (simp add: inj_swap_def split: sum.split prod.split)
qed

lemma inj_swap_placed:
  "inj_swap b ve a = (sent, y) \<Longrightarrow> sent \<noteq> [] \<Longrightarrow> \<exists>order r. sent = [SpotOrder order] \<and> y = Inr r"
  by (auto simp: inj_swap_def split: sum.splits prod.splits dest!: inj_place_cases)

lemma details [simp]:
  "dget ''tx'' (failed_detail cid z) = JNull" "dget ''order_hash'' (failed_detail cid z) = JNull"
  "dget ''tx'' (placed_detail tx oh market ot cid z) = JStr tx"
  "dget ''order_hash'' (placed_detail tx oh market ot cid z) = JStr oh"
  by (simp_all add: dget_def failed_detail_def placed_detail_def sizing_detail_def)

section \<open>Claims\<close>

text \<open>
  A backend that is not fully configured broadcasts nothing: without an explicit choice, an unset node, contract
  or key puts it in dry run, and then no swap sends an order, whatever the market and the client answer.
\<close>

theorem unconfigured_sends_nothing:
  assumes "inj_init env en None k = Inr b" "\<not> inj_configured en"
  shows "ib_dry_run b \<and> fst (inj_swap b ve a) = []"
proof -
  have dry: "ib_dry_run b" using assms by (auto simp: inj_init_def and_then_Inr)
  then have "fst (inj_place b ve plan market cid z) = []" for plan market cid z
    by (simp add: inj_place_def)
  with dry show ?thesis by (simp add: inj_swap_def split: sum.split prod.split)
qed

definition ex_inj_environ :: inj_environ where
  "ex_inj_environ = \<lparr>en_rpc = ''http://n'', en_executor = ''0x'' @ replicate 40 CHR ''a'', en_key = ''k'', en_fee_recipient = [],
     en_subaccount = None, en_ref_price = Some 20, en_cid = [], en_gas_limit = None\<rparr>"

theorem unconfigured_sends_nothing_witness:
  "\<exists>b. inj_init mainnet_env (ex_inj_environ\<lparr>en_key := []\<rparr>) None 1 = Inr b \<and> fst (inj_swap b ex_venue ex_swap) = []"
proof -
  obtain b where b: "inj_init mainnet_env (ex_inj_environ\<lparr>en_key := []\<rparr>) None 1 = Inr b"
    by (simp add: inj_init_def ex_inj_environ_def)
  have "\<not> inj_configured (ex_inj_environ\<lparr>en_key := []\<rparr>)" by (simp add: inj_configured_def)
  from unconfigured_sends_nothing [OF b this] b show ?thesis by blast
qed

text \<open>
  C20. What the backend reports about an order that it sent. It reports an execution only for a transaction that
  carries exactly this order, was accepted by the node and mined with status 1, and then the transaction hash and
  the order hash are the real ones. In every other case it reports a failure without a transaction hash, also when
  the node had accepted the transaction and only waiting for its receipt failed: the order may still be
  filled, and neither the result nor the execution log names the transaction.
\<close>

theorem order_outcome_reported:
  assumes "inj_swap b (wired cl en ve) a = (sent, Inr r)" "SpotOrder order \<in> set sent"
  shows "(er_executed r \<longrightarrow> (\<exists>tx h m. fst (send_order cl en order) = [tx] \<and> ot_call tx = order \<and> oc_send cl tx = Inr h \<and>
        oc_wait cl h = Inr m \<and> mr_status m = 1 \<and> dget ''tx'' (er_detail r) = JStr h \<and>
        dget ''order_hash'' (er_detail r) = JStr (read_order_hash m))) \<and>
    (\<forall>tx h e. build_order_tx cl en order = Inr tx \<and> oc_send cl tx = Inr h \<and> oc_wait cl h = Inl e \<longrightarrow>
      fst (send_order cl en order) = [tx] \<and> \<not> er_executed r \<and> er_error r = Some (error_text e) \<and>
      dget ''tx'' (er_detail r) = JNull \<and> dget ''order_hash'' (er_detail r) = JNull)"
proof -
  obtain plan z market where p: "inj_place b (wired cl en ve) plan market (if sw_cid a = [] then ib_env_cid b else sw_cid a) z = (sent, Inr r)"
    using assms by (auto simp: inj_swap_def split: sum.splits)
  note out = inj_place_wired [OF p assms(2)]
  show ?thesis
  proof (intro conjI impI allI)
    assume ex: "er_executed r"
    with out obtain h oh where s: "snd (send_order cl en order) = Inr (h, oh)"
      "r = inj_result (h \<noteq> []) False (placed_detail h oh market (sp_order_type plan) (if sw_cid a = [] then ib_env_cid b else sw_cid a) z) None"
      by (auto split: sum.splits)
    obtain txs where "send_order cl en order = (txs, Inr (h, oh))" using s(1) by (cases "send_order cl en order") auto
    then obtain tx m where "fst (send_order cl en order) = [tx]" "build_order_tx cl en order = Inr tx" "oc_send cl tx = Inr h"
      "oc_wait cl h = Inr m" "mr_status m = 1" "oh = read_order_hash m"
      unfolding send_order_Inr using \<open>send_order cl en order = (txs, Inr (h, oh))\<close> by auto
    with s(2) build_order_tx_call show "\<exists>tx h m. fst (send_order cl en order) = [tx] \<and> ot_call tx = order \<and> oc_send cl tx = Inr h \<and>
        oc_wait cl h = Inr m \<and> mr_status m = 1 \<and> dget ''tx'' (er_detail r) = JStr h \<and>
        dget ''order_hash'' (er_detail r) = JStr (read_order_hash m)"
      by (intro exI [of _ tx] exI [of _ h] exI [of _ m]) simp
  next
    fix tx h e
    assume w: "build_order_tx cl en order = Inr tx \<and> oc_send cl tx = Inr h \<and> oc_wait cl h = Inl e"
    then have s: "send_order cl en order = ([tx], Inl e)" by (simp add: send_order_def)
    with out show "fst (send_order cl en order) = [tx]" "\<not> er_executed r" "er_error r = Some (error_text e)"
      "dget ''tx'' (er_detail r) = JNull" "dget ''order_hash'' (er_detail r) = JNull"
      by simp_all
  qed
qed

definition ex_timeout_client :: order_client where
  "ex_timeout_client = \<lparr>oc_account = (\<lambda>k. Inr ''0xme''), oc_nonce = (\<lambda>a. Inr 7), oc_gas_price = Inr 1, oc_chain_id = 1776,
     oc_send = (\<lambda>tx. Inr ''0xabc''), oc_wait = (\<lambda>h. Inl (RuntimeError ''TimeExhausted''))\<rparr>"

theorem order_outcome_reported_witness:
  "\<exists>order r. snd (inj_swap ex_inj_backend (wired ex_timeout_client ex_inj_environ ex_venue) ex_swap) = Inr r \<and>
     fst (send_order ex_timeout_client ex_inj_environ order) \<noteq> [] \<and> \<not> er_executed r \<and> dget ''tx'' (er_detail r) = JNull"
proof -
  let ?s = "inj_swap ex_inj_backend (wired ex_timeout_client ex_inj_environ ex_venue) ex_swap"
  obtain sent y where y: "?s = (sent, y)" by fastforce
  have "length (fst (inj_swap ex_inj_backend ex_venue ex_swap)) = 1" by code_simp
  moreover have "sent = fst (inj_swap ex_inj_backend ex_venue ex_swap)"
    using inj_swap_sent [of ex_inj_backend ex_timeout_client ex_inj_environ ex_venue ex_swap] by (simp only: y fst_conv)
  ultimately have "sent \<noteq> []" by auto
  from inj_swap_placed [OF y this] obtain order r where s: "?s = ([SpotOrder order], Inr r)" using y by auto
  have g: "order_gas ex_inj_environ = Inr 2000000"
    by (simp add: order_gas_def int_text_def ex_inj_environ_def get_or_def py_strip_def is_space_def is_digit_def digits_value_def)
  obtain tx where "build_order_tx ex_timeout_client ex_inj_environ order = Inr tx"
    by (simp add: build_order_tx_def ex_timeout_client_def g)
  moreover have "oc_send ex_timeout_client tx = Inr ''0xabc''"
    "oc_wait ex_timeout_client ''0xabc'' = Inl (RuntimeError ''TimeExhausted'')"
    by (simp_all add: ex_timeout_client_def)
  ultimately show ?thesis
    using order_outcome_reported [OF s, of order] s by (intro exI [of _ order] exI [of _ r]) simp
qed

end
