(* ===== verification/Wallet.thy ===== *)
theory Wallet
  imports Jsonl Brain
begin

text \<open>
  \<open>agent/wallet.py\<close> and \<open>agent/identity/register_8004.py\<close>: the agent's wallet and its registration as an ERC-8004
  identity. web3 and the explorer are arguments that answer or raise: the account of a key, the calldata of a call under
  an ABI, the nonce, the gas price, the reply to a signed transaction, the status of a mined one.
\<close>

section \<open>The wallet\<close>

definition address_from_env :: "string option \<Rightarrow> string option" where
  "address_from_env v = (case v of None \<Rightarrow> None | Some a \<Rightarrow> if a = [] then None else Some a)"

definition native_balance :: "(string \<Rightarrow> string \<Rightarrow> py_error + int) \<Rightarrow> string \<Rightarrow> string \<Rightarrow> py_error + real" where
  "native_balance get_balance rpc_url address =
     and_then (get_balance rpc_url address) (\<lambda>wei. Inr (of_int wei / 10 ^ 18))"

definition erc20_balance :: "(string \<Rightarrow> string \<Rightarrow> string \<Rightarrow> py_error + int) \<Rightarrow> string \<Rightarrow> string \<Rightarrow> string \<Rightarrow> nat \<Rightarrow>
    py_error + real" where
  "erc20_balance balance_of rpc_url token address decimals =
     and_then (balance_of rpc_url token address) (\<lambda>raw. Inr (of_int raw / 10 ^ decimals))"

section \<open>The ABI\<close>

record abi_env =
  ae_fetch :: "string option"
  ae_explorer_key :: string
  ae_registry :: string
  ae_file :: string

text \<open>\<open>str(x) == "1"\<close> of a JSON value.\<close>

definition is_one :: "json \<Rightarrow> bool" where
  "is_one j = (j = JStr ''1'' \<or> j = JInt 1)"

text \<open>\<open>json.loads(x)\<close> of a value that must be a text.\<close>

definition loads_json :: "json \<Rightarrow> py_error + json" where
  "loads_json j = (case j of JStr t \<Rightarrow> py_loads t | _ \<Rightarrow> Inl (TypeError ''the JSON object must be str''))"

definition fetch_abi :: "(string \<Rightarrow> string \<Rightarrow> py_error + json) \<Rightarrow> string \<Rightarrow> string \<Rightarrow> py_error + json option" where
  "fetch_abi explorer key address =
     (if key = [] then Inr None
      else and_then (explorer address key) (\<lambda>data.
           and_then (py_get data ''status'' JNull) (\<lambda>status.
             if is_one status
             then and_then (py_index data ''result'') (\<lambda>r. and_then (loads_json r) (\<lambda>abi. Inr (Some abi)))
             else Inr None)))"

definition file_abi :: "abi_env \<Rightarrow> py_error + json" where
  "file_abi env = and_then (py_loads (ae_file env)) (\<lambda>j. py_index j ''abi'')"

definition load_abi :: "(string \<Rightarrow> string \<Rightarrow> py_error + json) \<Rightarrow> abi_env \<Rightarrow> py_error + json" where
  "load_abi explorer env =
     (if ae_fetch env = Some ''1''
      then and_then (fetch_abi explorer (ae_explorer_key env) (ae_registry env)) (\<lambda>fetched.
             case fetched of Some abi \<Rightarrow> if truthy abi then Inr abi else file_abi env | None \<Rightarrow> file_abi env)
      else file_abi env)"

section \<open>Registration\<close>

record register_tx =
  gt_to :: string
  gt_from :: string
  gt_nonce :: int
  gt_gas :: nat
  gt_gas_price :: int
  gt_calldata :: string

record registry_client =
  gc_account :: "string \<Rightarrow> py_error + string"
  gc_checksum :: "string \<Rightarrow> py_error + string"
  gc_calldata :: "json \<Rightarrow> string \<Rightarrow> (string \<times> string) list \<Rightarrow> py_error + string"
  gc_nonce :: "string \<Rightarrow> py_error + int"
  gc_gas_price :: "py_error + int"
  gc_send :: "register_tx \<Rightarrow> py_error + string"
  gc_status :: "string \<Rightarrow> py_error + int"

datatype register_result =
    RegisterDry (rr_to: string) (rr_from: string) (rr_calldata: string) (rr_token_uri: string)
  | Registered (rr_tx_hash: string) (rr_agent: string) (rr_status: int)

definition token_uri :: "string \<Rightarrow> string" where
  "token_uri agent_domain = ''https://'' @ agent_domain @ ''/.well-known/agent.json''"

definition REGISTER_METADATA :: "(string \<times> string) list" where
  "REGISTER_METADATA = [(''name'', ''Sumplus Trading Agent''), (''type'', ''autonomous-trader'')]"

text \<open>The account, the registry and the calldata of the call; nothing has been sent yet.\<close>

definition registration :: "registry_client \<Rightarrow> (string \<Rightarrow> string \<Rightarrow> py_error + json) \<Rightarrow> abi_env \<Rightarrow> string \<Rightarrow> string \<Rightarrow>
    string \<Rightarrow> py_error + string \<times> string \<times> string" where
  "registration cl explorer env registry_addr private_key agent_domain =
     and_then (gc_account cl private_key) (\<lambda>address.
     and_then (gc_checksum cl registry_addr) (\<lambda>registry.
     and_then (load_abi explorer env) (\<lambda>abi.
     and_then (gc_calldata cl abi (token_uri agent_domain) REGISTER_METADATA) (\<lambda>data. Inr (address, registry, data)))))"

text \<open>\<open>register\<close>: the transactions handed to the node, and the outcome.\<close>

definition register_agent :: "registry_client \<Rightarrow> (string \<Rightarrow> string \<Rightarrow> py_error + json) \<Rightarrow> abi_env \<Rightarrow> string \<Rightarrow> string \<Rightarrow>
    string \<Rightarrow> bool \<Rightarrow> register_tx list \<times> (py_error + register_result)" where
  "register_agent cl explorer env registry_addr private_key agent_domain dry_run =
     (case registration cl explorer env registry_addr private_key agent_domain of
        Inl e \<Rightarrow> ([], Inl e)
      | Inr (address, registry, data) \<Rightarrow>
          if dry_run then ([], Inr (RegisterDry registry address data (token_uri agent_domain)))
          else case and_then (gc_nonce cl address) (\<lambda>nonce. and_then (gc_gas_price cl) (\<lambda>price.
                 Inr \<lparr>gt_to = registry, gt_from = address, gt_nonce = nonce, gt_gas = 400000, gt_gas_price = price,
                      gt_calldata = data\<rparr>)) of
              Inl e \<Rightarrow> ([], Inl e)
            | Inr tx \<Rightarrow> ([tx], and_then (gc_send cl tx) (\<lambda>h. and_then (gc_status cl h) (\<lambda>st. Inr (Registered h address st)))))"

section \<open>What registration sends\<close>

lemma register_dry: "fst (register_agent cl explorer env registry key domain True) = []"
  by (simp add: register_agent_def split: sum.split)

text \<open>The dry run encodes exactly the calldata that the transaction carries.\<close>

lemma dry_run_predicts:
  assumes "register_agent cl explorer env registry key domain False = ([tx], x)"
  shows "register_agent cl explorer env registry key domain True =
    ([], Inr (RegisterDry (gt_to tx) (gt_from tx) (gt_calldata tx) (token_uri domain)))"
  using assms by (auto simp: register_agent_def and_then_Inr split: sum.splits)

text \<open>A reverted registration is reported like a good one: only the status tells.\<close>

lemma reverted_registration:
  assumes "register_agent cl explorer env registry key domain False = ([tx], Inr r)"
  shows "\<exists>h st. r = Registered h (gt_from tx) st \<and> gc_send cl tx = Inr h \<and> gc_status cl h = Inr st"
  using assms by (auto simp: register_agent_def and_then_Inr split: sum.splits if_splits)

text \<open>With fetching on, the ABI is that of the configured registry even if another address is registered with.\<close>

lemma abi_ignores_address:
  "registration cl explorer env addr key domain = Inr (a, r, d) \<Longrightarrow>
    \<exists>abi. load_abi explorer env = Inr abi \<and> gc_calldata cl abi (token_uri domain) REGISTER_METADATA = Inr d"
  by (auto simp: registration_def and_then_Inr)

end
