(* ===== verification/Cli.thy ===== *)
theory Cli
  imports InjSend Simulate Identity Wallet RpcPool
begin

text \<open>
  \<open>agent/cli.py\<close>: the commands and what they run, and \<open>_rpc_pool\<close> of \<open>agent/run_live.py\<close>. Printing, the web server and the
  text of the help are left out. The last section is the command line of the publishing module. \<open>float\<close> of an argument is a parameter.
\<close>

section \<open>Commands\<close>

datatype command = DemoCmd | TickCmd | SimulateCmd real | VerifyCmd | CommitCmd bool | WebCmd nat | LoopCmd | RegisterCmd | Usage

definition cli_command :: "(string \<Rightarrow> real option) \<Rightarrow> string list \<Rightarrow> py_error + command" where
  "cli_command float_of argv =
     (let args = (if argv = [] then [''demo''] else argv); cmd = hd args in
      if cmd = ''demo'' then Inr DemoCmd
      else if cmd = ''tick'' then Inr TickCmd
      else if cmd = ''simulate'' then
        (if 1 < length args
         then case float_of (args ! 1) of Some w \<Rightarrow> Inr (SimulateCmd w) | None \<Rightarrow> Inl (ValueError ''could not convert string to float'')
         else Inr (SimulateCmd 1))
      else if cmd = ''verify'' then Inr VerifyCmd
      else if cmd = ''commit'' then Inr (CommitCmd (''--send'' \<notin> set args))
      else if cmd = ''web'' then (if 1 < length args then map_sum id WebCmd (int_text (args ! 1)) else Inr (WebCmd 8800))
      else if cmd = ''loop'' then Inr LoopCmd
      else if cmd = ''register'' then Inr RegisterCmd
      else Inr Usage)"

definition exit_status :: "command \<Rightarrow> nat" where
  "exit_status c = (if c = Usage then 1 else 0)"

text \<open>\<open>tick\<close>: one decision from a fixed state, with the backend that the factory gives for \<open>"mock"\<close>.\<close>

definition cli_state :: agent_state where
  "cli_state = \<lparr>st_positions = [], st_nav = Some 500, st_portfolio_value_usd = None, st_stable_usd = Some 500,
     st_high_water_mark = Some 500, st_last_trade_ts = None, st_trades_this_week = None,
     st_trades_last_hour = None, st_intent_seq = None, st_pending_intent = None\<rparr>"

record cli_env =
  ce_digest :: digest_fun
  ce_policy_hash :: string
  ce_wall :: real
  ce_cfg :: config
  ce_execution_backend :: string
  ce_maria_url_set :: bool
  ce_backends :: "backend_kind \<Rightarrow> backend"

definition cli_executor :: "cli_env \<Rightarrow> executor" where
  "cli_executor ce =
     \<lparr>x_backend = ce_backends ce (make_backend (ce_execution_backend ce) (ce_maria_url_set ce) Mock),
      x_mode = Mock, x_slippage_bps = 50\<rparr>"

definition cli_tick_env :: "cli_env \<Rightarrow> tick_env" where
  "cli_tick_env ce = \<lparr>te_digest = ce_digest ce, te_policy_hash = ce_policy_hash ce, te_wall = ce_wall ce,
     te_persist = False, te_executor = Some (cli_executor ce)\<rparr>"

definition cli_tick :: "cli_env \<Rightarrow> token_view list \<Rightarrow> real \<Rightarrow> world \<Rightarrow> world \<times> (py_error + tick_result \<times> agent_state)" where
  "cli_tick ce views data_ts w = tick (cli_tick_env ce) (ce_cfg ce) cli_state views data_ts None w"

text \<open>\<open>simulate\<close>, \<open>commit\<close> and \<open>register\<close>, with the defaults of the functions they call.\<close>

definition cli_simulate :: "sim_params \<Rightarrow> (nat \<Rightarrow> real) \<Rightarrow> real \<Rightarrow> world \<Rightarrow> x402_receipt list \<Rightarrow> sim_run \<times> (py_error + sim_summary)" where
  "cli_simulate sp draws weeks w l = simulate sp draws weeks 2 500 True w l"

definition cli_commit :: "digest_fun \<Rightarrow> pub_env \<Rightarrow> pub_files \<Rightarrow> (string \<Rightarrow> web3_client) \<Rightarrow> bool \<Rightarrow> unsigned_tx list \<times> publication" where
  "cli_commit H env fs web3 dry_run = publish H env fs web3 dry_run None"

definition cli_register :: "(string \<Rightarrow> registry_client) \<Rightarrow> (string \<Rightarrow> string \<Rightarrow> py_error + json) \<Rightarrow> abi_env \<Rightarrow> string option \<Rightarrow>
    string option \<Rightarrow> string option \<Rightarrow> register_tx list \<times> (py_error + register_result)" where
  "cli_register web3 explorer env bsc_rpc key domain =
     (case bsc_rpc of None \<Rightarrow> ([], Inl (KeyError ''BSC_RPC''))
      | Some url \<Rightarrow> (case key of None \<Rightarrow> ([], Inl (KeyError ''AGENT_WALLET_PRIVATE_KEY''))
          | Some k \<Rightarrow> register_agent (web3 url) explorer env (ae_registry env) k (get_or domain ''sumplus.xyz'') False))"

section \<open>The endpoints of the loop\<close>

text \<open>\<open>s.split(c)\<close> for one character.\<close>

fun split_on :: "char \<Rightarrow> string \<Rightarrow> string list" where
  "split_on c [] = [[]]"
| "split_on c (x # s) = (if x = c then [] # split_on c s
     else case split_on c s of [] \<Rightarrow> [[x]] | w # ws \<Rightarrow> (x # w) # ws)"

definition DEFAULT_RPC :: string where
  "DEFAULT_RPC = ''https://bsc-dataseed.binance.org,https://bsc-dataseed1.defibit.io,https://rpc.ankr.com/bsc''"

definition live_endpoints :: "string option \<Rightarrow> string list" where
  "live_endpoints bsc_rpc =
     map py_strip (filter (\<lambda>e. py_strip e \<noteq> []) (split_on CHR '','' (get_or bsc_rpc DEFAULT_RPC)))"

definition live_pool :: "string option \<Rightarrow> real \<Rightarrow> py_error + rpc_pool" where
  "live_pool bsc_rpc cooldown_s = init_pool (live_endpoints bsc_rpc) cooldown_s"

section \<open>Facts\<close>

lemma split_on_nonempty [simp]: "split_on c s \<noteq> []"
  by (cases s) (simp_all split: list.split)

lemma split_on_append: "c \<notin> set a \<Longrightarrow> split_on c (a @ c # s) = a # split_on c s"
  by (induction a) auto

lemma split_on_none: "c \<notin> set a \<Longrightarrow> split_on c a = [a]"
  by (induction a) auto

lemma split_on_join: "ws \<noteq> [] \<Longrightarrow> \<forall>w \<in> set ws. c \<notin> set w \<Longrightarrow> split_on c (join [c] ws) = ws"
  by (induction "[c]" ws rule: join.induct) (simp_all add: split_on_none split_on_append)

text \<open>A list of endpoints without commas and outer blanks is read as it was written.\<close>

lemma live_endpoints_join:
  assumes "es \<noteq> []" "\<forall>e \<in> set es. e \<noteq> [] \<and> py_strip e = e \<and> CHR '','' \<notin> set e"
  shows "live_endpoints (Some (join '','' es)) = es"
proof -
  have "split_on CHR '','' (join '','' es) = es" using assms by (intro split_on_join) auto
  moreover have "map py_strip (filter (\<lambda>e. py_strip e \<noteq> []) es) = es"
    using assms(2) by (induction es) auto
  ultimately show ?thesis by (simp add: live_endpoints_def get_or_def)
qed

text \<open>An empty setting, unlike an unset one, leaves the loop without endpoints: it cannot start.\<close>

lemma empty_rpc_stops: "live_pool (Some []) c = Inl (ValueError ''at least one RPC endpoint is required'')"
  by (simp add: live_pool_def live_endpoints_def get_or_def init_pool_def py_strip_def)

lemma commit_needs_send:
  "cli_command float_of argv = Inr (CommitCmd dry) \<Longrightarrow> ''--send'' \<notin> set argv \<Longrightarrow> fst (cli_commit H env fs web3 dry) = []"
  by (auto simp: cli_command_def cli_commit_def publish_def Let_def map_sum_def
      split: if_splits option.splits sum.splits prod.splits)

lemma tick_sends:
  assumes "tick env cfg s views data_ts now_opt w = (w', x)" "te_executor env = Some xr"
    and "tick_decide env cfg s views data_ts (tick_time env now_opt) = Inr (i, d, v)" "allowed v" "is_trade d"
  shows "\<exists>cid sent ans. execute (x_backend xr) (x_mode xr) (x_slippage_bps xr) d (v_final_amount_usd v) cid = (sent, ans) \<and>
    Sent ` set sent \<subseteq> set (drop (length (w_trace w)) (w_trace w'))"
  using assms(1)
proof (cases rule: tick_cases)
  case (Undecided e)
  with assms(3) show ?thesis by simp
next
  case (Decided i' d' v' w2 y)
  then have same: "i' = i" "d' = d" "v' = v" using assms(3) by simp_all
  let ?r = "new_receipt (te_digest env) (tick_args env s views now_opt d v) (w_receipts w)"
  obtain trace res where tr: "run_executor env (s\<lparr>st_pending_intent := None\<rparr>) d
      (v_final_amount_usd v) (receipt_cid (rc_hash ?r)) (tick_time env now_opt) = (trace, res)"
      "w_trace w' = w_trace w @ [Receipted (rc_hash ?r)] @ trace"
    using Decided(2) unfolding same
    by (cases rule: tick_execute_cases) (use assms(4,5) Decided(5) same in auto)
  from run_executor_trace [OF tr(1)] assms(2) obtain staged sent ans where
    "trace = staged @ map Sent sent"
    "execute (x_backend xr) (x_mode xr) (x_slippage_bps xr) d (v_final_amount_usd v) (receipt_cid (rc_hash ?r)) = (sent, ans)"
    by auto
  with tr(2) show ?thesis by (intro exI [of _ "receipt_cid (rc_hash ?r)"] exI [of _ sent] exI [of _ ans]) auto
qed

lemma tick_quiet:
  assumes "tick env cfg s views data_ts now_opt w = (w', x)"
    and "\<And>xr d amt cid. te_executor env = Some xr \<Longrightarrow> fst (execute (x_backend xr) (x_mode xr) (x_slippage_bps xr) d amt cid) = []"
  shows "Sent b \<notin> set (drop (length (w_trace w)) (w_trace w'))"
  using assms(1)
proof (cases rule: tick_cases)
  case (Undecided e)
  then show ?thesis by simp
next
  case (Decided i d v w2 y)
  have quiet: "Sent b \<notin> set trace" if "run_executor env s' d amt cid now = (trace, res)" for s' amt cid now trace res
  proof -
    from run_executor_trace [OF that] obtain staged sent where t: "trace = staged @ map Sent sent"
      "staged = [] \<or> (\<exists>st. staged = [Persisted st])"
      "case te_executor env of None \<Rightarrow> sent = [] | Some x \<Rightarrow>
         \<exists>ans. execute (x_backend x) (x_mode x) (x_slippage_bps x) d amt cid = (sent, ans)" by blast
    have "sent = []"
    proof (cases "te_executor env")
      case (Some xr)
      with t(3) obtain ans where "execute (x_backend xr) (x_mode xr) (x_slippage_bps xr) d amt cid = (sent, ans)" by auto
      with assms(2) [OF Some, of d amt cid] show ?thesis by simp
    qed (use t(3) in simp)
    with t(1,2) show ?thesis by auto
  qed
  show ?thesis
    using Decided(2)
    by (cases rule: tick_execute_cases) (use Decided(5) quiet in auto)
qed

text \<open>Without an executor nothing is logged as executed.\<close>

lemma tick_no_executor:
  assumes "tick env cfg s views data_ts now_opt w = (w', x)" "te_executor env = None"
  shows "w_executions w' = w_executions w"
  using assms(1)
proof (cases rule: tick_cases)
  case (Decided i d v w2 y)
  show ?thesis
    using Decided(2)
    by (cases rule: tick_execute_cases) (use Decided(4) assms(2) in \<open>auto simp: run_executor_def log_execution_def\<close>)
qed simp

lemma sim_step_executions: "w_executions (sm_world (fst (sim_step sp series h run))) = w_executions (sm_world run)"
proof -
  have "te_executor (sim_env sp h) = None" by (simp add: sim_env_def)
  note e = tick_no_executor [OF _ this]
  show ?thesis
    by (auto simp: sim_step_def Let_def sim_record_def split: sum.splits prod.splits dest!: e)
qed

lemma sim_hours_executions: "w_executions (sm_world (fst (sim_hours sp series hs run))) = w_executions (sm_world run)"
proof (induction hs arbitrary: run)
  case (Cons h hs)
  show ?case
    using Cons [of "fst (sim_step sp series h run)"] sim_step_executions [of sp series h run]
    by (auto split: prod.split option.split)
qed simp

section \<open>Claims\<close>

text \<open>
  C8. The command \<open>tick\<close>, documented as offline, is offline only while \<open>EXECUTION_BACKEND\<close> does not name a chain. When
  it is neither \<open>twak\<close> nor \<open>injective\<close> the tick sends nothing. Otherwise the factory ignores the mode \<open>"mock"\<close>, and
  the executor, in a mode that is not \<open>"paper"\<close>, has the chain's backend carry out every trade that the policy lets
  through: what the backend sends for it is sent, with no pending intent staged before.
\<close>

theorem tick_command_offline:
  assumes "cli_tick ce views data_ts w = (w', x)" "ce_backends ce MockKind = mock_backend"
  shows "(lower (ce_execution_backend ce) \<notin> {''twak'', ''injective''} \<longrightarrow>
      (\<forall>b. Sent b \<notin> set (drop (length (w_trace w)) (w_trace w')))) \<and>
    (\<forall>kind i d v. (kind = TwakKind \<and> lower (ce_execution_backend ce) = ''twak'' \<or>
          kind = InjectiveKind \<and> lower (ce_execution_backend ce) = ''injective'') \<and>
        tick_decide (cli_tick_env ce) (ce_cfg ce) cli_state views data_ts (ce_wall ce) = Inr (i, d, v) \<and>
        allowed v \<and> is_trade d \<longrightarrow>
      (\<exists>cid sent ans. b_swap (ce_backends ce kind) (swap_request (ce_backends ce kind) 50 d (v_final_amount_usd v) cid) = (sent, ans) \<and>
        Sent ` set sent \<subseteq> set (drop (length (w_trace w)) (w_trace w'))))"
proof (intro conjI impI allI)
  have t: "tick (cli_tick_env ce) (ce_cfg ce) cli_state views data_ts None w = (w', x)"
    using assms(1) by (simp add: cli_tick_def)
  have ex: "te_executor (cli_tick_env ce) = Some (cli_executor ce)" by (simp add: cli_tick_env_def)
  {
    fix b
    assume "lower (ce_execution_backend ce) \<notin> {''twak'', ''injective''}"
    then have "make_backend (ce_execution_backend ce) (ce_maria_url_set ce) Mock = MockKind" by (simp add: make_backend_def Let_def)
    then have "x_backend (cli_executor ce) = mock_backend" "x_mode (cli_executor ce) = Mock"
      using assms(2) by (simp_all add: cli_executor_def)
    then have "fst (execute (x_backend xr) (x_mode xr) (x_slippage_bps xr) d amt cid) = []"
      if "te_executor (cli_tick_env ce) = Some xr" for xr d amt cid
      using that ex by (simp add: execute_def mock_backend_def Let_def)
    from tick_quiet [OF t this] show "Sent b \<notin> set (drop (length (w_trace w)) (w_trace w'))" .
  }
  fix kind i d v
  assume k: "(kind = TwakKind \<and> lower (ce_execution_backend ce) = ''twak'' \<or>
          kind = InjectiveKind \<and> lower (ce_execution_backend ce) = ''injective'') \<and>
        tick_decide (cli_tick_env ce) (ce_cfg ce) cli_state views data_ts (ce_wall ce) = Inr (i, d, v) \<and>
        allowed v \<and> is_trade d"
  then have "make_backend (ce_execution_backend ce) (ce_maria_url_set ce) Mock = kind" by (auto simp: make_backend_def Let_def)
  then have b: "x_backend (cli_executor ce) = ce_backends ce kind" "x_mode (cli_executor ce) = Mock" "x_slippage_bps (cli_executor ce) = 50"
    by (simp_all add: cli_executor_def)
  have "tick_time (cli_tick_env ce) None = ce_wall ce" by (simp add: tick_time_def cli_tick_env_def)
  with k tick_sends [OF t ex] obtain cid sent ans where
    "execute (ce_backends ce kind) Mock 50 d (v_final_amount_usd v) cid = (sent, ans)"
    "Sent ` set sent \<subseteq> set (drop (length (w_trace w)) (w_trace w'))"
    unfolding b by metis
  then show "\<exists>cid sent ans. b_swap (ce_backends ce kind) (swap_request (ce_backends ce kind) 50 d (v_final_amount_usd v) cid) = (sent, ans) \<and>
        Sent ` set sent \<subseteq> set (drop (length (w_trace w)) (w_trace w'))"
    by (intro exI [of _ cid] exI [of _ sent] exI [of _ ans]) (simp add: execute_def Let_def)
qed

definition ex_cli :: cli_env where
  "ex_cli = \<lparr>ce_digest = ex_digest, ce_policy_hash = policy_hash ex_digest JNull, ce_wall = 1060, ce_cfg = bnb_config,
     ce_execution_backend = ''TWAK'', ce_maria_url_set = False,
     ce_backends = (\<lambda>k. if k = TwakKind then x_backend ex_live else mock_backend)\<rparr>"

lemma ex_cli_decides: "case tick_decide (cli_tick_env ex_cli) bnb_config cli_state ex_views 1000 1060 of
    Inr (i, d, v) \<Rightarrow> allowed v \<and> is_trade d | Inl _ \<Rightarrow> False"
  by code_simp

theorem tick_command_offline_witness:
  "\<exists>cmd. Sent (ShellSwap cmd) \<in> set (w_trace (fst (cli_tick ex_cli ex_views 1000 empty_world)))"
proof -
  obtain w' x where t: "cli_tick ex_cli ex_views 1000 empty_world = (w', x)" by fastforce
  have tw: "lower ''TWAK'' = ''twak''" by code_simp
  have env: "ce_execution_backend ex_cli = ''TWAK''" "ce_backends ex_cli MockKind = mock_backend" "ce_wall ex_cli = 1060"
    "ce_backends ex_cli TwakKind = x_backend ex_live" "ce_cfg ex_cli = bnb_config"
    by (simp_all add: ex_cli_def)
  obtain i d v where d: "tick_decide (cli_tick_env ex_cli) bnb_config cli_state ex_views 1000 1060 = Inr (i, d, v)"
    "allowed v" "is_trade d"
    using ex_cli_decides by (auto split: sum.splits)
  obtain cid sent ans where
    "b_swap (x_backend ex_live) (swap_request (x_backend ex_live) 50 d (v_final_amount_usd v) cid) = (sent, ans)"
    "Sent ` set sent \<subseteq> set (drop (length (w_trace empty_world)) (w_trace w'))"
    using tick_command_offline [OF t env(2), THEN conjunct2, rule_format, of TwakKind i d v] d tw env by auto
  moreover from this obtain cmd where "sent = [ShellSwap cmd]" using ex_live_sends by blast
  ultimately show ?thesis using t by (auto simp: empty_world_def)
qed

text \<open>
  C9. The command \<open>simulate\<close> erases the audit trail. It runs on the files of production and starts by removing the
  receipts and the abstentions: its outcome is the same whatever receipts and abstentions there were, while the logged
  executions stay, so that afterwards the public verifier rejects the logs if an order had been logged against
  a receipt whose hash the simulation did not happen to produce again.
\<close>

theorem simulate_erases_the_trail:
  assumes "cli_simulate sp draws weeks w l = (run, x)"
  shows "cli_simulate sp draws weeks (w\<lparr>w_receipts := rs, w_abstentions := as\<rparr>) l = (run, x) \<and>
    w_executions (sm_world run) = w_executions w \<and>
    (\<forall>rec \<in> set (w_executions w). xr_receipt_hash rec \<notin> rc_hash ` set (w_receipts (sm_world run)) \<longrightarrow>
      \<not> lc_executions_bound (verify_live H cfg (w_receipts (sm_world run)) (w_executions (sm_world run))))"
proof (intro conjI ballI impI)
  have start: "sim_start 500 True (w\<lparr>w_receipts := rs, w_abstentions := as\<rparr>) l = sim_start 500 True w l"
    by (simp add: sim_start_def)
  show "cli_simulate sp draws weeks (w\<lparr>w_receipts := rs, w_abstentions := as\<rparr>) l = (run, x)"
    using assms unfolding cli_simulate_def simulate_def start by simp
  show e: "w_executions (sm_world run) = w_executions w"
  proof -
    have "w_executions (sm_world (sim_start 500 True w l)) = w_executions w" by (simp add: sim_start_def)
    then show ?thesis
      using assms sim_hours_executions [of sp _ _ "sim_start 500 True w l"]
      by (auto simp: cli_simulate_def simulate_def Let_def split: sum.splits prod.splits option.splits) (metis fst_conv)+
  qed
  fix rec
  assume rec: "rec \<in> set (w_executions w)" "xr_receipt_hash rec \<notin> rc_hash ` set (w_receipts (sm_world run))"
  then have "\<not> bound_to (w_receipts (sm_world run)) rec"
    using by_hash_in unfolding bound_to_def by (metis image_eqI)
  with rec(1) show "\<not> lc_executions_bound (verify_live H cfg (w_receipts (sm_world run)) (w_executions (sm_world run)))"
    by (auto simp: verify_live_def Let_def verify_executions_ok e)
qed

definition ex_sim_params :: sim_params where
  "ex_sim_params = \<lparr>sp_cfg = bnb_config, sp_digest = ex_digest, sp_policy_hash = policy_hash ex_digest JNull,
     sp_wall = (\<lambda>h. 0), sp_base_ts = 1750550400\<rparr>"

theorem simulate_erases_the_trail_witness:
  "w_executions (sm_world (fst (cli_simulate ex_sim_params (\<lambda>k. 0) 0 (empty_world\<lparr>w_receipts := ex_receipts, w_executions := [ex_execution]\<rparr>) []))) = [ex_execution] \<and>
   cli_simulate ex_sim_params (\<lambda>k. 0) 0 (empty_world\<lparr>w_receipts := [], w_executions := [ex_execution]\<rparr>) [] =
   cli_simulate ex_sim_params (\<lambda>k. 0) 0 (empty_world\<lparr>w_receipts := ex_receipts, w_executions := [ex_execution]\<rparr>) []"
proof -
  let ?w = "empty_world\<lparr>w_receipts := ex_receipts, w_executions := [ex_execution]\<rparr>"
  obtain run x where s: "cli_simulate ex_sim_params (\<lambda>k. 0) 0 ?w [] = (run, x)" by fastforce
  have "?w\<lparr>w_receipts := [], w_abstentions := []\<rparr> = empty_world\<lparr>w_receipts := [], w_executions := [ex_execution]\<rparr>"
    by (simp add: empty_world_def)
  with simulate_erases_the_trail [OF s, of "[]" "[]"] s show ?thesis by simp
qed

section \<open>The publishing module's own command line\<close>

text \<open>\<open>main\<close> of \<open>identity/commit_publish.py\<close>: \<open>argv\<close> is \<open>sys.argv\<close>, with the name of the module in front.\<close>

definition chain_argument :: "string list \<Rightarrow> string option" where
  "chain_argument argv = (case dropWhile (\<lambda>a. a \<noteq> ''--chain'') argv of _ # c # _ \<Rightarrow> Some c | _ \<Rightarrow> None)"

definition publish_main :: "digest_fun \<Rightarrow> pub_env \<Rightarrow> pub_files \<Rightarrow> (string \<Rightarrow> web3_client) \<Rightarrow> string list \<Rightarrow>
    unsigned_tx list \<times> publication" where
  "publish_main H env fs web3 argv = publish H env fs web3 (''--send'' \<notin> set argv) (chain_argument argv)"

lemma publish_needs_send: "''--send'' \<notin> set argv \<Longrightarrow> fst (publish_main H env fs web3 argv) = []"
  by (simp add: publish_main_def publish_def Let_def split: prod.splits)

text \<open>A chain name that is not known is no error: whatever stands after \<open>--chain\<close>, a flag or a misspelt name too, the
  commitment goes to BSC, and with \<open>--send\<close> it is sent there.\<close>

lemma unknown_chain_is_bsc:
  "c \<noteq> [] \<Longrightarrow> lower c \<noteq> ''injective'' \<Longrightarrow> resolve_chain env (Some c) = ''bsc''"
  by (simp add: resolve_chain_def get_or_def Let_def)

lemma misplaced_flag_sends:
  assumes "pe_agent_key env \<noteq> []" "pe_agent_address env \<noteq> []" "name \<noteq> ''--chain''"
  shows "\<exists>tx. fst (publish_main H env fs web3 [name, ''--chain'', ''--send'']) = [tx]"
proof -
  have "resolve_chain env (Some ''--send'') = ''bsc''" by (rule unknown_chain_is_bsc) code_simp+
  with assms show ?thesis
    by (auto simp: publish_main_def chain_argument_def publish_def profile_of_def Let_def split: prod.splits)
qed

end
