(* ===== verification/LiveRun.thy ===== *)
theory LiveRun
  imports RunLive Cli
begin

text \<open>
  The unattended run as a whole: the set-up and the loop of \<open>_loop_once_forever\<close> and the supervision by \<open>run\<close>
  (\<open>agent/run_live.py\<close>). The iterations are those of \<open>RunLive\<close>, the endpoints those of \<open>Cli\<close>, the supervisor that
  of \<open>Watchdog\<close>: the rounds that it observes are here what the loop really does from the files of the round before.
\<close>

section \<open>Starting and looping\<close>

text \<open>\<open>make_backend(exec_mode)\<close> and the executor around it.\<close>

definition live_executor :: "live_setup \<Rightarrow> bool \<Rightarrow> (backend_kind \<Rightarrow> backend) \<Rightarrow> config \<Rightarrow> executor" where
  "live_executor u maria_url_set backends cfg =
     \<lparr>x_backend = backends (make_backend (lu_backend u) maria_url_set (live_mode u)), x_mode = live_mode u,
      x_slippage_bps = default_slippage_bps (risk cfg)\<rparr>"

text \<open>The state is what is on disk; a pool is made only when balances are read over RPC, and that can raise.\<close>

definition boot_pool :: "live_setup \<Rightarrow> string option \<Rightarrow> rpc_pool \<Rightarrow> py_error + rpc_pool" where
  "boot_pool u bsc_rpc pool = (if ledger_source u = FromChain then live_pool bsc_rpc 30 else Inr pool)"

definition live_boot :: "live_params \<Rightarrow> string option \<Rightarrow> live_run \<Rightarrow> py_error + live_run" where
  "live_boot lp bsc_rpc r =
     map_sum id (\<lambda>pool. r\<lparr>lr_state := restart_state (lp_setup lp) (lr_trace r), lr_pool := pool\<rparr>)
       (boot_pool (lp_setup lp) bsc_rpc (lr_pool r))"

text \<open>
  The loop over what it observes: whether the kill file is there, and the input of the iteration. When the
  observations end, the loop is cancelled from outside.
\<close>

fun live_loop :: "live_params \<Rightarrow> (bool \<times> live_input) list \<Rightarrow> live_run \<Rightarrow> live_run \<times> run_end" where
  "live_loop lp [] r = (r, Cancelled)"
| "live_loop lp ((killed, inp) # obs) r =
     (if killed then (r, Returned)
      else case live_iteration lp inp r of
             (r', Failed e) \<Rightarrow> (r', Crashed)
           | (r', _) \<Rightarrow> live_loop lp obs r')"

definition loop_once :: "live_params \<Rightarrow> string option \<Rightarrow> (bool \<times> live_input) list \<Rightarrow> live_run \<Rightarrow> live_run \<times> run_end" where
  "loop_once lp bsc_rpc obs r =
     (case live_boot lp bsc_rpc r of Inl e \<Rightarrow> (r, Crashed) | Inr r0 \<Rightarrow> live_loop lp obs r0)"

section \<open>Under supervision\<close>

record live_round =
  lo_kill_before :: bool
  lo_obs :: "(bool \<times> live_input) list"
  lo_kill_after :: bool

fun observed :: "live_params \<Rightarrow> string option \<Rightarrow> live_round list \<Rightarrow> live_run \<Rightarrow> round list" where
  "observed lp bsc_rpc [] r = []"
| "observed lp bsc_rpc (o' # os) r =
     (case loop_once lp bsc_rpc (lo_obs o') r of (r', e) \<Rightarrow>
       \<lparr>wd_kill_before = lo_kill_before o', wd_end = e, wd_kill_after = lo_kill_after o'\<rparr> # observed lp bsc_rpc os r')"

definition after_rounds :: "live_params \<Rightarrow> string option \<Rightarrow> live_round list \<Rightarrow> live_run \<Rightarrow> live_run" where
  "after_rounds lp bsc_rpc os r = foldl (\<lambda>r o'. fst (loop_once lp bsc_rpc (lo_obs o') r)) r os"

text \<open>\<open>run()\<close>: the files after the runs that the supervisor made, how it ended, and the kill file.\<close>

definition run_unattended :: "live_params \<Rightarrow> string option \<Rightarrow> live_round list \<Rightarrow> live_run \<Rightarrow> live_run \<times> supervised \<times> bool" where
  "run_unattended lp bsc_rpc os r =
     (case run_loop (observed lp bsc_rpc os r) of (sv, kill) \<Rightarrow>
       (after_rounds lp bsc_rpc (take (su_runs sv) os) r, sv, kill))"

section \<open>Auditing a trace\<close>

definition is_staged :: "live_state \<Rightarrow> bool" where
  "is_staged s = (st_pending_intent (ls_agent s) \<noteq> None)"

text \<open>Whether an intent is staged on disk after the events, and whether the events respect it.\<close>

definition staged_after :: "bool \<Rightarrow> live_event list \<Rightarrow> bool" where
  "staged_after f es = (case last_snapshot es of None \<Rightarrow> f | Some s \<Rightarrow> is_staged s)"

fun orderly :: "bool \<Rightarrow> live_event list \<Rightarrow> bool" where
  "orderly f [] = True"
| "orderly f (Wrote s # es) = orderly (is_staged s) es"
| "orderly f (Did (Sent b) # es) = (f \<and> orderly f es)"
| "orderly f (Did (Receipted h) # es) = (\<not> f \<and> orderly f es)"
| "orderly f (Did (Persisted a) # es) = orderly f es"

lemma staged_after_simps [simp]:
  "staged_after f [] = f" "staged_after f (Wrote s # es) = staged_after (is_staged s) es"
  "staged_after f (Did e # es) = staged_after f es"
  by (simp_all add: staged_after_def split: option.split)

lemma staged_after_append [simp]: "staged_after f (p @ q) = staged_after (staged_after f p) q"
  by (simp add: staged_after_def split: option.split)

lemma orderly_append [simp]: "orderly f (p @ q) \<longleftrightarrow> orderly f p \<and> orderly (staged_after f p) q"
  by (induction f p rule: orderly.induct) auto

lemma staged_sent [simp]: "staged_after f (map (\<lambda>b. Did (Sent b)) sent) = f"
  by (induction sent) simp_all

lemma orderly_sent [simp]: "orderly True (map (\<lambda>b. Did (Sent b)) sent)"
  by (induction sent) simp_all

definition audited :: "live_run \<Rightarrow> bool" where
  "audited r = orderly False (lr_trace r)"

definition consistent :: "live_run \<Rightarrow> bool" where
  "consistent r = (audited r \<and> staged_after False (lr_trace r) = is_staged (lr_state r))"

lemma restart_consistent:
  "audited r \<Longrightarrow> lr_state r' = restart_state u (lr_trace r') \<Longrightarrow> lr_trace r' = lr_trace r \<Longrightarrow> consistent r'"
  by (simp add: consistent_def audited_def restart_state_def staged_after_def is_staged_def default_state_def
      split: option.split)

lemma iteration_audited:
  assumes it: "live_iteration lp inp r = (r', e)" and live: "x_mode (lp_executor lp) = Live" and c: "consistent r"
  shows "audited r' \<and> ((\<forall>err. e \<noteq> Failed err) \<longrightarrow> consistent r')"
  using it
proof (cases rule: live_iteration_cases)
  case (Tick views ts pool a1 w x)
  let ?s = "(lr_state r)\<lparr>ls_agent := snd (mark_nav a1 (price_table views))\<rparr>"
  have env: "te_executor (live_env lp inp) = Some (lp_executor lp)" "te_persist (live_env lp inp)"
    by (simp_all add: live_env_def)
  have free: "\<not> staged_after False (lr_trace r)"
    using c Tick(3) reconcile_books_frame(1) [OF Tick(2)] by (simp add: consistent_def is_staged_def)
  obtain evs where evs: "w_trace w = w_trace (lr_world r) @ evs"
    "evs = [] \<or> (\<exists>h. evs = [Receipted h]) \<or>
     (\<exists>h st sent. evs = [Receipted h, Persisted st] @ map Sent sent \<and> st_pending_intent st \<noteq> None)"
    using tick_new_events [OF Tick(4) env(1) live env(2)] by blast
  have ord: "orderly False (map (lift_event ?s) evs)"
    using evs(2) by (auto simp: is_staged_def comp_def)
  obtain tail where "lr_trace r' = lr_trace r @ map (lift_event ?s) evs @ tail"
    "tail = [] \<and> (\<exists>err. e = Failed err) \<or> tail = [Wrote (lr_state r')]"
    using Tick(6) evs(1) by (auto split: sum.splits)
  with c free ord show ?thesis by (auto simp: consistent_def audited_def)
qed (use c reconcile_books_frame(1) in \<open>auto simp: consistent_def audited_def ps_write_def\<close>)

lemma live_loop_audited:
  assumes "x_mode (lp_executor lp) = Live"
  shows "consistent r \<Longrightarrow> audited (fst (live_loop lp obs r))"
proof (induction obs arbitrary: r)
  case (Cons ob obs)
  obtain killed inp where ob: "ob = (killed, inp)" by fastforce
  obtain r' e where it: "live_iteration lp inp r = (r', e)" by fastforce
  have a: "audited r'" "(\<forall>err. e \<noteq> Failed err) \<Longrightarrow> consistent r'"
    using iteration_audited [OF it assms Cons.prems] by blast+
  show ?case
    using Cons.prems a Cons.IH [of r'] by (cases e) (auto simp: ob it consistent_def)
qed (simp add: consistent_def)

lemma loop_once_audited:
  assumes "x_mode (lp_executor lp) = Live" "audited r"
  shows "audited (fst (loop_once lp bsc_rpc obs r))"
proof (cases "live_boot lp bsc_rpc r")
  case (Inr r0)
  then have "consistent r0"
    by (intro restart_consistent [OF assms(2)])
      (auto simp: live_boot_def map_sum_def split: sum.splits)
  with Inr show ?thesis by (simp add: loop_once_def live_loop_audited [OF assms(1)])
qed (use assms(2) in \<open>simp add: loop_once_def\<close>)

lemma after_rounds_audited:
  assumes "x_mode (lp_executor lp) = Live"
  shows "audited r \<Longrightarrow> audited (after_rounds lp bsc_rpc os r)"
  by (induction os arbitrary: r) (simp_all add: after_rounds_def loop_once_audited [OF assms])

text \<open>Crashes at any event, with any loss of the files of the tick, keep the trace in order.\<close>

lemma lived_consistent:
  assumes "lived lp r" "x_mode (lp_executor lp) = Live"
  shows "consistent r"
  using assms(1)
proof induction
  case (boot r)
  then show ?case by (intro restart_consistent [of r]) (simp_all add: audited_def)
next
  case (iterate r inp r' e)
  then show ?case using iteration_audited [OF iterate.hyps(2) assms(2)] by blast
next
  case (crash r inp r' e p q pool w)
  then have "audited r'" using iteration_audited [OF crash.hyps(2) assms(2)] by blast
  then have "orderly False (lr_trace r @ p)" using crash.hyps(3) by (simp add: audited_def)
  then show ?case
    by (intro restart_consistent [of "r\<lparr>lr_trace := lr_trace r @ p\<rparr>"]) (simp_all add: audited_def)
qed

lemma orderly_between:
  assumes "orderly f (a @ Did (Sent b) # m @ Did (Receipted h) # z)"
  shows "\<exists>s. Wrote s \<in> set m \<and> st_pending_intent (ls_agent s) = None"
proof -
  have "\<not> staged_after True m" using assms by auto
  then obtain s where "last_snapshot m = Some s" "\<not> is_staged s"
    by (auto simp: staged_after_def split: option.splits)
  then show ?thesis using last_snapshot_in by (auto simp: is_staged_def)
qed

lemma orderly_staged:
  assumes "orderly False (a @ Did (Sent b) # z)"
  shows "\<exists>s. last_snapshot a = Some s \<and> st_pending_intent (ls_agent s) \<noteq> None"
  using assms by (auto simp: staged_after_def is_staged_def split: option.splits)

lemma run_unattended_cases:
  assumes "run_unattended lp bsc_rpc os r = (r', sv, kill)"
  obtains rs where "r' = after_rounds lp bsc_rpc (take (su_runs sv) os) r" "kill"
    "sv = run_with_watchdog MAX_RESTARTS 5 rs" "length rs = length os"
proof -
  have l: "length (observed lp bsc_rpc os r) = length os" for r
    by (induction os arbitrary: r) (simp_all split: prod.split)
  then have "length (case observed lp bsc_rpc os r of [] \<Rightarrow> [] | r # rs' \<Rightarrow> r\<lparr>wd_kill_before := False\<rparr> # rs') = length os"
    by (metis length_Cons list.case_eq_if list.collapse list.size(3))
  with assms that show thesis by (auto simp: run_unattended_def run_loop_def)
qed

section \<open>The supervised run\<close>

text \<open>
  C2. The unattended run never decides over an open order: let the loop have lived through any iterations, failures
  and crashes, and supervise it again for any rounds. In the whole history of live trading that the files
  and the venue saw, every broadcast happens while the last snapshot on disk carries a pending intent, and between
  a broadcast and the next decision (its receipt) a snapshot without one was written.
\<close>

theorem unattended_run_orderly:
  assumes "lived lp r" "x_mode (lp_executor lp) = Live" "run_unattended lp bsc_rpc os r = (r', sv, kill)"
  shows "(\<forall>a b z. lr_trace r' = a @ Did (Sent b) # z \<longrightarrow>
      (\<exists>s. last_snapshot a = Some s \<and> st_pending_intent (ls_agent s) \<noteq> None)) \<and>
    (\<forall>a b m h z. lr_trace r' = a @ Did (Sent b) # m @ Did (Receipted h) # z \<longrightarrow>
      (\<exists>s. Wrote s \<in> set m \<and> st_pending_intent (ls_agent s) = None)) \<and>
    su_runs sv \<le> 4 \<and> (4 \<le> length os \<longrightarrow> su_end sv \<noteq> Running) \<and> kill"
proof -
  obtain rs where u: "r' = after_rounds lp bsc_rpc (take (su_runs sv) os) r" "kill"
      "sv = run_with_watchdog MAX_RESTARTS 5 rs" "length rs = length os"
    using assms(3) by (rule run_unattended_cases)
  have "orderly False (lr_trace r')"
    using after_rounds_audited [OF assms(2)] lived_consistent [OF assms(1,2)]
    by (simp add: u(1) consistent_def audited_def)
  moreover have "su_runs sv \<le> 4" using watchdog_runs [of 0 MAX_RESTARTS 5 rs]
    by (simp add: u(3) run_with_watchdog_def MAX_RESTARTS_def)
  moreover have "4 \<le> length os \<longrightarrow> su_end sv \<noteq> Running"
    using watchdog_ends [of MAX_RESTARTS 0 rs 5] u(4) by (auto simp: u(3) run_with_watchdog_def MAX_RESTARTS_def)
  ultimately show ?thesis using orderly_staged orderly_between u(2) by metis
qed

definition ex_boot :: live_run where
  "ex_boot = ex_run\<lparr>lr_state := restart_state (lp_setup ex_params) []\<rparr>"

definition ex_booted :: agent_state where
  "ex_booted = (ls_agent (lr_state ex_boot))\<lparr>st_stable_usd := Some 500\<rparr>"

lemma ex_boot_reconciles:
  "reconcile_books ex_params ex_input price pool (ls_agent (lr_state ex_boot)) = (pool, True, ex_booted)"
  by (simp add: reconcile_books_def ledger_source_def live_mode_def ex_params_def ex_boot_def ex_booted_def seed_nav_def
      restart_state_def start_state_def default_state_def lower_def lower_char_def Let_def)

lemma ex_boot_decides: "case tick_decide (live_env ex_params ex_input) bnb_config (snd (mark_nav ex_booted (price_table ex_views)))
    ex_views 1000 1060 of Inr (i, d, v) \<Rightarrow> allowed v \<and> is_trade d | Inl _ \<Rightarrow> False"
  by code_simp

lemma ex_boot_sends:
  assumes it: "live_iteration ex_params ex_input ex_boot = (r', e)"
  shows "\<exists>b. Did (Sent b) \<in> set (lr_trace r')"
  using it
proof (cases rule: live_iteration_cases)
  case (Tick views ts pool a1 w x)
  let ?env = "live_env ex_params ex_input"
  have env: "te_executor ?env = Some ex_live" "x_mode ex_live = Live" "te_persist ?env" "tick_time ?env None = 1060"
    by (simp_all add: live_env_def ex_params_def ex_live_def tick_time_def ex_input_def)
  have same: "views = ex_views" "ts = 1000" "a1 = ex_booted"
    using Tick(1,2) ex_boot_reconciles by (simp_all add: ex_input_def)
  have t: "tick ?env bnb_config (snd (mark_nav ex_booted (price_table ex_views))) ex_views 1000 None empty_world = (w, x)"
    using Tick(4) same by (simp add: ex_params_def ex_boot_def ex_run_def)
  obtain i d v where dec: "tick_decide ?env bnb_config (snd (mark_nav ex_booted (price_table ex_views))) ex_views 1000 1060 =
      Inr (i, d, v)" "allowed v" "is_trade d"
    using ex_boot_decides by (auto split: sum.splits)
  obtain st cid sent ans where "execute (x_backend ex_live) Live (x_slippage_bps ex_live) d (v_final_amount_usd v) cid = (sent, ans)"
    "w_trace w = [Receipted (rc_hash (last (w_receipts w))), Persisted st] @ map Sent sent"
    using tick_live_trace [OF t env(1-3)] dec env(4) by (auto simp: empty_world_def)
  moreover from this obtain cmd where "sent = [ShellSwap cmd]"
    using ex_live_sends [of _ sent ans] by (auto simp: execute_def Let_def)
  ultimately show ?thesis
    using Tick(6) same by (auto simp: ex_boot_def ex_run_def empty_world_def split: sum.splits)
qed (use ex_boot_reconciles in \<open>auto simp: ex_input_def ex_booted_def ex_boot_def restart_state_def start_state_def
  default_state_def Let_def\<close>)

definition ex_rounds :: "live_round list" where
  "ex_rounds = [\<lparr>lo_kill_before = False, lo_obs = [(False, ex_input)], lo_kill_after = False\<rparr>]"

theorem unattended_run_orderly_witness:
  "\<exists>r' sv a b z s. run_unattended ex_params None ex_rounds ex_boot = (r', sv, True) \<and> su_runs sv = 1 \<and>
     lr_trace r' = a @ Did (Sent b) # z \<and> last_snapshot a = Some s \<and> st_pending_intent (ls_agent s) \<noteq> None"
proof -
  have lived: "lived ex_params ex_boot" by (rule lived.boot) (simp_all add: ex_boot_def ex_run_def)
  have mode: "x_mode (lp_executor ex_params) = Live" by (simp add: ex_params_def ex_live_def)
  obtain r1 e1 where it: "live_iteration ex_params ex_input ex_boot = (r1, e1)" by fastforce
  have boot: "live_boot ex_params None ex_boot = Inr ex_boot"
    by (simp add: live_boot_def boot_pool_def ex_params_def ledger_source_def live_mode_def ex_boot_def ex_run_def
        lower_def lower_char_def Let_def)
  obtain fin where once: "loop_once ex_params None [(False, ex_input)] ex_boot = (r1, fin)"
    by (cases e1) (auto simp: loop_once_def boot it)
  obtain r' sv kill where u: "run_unattended ex_params None ex_rounds ex_boot = (r', sv, kill)" by (metis prod_cases3)
  have "su_runs sv = 1 \<and> r' = r1 \<and> kill"
    using u by (cases fin) (auto simp: run_unattended_def run_loop_def run_with_watchdog_def ex_rounds_def once
        after_rounds_def MAX_RESTARTS_def)
  moreover obtain b where "Did (Sent b) \<in> set (lr_trace r1)" using ex_boot_sends [OF it] by blast
  then obtain a z where "lr_trace r1 = a @ Did (Sent b) # z" by (meson split_list)
  ultimately show ?thesis using unattended_run_orderly [OF lived mode u] u by metis
qed

section \<open>Failing closed\<close>

text \<open>Without an endpoint, a loop that reads the chain never starts: four failures, no event, no world touched.\<close>

lemma no_endpoint_no_trade:
  assumes "ledger_source (lp_setup lp) = FromChain"
  shows "run_unattended lp (Some []) os r = (r', sv, kill) \<Longrightarrow> r' = r"
proof -
  have "loop_once lp (Some []) obs r = (r, Crashed)" for obs r
    by (simp add: loop_once_def live_boot_def boot_pool_def assms empty_rpc_stops)
  then have "after_rounds lp (Some []) os r = r" for os
    by (induction os) (simp_all add: after_rounds_def)
  then show "run_unattended lp (Some []) os r = (r', sv, kill) \<Longrightarrow> r' = r"
    by (auto simp: run_unattended_def split: prod.splits)
qed

text \<open>The executor of the loop is live exactly for the three chain backends, and then the backend is the named one.\<close>

lemma live_executor_live:
  "x_mode (live_executor u m bs cfg) = Live \<longleftrightarrow> lower (lu_backend u) \<in> {''twak'', ''maria'', ''injective''}"
  "lower (lu_backend u) = ''twak'' \<Longrightarrow> x_backend (live_executor u m bs cfg) = bs TwakKind"
  "lower (lu_backend u) = ''injective'' \<Longrightarrow> x_backend (live_executor u m bs cfg) = bs InjectiveKind"
  by (auto simp: live_executor_def live_mode_def make_backend_def Let_def)

end
