(* ===== verification/Http.thy ===== *)
theory Http
  imports Execution RpcPool
begin

text \<open>
  The HTTP edges of the program: the transport of the RPC pool (\<open>_httpx_transport\<close> of \<open>agent/ops/rpc.py\<close>), the client
  of the hosted Maria service (\<open>agent/execution/maria_client.py\<close>) and the addresses of the Injective indexer. The HTTP
  library is an argument that answers a request with a status, a text and its JSON if it has one, or raises.
\<close>

record http_request =
  hq_url :: string
  hq_headers :: "(string \<times> string) list"
  hq_body :: json

record http_answer =
  ha_status :: int
  ha_json :: "json option"
  ha_text :: string

type_synonym http = "http_request \<Rightarrow> py_error + http_answer"

text \<open>\<open>response.raise_for_status()\<close> and \<open>response.json()\<close>.\<close>

definition ok_status :: "http_answer \<Rightarrow> bool" where
  "ok_status a = (200 \<le> ha_status a \<and> ha_status a < 300)"

definition answer_json :: "http_answer \<Rightarrow> py_error + json" where
  "answer_json a = (case ha_json a of Some j \<Rightarrow> Inr j | None \<Rightarrow> Inl (ValueError ''JSON''))"

section \<open>The transport of the pool\<close>

definition httpx_transport :: "http \<Rightarrow> transport" where
  "httpx_transport http endpoint payload =
     map_sum error_text id
       (and_then (http \<lparr>hq_url = endpoint, hq_headers = [], hq_body = payload\<rparr>) (\<lambda>a.
        if \<not> ok_status a then Inl (RuntimeError (''HTTP status '' @ show_int (ha_status a)))
        else and_then (answer_json a) (\<lambda>j.
          case j of JObj _ \<Rightarrow> Inr j | _ \<Rightarrow> Inl (RuntimeError ''http response JSON is not a dict''))))"

text \<open>\<open>endpoint_status()\<close>: the health of every endpoint.\<close>

definition endpoint_report :: "rpc_pool \<Rightarrow> (string \<times> endpoint_status) list" where
  "endpoint_report p = rp_states p"

section \<open>The hosted service\<close>

record maria_client =
  mc_base_url :: string
  mc_service_token :: string
  mc_delegated_user_token :: string
  mc_agent_id :: string

definition maria_init :: "string option \<Rightarrow> string option \<Rightarrow> string option \<Rightarrow> string option \<Rightarrow> (string \<rightharpoonup> string) \<Rightarrow>
    py_error + maria_client" where
  "maria_init base_url service_token user_token agent_id environ =
     and_then (if get_or base_url [] \<noteq> [] then Inr (the base_url)
               else case environ ''MARIA_BASE_URL'' of Some u \<Rightarrow> Inr u | None \<Rightarrow> Inl (KeyError ''MARIA_BASE_URL'')) (\<lambda>u.
       Inr \<lparr>mc_base_url = strip_slashes u,
            mc_service_token = given_or service_token (get_or (environ ''MARIA_SERVICE_TOKEN'') []),
            mc_delegated_user_token = given_or user_token (get_or (environ ''MARIA_DELEGATED_USER_TOKEN'') []),
            mc_agent_id = given_or agent_id (get_or (environ ''AGENT_ID'') ''sumplus-trading-agent'')\<rparr>)"

definition maria_headers :: "maria_client \<Rightarrow> (string \<times> string) list" where
  "maria_headers c =
     [(''Authorization'', ''Bearer '' @ mc_service_token c), (''X-Calling-Agent-Id'', mc_agent_id c),
      (''X-Delegated-User-Token'', mc_delegated_user_token c), (''Content-Type'', ''application/json'')]"

definition maria_request :: "maria_client \<Rightarrow> json \<Rightarrow> http_request" where
  "maria_request c body =
     \<lparr>hq_url = mc_base_url c @ ''/api/v2/skill/maria-swap/invoke'', hq_headers = maria_headers c, hq_body = body\<rparr>"

text \<open>\<open>MariaError\<close>: the status and the structured detail, whose Python text is \<open>repr_of\<close>.\<close>

definition maria_error :: "(json \<Rightarrow> string) \<Rightarrow> int \<Rightarrow> json \<Rightarrow> py_error" where
  "maria_error repr_of status detail = RuntimeError (''Maria error '' @ show_int status @ '': '' @ repr_of detail)"

definition maria_http :: "http \<Rightarrow> (json \<Rightarrow> string) \<Rightarrow> maria_client \<Rightarrow> json \<Rightarrow> py_error + json" where
  "maria_http http repr_of c body =
     and_then (http (maria_request c body)) (\<lambda>a.
       if 400 \<le> ha_status a
       then Inl (maria_error repr_of (ha_status a)
              (case ha_json a of Some j \<Rightarrow> j | None \<Rightarrow> JObj
                 [(''error'', JStr ''http_error''), (''status'', JInt (ha_status a)), (''body'', JStr (ha_text a))]))
       else answer_json a)"

section \<open>The indexer\<close>

definition indexer_url :: "string option \<Rightarrow> string" where
  "indexer_url env = strip_slashes (get_or env ''https://sentry.exchange.grpc-web.injective.network'')"

definition orderbook_url :: "string option \<Rightarrow> string \<Rightarrow> string" where
  "orderbook_url env market_id = indexer_url env @ ''/api/exchange/spot/v2/orderbook/'' @ market_id"

section \<open>What comes through\<close>

lemma map_sum_Inr: "map_sum f id x = Inr r \<longleftrightarrow> x = Inr r"
  by (cases x) simp_all

lemma only_objects:
  "(case j of JObj kvs \<Rightarrow> Inr j | _ \<Rightarrow> Inl e) = Inr r \<longleftrightarrow> r = j \<and> (\<exists>kvs. j = JObj kvs)"
  by (cases j) auto

lemma httpx_transport_Inr:
  "httpx_transport http url payload = Inr r \<longleftrightarrow>
    (\<exists>a kvs. http \<lparr>hq_url = url, hq_headers = [], hq_body = payload\<rparr> = Inr a \<and> ok_status a \<and> ha_json a = Some r \<and> r = JObj kvs)"
proof -
  have "(if \<not> ok_status a then Inl e else and_then (answer_json a) f) = Inr r \<longleftrightarrow>
      ok_status a \<and> (\<exists>j. ha_json a = Some j \<and> f j = Inr r)" for a e f
    by (auto simp: answer_json_def and_then_Inr split: option.split)
  then show ?thesis unfolding httpx_transport_def map_sum_Inr and_then_Inr by (auto simp: only_objects)
qed

lemma try_endpoints_answer:
  "try_endpoints send clk payload urls errors p = (p', Inr r) \<Longrightarrow> \<exists>url \<in> set urls. send url payload = Inr r"
proof (induction urls arbitrary: errors p)
  case (Cons url urls)
  show ?case
  proof (cases "ask send payload url")
    case (Inl e)
    with Cons show ?thesis by auto
  next
    case (Inr x)
    then have "send url payload = Inr x" by (auto simp: ask_def split: sum.splits option.splits)
    with Inr Cons.prems show ?thesis by auto
  qed
qed simp

text \<open>An answer of the pool over HTTP came with a good status from a configured endpoint that was not cooling down.\<close>

lemma call_over_http:
  assumes "call (httpx_transport http) clk now meth params p = (p', Inr r)"
  shows "\<exists>url a payload. url \<in> set (rp_endpoints p) \<and> is_available p now url \<and>
    http \<lparr>hq_url = url, hq_headers = [], hq_body = payload\<rparr> = Inr a \<and> ok_status a \<and> ha_json a = Some r \<and> usable r"
proof -
  have u: "usable r" using assms by (rule pool.rpc_usable)
  obtain url payload where "url \<in> set (candidate_endpoints (p\<lparr>rp_rpc_id := rp_rpc_id p + 1\<rparr>) now)"
    "httpx_transport http url payload = Inr r"
    using assms try_endpoints_answer unfolding call_def Let_def by blast
  with u show ?thesis by (auto simp: httpx_transport_Inr candidate_endpoints_def is_available_def status_of_def)
qed

text \<open>The client agrees with the model of the hosted backend, whatever trailing slashes its address has.\<close>

lemma maria_http_agrees:
  assumes "http (maria_request c body) = Inr \<lparr>ha_status = fst (post body), ha_json = Some (JObj (snd (post body))), ha_text = t\<rparr>"
  shows "(case (maria_http http repr_of c body, maria_invoke post body) of
      (Inl _, Inl _) \<Rightarrow> True | (Inr j, Inr out) \<Rightarrow> j = JObj out | _ \<Rightarrow> False)"
  using assms by (cases "post body") (simp add: maria_http_def maria_invoke_def answer_json_def)

lemma strip_slashes_more: "strip_slashes (u @ replicate n CHR ''/'') = strip_slashes u"
proof -
  have "dropWhile (\<lambda>c. c = CHR ''/'') (replicate n CHR ''/'' @ s) = dropWhile (\<lambda>c. c = CHR ''/'') s" for s
    by (induction n) simp_all
  then show ?thesis by (simp add: strip_slashes_def)
qed

lemma maria_address:
  "maria_init (Some (u @ ''/'')) s t i environ = maria_init (Some u) s t i environ \<or> u = []"
  by (cases u) (simp_all add: maria_init_def get_or_def strip_slashes_def)

lemma maria_bearer: "map_of (hq_headers (maria_request c body)) ''Authorization'' = Some (''Bearer '' @ mc_service_token c)"
  by (simp add: maria_request_def maria_headers_def)

end
