(* ===== verification/Races.thy ===== *)
theory Races
  imports Chat Jsonl
begin

text \<open>
  Several processes on the same files. \<open>agent/runtime.py\<close> is written for a loop and a chat that run separately, and the
  commands of \<open>agent/cli.py\<close> append to the same receipts and abstentions as the live loop. Every operation that
  changes such a file reads it first and writes it later, without a lock; here the two halves are separate steps
  that other processes can come between. The sequential operations of the other theories are what happens when nobody does.
\<close>

section \<open>Reads and writes\<close>

datatype 'a access = Reads nat | Writes nat 'a

text \<open>A process number reads the file, and later writes what it makes of its request and what it had read.\<close>

fun access_step :: "('f \<Rightarrow> 'r) \<Rightarrow> ('a \<Rightarrow> 'r \<Rightarrow> 'f \<Rightarrow> 'f) \<Rightarrow> 'a access \<Rightarrow> 'f \<times> (nat \<rightharpoonup> 'r) \<Rightarrow> 'f \<times> (nat \<rightharpoonup> 'r)" where
  "access_step get put (Reads p) (f, got) = (f, got(p \<mapsto> get f))"
| "access_step get put (Writes p a) (f, got) =
     (case got p of None \<Rightarrow> (f, got) | Some r \<Rightarrow> (put a r f, got(p := None)))"

definition race_from :: "('f \<Rightarrow> 'r) \<Rightarrow> ('a \<Rightarrow> 'r \<Rightarrow> 'f \<Rightarrow> 'f) \<Rightarrow> 'a access list \<Rightarrow> 'f \<times> (nat \<rightharpoonup> 'r) \<Rightarrow> 'f" where
  "race_from get put es s = fst (fold (access_step get put) es s)"

definition race :: "('f \<Rightarrow> 'r) \<Rightarrow> ('a \<Rightarrow> 'r \<Rightarrow> 'f \<Rightarrow> 'f) \<Rightarrow> 'a access list \<Rightarrow> 'f \<Rightarrow> 'f" where
  "race get put es f = race_from get put es (f, Map.empty)"

text \<open>Every write follows a read of its own process; and no write of another process comes between the two.\<close>

fun paired :: "nat list \<Rightarrow> 'a access list \<Rightarrow> bool" where
  "paired busy [] = True"
| "paired busy (Reads p # es) = paired (p # busy) es"
| "paired busy (Writes p a # es) = (p \<in> set busy \<and> paired (filter (\<lambda>q. q \<noteq> p) busy) es)"

fun undisturbed :: "nat list \<Rightarrow> 'a access list \<Rightarrow> bool" where
  "undisturbed fresh [] = True"
| "undisturbed fresh (Reads p # es) = undisturbed (p # fresh) es"
| "undisturbed fresh (Writes p a # es) = (p \<in> set fresh \<and> undisturbed [] es)"

fun requests :: "'a access list \<Rightarrow> 'a list" where
  "requests [] = []"
| "requests (Reads p # es) = requests es"
| "requests (Writes p a # es) = a # requests es"

lemma race_from_simps [simp]:
  "race_from get put [] (f, got) = f"
  "race_from get put (Reads p # es) (f, got) = race_from get put es (f, got(p \<mapsto> get f))"
  "race_from get put (Writes p a # es) (f, got) =
     (case got p of None \<Rightarrow> race_from get put es (f, got) | Some r \<Rightarrow> race_from get put es (put a r f, got(p := None)))"
  by (simp_all add: race_from_def split: option.split)

text \<open>
  The contract of an operation that is a read and a write: done without interruption, the halves are the operation.
\<close>

locale read_then_write =
  fixes get :: "'f \<Rightarrow> 'r"
    and put :: "'a \<Rightarrow> 'r \<Rightarrow> 'f \<Rightarrow> 'f"
    and op :: "'a \<Rightarrow> 'f \<Rightarrow> 'f"
  assumes op_split: "op a f = put a (get f) f"
begin

lemma undisturbed_from:
  "undisturbed fresh es \<Longrightarrow> \<forall>p \<in> set fresh. got p = Some (get f) \<Longrightarrow>
    race_from get put es (f, got) = fold op (requests es) f"
proof (induction fresh es arbitrary: f got rule: undisturbed.induct)
  case (3 fresh p a es)
  then have "got p = Some (get f)" "undisturbed [] es" by simp_all
  with 3 show ?case by (simp add: op_split)
qed simp_all

text \<open>Without a disturbance, the processes together do the operations one after the other, in the order of the writes.\<close>

lemma undisturbed_sequential: "undisturbed [] es \<Longrightarrow> race get put es f = fold op (requests es) f"
  unfolding race_def by (rule undisturbed_from) simp_all

lemma one_at_a_time: "race get put [Reads p, Writes p a] f = op a f"
  by (simp add: race_def op_split)

end

section \<open>The files that are raced for\<close>

definition write_receipt :: "digest_fun \<Rightarrow> receipt_args \<Rightarrow> int \<times> string \<Rightarrow> receipt list \<Rightarrow> receipt list" where
  "write_receipt H a h rs = rs @ [receipt_at H a h]"

definition write_runtime :: "(runtime_state \<Rightarrow> runtime_state) \<Rightarrow> runtime_state \<Rightarrow> runtime \<Rightarrow> runtime" where
  "write_runtime changes s r = runtime_save (changes s) r"

text \<open>The two operations of the abstention ledger: an append, and a rewrite of the whole file when something was marked.\<close>

datatype ledger_request = Record abstention_args | MarkAll "string \<rightharpoonup> real" real real

definition write_ledger :: "ledger_request \<Rightarrow> abstention list \<Rightarrow> abstention list \<Rightarrow> abstention list" where
  "write_ledger q seen l =
     (case q of
        Record a \<Rightarrow> l @ [new_abstention a seen]
      | MarkAll prices now age \<Rightarrow> (case mark_to_market prices now age seen of (n, l') \<Rightarrow> if n = 0 then l else l'))"

definition ledger_do :: "ledger_request \<Rightarrow> abstention list \<Rightarrow> abstention list" where
  "ledger_do q l = (case q of Record a \<Rightarrow> record_abstention a l | MarkAll prices now age \<Rightarrow> snd (mark_to_market prices now age l))"

lemma nothing_due: "fst (mark_to_market prices now age l) = 0 \<Longrightarrow> snd (mark_to_market prices now age l) = l"
  by (auto simp: mark_to_market_def filter_empty_conv intro: map_idI)

interpretation receipt_writes: read_then_write head_of "write_receipt H" "append_receipt H" for H
  by unfold_locales (simp add: write_receipt_def append_receipt_def receipt_at_def new_receipt_def Let_def split: prod.split)

interpretation runtime_writes: read_then_write runtime_load write_runtime runtime_update
  by unfold_locales (simp add: write_runtime_def runtime_update_def)

interpretation ledger_writes: read_then_write id write_ledger ledger_do
proof unfold_locales
  fix q :: ledger_request and l :: "abstention list"
  show "ledger_do q l = write_ledger q (id l) l"
    by (cases q) (auto simp: write_ledger_def ledger_do_def record_abstention_def nothing_due split_def)
qed

section \<open>Two writers of receipts\<close>

lemma receipt_at_links [simp]:
  "rc_prev_hash (receipt_at H a h) = snd h" "rc_hash (receipt_at H a h) = compute_hash H (receipt_at H a h)"
  by (simp_all add: receipt_at_def Let_def compute_hash_def hash_input_def receipt_body_def split: prod.split)

lemma snd_head_of: "snd (head_of rs) = head_hash GENESIS rs"
  by (simp add: head_of_def head_hash_def)

lemma head_hash_in: "head_hash p rs \<in> set (p # map rc_hash rs)"
  by (simp add: head_hash_def)

lemma race_extends: "prefix rs (race_from head_of (write_receipt H) es (rs, got))"
proof (induction es arbitrary: rs got)
  case (Cons e es)
  show ?case
  proof (cases e)
    case (Writes p a)
    have "prefix rs (write_receipt H a h rs)" for h by (simp add: write_receipt_def)
    from prefix_order.trans [OF this Cons.IH] Cons.IH Writes show ?thesis by (simp split: option.split)
  qed (use Cons.IH in simp)
qed simp

lemma linked_prefix: "prefix rs ss \<Longrightarrow> linked H p ss \<Longrightarrow> linked H p rs"
  by (auto simp: prefix_def linked_append)

text \<open>What the processes have read: fresh ones the present head, all others an older one.\<close>

definition heads_read :: "nat list \<Rightarrow> receipt list \<Rightarrow> (nat \<rightharpoonup> int \<times> string) \<Rightarrow> bool" where
  "heads_read fresh rs got =
     (\<forall>p h. got p = Some h \<longrightarrow>
        (if p \<in> set fresh then h = head_of rs else snd h \<in> set (butlast (GENESIS # map rc_hash rs))))"

lemma heads_readD:
  assumes "heads_read fresh rs got" "got p = Some h"
  shows "p \<in> set fresh \<Longrightarrow> h = head_of rs" "p \<notin> set fresh \<Longrightarrow> snd h \<in> set (butlast (GENESIS # map rc_hash rs))"
    "snd h \<in> set (GENESIS # map rc_hash rs)"
proof -
  have i: "if p \<in> set fresh then h = head_of rs else snd h \<in> set (butlast (GENESIS # map rc_hash rs))"
    using assms unfolding heads_read_def by blast
  then show "p \<in> set fresh \<Longrightarrow> h = head_of rs" "p \<notin> set fresh \<Longrightarrow> snd h \<in> set (butlast (GENESIS # map rc_hash rs))"
    by simp_all
  with i show "snd h \<in> set (GENESIS # map rc_hash rs)"
    using head_hash_in [of GENESIS rs] by (cases "p \<in> set fresh") (simp_all only: snd_head_of in_set_butlastD if_True if_False)
qed

lemma head_split: "GENESIS # map rc_hash rs = butlast (GENESIS # map rc_hash rs) @ [head_hash GENESIS rs]"
  by (cases rs rule: rev_cases) simp_all

lemma heads_read_Reads:
  assumes "heads_read fresh rs got"
  shows "heads_read (p # fresh) rs (got(p \<mapsto> head_of rs))"
  unfolding heads_read_def
proof (intro allI impI)
  fix q k assume "(got(p \<mapsto> head_of rs)) q = Some k"
  then show "if q \<in> set (p # fresh) then k = head_of rs else snd k \<in> set (butlast (GENESIS # map rc_hash rs))"
    using assms [unfolded heads_read_def, rule_format, of q k] by (cases "q = p") simp_all
qed

text \<open>After a write every head that was read is an old one.\<close>

lemma heads_read_Writes:
  assumes "heads_read fresh rs got"
  shows "heads_read [] (write_receipt H a h rs) (got(p := None))"
  unfolding heads_read_def
proof (intro allI impI)
  fix q k assume "(got(p := None)) q = Some k"
  then have "snd k \<in> set (GENESIS # map rc_hash rs)"
    using heads_readD(3) [OF assms] by (metis fun_upd_apply option.distinct(1))
  then show "if q \<in> set [] then k = head_of (write_receipt H a h rs)
      else snd k \<in> set (butlast (GENESIS # map rc_hash (write_receipt H a h rs)))"
    by (simp add: write_receipt_def butlast_append)
qed

lemma race_linked:
  assumes "linked H GENESIS rs" "heads_read fresh rs got" "set fresh \<subseteq> set busy" "set busy = dom got" "paired busy es"
    and "distinct (GENESIS # map rc_hash (race_from head_of (write_receipt H) es (rs, got)))"
  shows "linked H GENESIS (race_from head_of (write_receipt H) es (rs, got)) \<longleftrightarrow> undisturbed fresh es"
  using assms
proof (induction busy es arbitrary: rs got fresh rule: paired.induct)
  case (2 busy p es)
  have "heads_read (p # fresh) rs (got(p \<mapsto> head_of rs))" by (rule heads_read_Reads [OF "2.prems"(2)])
  then have "linked H GENESIS (race_from head_of (write_receipt H) es (rs, got(p \<mapsto> head_of rs))) \<longleftrightarrow>
      undisturbed (p # fresh) es"
  proof (rule "2.IH" [OF "2.prems"(1)])
    show "distinct (GENESIS # map rc_hash (race_from head_of (write_receipt H) es (rs, got(p \<mapsto> head_of rs))))"
      using "2.prems"(6) by (simp only: race_from_simps)
  qed (use "2.prems"(3-5) in auto)
  then show ?case by simp
next
  case (3 busy p a es)
  then obtain h where h: "got p = Some h" by auto
  let ?rs = "write_receipt H a h rs"
  let ?final = "race_from head_of (write_receipt H) es (?rs, got(p := None))"
  have e: "race_from head_of (write_receipt H) (Writes p a # es) (rs, got) = ?final" by (simp add: h)
  have d: "distinct (GENESIS # map rc_hash ?final)" using "3.prems"(6) by (simp only: e)
  obtain zs where zs: "?final = ?rs @ zs" using race_extends [of ?rs H es] by (auto elim: prefixE)
  have old: "distinct (butlast (GENESIS # map rc_hash rs) @ [head_hash GENESIS rs])"
  proof -
    have "distinct (GENESIS # map rc_hash rs)" using d unfolding zs by (auto simp: write_receipt_def)
    then show ?thesis by (simp only: head_split [symmetric])
  qed
  show ?case
  proof (cases "p \<in> set fresh")
    case True
    then have head: "h = head_of rs" by (rule heads_readD(1) [OF "3.prems"(2) h])
    have l: "linked H GENESIS ?rs"
      using "3.prems"(1) by (simp add: write_receipt_def linked_append head snd_head_of)
    have "heads_read [] ?rs (got(p := None))" by (rule heads_read_Writes [OF "3.prems"(2)])
    then have "linked H GENESIS ?final \<longleftrightarrow> undisturbed [] es"
    proof (rule "3.IH" [OF l _ _ _ _ d])
      show "set (filter (\<lambda>q. q \<noteq> p) busy) = dom (got(p := None))" using "3.prems"(4) by (simp add: set_filter) blast
    qed (use "3.prems"(5) in simp_all)
    with True show ?thesis by (simp only: e undisturbed.simps simp_thms)
  next
    case False
    then have "snd h \<in> set (butlast (GENESIS # map rc_hash rs))" by (rule heads_readD(2) [OF "3.prems"(2) h])
    then have "snd h \<noteq> head_hash GENESIS rs" using old by auto
    then have "\<not> linked H GENESIS ?final" unfolding zs by (simp add: write_receipt_def linked_append)
    with False show ?thesis by (simp only: e undisturbed.simps simp_thms)
  qed
qed simp

text \<open>
  C35. The verifier tells whether the writers of the receipts got in each other's way. Let any number of processes (the
  live loop, a \<open>tick\<close> command) append to an empty chain, each reading the head and later writing its line. If nobody
  wrote between the read and the write of another, the chain is the one of the appends done in turn and verifies.
  Otherwise, unless two hashes collide, verification fails for ever, although every writer did what
  it should.
\<close>

theorem overlapping_appends_break:
  assumes "paired [] es" "race head_of (write_receipt H) es [] = rs"
  shows "(undisturbed [] es \<longrightarrow> rs = fold (append_receipt H) (requests es) [] \<and> cr_ok (verify_chain H expected rs)) \<and>
    (distinct (GENESIS # map rc_hash rs) \<longrightarrow> (cr_ok (verify_chain H expected rs) \<longleftrightarrow> undisturbed [] es)) \<and>
    (\<not> undisturbed [] es \<longrightarrow> distinct (GENESIS # map rc_hash rs) \<longrightarrow>
      (\<forall>more. \<not> cr_ok (verify_chain H expected (rs @ more))))"
proof -
  have seq: "rs = fold (append_receipt H) (requests es) []" if "undisturbed [] es"
    unfolding assms(2) [symmetric] by (rule receipt_writes.undisturbed_sequential [OF that])
  have "linked H GENESIS (fold (append_receipt H) as rs)" if "linked H GENESIS rs" for as rs
    using that by (induction as arbitrary: rs) (simp_all add: linked_append_receipt)
  then have ok: "linked H GENESIS (fold (append_receipt H) as [])" for as by simp
  have "distinct (GENESIS # map rc_hash rs) \<longrightarrow> (linked H GENESIS rs \<longleftrightarrow> undisturbed [] es)"
    using race_linked [of H "[]" "[]" Map.empty "[]" es] assms by (simp add: race_def heads_read_def)
  with seq ok show ?thesis unfolding verify_ok linked_append by blast
qed

definition two_ticks :: "receipt_args access list" where
  "two_ticks = [Reads 0, Reads 1, Writes 0 ex_args, Writes 1 (ex_args\<lparr>ra_kind := ''trade''\<rparr>)]"

theorem overlapping_appends_break_witness:
  "\<forall>more. \<not> cr_ok (verify_chain id None (race head_of (write_receipt id) two_ticks [] @ more))"
proof -
  have "paired [] two_ticks" by code_simp
  moreover have "\<not> undisturbed [] two_ticks" by code_simp
  moreover have "distinct (GENESIS # map rc_hash (race head_of (write_receipt id) two_ticks []))" by code_simp
  ultimately show ?thesis using overlapping_appends_break [OF _ refl, of two_ticks id None] by blast
qed

section \<open>Two writers of the supervision state\<close>

text \<open>Undisturbed updates all count; of two overlapping ones the later write undoes the earlier.\<close>

lemma updates_in_turn:
  "race runtime_load write_runtime [Reads p, Writes p f, Reads q, Writes q g] r = runtime_update g (runtime_update f r)"
  by (subst runtime_writes.undisturbed_sequential) simp_all

lemma update_lost:
  assumes "p \<noteq> q"
  shows "runtime_load (race runtime_load write_runtime [Reads p, Reads q, Writes p f, Writes q g] r) = g (runtime_load r)"
  using assms by (simp add: race_def write_runtime_def runtime_cell.load_save)

text \<open>
  \<open>save\<close> empties the file before it writes the text. A reader that comes between finds no JSON, and \<open>load\<close> takes that for
  a missing file: these are the moments of a save, and a round of the loop as a function of the state that it read.
\<close>

definition save_moments :: "runtime_state \<Rightarrow> runtime \<Rightarrow> runtime list" where
  "save_moments s r = [r\<lparr>rt_file := None\<rparr>, runtime_save s r]"

definition loop_round :: "strategy_cfg \<Rightarrow> loop_env \<Rightarrow> runtime_state \<Rightarrow> loop_world \<Rightarrow> loop_world" where
  "loop_round base env st w =
     (if rs_paused st then w\<lparr>lw_ledger := ledger_record (lv_clock env) PausedTick (lw_ledger w)\<rparr>
      else case loop_tick env base (rs_portfolio_value_usd st) w of
             (w', Inr _) \<Rightarrow> w'
           | (w', Inl e) \<Rightarrow> w'\<lparr>lw_ledger := ledger_record (lv_clock env) (TickError e) (lw_ledger w')\<rparr>)"

lemma loop_round_iteration: "loop_iteration base env w = loop_round base env (runtime_load (lw_runtime w)) w"
  by (simp add: loop_iteration_def loop_round_def Let_def)

text \<open>
  C29. A pause can be overlooked. Let the supervision file say that the loop is paused, and let the operator change
  anything else (a cap, the portfolio value): the file says paused before and after. But a loop that loads it in the
  middle of that save gets the defaults, an unpaused loop with 1000 dollars, and its round is a full
  trading tick.
\<close>

theorem pause_overlooked_mid_save:
  assumes "rs_paused (runtime_load (lw_runtime w))" "rs_paused (change (runtime_load (lw_runtime w)))"
    and "w' = w\<lparr>lw_runtime := runtime_update change (lw_runtime w)\<rparr>"
  shows "lw_sent (loop_iteration base env w) = lw_sent w \<and> lw_sent (loop_iteration base env w') = lw_sent w \<and>
    (\<exists>mid \<in> set (save_moments (change (runtime_load (lw_runtime w))) (lw_runtime w)).
       \<not> rs_paused (runtime_load mid) \<and>
       lw_sent (loop_round base env (runtime_load mid) w') = lw_sent (fst (loop_tick env base 1000 w')))"
proof -
  let ?mid = "(lw_runtime w)\<lparr>rt_file := None\<rparr>"
  have "rs_paused (runtime_load (lw_runtime w'))" using assms by (simp add: runtime_cell.load_update)
  then have "lw_sent (loop_iteration base env w') = lw_sent w" using assms(3) by (simp add: paused_iteration)
  moreover have "lw_sent (loop_iteration base env w) = lw_sent w" using assms(1) by (simp add: paused_iteration)
  moreover have "\<not> rs_paused (runtime_load ?mid)" "rs_portfolio_value_usd (runtime_load ?mid) = 1000"
    by (simp_all add: runtime_load_def)
  then have "lw_sent (loop_round base env (runtime_load ?mid) w') = lw_sent (fst (loop_tick env base 1000 w'))"
    by (simp add: loop_round_def split: prod.split sum.split)
  ultimately show ?thesis using \<open>\<not> rs_paused (runtime_load ?mid)\<close> by (auto simp: save_moments_def)
qed

definition paused_world :: loop_world where
  "paused_world = fresh_world\<lparr>lw_runtime := runtime_update (\<lambda>s. s\<lparr>rs_paused := True\<rparr>) fresh_runtime\<rparr>"

theorem pause_overlooked_mid_save_witness:
  "let w' = paused_world\<lparr>lw_runtime := runtime_update (\<lambda>s. s\<lparr>rs_portfolio_value_usd := 900\<rparr>) (lw_runtime paused_world)\<rparr>
   in lw_sent (loop_iteration bnb_strategy idle_env w') = [] \<and>
      (\<exists>mid. lw_sent (loop_round bnb_strategy idle_env (runtime_load mid) w') \<noteq> [])"
proof -
  let ?f = "\<lambda>s. s\<lparr>rs_portfolio_value_usd := 900\<rparr>"
  define w' where "w' = paused_world\<lparr>lw_runtime := runtime_update ?f (lw_runtime paused_world)\<rparr>"
  have "rs_paused (runtime_load (lw_runtime paused_world))" "rs_paused (?f (runtime_load (lw_runtime paused_world)))"
    "lw_sent paused_world = []"
    by (simp_all add: paused_world_def fresh_world_def runtime_cell.load_update)
  moreover have "lw_sent (fst (loop_tick idle_env bnb_strategy 1000 w')) \<noteq> []"
    unfolding w'_def by code_simp
  ultimately show ?thesis
    using pause_overlooked_mid_save [OF _ _ w'_def, of bnb_strategy idle_env] unfolding w'_def [symmetric] Let_def by metis
qed

section \<open>Two writers of abstentions\<close>

text \<open>A marking that began before an append and ends after it writes the file without the appended record.\<close>

lemma marking_loses_append:
  assumes "p \<noteq> q" "fst (mark_to_market prices now age l) \<noteq> 0"
  shows "length (race id write_ledger [Reads p, Reads q, Writes q (Record a), Writes p (MarkAll prices now age)] l) = length l"
  using assms by (simp add: race_def write_ledger_def mark_to_market_def split_def)

text \<open>Two overlapping appends get the same number.\<close>

lemma appends_share_number:
  assumes "p \<noteq> q"
  shows "map ab_seq (race id write_ledger [Reads p, Reads q, Writes p (Record a), Writes q (Record b)] l) =
    map ab_seq l @ [ab_seq (new_abstention a l), ab_seq (new_abstention a l)]"
  using assms by (simp add: race_def write_ledger_def new_abstention_def)

end
