(* ===== verification/Layout.thy ===== *)
theory Layout
  imports Jsonl
begin

text \<open>
  What the committed policy hash depends on. Two configurations say the same when they are equal as Python
  dictionaries, at every depth, once the keys that begin with an underscore are left out. The canonical bytes
  (\<open>agent/policy/canonical.py\<close>) are a function of exactly that, and so is the hash of a configuration file.
\<close>

section \<open>Saying the same\<close>

text \<open>Equality of values as \<open>==\<close> of \<open>dict\<close> and \<open>list\<close> has it, annotations apart.\<close>

fun same_rules :: "json \<Rightarrow> json \<Rightarrow> bool" where
  "same_rules (JObj kvs) j =
     (case j of
        JObj kvs' \<Rightarrow>
          (\<forall>(k, v) \<in> set kvs. annotation_key k \<or> (case map_of kvs' k of None \<Rightarrow> False | Some v' \<Rightarrow> same_rules v v')) \<and>
          (\<forall>(k, v) \<in> set kvs'. annotation_key k \<or> k \<in> fst ` set kvs)
      | _ \<Rightarrow> False)"
| "same_rules (JList xs) j = (case j of JList ys \<Rightarrow> list_all2 same_rules xs ys | _ \<Rightarrow> False)"
| "same_rules i j = (i = j)"

section \<open>Canonical forms\<close>

abbreviation canon :: "json \<Rightarrow> json" where
  "canon j \<equiv> sort_keys (strip_comments j)"

definition canon_fields :: "(string \<times> json) list \<Rightarrow> (string \<times> json) list" where
  "canon_fields kvs = map (\<lambda>(k, v). (k, canon v)) (filter (\<lambda>(k, v). \<not> annotation_key k) kvs)"

lemma canon_JObj: "canon (JObj kvs) = JObj (sort_key fst (canon_fields kvs))"
proof -
  have "canon_fields kvs = map (\<lambda>(k, v). (k, sort_keys v)) (map (\<lambda>(k, v). (k, strip_comments v)) (filter (\<lambda>(k, v). \<not> annotation_key k) kvs))"
    by (simp add: canon_fields_def split_def)
  then show ?thesis by (simp only: sort_key_map strip_comments.simps sort_keys.simps)
qed

lemma canon_JList: "canon (JList xs) = JList (map canon xs)"
  by simp

lemma sort_key_fst_eq_iff:
  fixes xs ys :: "(string \<times> json) list"
  assumes "distinct (map fst xs)" "distinct (map fst ys)"
  shows "sort_key fst xs = sort_key fst ys \<longleftrightarrow> set xs = set ys"
proof
  assume "set xs = set ys"
  then have "mset xs = mset ys" using assms by (simp add: set_eq_iff_mset_eq_distinct distinct_map)
  with assms(1) show "sort_key fst xs = sort_key fst ys" by (rule sort_key_fst_perm)
qed (metis set_sort)

lemma canon_fields_keys: "distinct (map fst kvs) \<Longrightarrow> distinct (map fst (canon_fields kvs))"
  by (simp add: canon_fields_def split_def comp_def distinct_map_filter)

lemma in_canon_fields: "(k, w) \<in> set (canon_fields kvs) \<longleftrightarrow> \<not> annotation_key k \<and> (\<exists>v. (k, v) \<in> set kvs \<and> w = canon v)"
  by (auto simp: canon_fields_def)

text \<open>The canonical form is a normal form for saying the same.\<close>

lemma same_rules_JObj:
  "same_rules (JObj kvs) (JObj kvs') \<longleftrightarrow>
     (\<forall>k v. (k, v) \<in> set kvs \<longrightarrow> \<not> annotation_key k \<longrightarrow> (\<exists>v'. map_of kvs' k = Some v' \<and> same_rules v v')) \<and>
     (\<forall>k v'. (k, v') \<in> set kvs' \<longrightarrow> \<not> annotation_key k \<longrightarrow> (\<exists>v. (k, v) \<in> set kvs))"
proof -
  have "(case m of None \<Rightarrow> False | Some v' \<Rightarrow> same_rules v v') \<longleftrightarrow> (\<exists>v'. m = Some v' \<and> same_rules v v')" for m v
    by (cases m) simp_all
  moreover have "k \<in> fst ` set kvs \<longleftrightarrow> (\<exists>v. (k, v) \<in> set kvs)" for k by force
  ultimately show ?thesis by (simp only: same_rules.simps json.case Ball_def split_paired_All case_prod_conv) blast
qed

lemma same_rules_fields:
  assumes IH: "\<And>k v v'. (k, v) \<in> set kvs \<Longrightarrow> unique_keys v' \<Longrightarrow> canon v = canon v' \<longleftrightarrow> same_rules v v'"
    and d: "distinct (map fst kvs)" "distinct (map fst kvs')" and u: "\<And>k v'. (k, v') \<in> set kvs' \<Longrightarrow> unique_keys v'"
  shows "set (canon_fields kvs) = set (canon_fields kvs') \<longleftrightarrow> same_rules (JObj kvs) (JObj kvs')"
proof
  assume eq: "set (canon_fields kvs) = set (canon_fields kvs')"
  have "\<exists>v'. map_of kvs' k = Some v' \<and> same_rules v v'" if "(k, v) \<in> set kvs" "\<not> annotation_key k" for k v
  proof -
    have "(k, canon v) \<in> set (canon_fields kvs')" using that unfolding eq [symmetric] in_canon_fields by blast
    then obtain v' where v': "(k, v') \<in> set kvs'" "canon v = canon v'" unfolding in_canon_fields by blast
    then show ?thesis using IH [OF that(1) u [OF v'(1)]] map_of_is_SomeI [OF d(2) v'(1)] by blast
  qed
  moreover have "\<exists>v. (k, v) \<in> set kvs" if "(k, v') \<in> set kvs'" "\<not> annotation_key k" for k v'
  proof -
    have "(k, canon v') \<in> set (canon_fields kvs)" using that unfolding eq in_canon_fields by blast
    then show ?thesis unfolding in_canon_fields by blast
  qed
  ultimately show "same_rules (JObj kvs) (JObj kvs')" unfolding same_rules_JObj by blast
next
  assume same: "same_rules (JObj kvs) (JObj kvs')"
  have fields: "\<exists>v'. (k, v') \<in> set kvs' \<and> canon v = canon v'" if kv: "(k, v) \<in> set kvs" "\<not> annotation_key k" for k v
  proof -
    obtain v' where v': "map_of kvs' k = Some v'" "same_rules v v'" using same kv unfolding same_rules_JObj by blast
    have m: "(k, v') \<in> set kvs'" using v'(1) by (rule map_of_SomeD)
    with IH [OF kv(1) u [OF m]] v'(2) show ?thesis by blast
  qed
  have origin: "\<exists>v. (k, v) \<in> set kvs \<and> canon v = canon v'" if kv: "(k, v') \<in> set kvs'" "\<not> annotation_key k" for k v'
  proof -
    obtain v where v: "(k, v) \<in> set kvs" using same kv unfolding same_rules_JObj by blast
    from fields [OF this kv(2)] obtain w where w: "(k, w) \<in> set kvs'" "canon v = canon w" by blast
    have "w = v'" using map_of_is_SomeI [OF d(2) w(1)] map_of_is_SomeI [OF d(2) kv(1)] by simp
    with v w show ?thesis by blast
  qed
  show "set (canon_fields kvs) = set (canon_fields kvs')"
  proof (intro set_eqI)
    fix x :: "string \<times> json"
    obtain k w where x: "x = (k, w)" by (cases x)
    show "x \<in> set (canon_fields kvs) \<longleftrightarrow> x \<in> set (canon_fields kvs')"
      unfolding x in_canon_fields using fields origin by metis
  qed
qed

lemma canon_iff_same:
  "unique_keys i \<Longrightarrow> unique_keys j \<Longrightarrow> canon i = canon j \<longleftrightarrow> same_rules i j"
proof (induction i arbitrary: j)
  case (JObj kvs)
  show ?case
  proof (cases j)
    case o: (JObj kvs')
    have IH: "canon v = canon v' \<longleftrightarrow> same_rules v v'" if "(k, v) \<in> set kvs" "unique_keys v'" for k v v'
      using JObj.IH [of "(k, v)" v v'] JObj.prems(1) that by (force simp: list_all_iff)
    have d: "distinct (map fst kvs)" "distinct (map fst kvs')" "\<And>k v'. (k, v') \<in> set kvs' \<Longrightarrow> unique_keys v'"
      using JObj.prems by (auto simp: o list_all_iff)
    show ?thesis
      unfolding o canon_JObj json.inject sort_key_fst_eq_iff [OF canon_fields_keys [OF d(1)] canon_fields_keys [OF d(2)]]
      by (rule same_rules_fields [OF IH d])
  qed simp_all
next
  case (JList xs)
  show ?case
  proof (cases j)
    case l: (JList ys)
    have "map canon xs = map canon ys \<longleftrightarrow> list_all2 same_rules xs ys"
      using JList by (auto simp: l list_all_iff list_all2_conv_all_nth list_eq_iff_nth_eq)
    then show ?thesis by (simp add: l comp_def)
  qed simp_all
next
  case JNull
  show ?case by (cases j) simp_all
next
  case (JBool b)
  show ?case by (cases j) simp_all
next
  case (JInt n)
  show ?case by (cases j) simp_all
next
  case (JFloat x)
  show ?case by (cases j) simp_all
next
  case (JStr s)
  show ?case by (cases j) simp_all
qed

section \<open>The hash of a file\<close>

text \<open>
  C40. The committed policy hash is the hash of what a configuration file says, not of how it is laid out. Printed
  with any separators, or indented as an editor would, or as its own canonical bytes, the file has the hash of its value.
  And two files have the same hash exactly if they say the same (the same fields at every depth in any order of the
  keys, whatever annotations either carries), unless their canonical texts are a collision of the digest.
\<close>

theorem committed_hash_layout:
  assumes "printable cfg" "printable cfg'" "separators sep col"
  shows "committed_policy_hash H (print_json sep col cfg) = Inr (policy_hash H cfg) \<and>
    committed_policy_hash H (print_indent 0 cfg @ newline) = Inr (policy_hash H cfg) \<and>
    committed_policy_hash H (canonical_bytes cfg) = Inr (policy_hash H cfg) \<and>
    (committed_policy_hash H (print_json sep col cfg) = committed_policy_hash H (print_json sep col cfg') \<longleftrightarrow>
       same_rules cfg cfg' \<or> canonical_bytes cfg \<noteq> canonical_bytes cfg' \<and> H (canonical_bytes cfg) = H (canonical_bytes cfg'))"
proof -
  note loads = committed_policy_hash_def load_config_def py_loads_def
  have printed: "committed_policy_hash H (print_json sep col j) = Inr (policy_hash H j)" if "printable j" for j
    using loads_print [OF assms(3) that] by (simp add: loads)
  have "canonical_bytes cfg = canonical_bytes cfg' \<longleftrightarrow> canon cfg = canon cfg'"
    using canonical_bytes_inj assms(1,2) by (auto simp: printable_def canonical_bytes_def)
  then have "canonical_bytes cfg = canonical_bytes cfg' \<longleftrightarrow> same_rules cfg cfg'"
    using canon_iff_same assms(1,2) by (simp add: printable_def)
  then have "policy_hash H cfg = policy_hash H cfg' \<longleftrightarrow>
      same_rules cfg cfg' \<or> canonical_bytes cfg \<noteq> canonical_bytes cfg' \<and> H (canonical_bytes cfg) = H (canonical_bytes cfg')"
    by (auto simp: policy_hash_def)
  moreover have "committed_policy_hash H (print_indent 0 cfg @ newline) = Inr (policy_hash H cfg)"
    "committed_policy_hash H (canonical_bytes cfg) = Inr (policy_hash H cfg)"
    using loads_canonical [OF assms(1)] loads_indent [OF assms(1)]
    by (simp_all add: loads policy_hash_def canonical_bytes_def canonical_fixed)
  ultimately show ?thesis by (simp add: printed assms(1,2))
qed

definition ex_cfg :: json where
  "ex_cfg = JObj [(''b'', JObj [(''y'', JInt 1), (''_why'', JNull), (''x'', JBool True)]), (''_note'', JStr ''n''), (''a'', JList [])]"

definition ex_cfg' :: json where
  "ex_cfg' = JObj [(''a'', JList []), (''b'', JObj [(''x'', JBool True), (''y'', JInt 1)])]"

theorem committed_hash_layout_witness:
  "committed_policy_hash ex_digest (print_json '', '' '': '' ex_cfg) = committed_policy_hash ex_digest (print_json '', '' '': '' ex_cfg')"
proof -
  have "printable ex_cfg" "printable ex_cfg'" by (simp_all add: ex_cfg_def ex_cfg'_def)
  moreover have "separators '', '' '': ''" by simp
  moreover have "same_rules ex_cfg ex_cfg'" by code_simp
  ultimately show ?thesis using committed_hash_layout [of ex_cfg ex_cfg' "'', ''" "'': ''" ex_digest] by blast
qed

end
