(* ===== verification/Recovery.thy ===== *)
theory Recovery
  imports RunLive
begin

text \<open>
  What a crash of the live loop leaves and what the next start makes of it: the state file that the snapshots leave
  on the disk gives back exactly the state that \<open>RunLive\<close> restarts from, and a loop that starts with a pending intent
  does not decide before it has set its books to the balances of the chain.
\<close>

section \<open>From the disk to the state\<close>

lemma map_of_field [simp]: "map_of (field k f x) k' = (if k' = k then map_option f x else None)"
  by (simp add: field_def split: option.splits)

lemma field_default [simp]:
  "(case (case x of None \<Rightarrow> None | Some v \<Rightarrow> Some (f v)) of None \<Rightarrow> Some (f d) | Some v \<Rightarrow> Some v) = Some (f (get_or x d))"
  "(case (case x of None \<Rightarrow> None | Some v \<Rightarrow> Some (f v)) of None \<Rightarrow> None | Some v \<Rightarrow> Some v) = map_option f x"
  by (cases x; simp)+

text \<open>The dictionary that a restart loads after \<open>s\<close> was written (\<open>write_load_round_trip\<close> in \<open>OpsState\<close>).\<close>

definition snapshot_of :: "live_state \<Rightarrow> string \<rightharpoonup> json" where
  "snapshot_of s k = map_option sort_keys ((map_of DEFAULTS ++ map_of (state_dict s)) k)"

lemma snapshot_values:
  "snapshot_of s ''positions'' = Some (sort_keys (JObj (map (\<lambda>(k, p). (k, book_pos_json p)) (st_positions (ls_agent s)))))"
  "snapshot_of s ''pending_intent'' =
     Some (sort_keys (case st_pending_intent (ls_agent s) of None \<Rightarrow> JNull | Some p \<Rightarrow> pending_json p))"
  "snapshot_of s ''mode'' = Some (JStr (ls_mode s))"
  "snapshot_of s ''last_tick_ts'' = Some (JFloat (ls_last_tick_ts s))"
  "snapshot_of s ''nav'' = Some (JFloat (get_or (st_nav (ls_agent s)) 0))"
  "snapshot_of s ''portfolio_value_usd'' = map_option JFloat (st_portfolio_value_usd (ls_agent s))"
  "snapshot_of s ''stable_usd'' = Some (JFloat (get_or (st_stable_usd (ls_agent s)) 0))"
  "snapshot_of s ''high_water_mark'' = Some (JFloat (get_or (st_high_water_mark (ls_agent s)) 0))"
  "snapshot_of s ''last_trade_ts'' = Some (JFloat (get_or (st_last_trade_ts (ls_agent s)) 0))"
  "snapshot_of s ''trades_this_week'' = Some (JInt (get_or (st_trades_this_week (ls_agent s)) 0))"
  "snapshot_of s ''trades_last_hour'' = Some (JInt (get_or (st_trades_last_hour (ls_agent s)) 0))"
  "snapshot_of s ''intent_seq'' = Some (JInt (get_or (st_intent_seq (ls_agent s)) 0))"
  by (cases "st_portfolio_value_usd (ls_agent s)";
      simp add: snapshot_of_def state_dict_def DEFAULTS_def map_add_def Let_def map_option_case del: sort_keys.simps(1)
        cong: option.case_cong)+

text \<open>Reading the keys of a loaded dictionary.\<close>

definition json_float :: "json \<Rightarrow> real option" where
  "json_float j = (case j of JFloat x \<Rightarrow> Some x | JInt n \<Rightarrow> Some (of_int n) | _ \<Rightarrow> None)"

definition json_int :: "json \<Rightarrow> int option" where
  "json_int j = (case j of JInt n \<Rightarrow> Some n | _ \<Rightarrow> None)"

definition json_str :: "json \<Rightarrow> string option" where
  "json_str j = (case j of JStr s \<Rightarrow> Some s | _ \<Rightarrow> None)"

definition at_key :: "(string \<rightharpoonup> json) \<Rightarrow> string \<Rightarrow> (json \<Rightarrow> 'a option) \<Rightarrow> 'a option" where
  "at_key d k f = Option.bind (d k) f"

definition read_pos :: "json \<Rightarrow> book_pos option" where
  "read_pos j =
     (case j of
        JObj kvs \<Rightarrow>
          (case (at_key (map_of kvs) ''qty'' json_float, at_key (map_of kvs) ''entry_price'' json_float,
                 at_key (map_of kvs) ''entry_ts'' json_float) of
             (Some q, Some p, Some t) \<Rightarrow> Some \<lparr>bp_qty = q, bp_entry_price = p, bp_entry_ts = t\<rparr>
           | _ \<Rightarrow> None)
      | _ \<Rightarrow> None)"

definition read_positions :: "json \<Rightarrow> (string \<times> book_pos) list option" where
  "read_positions j =
     (case j of JObj kvs \<Rightarrow> those (map (\<lambda>(k, v). map_option (Pair k) (read_pos v)) kvs) | _ \<Rightarrow> None)"

definition side_of_text :: "string \<Rightarrow> side option" where
  "side_of_text t = find (\<lambda>s. side_text s = t) [Buy, Sell, Hold]"

definition read_pending :: "json \<Rightarrow> pending option option" where
  "read_pending j =
     (case j of
        JNull \<Rightarrow> Some None
      | JObj kvs \<Rightarrow>
          (case (at_key (map_of kvs) ''seq'' json_int, Option.bind (at_key (map_of kvs) ''side'' json_str) side_of_text,
                 at_key (map_of kvs) ''from_token'' json_str, at_key (map_of kvs) ''to_token'' json_str,
                 at_key (map_of kvs) ''amount_usd'' json_float, at_key (map_of kvs) ''ts'' json_str) of
             (Some n, Some s, Some f, Some t, Some a, Some ts) \<Rightarrow>
               Some (Some \<lparr>pi_seq = n, pi_side = s, pi_from_token = f, pi_to_token = t, pi_amount_usd = a, pi_ts = ts\<rparr>)
           | _ \<Rightarrow> None)
      | _ \<Rightarrow> None)"

definition loaded_state :: "(string \<rightharpoonup> json) \<Rightarrow> live_state option" where
  "loaded_state d =
     (case (at_key d ''positions'' read_positions, at_key d ''pending_intent'' read_pending,
            at_key d ''mode'' json_str, at_key d ''last_tick_ts'' json_float) of
        (Some ps, Some pending, Some mode, Some ts) \<Rightarrow>
          Some \<lparr>ls_agent = \<lparr>st_positions = ps, st_nav = at_key d ''nav'' json_float,
              st_portfolio_value_usd = at_key d ''portfolio_value_usd'' json_float,
              st_stable_usd = at_key d ''stable_usd'' json_float,
              st_high_water_mark = at_key d ''high_water_mark'' json_float,
              st_last_trade_ts = at_key d ''last_trade_ts'' json_float,
              st_trades_this_week = at_key d ''trades_this_week'' json_int,
              st_trades_last_hour = at_key d ''trades_last_hour'' json_int,
              st_intent_seq = at_key d ''intent_seq'' json_int, st_pending_intent = pending\<rparr>,
            ls_mode = mode, ls_last_tick_ts = ts\<rparr>
      | _ \<Rightarrow> None)"

lemma sorted_fields_at:
  "at_key (map_of (map (\<lambda>(k, v). (k, sort_keys v)) (sort_key fst kvs))) k f = Option.bind (map_of kvs k) (\<lambda>v. f (sort_keys v))"
  by (simp only: at_key_def map_of_sorted_fields) (cases "map_of kvs k"; simp)

lemma read_pos_json [simp]: "read_pos (sort_keys (book_pos_json p)) = Some p"
  unfolding read_pos_def book_pos_json_def sort_keys.simps(1) json.case sorted_fields_at by (simp add: json_float_def)

lemma read_positions_json [simp]:
  "read_positions (sort_keys (JObj (map (\<lambda>(k, p). (k, book_pos_json p)) ps))) = Some (sort_key fst ps)"
proof -
  have "those (map (\<lambda>(k, v). map_option (Pair k) (read_pos v)) (map (\<lambda>(k, v). (k, sort_keys v))
      (map (\<lambda>(k, p). (k, book_pos_json p)) qs))) = Some qs" for qs
    by (induction qs) auto
  then show ?thesis by (simp add: read_positions_def sort_key_map)
qed

lemma side_of_side_text [simp]: "side_of_text (side_text s) = Some s"
  by (cases s) (simp_all add: side_of_text_def side_text_def)

lemma read_pending_json [simp]: "read_pending (sort_keys (pending_json p)) = Some (Some p)"
  unfolding read_pending_def pending_json_def sort_keys.simps(1) json.case sorted_fields_at
  by (simp add: json_float_def json_int_def json_str_def)

lemma read_pending_option [simp]:
  "read_pending (sort_keys (case x of None \<Rightarrow> JNull | Some p \<Rightarrow> pending_json p)) = Some x"
proof (cases x)
  case None
  then show ?thesis by (simp add: read_pending_def)
qed simp

text \<open>Every key of a snapshot reads back as the field it was written from, with the defaults for absent ones.\<close>

lemma loaded_snapshot: "loaded_state (snapshot_of s) = Some (with_defaults s)"
proof -
  have f: "Option.bind (map_option JFloat x) json_float = x" for x by (cases x) (simp_all add: json_float_def)
  have b: "at_key d k g = Option.bind (d k) g" for d k and g :: "json \<Rightarrow> 'b option" by (simp add: at_key_def)
  show ?thesis
    unfolding loaded_state_def b snapshot_values f
    by (simp add: json_float_def json_int_def json_str_def with_defaults_def Let_def del: sort_keys.simps(1))
qed

lemma loaded_defaults: "loaded_state (map_of fresh_defaults) = Some default_state"
  by (simp add: loaded_state_def at_key_def fresh_defaults_eq DEFAULTS_def default_state_def read_positions_def
      read_pending_def json_float_def json_int_def json_str_def)

lemma field_keys: "fst ` set (field k f x) = (if x = None then {} else {k})" "distinct (map fst (field k f x))"
  by (cases x; simp add: field_def)+

lemma distinct_state_dict: "distinct (map fst (state_dict s))"
  by (simp add: state_dict_def Let_def field_keys)

definition resume_from :: "live_setup \<Rightarrow> disk \<Rightarrow> live_state option" where
  "resume_from u dk =
     (case load dk init_state of (_, Inl e) \<Rightarrow> None | (_, Inr d) \<Rightarrow> map_option (start_state u) (loaded_state (map_of d)))"

text \<open>The document that \<open>ps.write\<close> saves for a state, and the disk after the snapshots of a trace.\<close>

definition snapshot_doc :: "live_state \<Rightarrow> json" where
  "snapshot_doc s = sort_keys (JObj (dict_update fresh_defaults (state_dict s)))"

definition disk_after :: "live_event list \<Rightarrow> disk \<Rightarrow> disk" where
  "disk_after es dk = foldl (\<lambda>dk e. case e of Wrote s \<Rightarrow> fst (snd (write_state NoFault (state_dict s) init_state dk)) | Did _ \<Rightarrow> dk) dk es"

definition blank_disk :: disk where
  "blank_disk = \<lparr>dk_main = None, dk_tmp = None\<rparr>"

lemma disk_after_main:
  "dk_main (disk_after es dk) = (case last_snapshot es of None \<Rightarrow> dk_main dk | Some s \<Rightarrow> Some (Doc (snapshot_doc s)))"
proof (induction es arbitrary: dk)
  case (Cons e es)
  have "dk_main (fst (snd (write_state NoFault (state_dict s) init_state dk))) = Some (Doc (snapshot_doc s))" for s
    using save_main(1) [of NoFault "snapshot_doc s" dk] by (simp add: write_state_def save_and_copy_eq snapshot_doc_def)
  with Cons.IH show ?case by (cases e) (simp_all add: disk_after_def split: option.split)
qed (simp add: disk_after_def)

lemma resume_from_main:
  "dk_main dk = None \<Longrightarrow> resume_from u dk = Some (start_state u default_state)"
  "dk_main dk = Some (Doc (snapshot_doc s)) \<Longrightarrow> resume_from u dk = Some (start_state u (with_defaults s))"
proof -
  show "resume_from u dk = Some (start_state u default_state)" if "dk_main dk = None"
    using that by (simp add: resume_from_def load_def loaded_defaults)
  let ?data = "dict_update fresh_defaults (state_dict s)"
  let ?kvs = "map (\<lambda>(k, v). (k, sort_keys v)) (sort_key fst ?data)"
  have "distinct (map fst ?kvs)"
    by (simp only: distinct_sorted_fields) (simp add: fresh_defaults_eq distinct_dict_update)
  then have "map_of (dict_update fresh_defaults ?kvs) k = snapshot_of s k" for k
    by (auto simp: fresh_defaults_eq map_of_dict_update map_of_sorted_fields distinct_state_dict snapshot_of_def map_add_def
        split: option.split)
  then have "map_of (dict_update fresh_defaults ?kvs) = snapshot_of s" by blast
  then show "resume_from u dk = Some (start_state u (with_defaults s))" if "dk_main dk = Some (Doc (snapshot_doc s))"
    using that by (simp add: resume_from_def load_def snapshot_doc_def Let_def loaded_snapshot)
qed

text \<open>Two states with the same intent and the same books.\<close>

definition same_books :: "live_state \<Rightarrow> live_state \<Rightarrow> bool" where
  "same_books a b =
     (st_pending_intent (ls_agent a) = st_pending_intent (ls_agent b) \<and> map_of (st_positions (ls_agent a)) = map_of (st_positions (ls_agent b)) \<and>
      get_or (st_stable_usd (ls_agent a)) 0 = get_or (st_stable_usd (ls_agent b)) 0)"

lemma same_books_refl [simp]: "same_books a a"
  by (simp add: same_books_def)

lemma same_books_restart: "last_snapshot es = Some x \<Longrightarrow> same_books (restart_state u es) b = same_books x b"
  by (simp add: same_books_def restart_state_def start_state_def with_defaults_def map_of_sort_key Let_def)

text \<open>
  C10. A restart resumes from the last complete snapshot. Write the snapshots of any history to the state file and cut
  the save of one more at any of its micro-steps: what \<open>load\<close> finds on that disk, read key by key and started, is
  the state of the last snapshot of the history, or the new state if and only if the save had come to the rename.
  Positions, the pending intent, cash, marks and counters are those that were written (the positions in the order of
  their symbols, since the file has sorted keys); keys that were absent have the defaults.
\<close>

theorem restart_reads_the_snapshot:
  assumes "save_steps (snapshot_doc s) (Opening, disk_after es blank_disk) (pc, dk)"
  shows "resume_from u (disk_after es blank_disk) = Some (restart_state u es) \<and>
    resume_from u dk = Some (restart_state u (if pc = Replaced then es @ [Wrote s] else es)) \<and>
    (pc = Replaced \<longrightarrow> (\<exists>t. resume_from u dk = Some t \<and> same_books t s \<and>
       get_or (st_nav (ls_agent t)) 0 = get_or (st_nav (ls_agent s)) 0 \<and>
       get_or (st_last_trade_ts (ls_agent t)) 0 = get_or (st_last_trade_ts (ls_agent s)) 0 \<and>
       get_or (st_trades_this_week (ls_agent t)) 0 = get_or (st_trades_this_week (ls_agent s)) 0 \<and>
       get_or (st_intent_seq (ls_agent t)) 0 = get_or (st_intent_seq (ls_agent s)) 0 \<and>
       (get_or (st_high_water_mark (ls_agent s)) 0 \<noteq> 0 \<longrightarrow>
        st_high_water_mark (ls_agent t) = st_high_water_mark (ls_agent s))))"
proof -
  have at: "resume_from u dk' = Some (restart_state u es')"
    if "dk_main dk' = (case last_snapshot es' of None \<Rightarrow> None | Some s \<Rightarrow> Some (Doc (snapshot_doc s)))" for dk' es'
    using that by (cases "last_snapshot es'") (simp_all add: resume_from_main restart_state_def)
  have "dk_main blank_disk = None" by (simp add: blank_disk_def)
  note main = disk_after_main [of es blank_disk, unfolded this]
  have "dk_main dk = (if pc = Replaced then Some (Doc (snapshot_doc s)) else dk_main (disk_after es blank_disk))"
    using save_steps_inv [OF assms] by simp
  then have now: "resume_from u dk = Some (restart_state u (if pc = Replaced then es @ [Wrote s] else es))"
    using at [of dk "if pc = Replaced then es @ [Wrote s] else es"] main by (simp split: if_splits)
  have "get_or (st_high_water_mark (ls_agent s)) 0 \<noteq> 0 \<longrightarrow>
      Some (get_or (st_high_water_mark (ls_agent s)) 0) = st_high_water_mark (ls_agent s)"
    by (cases "st_high_water_mark (ls_agent s)") simp_all
  then show ?thesis
    using at [OF main] now
    by (auto simp: same_books_restart) (simp_all add: restart_state_def start_state_def with_defaults_def Let_def)
qed

theorem restart_reads_the_snapshot_witness:
  "let s = \<lparr>ls_agent = ex_state, ls_mode = ''live'', ls_last_tick_ts = 5\<rparr>;
       dk = (disk_after [Wrote s] blank_disk)\<lparr>dk_tmp := Some Garbage\<rparr>
   in resume_from (lp_setup ex_params) dk = Some (restart_state (lp_setup ex_params) [Wrote s]) \<and>
      st_stable_usd (ls_agent (restart_state (lp_setup ex_params) [Wrote s])) = Some 1000"
proof -
  let ?s = "\<lparr>ls_agent = ex_state, ls_mode = ''live'', ls_last_tick_ts = 5\<rparr>" and ?u = "lp_setup ex_params"
  let ?new = "?s\<lparr>ls_agent := ex_state\<lparr>st_stable_usd := Some 7\<rparr>\<rparr>" and ?dk = "disk_after [Wrote ?s] blank_disk"
  have "save_steps (snapshot_doc ?new) (Opening, ?dk) (Writing, ?dk\<lparr>dk_tmp := Some Garbage\<rparr>)"
    by (rule save_steps.more [OF save_steps.none open_tmp])
  from restart_reads_the_snapshot [OF this, of ?u] show ?thesis
    by (simp add: restart_state_def start_state_def with_defaults_def Let_def ex_state_def)
qed

section \<open>Recovering from a crash\<close>

text \<open>
  What can happen between a restart and the iteration that recovers: iterations that hold because the balances
  cannot be read, or that fail, and further restarts from the snapshots on the disk.
\<close>

inductive resumed :: "live_params \<Rightarrow> live_run \<Rightarrow> live_run \<Rightarrow> bool" for lp s where
  here: "resumed lp s s"
| iterate: "resumed lp s r \<Longrightarrow> live_iteration lp inp r = (r', e) \<Longrightarrow> e = HeldUnread \<or> (\<exists>err. e = Failed err) \<Longrightarrow>
    resumed lp s r'"
| restart: "resumed lp s r \<Longrightarrow>
    resumed lp s (r\<lparr>lr_state := restart_state (lp_setup lp) (lr_trace r), lr_pool := pool\<rparr>)"

text \<open>Until the intent is cleared, restarts and iterations keep the books, and write nothing but snapshots of them.\<close>

lemma resumed_books:
  assumes "resumed lp s r" "st_pending_intent (ls_agent (lr_state s)) \<noteq> None"
    and "last_snapshot (lr_trace s) = Some x" "same_books x (lr_state s)"
  shows "same_books (lr_state r) (lr_state s) \<and> lr_world r = lr_world s \<and>
    (\<exists>evs. lr_trace r = lr_trace s @ evs \<and> (\<forall>ev \<in> set evs. \<not> is_sent ev)) \<and>
    (\<exists>y. last_snapshot (lr_trace r) = Some y \<and> same_books y (lr_state s))"
  using assms(1)
proof induction
  case here
  then show ?case using assms(3,4) by simp
next
  case (iterate r inp r' e)
  have "st_pending_intent (ls_agent (lr_state r)) \<noteq> None" using iterate.IH assms(2) by (simp add: same_books_def)
  from pending_iteration [OF iterate.hyps(2) this] iterate.hyps(3) iterate.IH show ?case by auto
next
  case (restart r pool)
  then show ?case using same_books_restart by auto
qed

lemma restarted_after_broadcast:
  assumes "live_iteration lp inp r = (r', e)" "x_mode (lp_executor lp) = Live"
    and "lr_trace r' = lr_trace r @ p @ q" "\<exists>b. Did (Sent b) \<in> set p" "q \<noteq> [] \<or> (\<exists>err. e = Failed err)"
  shows "\<exists>st. last_snapshot p = Some st \<and> st_pending_intent (ls_agent st) \<noteq> None"
proof -
  obtain b where b: "Did (Sent b) \<in> set p" using assms(4) by blast
  have "is_sent (Did (Sent b))" by simp
  with b have "\<not> (\<forall>ev \<in> set (p @ q). \<not> is_sent ev)" by (metis Un_iff set_append)
  moreover obtain evs where "lr_trace r' = lr_trace r @ evs" "(\<forall>ev \<in> set evs. \<not> is_sent ev) \<or>
     (\<exists>h s sent tail. evs = [Did (Receipted h), Wrote s] @ map (\<lambda>b. Did (Sent b)) sent @ tail \<and>
        st_pending_intent (ls_agent s) \<noteq> None \<and>
        (tail = [] \<and> (\<exists>err. e = Failed err) \<or> (\<exists>s' res. tail = [Wrote s'] \<and> e = Ticked res)))"
    using iteration_events [OF assms(1,2)] by blast
  ultimately obtain h st sent tail where evs: "p @ q = [Did (Receipted h), Wrote st] @ map (\<lambda>b. Did (Sent b)) sent @ tail"
      "st_pending_intent (ls_agent st) \<noteq> None"
      "tail = [] \<and> (\<exists>err. e = Failed err) \<or> (\<exists>s' res. tail = [Wrote s'] \<and> e = Ticked res)"
    using assms(3) by auto
  have "last_snapshot p = Some st"
  proof (rule cut_snapshot [OF evs(1) b])
    show "tail = [] \<or> (\<exists>s'. tail = [Wrote s'] \<and> q \<noteq> [])" using evs(3) assms(5) by auto
  qed
  with evs(2) show ?thesis by blast
qed

lemma mirrors_chain_cong:
  "map_of old = map_of old' \<Longrightarrow> mirrors_chain stables price clock old bals a = mirrors_chain stables price clock old' bals a"
proof -
  assume "map_of old = map_of old'"
  then have "chain_book stables price clock old bals = chain_book stables price clock old' bals"
    by (intro ext) (simp add: chain_book_def cong: option.case_cong if_cong)
  then show ?thesis by (simp add: mirrors_chain_def)
qed

text \<open>The quote tokens that count as cash in the books that are read.\<close>

definition cash_tokens :: "live_params \<Rightarrow> string list" where
  "cash_tokens lp = map upper (get_or (quote_tokens (lp_cfg lp))
     (if ledger_source (lp_setup lp) = FromInjective then [''USDT''] else [''USDT'', ''USDC'']))"

lemma read_balances_distinct:
  "read_balances rpc wallet symbs out s = (s', Inr bals) \<Longrightarrow> distinct (map fst out) \<Longrightarrow> distinct (map fst bals)"
proof (induction symbs arbitrary: out s)
  case (Cons symb symbs)
  then show ?case by (auto simp: distinct_update split: option.splits prod.splits sum.splits)
qed simp

lemma reconciled_books:
  assumes "reconcile_books lp inp price (lr_pool r) a = (pool, True, a')"
    and "\<And>bals. li_subaccount inp (read_symbols (lp_cfg lp)) = Inr bals \<Longrightarrow> distinct (map fst bals)"
  shows "case read_answer lp inp r of
      None \<Rightarrow> ledger_source (lp_setup lp) = FromLedger \<and> st_positions a' = st_positions a \<and>
        (get_or (st_stable_usd a) 0 \<noteq> 0 \<or> st_positions a \<noteq> [] \<longrightarrow> st_stable_usd a' = st_stable_usd a)
    | Some answer \<Rightarrow> \<exists>bals. answer = Inr bals \<and> mirrors_chain (cash_tokens lp) price (li_clock inp) (st_positions a) bals a'"
proof (cases "ledger_source (lp_setup lp)")
  case FromLedger
  with assms(1) show ?thesis by (auto simp: reconcile_books_def read_answer_def split: if_splits)
next
  case FromInjective
  let ?answer = "li_subaccount inp (read_symbols (lp_cfg lp))"
  have s: "sync_books [''USDT''] (lp_cfg lp) price (li_clock inp) ?answer a = (True, a')"
    and read: "read_answer lp inp r = Some ?answer"
    using assms(1) FromInjective by (simp_all add: reconcile_books_def sync_state_from_injective_def read_answer_def)
  obtain bals where "?answer = Inr bals" using s by (cases ?answer) (simp_all add: sync_books_def)
  with read s assms(2) sync_books_mirrors(2) [of "[''USDT'']" "lp_cfg lp" price "li_clock inp" bals a True a']
  show ?thesis by (simp add: cash_tokens_def FromInjective)
next
  case FromChain
  obtain pool' answer where rd: "read_token_balances (li_rpc inp) (lu_wallet (lp_setup lp)) (read_symbols (lp_cfg lp)) (lr_pool r)
      = (pool', answer)" by fastforce
  have s: "sync_books [''USDT'', ''USDC''] (lp_cfg lp) price (li_clock inp) answer a = (True, a')"
    and read: "read_answer lp inp r = Some answer"
    using assms(1) FromChain rd by (simp_all add: reconcile_books_def sync_state_from_chain_def read_answer_def)
  obtain bals where bals: "answer = Inr bals" using s by (cases answer) (simp_all add: sync_books_def)
  then have "distinct (map fst bals)"
    using rd read_balances_distinct [of "li_rpc inp" _ _ "[]"] by (simp add: read_token_balances_def)
  with bals read s sync_books_mirrors(2) [of "[''USDT'', ''USDC'']" "lp_cfg lp" price "li_clock inp" bals a True a']
  show ?thesis by (simp add: cash_tokens_def FromChain)
qed

text \<open>
  C1. A crash after a broadcast is recovered from the chain. Cut an iteration of the live loop at any point after a
  broadcast and before its closing snapshot (or let it fail there) and restart it from the disk. Then, over any
  number of iterations that hold or fail and of further restarts, the intent stays pending, no receipt is written,
  nothing is broadcast and the books stay those that were staged, until an iteration recovers; that iteration
  does not decide either. It clears the intent in a snapshot whose positions and cash are the balances that it
  has just read: whatever of the trade the chain shows is in the books before the next decision.
  A loop with no chain to read (live orders through the shell, and no wallet address) clears the intent too, but its
  books stay the staged ones, from before the trade: there the fill of the crashed iteration is forgotten.
\<close>

theorem crash_is_recovered:
  assumes "live_iteration lp inp r = (r', e)" "x_mode (lp_executor lp) = Live"
    and "lr_trace r' = lr_trace r @ p @ q" "\<exists>b. Did (Sent b) \<in> set p" "q \<noteq> [] \<or> (\<exists>err. e = Failed err)"
    and "lr_state s = restart_state (lp_setup lp) (lr_trace r @ p)" "lr_trace s = lr_trace r @ p"
    and "resumed lp s r1" "live_iteration lp inp' r1 = (r2, e')"
    and "\<And>bals. li_subaccount inp' (read_symbols (lp_cfg lp)) = Inr bals \<Longrightarrow> distinct (map fst bals)"
  shows "st_pending_intent (ls_agent (lr_state r1)) \<noteq> None \<and>
    map_of (st_positions (ls_agent (lr_state r1))) = map_of (st_positions (ls_agent (lr_state s))) \<and>
    lr_world r1 = lr_world s \<and> lr_world r2 = lr_world s \<and>
    (\<exists>evs. lr_trace r2 = lr_trace s @ evs \<and> (\<forall>ev \<in> set evs. \<not> is_sent ev)) \<and>
    (case e' of
       Ticked res \<Rightarrow> False
     | Recovered \<Rightarrow>
         st_pending_intent (ls_agent (lr_state r2)) = None \<and> lr_trace r2 = lr_trace r1 @ [Wrote (lr_state r2)] \<and>
         (\<exists>views ts. li_market inp' = Inr (views, ts) \<and>
           (case read_answer lp inp' r1 of
              Some answer \<Rightarrow> \<exists>bals. answer = Inr bals \<and>
                mirrors_chain (cash_tokens lp) (price_table views) (li_clock inp') (st_positions (ls_agent (lr_state s))) bals
                  (ls_agent (lr_state r2))
            | None \<Rightarrow> ledger_source (lp_setup lp) = FromLedger \<and>
                map_of (st_positions (ls_agent (lr_state r2))) = map_of (st_positions (ls_agent (lr_state s))) \<and>
                (get_or (st_stable_usd (ls_agent (lr_state s))) 0 \<noteq> 0 \<or> st_positions (ls_agent (lr_state s)) \<noteq> [] \<longrightarrow>
                 get_or (st_stable_usd (ls_agent (lr_state r2))) 0 = get_or (st_stable_usd (ls_agent (lr_state s))) 0)))
     | _ \<Rightarrow> lr_state r2 = lr_state r1)"
proof -
  obtain st where st: "last_snapshot p = Some st" "st_pending_intent (ls_agent st) \<noteq> None"
    using restarted_after_broadcast [OF assms(1-5)] by blast
  then have snap: "last_snapshot (lr_trace s) = Some st" by (simp add: assms(7))
  have "same_books (lr_state s) st" using same_books_restart [OF snap, of "lp_setup lp" st] assms(6,7) by simp
  then have same: "same_books st (lr_state s)" and pending: "st_pending_intent (ls_agent (lr_state s)) \<noteq> None"
    using st(2) by (auto simp: same_books_def)
  obtain evs where r1: "same_books (lr_state r1) (lr_state s)" "lr_world r1 = lr_world s"
    "lr_trace r1 = lr_trace s @ evs" "\<forall>ev \<in> set evs. \<not> is_sent ev"
    using resumed_books [OF assms(8) pending snap same] by blast
  then have p1: "st_pending_intent (ls_agent (lr_state r1)) \<noteq> None" using pending by (simp add: same_books_def)
  note next_one = pending_iteration [OF assms(9) p1]
  have quiet: "\<exists>evs. lr_trace r2 = lr_trace s @ evs \<and> (\<forall>ev \<in> set evs. \<not> is_sent ev)"
    using next_one r1(3,4) by auto
  have books: "\<exists>views ts. li_market inp' = Inr (views, ts) \<and>
     (case read_answer lp inp' r1 of
        Some answer \<Rightarrow> \<exists>bals. answer = Inr bals \<and>
          mirrors_chain (cash_tokens lp) (price_table views) (li_clock inp') (st_positions (ls_agent (lr_state s))) bals
            (ls_agent (lr_state r2))
      | None \<Rightarrow> ledger_source (lp_setup lp) = FromLedger \<and>
          map_of (st_positions (ls_agent (lr_state r2))) = map_of (st_positions (ls_agent (lr_state s))) \<and>
          (get_or (st_stable_usd (ls_agent (lr_state s))) 0 \<noteq> 0 \<or> st_positions (ls_agent (lr_state s)) \<noteq> [] \<longrightarrow>
           get_or (st_stable_usd (ls_agent (lr_state r2))) 0 = get_or (st_stable_usd (ls_agent (lr_state s))) 0))"
    if "e' = Recovered"
    using assms(9)
  proof (cases rule: live_iteration_cases)
    case (Pending views ts pool a1)
    have a: "st_positions (ls_agent (lr_state r2)) = st_positions a1" "st_stable_usd (ls_agent (lr_state r2)) = st_stable_usd a1"
      using Pending(5) by (simp_all add: ps_write_def)
    have books: "map_of (st_positions (ls_agent (lr_state r1))) = map_of (st_positions (ls_agent (lr_state s)))"
      "get_or (st_stable_usd (ls_agent (lr_state r1))) 0 = get_or (st_stable_usd (ls_agent (lr_state s))) 0"
      using r1(1) by (simp_all add: same_books_def)
    then have "st_positions (ls_agent (lr_state r1)) = [] \<longleftrightarrow> st_positions (ls_agent (lr_state s)) = []"
      by (metis map_of_eq_empty_iff)
    moreover have "mirrors_chain stables price clock old bals (ls_agent (lr_state r2)) = mirrors_chain stables price clock old bals a1"
      for stables price clock old bals by (simp add: mirrors_chain_def a)
    moreover note mirrors_chain_cong [OF books(1), of "cash_tokens lp" "price_table views" "li_clock inp'"]
    ultimately show ?thesis
      using reconciled_books [OF Pending(2) assms(10)] Pending(1) a books by (simp split: option.splits)
  qed (use that in \<open>auto split: sum.splits prod.splits\<close>)
  show ?thesis
    using next_one p1 quiet books r1(1,2) by (cases e') (auto simp: same_books_def)
qed

text \<open>A wallet on the chain: the amounts that the token contracts report.\<close>

definition ex_wallet :: "(string \<times> int) list \<Rightarrow> rpc_pool rpc_fun" where
  "ex_wallet amounts m ps pool = (pool, Inr (JObj [(''result'', JInt
     (case ps of JObj ((_, JStr addr) # _) # _ \<Rightarrow> get_or (map_of amounts addr) 0 | _ \<Rightarrow> 0))]))"

definition ex_before :: live_input where
  "ex_before = ex_input\<lparr>li_rpc := ex_wallet [(''0x55d398326f99059fF775485246999027B3197955'', 10 ^ 21)]\<rparr>"

definition ex_after :: live_input where
  "ex_after = ex_input\<lparr>li_rpc := ex_wallet [(''0x55d398326f99059fF775485246999027B3197955'', 980 * 10 ^ 18),
     (''0x2170Ed0880ac9A755fd29B2688956BD959F933F8'', 10 ^ 16)]\<rparr>"

lemma ex_wallet_step:
  "map_of BSC_TOKENS (upper symb) = Some (addr, n) \<Longrightarrow>
    read_balances (ex_wallet am) wallet (symb # symbs) out pool =
    read_balances (ex_wallet am) wallet symbs (AList.update (upper symb) (of_int (get_or (map_of am addr) 0) / 10 ^ n) out) pool"
  by (simp add: ex_wallet_def balance_query_def onchain_int_def rpc_result_def to_int_def)

lemma ex_wallet_read:
  "read_answer ex_chain_params (inp\<lparr>li_rpc := ex_wallet am\<rparr>) r =
     Some (Inr (map (\<lambda>(k, addr). (k, of_int (get_or (map_of am addr) 0) / 10 ^ 18))
       [(''WBNB'', ''0xbb4CdB9CBd36B01bD1cBaEBF2De08d9173bc095c''), (''BTCB'', ''0x7130d2A12B9BCbFAe4f2634d864A1Ee1Ce3Ead9c''),
        (''ETH'', ''0x2170Ed0880ac9A755fd29B2688956BD959F933F8''), (''CAKE'', ''0x0E09FaBB73Bd3Ade0a17ECC321fD13a19e81cE82''),
        (''USDT'', ''0x55d398326f99059fF775485246999027B3197955''), (''USDC'', ''0x8AC76a51cc950d9822D68b83fE1Ad97B32Cd580d'')]))"
proof -
  have src: "ledger_source (lp_setup ex_chain_params) = FromChain" by code_simp
  have read: "read_symbols (lp_cfg ex_chain_params) = [''WBNB'', ''BTCB'', ''ETH'', ''CAKE'', ''USDT'', ''USDC'']" by code_simp
  have up: "upper ''WBNB'' = ''WBNB''" "upper ''BTCB'' = ''BTCB''" "upper ''ETH'' = ''ETH''" "upper ''CAKE'' = ''CAKE''"
    "upper ''USDT'' = ''USDT''" "upper ''USDC'' = ''USDC''" by code_simp+
  note step = ex_wallet_step [of "''WBNB''"] ex_wallet_step [of "''BTCB''"] ex_wallet_step [of "''ETH''"]
    ex_wallet_step [of "''CAKE''"] ex_wallet_step [of "''USDT''"] ex_wallet_step [of "''USDC''"]
  have known: "map_of BSC_TOKENS ''WBNB'' = Some (''0xbb4CdB9CBd36B01bD1cBaEBF2De08d9173bc095c'', 18)"
    "map_of BSC_TOKENS ''BTCB'' = Some (''0x7130d2A12B9BCbFAe4f2634d864A1Ee1Ce3Ead9c'', 18)"
    "map_of BSC_TOKENS ''ETH'' = Some (''0x2170Ed0880ac9A755fd29B2688956BD959F933F8'', 18)"
    "map_of BSC_TOKENS ''CAKE'' = Some (''0x0E09FaBB73Bd3Ade0a17ECC321fD13a19e81cE82'', 18)"
    "map_of BSC_TOKENS ''USDT'' = Some (''0x55d398326f99059fF775485246999027B3197955'', 18)"
    "map_of BSC_TOKENS ''USDC'' = Some (''0x8AC76a51cc950d9822D68b83fE1Ad97B32Cd580d'', 18)" by code_simp+
  show ?thesis
    by (simp add: read_answer_def src read read_token_balances_def step [unfolded up] known del: read_balances.simps(2))
qed

lemma ex_chain_reconciles:
  fixes r :: live_run
  obtains pool where "reconcile_books ex_chain_params ex_before (price_table ex_views) (lr_pool r) ex_state = (pool, True, ex_state)"
proof -
  have src: "ledger_source (lp_setup ex_chain_params) = FromChain" by code_simp
  have st: "map upper (get_or (quote_tokens (lp_cfg ex_chain_params)) [''USDT'', ''USDC'']) = [''USDT'', ''USDC'']" by code_simp
  obtain pool answer where rd: "read_token_balances (li_rpc ex_before) (lu_wallet (lp_setup ex_chain_params))
      (read_symbols (lp_cfg ex_chain_params)) (lr_pool r) = (pool, answer)" by fastforce
  have "read_answer ex_chain_params ex_before r = Some answer" using src rd by (simp add: read_answer_def)
  then have a: "answer = Inr [(''WBNB'', 0), (''BTCB'', 0), (''ETH'', 0), (''CAKE'', 0), (''USDT'', 1000), (''USDC'', 0)]"
    using ex_wallet_read [of _ ex_input r] by (simp add: ex_before_def)
  have "price_or 1 (price_table ex_views) ''USDT'' = 1" by code_simp
  then have "sync_books [''USDT'', ''USDC''] (lp_cfg ex_chain_params) (price_table ex_views) (li_clock ex_before) answer ex_state
      = (True, ex_state)"
    by (simp add: sync_books_def st a anchored_def anchor_step_def stable_total_def DUST_USD_def ex_state_def)
  with rd have "reconcile_books ex_chain_params ex_before (price_table ex_views) (lr_pool r) ex_state = (pool, True, ex_state)"
    by (simp add: reconcile_books_def src sync_state_from_chain_def)
  then show thesis by (rule that)
qed

theorem crash_is_recovered_witness:
  "\<exists>p s r1 r2 x. (\<exists>b. Did (Sent b) \<in> set p) \<and> lr_state s = restart_state (lp_setup ex_chain_params) p \<and>
     live_iteration ex_chain_params ex_input s = (r1, HeldUnread) \<and>
     live_iteration ex_chain_params ex_after r1 = (r2, Recovered) \<and>
     map_of (st_positions (ls_agent (lr_state r2))) ''ETH'' = Some x \<and> bp_qty x = 1 / 100 \<and>
     st_stable_usd (ls_agent (lr_state r2)) = Some 980"
proof -
  obtain r' e where it: "live_iteration ex_chain_params ex_before ex_run = (r', e)" by fastforce
  let ?a = "snd (mark_nav ex_state (price_table ex_views))" and ?env = "live_env ex_chain_params ex_before"
  have same_env: "?env = live_env ex_params ex_input"
    by (simp add: live_env_def ex_chain_params_def ex_before_def)
  have env: "te_executor ?env = Some ex_live" "x_mode ex_live = Live" "te_persist ?env" "tick_time ?env None = 1060"
    by (simp_all add: same_env) (simp_all add: live_env_def ex_params_def ex_live_def tick_time_def ex_input_def)
  obtain i d v where dec: "tick_decide ?env bnb_config ?a ex_views 1000 1060 = Inr (i, d, v)" "allowed v" "is_trade d"
    using ex_live_decides same_env by (auto split: sum.splits)
  obtain pool where rec: "reconcile_books ex_chain_params ex_before (price_table ex_views) (lr_pool ex_run) ex_state
      = (pool, True, ex_state)" using ex_chain_reconciles [of ex_run] by blast
  let ?lift = "lift_event \<lparr>ls_agent = ?a, ls_mode = ''live'', ls_last_tick_ts = 0\<rparr>"
  obtain w :: world and st cmd tail where
      "w_trace w = [Receipted (rc_hash (last (w_receipts w))), Persisted st, Sent (ShellSwap cmd)]"
      "lr_trace r' = map ?lift (w_trace w) @ tail" "tail \<noteq> [] \<or> (\<exists>err. e = Failed err)"
    using it
  proof (cases rule: live_iteration_cases)
    case (Tick views ts pool1 a1 w x)
    have same: "views = ex_views" "ts = 1000" "a1 = ex_state"
      using Tick(1,2) rec by (simp_all add: ex_before_def ex_input_def ex_run_def)
    have t: "tick ?env bnb_config ?a ex_views 1000 None empty_world = (w, x)"
      using Tick(4) same by (simp add: ex_chain_params_def ex_params_def ex_run_def)
    obtain st cid sent ans where "execute (x_backend ex_live) Live (x_slippage_bps ex_live) d (v_final_amount_usd v) cid = (sent, ans)"
      "w_trace w = [Receipted (rc_hash (last (w_receipts w))), Persisted st] @ map Sent sent"
      using tick_live_trace [OF t env(1-3)] dec env(4) by (auto simp: empty_world_def)
    moreover from this obtain cmd where "sent = [ShellSwap cmd]"
      using ex_live_sends [of _ sent ans] by (auto simp: execute_def Let_def)
    ultimately show ?thesis
      using that [of w st cmd] Tick(6) same by (auto simp: ex_run_def empty_world_def split: sum.splits)
  qed (use rec in \<open>auto simp: ex_before_def ex_input_def ex_run_def ex_state_def\<close>)
  note tr = this
  define p where "p = map ?lift (w_trace w)"
  define s where "s = ex_run\<lparr>lr_state := restart_state (lp_setup ex_chain_params) (lr_trace ex_run @ p), lr_trace := lr_trace ex_run @ p\<rparr>"
  have crash: "lr_trace r' = lr_trace ex_run @ p @ tail" "\<exists>b. Did (Sent b) \<in> set p"
    "x_mode (lp_executor ex_chain_params) = Live"
    "lr_state s = restart_state (lp_setup ex_chain_params) (lr_trace ex_run @ p)" "lr_trace s = lr_trace ex_run @ p"
    using tr(1,2) by (auto simp: p_def ex_run_def s_def ex_chain_params_def ex_params_def ex_live_def)
  obtain r1 e1 where h: "live_iteration ex_chain_params ex_input s = (r1, e1)" by fastforce
  obtain r2 e2 where n: "live_iteration ex_chain_params ex_after r1 = (r2, e2)" by fastforce
  have src: "ledger_source (lp_setup ex_chain_params) = FromChain" by code_simp
  have read: "read_symbols (lp_cfg ex_chain_params) = [''WBNB'', ''BTCB'', ''ETH'', ''CAKE'', ''USDT'', ''USDC'']" by code_simp
  have "map_of BSC_TOKENS (upper ''WBNB'') \<noteq> None" by code_simp
  then have dead: "read_answer ex_chain_params ex_input s = Some (Inl (RuntimeError ''down''))"
    by (auto simp: read_answer_def src read read_token_balances_def ex_input_def)
  have held: "e1 = HeldUnread"
    using h
  proof (cases rule: live_iteration_cases)
    case (Pending views ts pool1 a1)
    then show ?thesis using reconcile_books_frame(3) [OF Pending(2)] dead by simp
  next
    case (Tick views ts pool1 a1 w1 x)
    then show ?thesis using reconcile_books_frame(3) [OF Tick(2)] dead by simp
  qed (simp_all add: ex_input_def)
  have "resumed ex_chain_params s r1" using resumed.iterate [OF resumed.here h] held by blast
  note main = crash_is_recovered [OF it crash(3,1,2) tr(3) crash(4,5) this n]
  have dict: "li_subaccount ex_after = (\<lambda>_. Inr [])" by (simp add: ex_after_def ex_input_def)
  have answer: "read_answer ex_chain_params ex_after r1 = Some (Inr [(''WBNB'', 0), (''BTCB'', 0), (''ETH'', 1 / 100),
      (''CAKE'', 0), (''USDT'', 980), (''USDC'', 0)])"
    using ex_wallet_read [of _ ex_input r1] by (simp add: ex_after_def)
  have "e2 = Recovered"
    using n
  proof (cases rule: live_iteration_cases)
    case (Unread views ts pool1 a1)
    then show ?thesis using reconcile_books_frame(3) [OF Unread(2)] answer by simp
  next
    case (Tick views ts pool1 a1 w1 x)
    then show ?thesis using main dict reconcile_books_frame(1) [OF Tick(2)] by simp
  qed (simp_all add: ex_after_def ex_input_def)
  have cash: "cash_tokens ex_chain_params = [''USDT'', ''USDC'']" by code_simp
  have price: "price_or 0 (price_table ex_views) ''ETH'' = 2000" "price_or 1 (price_table ex_views) ''USDT'' = 1" by code_simp+
  have m: "li_market ex_after = Inr (ex_views, 1000)" by (simp add: ex_after_def ex_input_def)
  have "map_of (st_positions (ls_agent (lr_state r2))) ''ETH'' \<noteq> None \<and>
      bp_qty (the (map_of (st_positions (ls_agent (lr_state r2))) ''ETH'')) = 1 / 100 \<and>
      st_stable_usd (ls_agent (lr_state r2)) = Some 980"
    using main dict answer \<open>e2 = Recovered\<close> m
    by (auto simp: mirrors_chain_def chain_book_def cash price DUST_USD_def split: option.split)
  then obtain x where "map_of (st_positions (ls_agent (lr_state r2))) ''ETH'' = Some x" "bp_qty x = 1 / 100"
    "st_stable_usd (ls_agent (lr_state r2)) = Some 980" by auto
  moreover have "lr_state s = restart_state (lp_setup ex_chain_params) p" using crash(4) by (simp add: ex_run_def)
  ultimately show ?thesis using crash(2) h n held \<open>e2 = Recovered\<close> by blast
qed

end
