(* ===== verification/Spec2Isabelle.thy ===== *)
theory Spec2Isabelle
  imports Reconcile Csv BtReport Chat Prompt RealData Trail InjDemo Web LiveRun Http Races Layout Recovery
begin

text \<open>
  Sumplus Trader: an unattended trading agent that commits the hash of its policy on a chain, decides once per tick,
  checks every decision with a deterministic policy engine, writes a hash-chained receipt, and only then executes; a
  public verifier recomputes everything from the logs. This library models the Python program and proves what makes its
  parts correct. Its root only imports the theories; each theory opens with what it holds.

  \<^bold>\<open>The decision pipeline.\<close> \<open>Signals\<close> (\<open>agent/strategy/signals.py\<close>) and
  \<open>Survival\<close> (\<open>strategy/survival.py\<close>) turn market views into an intent; \<open>Engine\<close>
  (\<open>policy/engine.py\<close>) allows, clamps or rejects it; \<open>Receipts\<close>
  (\<open>policy/receipt.py\<close>) and \<open>Canonical\<close> (\<open>policy/canonical.py\<close>) chain and hash
  the outcome; \<open>Abstention\<close> (\<open>abstention/ledger.py\<close>) books restraint; \<open>Execution\<close>
  (\<open>execution/*.py\<close>), \<open>InjMarket\<close> and \<open>InjBackend\<close>
  (\<open>ops/injective_market.py\<close>, \<open>execution/injective_backend.py\<close>) price and guard the order,
  \<open>InjSend\<close> builds its transaction and reads the outcome; \<open>Execlog\<close>
  (\<open>policy/execlog.py\<close> and \<open>verify_live\<close> of \<open>policy/commit.py\<close>) binds it to its
  receipt. \<open>Core\<close> (\<open>agent/core.py\<close>) composes them into \<open>tick\<close>, whose effects are
  an explicit world: the files and the trace of receipts, snapshots and broadcasts in their order.

  \<^bold>\<open>The log files.\<close> \<open>Json_Text\<close> is the JSON text of \<open>json.dumps\<close> (compact,
  spaced and indented) with a parser and the round trips; \<open>Jsonl\<close> models the receipts, the abstentions and
  the executions as files of such lines, every operation with its exception on a broken line, and proves that they
  implement the record lists used elsewhere; \<open>Layout\<close> tells which configuration files have the same
  committed hash. \<open>Races\<close> splits the operations on the receipts, the abstentions
  and the supervision state (\<open>runtime.py\<close>) into a read and a later write, and lets other processes come
  between: without interference the processes do the operations in turn, and the verifier tells exactly whether the
  writers of receipts interfered.

  \<^bold>\<open>The live loop.\<close> \<open>RunLive\<close> (\<open>agent/run_live.py\<close>) reconciles with the
  chain, recovers a pending intent or ticks, and snapshots; its history is the trace of snapshots and events, a crash is
  a prefix of it and a restart begins from its last snapshot. It stands on \<open>RpcPool\<close>, \<open>Nonce\<close>,
  \<open>Onchain\<close>, \<open>Reconcile\<close>, \<open>Watchdog\<close> and \<open>OpsState\<close>
  (\<open>agent/ops\<close>); \<open>OpsState\<close> has the micro-steps and faults of the atomic file save.
  \<open>LiveRun\<close> is the loop with its set-up under the supervisor: the rounds that \<open>Watchdog\<close>
  observes are computed from the files that the round before left. \<open>Recovery\<close> is what a crash leaves on
  the disk, what a restart reads there, and how the loop goes on with a pending intent. \<open>Http\<close> has the HTTP transport of the
  pool and the client of the hosted swap service (\<open>execution/maria_client.py\<close>).

  \<^bold>\<open>The older loop and its surface.\<close> \<open>Guardrail\<close> (\<open>guardrail/policy.py\<close>,
  \<open>demo/guardrail_demo.py\<close>), \<open>Runtime\<close> (\<open>runtime.py\<close>, \<open>ledger.py\<close>,
  \<open>portfolio.py\<close>), \<open>Brain\<close> (\<open>agent/brain\<close>, \<open>data/price_feed.py\<close>),
  \<open>Prompt\<close> (\<open>brain/prompt.py\<close> and the request to the language model), \<open>Loop\<close>,
  \<open>Chat\<close> with its terminal, and \<open>Trail\<close> (\<open>scripts/run_live_trail.py\<close>).

  \<^bold>\<open>Backtests.\<close> \<open>BtData\<close>, \<open>Csv\<close>, \<open>BtPortfolio\<close>,
  \<open>Metrics\<close>, \<open>Champion\<close>, \<open>BtRun\<close>, \<open>BtReport\<close> (its printed tables,
  verdict and results file) (\<open>backtest/*.py\<close>), \<open>RealData\<close> (\<open>real_data*.py\<close>),
  \<open>Cmc\<close> and \<open>Simulate\<close> (\<open>data/cmc.py\<close>, \<open>agent/simulate.py\<close>: the live
  pipeline over a synthetic week).

  \<^bold>\<open>Publishing and showing.\<close> \<open>Identity\<close> (\<open>identity/commit_publish.py\<close>,
  \<open>build_commitment\<close>), \<open>Strategy_Spec\<close> (the skill's \<open>generate_spec.py\<close>),
  \<open>InjDemo\<close> (\<open>tools/inj_demo_run.py\<close>), \<open>Web\<close> (the endpoints of
  \<open>agent/web.py\<close>), \<open>Wallet\<close> (\<open>wallet.py\<close>,
  \<open>identity/register_8004.py\<close>) and \<open>Cli\<close> (\<open>agent/cli.py\<close>: what each command runs,
  and with which backend).

  \<^bold>\<open>Interfaces.\<close> A \<open>locale\<close> states each contract that several parts share:
  \<open>risk_gate\<close> (\<open>Gate\<close>), interpreted by the engine and the guardrail; \<open>append_log\<close>
  (\<open>Audit_Log\<close>), by the receipt chain and the abstention ledger; \<open>jsonl_log\<close>
  (\<open>Jsonl\<close>), by the three log files; \<open>exec_backend\<close> (\<open>Execution\<close>), by the mock,
  Trust Wallet and Injective backends; \<open>rpc_provider\<close> (\<open>RpcPool\<close>), by the pool;
  \<open>bt_strategy\<close> (\<open>BtRun\<close>), by the champion, the baseline and the live parameters of
  \<open>RealData\<close>; \<open>cell\<close> (\<open>Runtime\<close>), by the supervision state; and
  \<open>read_then_write\<close> (\<open>Races\<close>), by the receipts, the supervision state and the abstentions.
  Their lemmas are proved once inside the locale and reached through the interpretations.

  \<^bold>\<open>What the lemmas show.\<close> Safety of the live path: no broadcast without an allowed receipt and a
  staged snapshot, no decision over an open order in any supervised history, after a crash no decision before the books
  are set to the balances of the chain, no trade on unreadable balances, no nonce twice. Integrity of the record: the log files hold exactly the records appended, a torn
  line halts the chain, tampering with receipts is detected or exhibits a digest collision, the verifier accepts exactly
  the logs whose orders are bound to allowed receipts, equal policy hashes mean equal rules. Risk: the engine refines a
  declarative policy, keeps the exposure cap and the drawdown ladder; the strategy enters only under the committed
  conditions. Bookkeeping: fills conserve value up to dust, reconciliation equals the chain. Totality: backtest,
  simulation and supervision return. Findings are stated as theorems where the code permits what it means to forbid (a
  cap of zero lifts the cap, the hourly cap of the live loop never binds, the command called offline can trade, a pause
  is overlooked by a loop that reads its file in the middle of a save, a refused save leaves its values in the
  object, a loop without a wallet address forgets the trade that a crash interrupted).

  \<^bold>\<open>Conventions.\<close> A \<open>float\<close> and a \<open>Decimal\<close> are exact reals, without NaN,
  infinity or rounding errors (\<open>round\<close> and the number formats are modelled). A \<open>str\<close> is a list
  of 8-bit characters, with the ASCII case and word classes; the dash of messages is written as a hyphen. An ordered
  \<open>dict\<close> is an association list under \<open>AList.update\<close>. A Python exception is the left of a sum;
  its text is abbreviated where nothing reads it. A configuration field read with \<open>.get\<close> is an option, one
  read with brackets is plain. SHA-256 is an arbitrary function. A JSONL file is the list of its records outside
  \<open>Jsonl\<close>, which relates the two. The shell, HTTP services, the language model, the order book, the chain
  clients, the clocks and the random draws are arguments; environment variables are record fields.

  \<^bold>\<open>Bounds.\<close> No fuel is used: loops over inputs are recursions over the list of their inputs, the
  watchdog recurses over rounds, and the one loop that may run for ever (the fetch of \<open>RealData\<close>) is a
  \<open>partial_function\<close> with a theorem that says when it returns.

  \<^bold>\<open>Not modelled.\<close> The dashboard's page (one text of HTML, CSS and JavaScript, two thirds of
  \<open>web.py\<close>) and the web server, which have no Python logic; banners and progress prints;
  \<open>argparse\<close> in the scripts; key generation (\<open>wallet.generate\<close>), which only calls a library's
  random source; reading ABI files for web3; the rows of the market smoke print;
  tests. Signing, broadcasting and waiting for a transaction are the chain client's work and arguments. NaN, infinities
  and rounding of floats are not represented. Processes interleave in \<open>Races\<close> only; elsewhere one process
  owns its files.
\<close>

end
